(* ===== verification/Prelude.thy ===== *)
theory Prelude
  imports Complex_Main "HOL-Library.AList"
begin

text \<open>
  Shared vocabulary of the development.

  Python values: \<open>Decimal\<close> is an exact rational (\<open>decimal\<close>), with \<open>quantize(Decimal("1e-8"))\<close>
  written out as round-half-even; the 28-digit context rounding of inexact \<open>Decimal\<close> divisions
  is not modelled. Strings are \<open>string\<close>, UUIDs are \<open>string\<close>s, a \<open>dict\<close> whose order can matter
  is an association list updated with \<open>AList.update\<close> (in place when the key exists, appended
  otherwise, as CPython does), a \<open>dict\<close> that is only looked up is a map.

  Exceptions: \<open>exn\<close>, with results \<open>exn + 'a\<close>; stateful code is \<open>('a, 's) act\<close>, a function
  from a state to a result and the state it leaves behind, also when it raises.

  The locales state the three contracts that the components' runs share: a step keeps an
  invariant, a step never lowers a measure, a terminal state is absorbing.
\<close>

section \<open>Values\<close>

type_synonym decimal = rat
type_synonym uuid = string

datatype side = Buy | Sell

named_theorems run_simps \<open>equations that unfold the monadic plumbing\<close>

definition round_half_even :: "decimal \<Rightarrow> int" where
  "round_half_even x =
     (let f = \<lfloor>x\<rfloor>; d = x - of_int f in
      if d < 1 / 2 then f else if 1 / 2 < d then f + 1 else if even f then f else f + 1)"

text \<open>\<open>x.quantize(Decimal("1e-8"))\<close> under the default rounding mode.\<close>

definition quantize8 :: "decimal \<Rightarrow> decimal" where
  "quantize8 x = of_int (round_half_even (x * 100000000)) / 100000000"

lemma round_half_even_of_int [simp]: "round_half_even (of_int i) = i"
  by (simp add: round_half_even_def)

lemma round_half_even_dist: "\<bar>of_int (round_half_even x) - x\<bar> \<le> 1 / 2"
proof -
  have "of_int \<lfloor>x\<rfloor> \<le> x" "x < of_int \<lfloor>x\<rfloor> + 1" by linarith+
  then show ?thesis by (auto simp: round_half_even_def Let_def abs_le_iff)
qed

lemma quantize8_dist: "\<bar>quantize8 x - x\<bar> \<le> 1 / 200000000"
  using round_half_even_dist [of "x * 100000000"]
  by (simp add: quantize8_def abs_le_iff field_simps)

lemma quantize8_idem [simp]: "quantize8 (quantize8 x) = quantize8 x"
  by (simp add: quantize8_def)

lemma round_half_even_nonneg: "0 \<le> x \<Longrightarrow> 0 \<le> round_half_even x"
  by (simp add: round_half_even_def Let_def)

lemma quantize8_nonneg: "0 \<le> x \<Longrightarrow> 0 \<le> quantize8 x"
  by (simp add: quantize8_def round_half_even_nonneg)

lemma quantize8_zero [simp]: "quantize8 0 = 0"
  by (simp add: quantize8_def round_half_even_def)

lemma quantize8_numeral [simp]: "quantize8 (numeral n) = numeral n"
  using round_half_even_of_int [of "numeral n * 100000000"] by (simp add: quantize8_def)

lemma quantize8_minus [simp]: "quantize8 (- numeral n) = - numeral n"
  using round_half_even_of_int [of "- numeral n * 100000000"] by (simp add: quantize8_def)

section \<open>Exceptions and actions\<close>

text \<open>
  \<open>TimeoutError\<close> and \<open>ConnectionError\<close> are subclasses of \<open>OSError\<close> in Python;
  redis-py's \<open>RedisError\<close> is not. \<open>HttpError\<close> stands for \<open>PreviewUnavailable\<close> and
  \<open>CancelUnavailable\<close>: the status code and the error code of the payload.
\<close>

datatype exn =
    AttributeError | TimeoutError | ConnectionError | OSError | RedisError
  | RpcUnimplemented | RpcError | DatabaseError | MultipleResultsFound
  | ValueError string | TypeError | KeyError | IndexError | InvalidOperation
  | ZeroDivisionError | NotImplementedError | RuntimeError string | CancelledError
  | SidecarTimeout | SidecarUnavailable | HttpError nat string | PredicateValidationError
  | BotRiskCapError string | BotAccountError | BotModeMismatchError | BotOrderBlocked | BotConidUnresolvedError | SupervisorRestartError
  | ComboValidationError string | StopIteration | RpcAbort string

fun is_OSError :: "exn \<Rightarrow> bool" where
  "is_OSError TimeoutError = True"
| "is_OSError ConnectionError = True"
| "is_OSError OSError = True"
| "is_OSError _ = False"

fun rbind :: "'e + 'a \<Rightarrow> ('a \<Rightarrow> 'e + 'b) \<Rightarrow> 'e + 'b" where
  "rbind (Inl e) f = Inl e"
| "rbind (Inr x) f = f x"

declare rbind.simps [run_simps]

lemma rbind_Inr_iff: "rbind m f = Inr y \<longleftrightarrow> (\<exists>x. m = Inr x \<and> f x = Inr y)"
  by (cases m) auto

lemma rbind_Inl_iff: "rbind m f = Inl e \<longleftrightarrow> m = Inl e \<or> (\<exists>x. m = Inr x \<and> f x = Inl e)"
  by (cases m) auto

type_synonym ('a, 's) act = "'s \<Rightarrow> (exn + 'a) \<times> 's"

definition aret :: "'a \<Rightarrow> ('a, 's) act" where
  "aret x = (\<lambda>s. (Inr x, s))"

definition abind :: "('a, 's) act \<Rightarrow> ('a \<Rightarrow> ('b, 's) act) \<Rightarrow> ('b, 's) act" where
  "abind m f = (\<lambda>s. case m s of (Inl e, s') \<Rightarrow> (Inl e, s') | (Inr x, s') \<Rightarrow> f x s')"

definition aseq :: "('a, 's) act \<Rightarrow> ('b, 's) act \<Rightarrow> ('b, 's) act" where
  "aseq m n = abind m (\<lambda>_. n)"

definition of_res :: "exn + 'a \<Rightarrow> ('a, 's) act" where
  "of_res r = (\<lambda>s. (r, s))"

declare aret_def [run_simps] of_res_def [run_simps] abind_def [run_simps] aseq_def [run_simps]

text \<open>Text that the code hands to \<open>Decimal()\<close>: what that constructor makes of it.\<close>

datatype dec_text = DEmpty | DBad | DNum decimal

fun to_decimal :: "dec_text \<Rightarrow> exn + decimal" where
  "to_decimal (DNum x) = Inr x"
| "to_decimal DEmpty = Inl InvalidOperation"
| "to_decimal DBad = Inl InvalidOperation"

text \<open>An action that keeps a predicate of the state, also when it raises.\<close>

definition preserves :: "('s \<Rightarrow> bool) \<Rightarrow> ('a, 's) act \<Rightarrow> bool" where
  "preserves P m \<longleftrightarrow> (\<forall>s. P s \<longrightarrow> P (snd (m s)))"

named_theorems preserves_intro \<open>rules that reduce \<open>preserves\<close> to the parts of an action\<close>

lemma preserves_aret [preserves_intro]: "preserves P (aret x)"
  by (simp add: preserves_def aret_def)

lemma preserves_of_res [preserves_intro]: "preserves P (of_res r)"
  by (simp add: preserves_def of_res_def)

lemma preserves_abind [preserves_intro]:
  "\<lbrakk>preserves P m; \<And>x. preserves P (f x)\<rbrakk> \<Longrightarrow> preserves P (abind m f)"
  unfolding preserves_def abind_def by (smt (verit) case_prod_beta snd_conv sum.case_eq_if)

lemma preserves_aseq [preserves_intro]:
  "\<lbrakk>preserves P m; preserves P n\<rbrakk> \<Longrightarrow> preserves P (aseq m n)"
  by (simp add: aseq_def preserves_abind)

lemma preservesD: "\<lbrakk>preserves P m; P s; m s = (r, s')\<rbrakk> \<Longrightarrow> P s'"
  by (metis preserves_def snd_conv)

text \<open>The two ways a sequence can end.\<close>

lemma abind_cases:
  assumes "abind m f s = (r, s')"
  obtains (raised) e where "m s = (Inl e, s')" and "r = Inl e"
    | (went_on) x t where "m s = (Inr x, t)" and "f x t = (r, s')"
  using assms by (auto simp: abind_def split: prod.splits sum.splits)

lemma abind_step: "m s = (Inr x, t) \<Longrightarrow> abind m f s = f x t"
  by (simp add: abind_def)

text \<open>An action that leaves an observation of the state alone, also when it raises.\<close>

definition keeps :: "('s \<Rightarrow> 'b) \<Rightarrow> ('a, 's) act \<Rightarrow> bool" where
  "keeps f m \<longleftrightarrow> (\<forall>s. f (snd (m s)) = f s)"

named_theorems keeps_intro \<open>rules that reduce \<open>keeps\<close> to the parts of an action\<close>

lemma keepsD: "\<lbrakk>keeps f m; m s = (r, s')\<rbrakk> \<Longrightarrow> f s' = f s"
  by (metis keeps_def snd_conv)

lemma keeps_aret [keeps_intro]: "keeps f (aret x)"
  by (simp add: keeps_def aret_def)

lemma keeps_of_res [keeps_intro]: "keeps f (of_res r)"
  by (simp add: keeps_def of_res_def)

lemma keeps_look [keeps_intro]: "keeps f (\<lambda>s. (g s, s))"
  by (simp add: keeps_def)

lemma keeps_abind [keeps_intro]:
  assumes "keeps f m" and "\<And>x. keeps f (k x)"
  shows "keeps f (abind m k)"
  unfolding keeps_def
proof
  fix s
  obtain r s' where e: "abind m k s = (r, s')" by fastforce
  then show "f (snd (abind m k s)) = f s"
  proof (cases rule: abind_cases)
    case (raised x)
    then show ?thesis using e keepsD [OF assms(1)] by simp
  next
    case (went_on x t)
    then show ?thesis using e keepsD [OF assms(1)] keepsD [OF assms(2)] by simp
  qed
qed

lemma keeps_aseq [keeps_intro]: "\<lbrakk>keeps f m; keeps f n\<rbrakk> \<Longrightarrow> keeps f (aseq m n)"
  by (simp add: aseq_def keeps_abind)

lemma keeps_if [keeps_intro]: "\<lbrakk>keeps f m; keeps f n\<rbrakk> \<Longrightarrow> keeps f (if b then m else n)"
  by simp

lemma keeps_option [keeps_intro]:
  "\<lbrakk>keeps f m; \<And>x. keeps f (n x)\<rbrakk> \<Longrightarrow> keeps f (case v of None \<Rightarrow> m | Some x \<Rightarrow> n x)"
  by (cases v) auto

lemma keeps_sum [keeps_intro]:
  "\<lbrakk>\<And>e. keeps f (m e); \<And>x. keeps f (n x)\<rbrakk> \<Longrightarrow> keeps f (case v of Inl e \<Rightarrow> m e | Inr x \<Rightarrow> n x)"
  by (cases v) auto

text \<open>\<open>scalar_one_or_none()\<close> of SQLAlchemy: more than one row is an error.\<close>

fun scalar_one_or_none :: "'a list \<Rightarrow> exn + 'a option" where
  "scalar_one_or_none [] = Inr None"
| "scalar_one_or_none [x] = Inr (Some x)"
| "scalar_one_or_none (_ # _ # _) = Inl MultipleResultsFound"

lemma scalar_one_or_none_Some: "scalar_one_or_none xs = Inr (Some x) \<longleftrightarrow> xs = [x]"
  by (cases xs rule: scalar_one_or_none.cases) auto

lemma scalar_one_or_none_None: "scalar_one_or_none xs = Inr None \<longleftrightarrow> xs = []"
  by (cases xs rule: scalar_one_or_none.cases) auto

section \<open>Runs\<close>

text \<open>
  A component driven by a sequence of events is a \<open>fold\<close> of its step function. The contracts
  below are discharged once per component; the facts about runs then come for free.
\<close>

locale invariant_machine =
  fixes step :: "'e \<Rightarrow> 's \<Rightarrow> 's"
    and inv :: "'s \<Rightarrow> bool"
  assumes step_inv: "inv s \<Longrightarrow> inv (step e s)"
begin

lemma run_inv: "inv s \<Longrightarrow> inv (fold step es s)"
  by (induction es arbitrary: s) (auto intro: step_inv)

end

locale monotone_machine = invariant_machine step inv
  for step :: "'e \<Rightarrow> 's \<Rightarrow> 's" and inv :: "'s \<Rightarrow> bool" +
  fixes level :: "'s \<Rightarrow> 'm :: preorder"
  assumes step_mono: "inv s \<Longrightarrow> level s \<le> level (step e s)"
begin

lemma run_mono: "inv s \<Longrightarrow> level s \<le> level (fold step es s)"
proof (induction es arbitrary: s)
  case Nil
  then show ?case by simp
next
  case (Cons e es)
  then have "level s \<le> level (step e s)" by (simp add: step_mono)
  also have "\<dots> \<le> level (fold step es (step e s))" using Cons by (simp add: step_inv)
  finally show ?case by simp
qed

lemma run_prefix_mono: "inv s \<Longrightarrow> level (fold step es s) \<le> level (fold step (es @ fs) s)"
  by (simp add: run_mono run_inv)

end

locale absorbing_machine = invariant_machine step inv
  for step :: "'e \<Rightarrow> 's \<Rightarrow> 's" and inv :: "'s \<Rightarrow> bool" +
  fixes terminal :: "'s \<Rightarrow> bool"
    and obs :: "'s \<Rightarrow> 'o"
  assumes terminal_obs: "\<lbrakk>inv s; terminal s\<rbrakk> \<Longrightarrow> obs (step e s) = obs s"
    and terminal_stays: "\<lbrakk>inv s; terminal s\<rbrakk> \<Longrightarrow> terminal (step e s)"
begin

lemma run_terminal:
  "\<lbrakk>inv s; terminal s\<rbrakk> \<Longrightarrow> obs (fold step es s) = obs s \<and> terminal (fold step es s)"
  by (induction es arbitrary: s) (auto simp: terminal_obs terminal_stays step_inv)

end

section \<open>Association lists and lists\<close>

lemma map_of_AList_update [simp]: "map_of (AList.update k v al) = (map_of al)(k \<mapsto> v)"
  by (rule update_conv')

lemma map_of_AList_delete [simp]: "map_of (AList.delete k al) = (map_of al)(k := None)"
  by (rule delete_conv')

lemma length_AList_update:
  "length (AList.update k v al) = (if k \<in> fst ` set al then length al else Suc (length al))"
  by (induction al) auto

lemma length_AList_delete_le: "length (AList.delete k al) \<le> length al"
  by (simp add: AList.delete_eq)

lemma sum_list_map_remove1:
  "x \<in> set xs \<Longrightarrow> sum_list (map f (remove1 x xs)) = sum_list (map f xs) - (f x :: 'a :: ab_group_add)"
  by (induction xs) (auto simp: algebra_simps)

lemma find_Some_iff':
  "List.find P xs = Some x \<Longrightarrow> x \<in> set xs \<and> P x"
  by (induction xs) (auto split: if_splits)

section \<open>Strings\<close>

text \<open>\<open>str.split(c)\<close>, \<open>str.strip()\<close>, \<open>str.upper()\<close>, \<open>str.lower()\<close> on ASCII text.\<close>

fun split_on :: "char \<Rightarrow> string \<Rightarrow> string list" where
  "split_on c [] = [[]]"
| "split_on c (x # xs) =
     (if x = c then [] # split_on c xs
      else (case split_on c xs of [] \<Rightarrow> [[x]] | y # ys \<Rightarrow> (x # y) # ys))"

definition strip :: "string \<Rightarrow> string" where
  "strip s = rev (dropWhile (\<lambda>c. c = CHR '' '') (rev (dropWhile (\<lambda>c. c = CHR '' '') s)))"

definition upper_char :: "char \<Rightarrow> char" where
  "upper_char c = (let n = (of_char c :: nat) in if 97 \<le> n \<and> n \<le> 122 then char_of (n - 32) else c)"

definition lower_char :: "char \<Rightarrow> char" where
  "lower_char c = (let n = (of_char c :: nat) in if 65 \<le> n \<and> n \<le> 90 then char_of (n + 32) else c)"

definition upper :: "string \<Rightarrow> string" where
  "upper s = map upper_char s"

definition lower :: "string \<Rightarrow> string" where
  "lower s = map lower_char s"

definition remove_prefix :: "string \<Rightarrow> string \<Rightarrow> string" where
  "remove_prefix p s = (if take (length p) s = p then drop (length p) s else s)"

fun join_with :: "char \<Rightarrow> string list \<Rightarrow> string" where
  "join_with c [] = []"
| "join_with c [x] = x"
| "join_with c (x # y # ys) = x @ c # join_with c (y # ys)"

lemma split_on_nonempty [simp]: "split_on c s \<noteq> []"
  by (induction s) (auto split: list.splits)

lemma split_on_no_sep: "c \<notin> set s \<Longrightarrow> split_on c s = [s]"
  by (induction s) auto

lemma split_on_append: "c \<notin> set a \<Longrightarrow> split_on c (a @ c # b) = a # split_on c b"
  by (induction a) auto

lemma split_join:
  "\<lbrakk>xs \<noteq> []; \<forall>x \<in> set xs. c \<notin> set x\<rbrakk> \<Longrightarrow> split_on c (join_with c xs) = xs"
  by (induction c xs rule: join_with.induct) (auto simp: split_on_no_sep split_on_append)

lemma join_split: "join_with c (split_on c s) = s"
proof (induction s)
  case Nil
  then show ?case by simp
next
  case (Cons x s)
  obtain y ys where "split_on c s = y # ys" by (cases "split_on c s") auto
  with Cons show ?case by (cases ys) auto
qed

text \<open>\<open>int(s)\<close> on decimal digits with an optional sign and surrounding blanks.\<close>

definition is_digit :: "char \<Rightarrow> bool" where
  "is_digit c \<longleftrightarrow> c \<in> set ''0123456789''"

definition digits_value :: "string \<Rightarrow> int" where
  "digits_value s = foldl (\<lambda>n c. 10 * n + (of_char c - 48)) 0 s"

definition parse_int :: "string \<Rightarrow> exn + int" where
  "parse_int s =
     (let t = strip s; neg = (take 1 t = ''-''); u = (if take 1 t \<in> {''-'', ''+''} then drop 1 t else t) in
      if u \<noteq> [] \<and> list_all is_digit u then Inr (if neg then - digits_value u else digits_value u)
      else Inl (ValueError ''invalid literal for int()''))"

text \<open>\<open>str(n)\<close> of a natural number.\<close>

fun nat_text :: "nat \<Rightarrow> string" where
  "nat_text n = (if n < 10 then [char_of (48 + n)] else nat_text (n div 10) @ [char_of (48 + n mod 10)])"

declare nat_text.simps [simp del]

lemma digit_char: "n < 10 \<Longrightarrow> is_digit (char_of (48 + n :: nat))"
proof -
  have "list_all (\<lambda>n. is_digit (char_of (48 + n :: nat))) [0..<10]" by code_simp
  then show "n < 10 \<Longrightarrow> ?thesis" by (simp only: list_all_iff set_upt atLeastLessThan_iff) simp
qed

lemma nat_text_digits: "list_all is_digit (nat_text n)"
  by (induction n rule: nat_text.induct) (subst nat_text.simps, simp add: digit_char)

text \<open>The order of UUIDs in PostgreSQL is that of their digits.\<close>

definition hex_value :: "string \<Rightarrow> nat" where
  "hex_value u = foldl (\<lambda>n c. 256 * n + of_char c) 0 u"

text \<open>
  \<open>uuid.UUID(s)\<close> on plain text (the \<open>urn:\<close> and brace spellings are left out): dashes are
  dropped, 32 hexadecimal digits must remain, the value prints in lower case with dashes.
\<close>

definition is_hex :: "char \<Rightarrow> bool" where
  "is_hex c \<longleftrightarrow> c \<in> set ''0123456789abcdefABCDEF''"

definition parse_uuid :: "string \<Rightarrow> exn + uuid" where
  "parse_uuid s =
     (let h = filter (\<lambda>c. c \<noteq> CHR ''-'') s; l = lower h; d = CHR ''-'' in
      if length h = 32 \<and> list_all is_hex h
      then Inr (take 8 l @ d # take 4 (drop 8 l) @ d # take 4 (drop 12 l) @ d # take 4 (drop 16 l) @ d # drop 20 l)
      else Inl (ValueError ''badly formed hexadecimal UUID string''))"

lemma upper_char_idem [simp]: "upper_char (upper_char c) = upper_char c"
  by (auto simp: upper_char_def Let_def)

lemma upper_idem [simp]: "upper (upper s) = upper s"
  by (simp add: upper_def)

lemma upper_char_colon: "upper_char c = CHR '':'' \<longleftrightarrow> c = CHR '':''"
proof -
  have "(of_char c :: nat) < 256" by simp
  moreover have "c = CHR '':'' \<longleftrightarrow> of_char c = (58 :: nat)"
    using of_char_eq_iff [of c "CHR '':''", where 'a = nat] by simp
  moreover have "upper_char c = CHR '':'' \<longleftrightarrow> of_char (upper_char c) = (58 :: nat)"
    using of_char_eq_iff [of "upper_char c" "CHR '':''", where 'a = nat] by simp
  ultimately show ?thesis by (auto simp: upper_char_def Let_def)
qed

lemma lower_char_colon: "lower_char c = CHR '':'' \<longleftrightarrow> c = CHR '':''"
proof -
  have "(of_char c :: nat) < 256" by simp
  moreover have "c = CHR '':'' \<longleftrightarrow> of_char c = (58 :: nat)"
    using of_char_eq_iff [of c "CHR '':''", where 'a = nat] by simp
  moreover have "lower_char c = CHR '':'' \<longleftrightarrow> of_char (lower_char c) = (58 :: nat)"
    using of_char_eq_iff [of "lower_char c" "CHR '':''", where 'a = nat] by simp
  ultimately show ?thesis by (auto simp: lower_char_def Let_def)
qed

lemma colon_in_upper [simp]: "CHR '':'' \<in> set (upper s) \<longleftrightarrow> CHR '':'' \<in> set s"
  by (auto simp: upper_def image_iff upper_char_colon eq_commute [of "CHR '':''"])

lemma colon_in_lower [simp]: "CHR '':'' \<in> set (lower s) \<longleftrightarrow> CHR '':'' \<in> set s"
  by (auto simp: lower_def image_iff lower_char_colon eq_commute [of "CHR '':''"])

lemma upper_eq_Nil [simp]: "upper s = [] \<longleftrightarrow> s = []"
  by (simp add: upper_def)

lemma lower_eq_Nil [simp]: "lower s = [] \<longleftrightarrow> s = []"
  by (simp add: lower_def)

lemma Nil_eq_upper [simp]: "[] = upper s \<longleftrightarrow> s = []"
  by (auto simp: upper_def)

lemma Nil_eq_lower [simp]: "[] = lower s \<longleftrightarrow> s = []"
  by (auto simp: lower_def)

end
