(* ===== verification/Inflight_Counters.thy ===== *)
theory Inflight_Counters
  imports Prelude
begin

text \<open>
  The optimistic in-flight counters of the risk gate,
  \<open>backend/app/services/risk_inflight_counters.py\<close>: a day-trade counter and a committed
  buying-power counter per account, each with one Redis token per submission that makes
  \<open>revert\<close> and \<open>commit\<close> idempotent.

  Redis is a service outside the repository: \<open>'r redis_srv\<close> is the record of the commands the
  code issues, and the locale \<open>redis_service\<close> states their documented behaviour (SET with EX and
  NX, GET, INCRBY-style commands on a missing key, DEL, and the time to live, which INCR and
  INCRBYFLOAT keep and do not create). A command can be lost to a connection fault, which the
  client sees as an exception: \<open>cmd\<close> takes the next entry of a fault schedule. A Lua script
  is one command.
\<close>

section \<open>The Redis interface\<close>

datatype rkey = PdtKey uuid | BpKey uuid | PdtTok uuid uuid | BpTok uuid uuid

record 'r redis_srv =
  srv_get :: "'r \<Rightarrow> rkey \<Rightarrow> decimal option"
  srv_ttl :: "'r \<Rightarrow> rkey \<Rightarrow> nat option"
  srv_set :: "rkey \<Rightarrow> decimal \<Rightarrow> nat option \<Rightarrow> bool \<Rightarrow> 'r \<Rightarrow> 'r"
  srv_add :: "rkey \<Rightarrow> decimal \<Rightarrow> 'r \<Rightarrow> 'r"
  srv_del :: "rkey \<Rightarrow> 'r \<Rightarrow> 'r"

abbreviation num :: "decimal option \<Rightarrow> decimal" where
  "num v \<equiv> (case v of None \<Rightarrow> 0 | Some x \<Rightarrow> x)"

locale redis_service =
  fixes R :: "'r redis_srv"
  assumes get_set: "srv_get R (srv_set R k v ex nx s) k' =
      (if k' = k \<and> (nx \<longrightarrow> srv_get R s k = None) then Some v else srv_get R s k')"
    and get_add: "srv_get R (srv_add R k d s) k' =
      (if k' = k then Some (num (srv_get R s k) + d) else srv_get R s k')"
    and get_del: "srv_get R (srv_del R k s) k' = (if k' = k then None else srv_get R s k')"
    and ttl_set: "srv_ttl R (srv_set R k v ex nx s) k' =
      (if k' = k \<and> (nx \<longrightarrow> srv_get R s k = None) then ex else srv_ttl R s k')"
    and ttl_add: "srv_ttl R (srv_add R k d s) k' =
      (if k' = k \<and> srv_get R s k = None then None else srv_ttl R s k')"
    and ttl_del: "srv_ttl R (srv_del R k s) k' = (if k' = k then None else srv_ttl R s k')"
begin

lemmas redis_laws = get_set get_add get_del ttl_set ttl_add ttl_del

end

record 'r conn =
  srv :: 'r
  faults :: "exn option list"

definition cmd :: "('r \<Rightarrow> 'a \<times> 'r) \<Rightarrow> ('a, 'r conn) act" where
  "cmd c k = (case faults k of
       Some e # fs \<Rightarrow> (Inl e, k\<lparr>faults := fs\<rparr>)
     | None # fs \<Rightarrow> (let (x, s) = c (srv k) in (Inr x, k\<lparr>srv := s, faults := fs\<rparr>))
     | [] \<Rightarrow> (let (x, s) = c (srv k) in (Inr x, k\<lparr>srv := s\<rparr>)))"

section \<open>Scripts\<close>

text \<open>The four Lua scripts; \<open>GET\<close> of a token decides whether anything happens.\<close>

definition revert_pdt_lua :: "'r redis_srv \<Rightarrow> rkey \<Rightarrow> rkey \<Rightarrow> 'r \<Rightarrow> decimal option \<times> 'r" where
  "revert_pdt_lua R tok key s =
     (case srv_get R s tok of
        Some _ \<Rightarrow> (let s' = srv_add R key 1 (srv_del R tok s) in (srv_get R s' key, s'))
      | None \<Rightarrow> (srv_get R s key, s))"

definition commit_lua :: "'r redis_srv \<Rightarrow> rkey \<Rightarrow> rkey \<Rightarrow> 'r \<Rightarrow> decimal option \<times> 'r" where
  "commit_lua R tok key s =
     (let s' = (case srv_get R s tok of Some _ \<Rightarrow> srv_del R tok s | None \<Rightarrow> s)
      in (srv_get R s' key, s'))"

definition revert_bp_lua :: "'r redis_srv \<Rightarrow> rkey \<Rightarrow> rkey \<Rightarrow> 'r \<Rightarrow> decimal \<times> 'r" where
  "revert_bp_lua R tok key s =
     (let s' = (case srv_get R s tok of
                  Some n \<Rightarrow> srv_add R key (- n) (srv_del R tok s) | None \<Rightarrow> s)
      in (num (srv_get R s' key), s'))"

section \<open>Client operations\<close>

definition PDT_TTL :: nat where "PDT_TTL = 86400"
definition BP_TTL :: nat where "BP_TTL = 86400"

text \<open>\<open>int(raw)\<close>: the text of a non-integral number is a \<open>ValueError\<close>.\<close>

definition py_int :: "decimal \<Rightarrow> exn + int" where
  "py_int x = (if of_int \<lfloor>x\<rfloor> = x then Inr \<lfloor>x\<rfloor> else Inl (ValueError ''invalid literal for int()''))"

lemma py_int_of_int [simp]: "py_int (of_int i) = Inr i"
  by (simp add: py_int_def)

lemma py_int_minus_one [simp]: "py_int (- 1) = Inr (- 1)"
  using py_int_of_int [of "- 1"] by simp

text \<open>The fresh \<open>uuid.uuid4().hex\<close> is the argument \<open>token\<close>.\<close>

definition decrement_pdt ::
  "'r redis_srv \<Rightarrow> uuid \<Rightarrow> int option \<Rightarrow> uuid \<Rightarrow> (int \<times> uuid, 'r conn) act" where
  "decrement_pdt R acct broker_reported token =
     aseq (case broker_reported of
             None \<Rightarrow> aret ()
           | Some b \<Rightarrow> cmd (\<lambda>s. ((), srv_set R (PdtKey acct) (of_int b) (Some PDT_TTL) True s)))
       (aseq (cmd (\<lambda>s. ((), srv_set R (PdtTok acct token) 1 (Some PDT_TTL) False s)))
         (abind (cmd (\<lambda>s. let s' = srv_add R (PdtKey acct) (- 1) s
                           in (num (srv_get R s' (PdtKey acct)), s')))
           (\<lambda>v. abind (of_res (py_int v)) (\<lambda>n. aret (n, token)))))"

definition revert_pdt :: "'r redis_srv \<Rightarrow> uuid \<Rightarrow> uuid \<Rightarrow> (int, 'r conn) act" where
  "revert_pdt R acct token =
     abind (cmd (revert_pdt_lua R (PdtTok acct token) (PdtKey acct)))
       (\<lambda>r. case r of None \<Rightarrow> aret 0 | Some v \<Rightarrow> of_res (py_int v))"

definition commit_pdt :: "'r redis_srv \<Rightarrow> uuid \<Rightarrow> uuid \<Rightarrow> (unit, 'r conn) act" where
  "commit_pdt R acct token =
     abind (cmd (commit_lua R (PdtTok acct token) (PdtKey acct))) (\<lambda>_. aret ())"

definition inflight_pdt_remaining :: "'r redis_srv \<Rightarrow> uuid \<Rightarrow> (int option, 'r conn) act" where
  "inflight_pdt_remaining R acct =
     abind (cmd (\<lambda>s. (srv_get R s (PdtKey acct), s)))
       (\<lambda>raw. case raw of None \<Rightarrow> aret None | Some v \<Rightarrow> abind (of_res (py_int v)) (\<lambda>n. aret (Some n)))"

definition reconcile_pdt :: "'r redis_srv \<Rightarrow> uuid \<Rightarrow> int \<Rightarrow> (unit, 'r conn) act" where
  "reconcile_pdt R acct broker_reported =
     cmd (\<lambda>s. ((), srv_set R (PdtKey acct) (of_int broker_reported) (Some 120) False s))"

definition commit_bp ::
  "'r redis_srv \<Rightarrow> uuid \<Rightarrow> decimal \<Rightarrow> uuid \<Rightarrow> (decimal \<times> uuid, 'r conn) act" where
  "commit_bp R acct notional token =
     aseq (cmd (\<lambda>s. ((), srv_set R (BpTok acct token) notional (Some BP_TTL) False s)))
       (abind (cmd (\<lambda>s. let s' = srv_add R (BpKey acct) notional s
                         in (num (srv_get R s' (BpKey acct)), s')))
         (\<lambda>total. aret (total, token)))"

definition revert_bp :: "'r redis_srv \<Rightarrow> uuid \<Rightarrow> uuid \<Rightarrow> (decimal, 'r conn) act" where
  "revert_bp R acct token = cmd (revert_bp_lua R (BpTok acct token) (BpKey acct))"

definition commit_bp_finalize :: "'r redis_srv \<Rightarrow> uuid \<Rightarrow> uuid \<Rightarrow> (unit, 'r conn) act" where
  "commit_bp_finalize R acct token =
     abind (cmd (commit_lua R (BpTok acct token) (BpKey acct))) (\<lambda>_. aret ())"

definition inflight_bp_committed :: "'r redis_srv \<Rightarrow> uuid \<Rightarrow> (decimal, 'r conn) act" where
  "inflight_bp_committed R acct = cmd (\<lambda>s. (num (srv_get R s (BpKey acct)), s))"

definition reconcile_bp_committed ::
  "'r redis_srv \<Rightarrow> uuid \<Rightarrow> decimal \<Rightarrow> (unit, 'r conn) act" where
  "reconcile_bp_committed R acct broker_reported =
     cmd (\<lambda>s. ((), srv_set R (BpKey acct) broker_reported (Some 120) False s))"

section \<open>The contract of a token counter\<close>

text \<open>
  What the order path relies on: a submission takes its token and moves the counter by its
  amount; the first settlement of the token decides (\<open>undo\<close> gives the amount back, \<open>fin\<close> keeps
  it), every later settlement of it changes nothing. \<open>book\<close> is the abstract specification: the
  set of open tokens and the total.
\<close>

datatype 't tok_op = Take 't | Undo 't | Fin 't

type_synonym ('t, 'v) book = "'t set \<times> 'v"

fun book_step :: "('t \<Rightarrow> 'v) \<Rightarrow> 't tok_op \<Rightarrow> ('t, 'v :: ab_group_add) book \<Rightarrow> ('t, 'v) book" where
  "book_step amt (Take t) (L, v) = (insert t L, v + amt t)"
| "book_step amt (Undo t) (L, v) = (if t \<in> L then (L - {t}, v - amt t) else (L, v))"
| "book_step amt (Fin t) (L, v) = (L - {t}, v)"

locale token_counter =
  fixes take :: "'t \<Rightarrow> 's \<Rightarrow> 's"
    and undo :: "'t \<Rightarrow> 's \<Rightarrow> 's"
    and fin :: "'t \<Rightarrow> 's \<Rightarrow> 's"
    and live :: "'s \<Rightarrow> 't set"
    and total :: "'s \<Rightarrow> 'v :: ab_group_add"
    and amt :: "'t \<Rightarrow> 'v"
    and wf :: "'s \<Rightarrow> bool"
  assumes take_spec: "wf s \<Longrightarrow> wf (take t s) \<and> live (take t s) = insert t (live s)
                        \<and> total (take t s) = total s + amt t"
    and undo_spec: "wf s \<Longrightarrow> wf (undo t s) \<and> live (undo t s) = live s - {t}
                        \<and> total (undo t s) = (if t \<in> live s then total s - amt t else total s)"
    and fin_spec: "wf s \<Longrightarrow> wf (fin t s) \<and> live (fin t s) = live s - {t} \<and> total (fin t s) = total s"
begin

fun tok_step :: "'t tok_op \<Rightarrow> 's \<Rightarrow> 's" where
  "tok_step (Take t) = take t"
| "tok_step (Undo t) = undo t"
| "tok_step (Fin t) = fin t"

lemma tok_step_wf: "wf s \<Longrightarrow> wf (tok_step e s)"
  by (cases e) (auto simp: take_spec undo_spec fin_spec)

lemma tok_step_refines:
  "wf s \<Longrightarrow> (live (tok_step e s), total (tok_step e s)) = book_step amt e (live s, total s)"
  by (cases e) (auto simp: take_spec undo_spec fin_spec)

lemma run_refines:
  "wf s \<Longrightarrow> wf (fold tok_step es s) \<and>
     (live (fold tok_step es s), total (fold tok_step es s)) = fold (book_step amt) es (live s, total s)"
  by (induction es arbitrary: s) (simp_all add: tok_step_wf tok_step_refines [symmetric])

lemma undo_take: "wf s \<Longrightarrow> total (undo t (take t s)) = total s"
  by (simp add: take_spec undo_spec)

lemma undo_undo: "wf s \<Longrightarrow> total (undo t (undo t s)) = total (undo t s)"
  by (simp add: undo_spec)

lemma undo_fin: "wf s \<Longrightarrow> total (undo t (fin t s)) = total s"
  by (simp add: undo_spec fin_spec)

end

text \<open>
  Interleaved submissions: the part of the sequence about one token decides what that token
  contributes, so the total is the sum of the contributions.
\<close>

fun tok_of :: "'t tok_op \<Rightarrow> 't" where
  "tok_of (Take t) = t"
| "tok_of (Undo t) = t"
| "tok_of (Fin t) = t"

abbreviation about :: "'t \<Rightarrow> 't tok_op list \<Rightarrow> 't tok_op list" where
  "about t es \<equiv> filter (\<lambda>e. tok_of e = t) es"

lemma book_shift:
  fixes amt :: "'t \<Rightarrow> 'v :: ab_group_add"
  shows "fold (book_step amt) es (L, v) =
           (fst (fold (book_step amt) es (L, 0)), v + snd (fold (book_step amt) es (L, 0)))"
proof (induction es arbitrary: L v)
  case Nil
  then show ?case by simp
next
  case (Cons e es)
  obtain L' d where e: "book_step amt e (L, 0) = (L', d)" by (cases "book_step amt e (L, 0)")
  then have "book_step amt e (L, v) = (L', v + d)" by (cases e) (auto split: if_splits)
  with e Cons.IH [of L' "v + d"] Cons.IH [of L' d] show ?case by (simp add: add.assoc)
qed

lemma book_local:
  assumes "book_step amt e (L, v) = (L', v')"
  shows "t \<noteq> tok_of e \<Longrightarrow> L' \<inter> {t} = L \<inter> {t}"
    and "book_step amt e (L \<inter> {tok_of e}, 0) = (L' \<inter> {tok_of e}, v' - v)"
  using assms by (cases e; auto split: if_splits)+

lemma book_total_sum:
  fixes amt :: "'t \<Rightarrow> 'v :: ab_group_add"
  assumes "finite T" and "tok_of ` set es \<subseteq> T"
  shows "snd (fold (book_step amt) es (L, v)) =
           v + (\<Sum>t \<in> T. snd (fold (book_step amt) (about t es) (L \<inter> {t}, 0)))"
  using assms(2)
proof (induction es arbitrary: L v)
  case Nil
  then show ?case by simp
next
  case (Cons e es)
  let ?t = "tok_of e" and ?F = "\<lambda>t es L. snd (fold (book_step amt) (about t es) (L \<inter> {t}, 0))"
  obtain L' v' where e: "book_step amt e (L, v) = (L', v')" by (cases "book_step amt e (L, v)")
  have t: "?t \<in> T" using Cons.prems by simp
  have here: "?F ?t (e # es) L = (v' - v) + ?F ?t es L'"
    using book_local(2) [OF e] book_shift [of amt "about ?t es" "L' \<inter> {?t}" "v' - v"] by simp
  have rest: "(\<Sum>t \<in> T - {?t}. ?F t (e # es) L) = (\<Sum>t \<in> T - {?t}. ?F t es L')"
    by (rule sum.cong) (auto simp: book_local(1) [OF e])
  have "snd (fold (book_step amt) (e # es) (L, v)) = v' + (\<Sum>t \<in> T. ?F t es L')"
    using Cons e by simp
  also have "\<dots> = v + (\<Sum>t \<in> T. ?F t (e # es) L)"
    unfolding sum.remove [OF assms(1) t] using here rest by (simp add: algebra_simps)
  finally show ?case .
qed

text \<open>Every submission takes its token once and settles it once, acknowledged or not.\<close>

definition settles_once :: "('t \<times> bool) list \<Rightarrow> 't tok_op list \<Rightarrow> bool" where
  "settles_once ts es \<longleftrightarrow> distinct (map fst ts) \<and> tok_of ` set es \<subseteq> fst ` set ts
     \<and> (\<forall>(t, ack) \<in> set ts. about t es = [Take t, if ack then Fin t else Undo t])"

lemma book_settled_total:
  fixes amt :: "'t \<Rightarrow> 'v :: ab_group_add"
  assumes "settles_once ts es" and "fst ` set ts \<inter> L = {}"
  shows "snd (fold (book_step amt) es (L, v)) = v + sum_list (map (\<lambda>(t, ack). if ack then amt t else 0) ts)"
proof -
  have L: "L \<inter> {t} = {}" if "(t, ack) \<in> set ts" for t ack
    using assms(2) that by force
  have one: "snd (fold (book_step amt) (about t es) (L \<inter> {t}, 0)) = (if ack then amt t else 0)"
    if "(t, ack) \<in> set ts" for t ack
    using assms(1) that L [OF that] by (auto simp: settles_once_def)
  have "snd (fold (book_step amt) es (L, v)) =
      v + (\<Sum>t \<in> fst ` set ts. snd (fold (book_step amt) (about t es) (L \<inter> {t}, 0)))"
    using assms(1) by (intro book_total_sum) (auto simp: settles_once_def)
  also have "(\<Sum>t \<in> fst ` set ts. snd (fold (book_step amt) (about t es) (L \<inter> {t}, 0))) =
      sum_list (map (\<lambda>(t, ack). snd (fold (book_step amt) (about t es) (L \<inter> {t}, 0))) ts)"
    using assms(1) by (simp add: settles_once_def sum.distinct_set_conv_list case_prod_unfold comp_def
        flip: set_map)
  also have "\<dots> = sum_list (map (\<lambda>(t, ack). if ack then amt t else 0) ts)"
    by (rule arg_cong [of _ _ sum_list], rule map_cong) (auto simp: one)
  finally show ?thesis .
qed

section \<open>Both counters meet the contract\<close>

definition exec :: "('a, 'r conn) act \<Rightarrow> 'r \<Rightarrow> 'r" where
  "exec m s = srv (snd (m \<lparr>srv = s, faults = []\<rparr>))"

lemma cmd_no_fault [run_simps]:
  "cmd c \<lparr>srv = s, faults = []\<rparr> = (Inr (fst (c s)), \<lparr>srv = snd (c s), faults = []\<rparr>)"
  by (cases "c s") (simp add: cmd_def)

definition pdt_live :: "'r redis_srv \<Rightarrow> uuid \<Rightarrow> 'r \<Rightarrow> uuid set" where
  "pdt_live R a s = {t. srv_get R s (PdtTok a t) \<noteq> None}"

definition pdt_total :: "'r redis_srv \<Rightarrow> uuid \<Rightarrow> 'r \<Rightarrow> decimal" where
  "pdt_total R a s = num (srv_get R s (PdtKey a))"

definition bp_live :: "'r redis_srv \<Rightarrow> uuid \<Rightarrow> 'r \<Rightarrow> uuid set" where
  "bp_live R a s = {t. srv_get R s (BpTok a t) \<noteq> None}"

definition bp_total :: "'r redis_srv \<Rightarrow> uuid \<Rightarrow> 'r \<Rightarrow> decimal" where
  "bp_total R a s = num (srv_get R s (BpKey a))"

definition bp_wf :: "'r redis_srv \<Rightarrow> uuid \<Rightarrow> (uuid \<Rightarrow> decimal) \<Rightarrow> 'r \<Rightarrow> bool" where
  "bp_wf R a notional s \<longleftrightarrow> (\<forall>t n. srv_get R s (BpTok a t) = Some n \<longrightarrow> n = notional t)"

context redis_service
begin

lemma exec_decrement_pdt:
  "exec (decrement_pdt R a None t) s = srv_add R (PdtKey a) (- 1) (srv_set R (PdtTok a t) 1 (Some PDT_TTL) False s)"
  by (simp add: exec_def decrement_pdt_def run_simps Let_def split: sum.splits)

lemma exec_revert_pdt:
  "exec (revert_pdt R a t) s = snd (revert_pdt_lua R (PdtTok a t) (PdtKey a) s)"
  by (simp add: exec_def revert_pdt_def run_simps split: option.splits)

lemma exec_commit_pdt:
  "exec (commit_pdt R a t) s = snd (commit_lua R (PdtTok a t) (PdtKey a) s)"
  by (simp add: exec_def commit_pdt_def run_simps)

lemma exec_commit_bp:
  "exec (commit_bp R a n t) s = srv_add R (BpKey a) n (srv_set R (BpTok a t) n (Some BP_TTL) False s)"
  by (simp add: exec_def commit_bp_def run_simps Let_def)

lemma exec_revert_bp:
  "exec (revert_bp R a t) s = snd (revert_bp_lua R (BpTok a t) (BpKey a) s)"
  by (simp add: exec_def revert_bp_def run_simps)

lemma exec_commit_bp_finalize:
  "exec (commit_bp_finalize R a t) s = snd (commit_lua R (BpTok a t) (BpKey a) s)"
  by (simp add: exec_def commit_bp_finalize_def run_simps)

lemmas exec_ops = exec_decrement_pdt exec_revert_pdt exec_commit_pdt
  exec_commit_bp exec_revert_bp exec_commit_bp_finalize

sublocale pdt: token_counter
  "\<lambda>t. exec (decrement_pdt R a None t)" "\<lambda>t. exec (revert_pdt R a t)" "\<lambda>t. exec (commit_pdt R a t)"
  "pdt_live R a" "pdt_total R a" "\<lambda>_. - 1" "\<lambda>_. True" for a
  by unfold_locales
    (auto simp: exec_ops pdt_live_def pdt_total_def revert_pdt_lua_def commit_lua_def Let_def redis_laws
          split: option.splits)

sublocale bp: token_counter
  "\<lambda>t. exec (commit_bp R a (notional t) t)" "\<lambda>t. exec (revert_bp R a t)"
  "\<lambda>t. exec (commit_bp_finalize R a t)"
  "bp_live R a" "bp_total R a" notional "bp_wf R a notional" for a notional
  by unfold_locales
    (auto simp: exec_ops bp_live_def bp_total_def bp_wf_def revert_bp_lua_def commit_lua_def Let_def redis_laws
          split: option.splits if_splits)

lemma cold_decrement:
  assumes "srv_get R s (PdtKey a) = None"
  shows "fst (decrement_pdt R a None t \<lparr>srv = s, faults = []\<rparr>) = Inr (- 1, t)"
    and "srv_get R (exec (decrement_pdt R a None t) s) (PdtKey a) = Some (- 1)"
    and "srv_ttl R (exec (decrement_pdt R a None t) s) (PdtKey a) = None"
proof -
  show "fst (decrement_pdt R a None t \<lparr>srv = s, faults = []\<rparr>) = Inr (- 1, t)"
    using assms by (simp add: decrement_pdt_def run_simps Let_def redis_laws)
qed (use assms in \<open>simp_all add: exec_ops redis_laws\<close>)

lemma cold_commit_bp_ttl:
  assumes "srv_get R s (BpKey a) = None"
  shows "srv_ttl R (exec (commit_bp R a n t) s) (BpKey a) = None"
  using assms by (simp add: exec_ops redis_laws)

end

text \<open>An in-memory store with these commands: the interface can be met.\<close>

type_synonym mem = "rkey \<Rightarrow> (decimal \<times> nat option) option"

definition mem_srv :: "mem redis_srv" where
  "mem_srv = \<lparr>
     srv_get = (\<lambda>s k. map_option fst (s k)),
     srv_ttl = (\<lambda>s k. Option.bind (s k) snd),
     srv_set = (\<lambda>k v ex nx s. if nx \<and> s k \<noteq> None then s else s(k \<mapsto> (v, ex))),
     srv_add = (\<lambda>k d s. s(k \<mapsto> (case s k of None \<Rightarrow> (d, None) | Some (v, ex) \<Rightarrow> (v + d, ex)))),
     srv_del = (\<lambda>k s. s(k := None))\<rparr>"

interpretation mem: redis_service mem_srv
  by unfold_locales (auto simp: mem_srv_def split: option.splits)

section \<open>Properties\<close>

definition exec_pdt :: "'r redis_srv \<Rightarrow> uuid \<Rightarrow> uuid tok_op \<Rightarrow> 'r \<Rightarrow> 'r" where
  "exec_pdt R a e = (case e of Take t \<Rightarrow> exec (decrement_pdt R a None t)
     | Undo t \<Rightarrow> exec (revert_pdt R a t) | Fin t \<Rightarrow> exec (commit_pdt R a t))"

definition exec_bp :: "'r redis_srv \<Rightarrow> uuid \<Rightarrow> (uuid \<Rightarrow> decimal) \<Rightarrow> uuid tok_op \<Rightarrow> 'r \<Rightarrow> 'r" where
  "exec_bp R a notional e = (case e of Take t \<Rightarrow> exec (commit_bp R a (notional t) t)
     | Undo t \<Rightarrow> exec (revert_bp R a t) | Fin t \<Rightarrow> exec (commit_bp_finalize R a t))"

text \<open>The abstract book of a counter: its open tokens and its total.\<close>

definition pdt_book :: "'r redis_srv \<Rightarrow> uuid \<Rightarrow> 'r \<Rightarrow> (uuid, decimal) book" where
  "pdt_book R a s = (pdt_live R a s, pdt_total R a s)"

definition bp_book :: "'r redis_srv \<Rightarrow> uuid \<Rightarrow> 'r \<Rightarrow> (uuid, decimal) book" where
  "bp_book R a s = (bp_live R a s, bp_total R a s)"

context redis_service
begin

lemma exec_pdt_step: "exec_pdt R a = pdt.tok_step a"
  by (intro ext, rename_tac e s, case_tac e) (simp_all add: exec_pdt_def)

lemma exec_bp_step: "exec_bp R a notional = bp.tok_step a notional"
  by (intro ext, rename_tac e s, case_tac e) (simp_all add: exec_bp_def)

lemma pdt_run_refines: "pdt_book R a (fold (exec_pdt R a) es s) = fold (book_step (\<lambda>_. - 1)) es (pdt_book R a s)"
  using pdt.run_refines [where s = s and a = a and es = es] by (simp add: exec_pdt_step pdt_book_def)

lemma bp_run_refines:
  "bp_wf R a notional s \<Longrightarrow>
     bp_book R a (fold (exec_bp R a notional) es s) = fold (book_step notional) es (bp_book R a s)"
  using bp.run_refines [where a = a and notional = notional and s = s and es = es] by (simp add: exec_bp_step bp_book_def)

end

text \<open>C3: on every store that behaves as Redis documents, any sequence of submissions, rejections and
  acknowledgements moves the day-trade counter and the buying-power counter exactly as the abstract book
  does: a token is settled once, by whichever settlement comes first.\<close>

theorem counters_refine_book:
  assumes "redis_service R" and "bp_wf R a notional s"
  shows "pdt_book R a (fold (exec_pdt R a) es s) = fold (book_step (\<lambda>_. - 1)) es (pdt_book R a s)
       \<and> bp_book R a (fold (exec_bp R a notional) es s) = fold (book_step notional) es (bp_book R a s)"
  using redis_service.pdt_run_refines [OF assms(1)] redis_service.bp_run_refines [OF assms] by blast

lemma mem_redis: "redis_service mem_srv"
  by unfold_locales

lemma mem_empty_wf: "bp_wf mem_srv a notional (\<lambda>_. None)"
  by (simp add: bp_wf_def mem_srv_def)

theorem counters_refine_book_witness:
  "bp_book mem_srv ''a1'' (fold (exec_bp mem_srv ''a1'' (\<lambda>_. 5)) [Take ''t'', Undo ''t'', Undo ''t''] (\<lambda>_. None)) = ({}, 0)"
proof -
  have "bp_book mem_srv ''a1'' (\<lambda>_. None) = ({}, 0)"
    by (simp add: bp_book_def bp_live_def bp_total_def mem_srv_def)
  with counters_refine_book [where a = "''a1''" and notional = "\<lambda>_. 5" and es = "[Take ''t'', Undo ''t'', Undo ''t'']",
      OF mem_redis mem_empty_wf]
  show ?thesis by simp
qed

text \<open>When every submission takes a fresh token once and settles it once, what stays committed of the buying
  power is exactly the notional of the acknowledged submissions, however their steps interleave.\<close>

theorem committed_is_acknowledged:
  assumes "redis_service R" and "bp_wf R a notional s"
    and "settles_once ts es" and "fst ` set ts \<inter> bp_live R a s = {}"
  shows "bp_total R a (fold (exec_bp R a notional) es s)
       = bp_total R a s + sum_list (map (\<lambda>(t, ack). if ack then notional t else 0) ts)"
  using redis_service.bp_run_refines [OF assms(1,2), of es]
    book_settled_total [OF assms(3,4), of notional "bp_total R a s"]
  by (simp add: bp_book_def) (metis snd_conv)

theorem committed_is_acknowledged_witness:
  "bp_total mem_srv ''a1'' (fold (exec_bp mem_srv ''a1'' (\<lambda>_. 5))
     [Take ''t'', Take ''u'', Fin ''t'', Undo ''u''] (\<lambda>_. None)) = 5"
  using committed_is_acknowledged [where a = "''a1''" and notional = "\<lambda>_. 5"
      and ts = "[(''t'', True), (''u'', False)]" and es = "[Take ''t'', Take ''u'', Fin ''t'', Undo ''u'']",
      OF mem_redis mem_empty_wf]
  by (simp add: bp_live_def bp_total_def mem_srv_def settles_once_def)

end
