(* ===== verification/Market_Sessions.thy ===== *)
theory Market_Sessions
  imports Prelude
begin

text \<open>
  Session clocks of \<open>backend/app/services/market_calendar.py\<close>: the IDEALPRO FX week and the
  crypto maintenance windows. A wall-clock instant is an \<open>int\<close>: microseconds since some Monday
  00:00 of the zone the function works in (New York for FX, UTC for crypto), so \<open>weekday()\<close> and
  \<open>time()\<close> are a quotient and a remainder. The conversions between UTC and the zone are the
  library's and are not modelled; the \<open>datetime\<close> arithmetic of the source is wall-clock arithmetic
  within one zone.
\<close>

definition us_minute :: int where "us_minute = 60000000"
definition us_day :: int where "us_day = 86400000000"

definition weekday :: "int \<Rightarrow> int" where "weekday t = (t div us_day) mod 7"
definition tod :: "int \<Rightarrow> int" where "tod t = t mod us_day"
definition at_time :: "int \<Rightarrow> int \<Rightarrow> int" where "at_time t u = t - tod t + u"

definition close_time :: int where "close_time = 17 * 60 * us_minute"
definition gap_end :: int where "gap_end = (17 * 60 + 15) * us_minute"

lemmas clock_defs = us_minute_def us_day_def weekday_def tod_def at_time_def close_time_def gap_end_def

definition is_forex_session_open :: "int \<Rightarrow> bool" where
  "is_forex_session_open now =
     (let wd = weekday now; t = tod now in
      if wd = 5 then False
      else if wd = 6 then close_time \<le> t
      else if wd = 4 then t < close_time
      else if close_time \<le> t \<and> t < gap_end then False
      else True)"

definition next_forex_session_open :: "int \<Rightarrow> int" where
  "next_forex_session_open now =
     (let wd = weekday now; t = tod now in
      if wd \<in> {0, 1, 2, 3} \<and> close_time \<le> t \<and> t < gap_end then at_time now gap_end
      else
        let d = (6 - wd) mod 7; days = (if d = 0 \<and> close_time \<le> t then 7 else d)
        in at_time (now + days * us_day) close_time)"

text \<open>
  A maintenance window: the weekdays it applies to, the UTC start as hour and minute, and its
  length in minutes.
\<close>

record window =
  w_days :: "string list"
  w_hour :: int
  w_minute :: int
  w_duration :: int

definition day_abbr :: "int \<Rightarrow> string" where
  "day_abbr now = [''mon'', ''tue'', ''wed'', ''thu'', ''fri'', ''sat'', ''sun''] ! nat (weekday now)"

definition window_start :: "int \<Rightarrow> window \<Rightarrow> int" where
  "window_start now w = at_time now ((w_hour w * 60 + w_minute w) * us_minute)"

definition window_end :: "int \<Rightarrow> window \<Rightarrow> int" where
  "window_end now w = window_start now w + w_duration w * us_minute"

definition in_window :: "int \<Rightarrow> window \<Rightarrow> bool" where
  "in_window now w \<longleftrightarrow> day_abbr now \<in> set (w_days w)
     \<and> window_start now w \<le> now \<and> now < window_end now w"

definition is_crypto_session_open :: "int \<Rightarrow> window list \<Rightarrow> bool" where
  "is_crypto_session_open now ws \<longleftrightarrow> \<not> list_ex (in_window now) ws"

definition next_crypto_session_open :: "int \<Rightarrow> window list \<Rightarrow> int" where
  "next_crypto_session_open now ws =
     (case List.find (in_window now) ws of None \<Rightarrow> now | Some w \<Rightarrow> window_end now w)"

section \<open>The FX week\<close>

text \<open>Every instant is a week, a weekday and a time of day; on that form the clock is linear.\<close>

lemma clock_cases:
  obtains w d r where "t = (7 * w + d) * us_day + r" "0 \<le> d" "d < 7" "0 \<le> r" "r < us_day"
    "weekday t = d" "tod t = r"
proof
  show "t = (7 * (t div us_day div 7) + weekday t) * us_day + tod t"
    by (simp add: weekday_def tod_def)
  show "0 \<le> weekday t" "weekday t < 7" by (simp_all add: weekday_def)
  show "0 \<le> tod t" "tod t < us_day" by (simp_all add: tod_def us_day_def)
qed simp_all

lemma clock_of_parts:
  assumes "0 \<le> d" "d < 7" "0 \<le> r" "r < us_day"
  shows "weekday ((7 * w + d) * us_day + r) = d" and "tod ((7 * w + d) * us_day + r) = r"
proof -
  have D: "us_day \<noteq> 0" by (simp add: us_day_def)
  have "((7 * w + d) * us_day + r) div us_day = 7 * w + d"
    using div_mult_self3 [OF D] assms by simp
  moreover have "(7 * w + d) mod 7 = d" using assms by simp
  ultimately show "weekday ((7 * w + d) * us_day + r) = d" by (simp add: weekday_def)
  have "((7 * w + d) * us_day + r) mod us_day = r mod us_day" by (rule mod_mult_self3)
  with assms show "tod ((7 * w + d) * us_day + r) = r" by (simp add: tod_def)
qed

lemma next_forex_session_open_parts:
  assumes t: "t = (7 * w + d) * us_day + r" "0 \<le> d" "d < 7" "0 \<le> r" "r < us_day"
    and closed: "\<not> is_forex_session_open t"
  shows "next_forex_session_open t =
    (if d \<le> 3 then (7 * w + d) * us_day + gap_end else (7 * w + 6) * us_day + close_time)"
proof -
  from t have wd: "weekday t = d" and td: "tod t = r" by (simp_all add: clock_of_parts)
  have td': "tod (t + k * us_day) = r" for k
    using td by (simp add: tod_def)
  from t(2,3) consider "d \<le> 3" | "d = 4" | "d = 5" | "d = 6" by linarith
  then show ?thesis
  proof cases
    case 1
    with t(2) have d: "d = 0 \<or> d = 1 \<or> d = 2 \<or> d = 3" by linarith
    with closed wd td have "close_time \<le> r" "r < gap_end"
      by (auto simp: is_forex_session_open_def Let_def split: if_splits)
    with d 1 t(1) wd td show ?thesis
      by (simp add: next_forex_session_open_def Let_def at_time_def)
  next
    case 2
    with t(1) wd td td' [of 2] show ?thesis
      by (simp add: next_forex_session_open_def Let_def at_time_def algebra_simps)
  next
    case 3
    with t(1) wd td td' [of 1] show ?thesis
      by (simp add: next_forex_session_open_def Let_def at_time_def algebra_simps)
  next
    case 4
    with closed wd td have "r < close_time" by (simp add: is_forex_session_open_def Let_def)
    with 4 t(1) wd td show ?thesis
      by (simp add: next_forex_session_open_def Let_def at_time_def algebra_simps)
  qed
qed

lemma day_order:
  assumes "n * us_day + r \<le> n' * us_day + r'" "0 \<le> r" "r' < us_day"
  shows "n \<le> n'"
proof (rule ccontr)
  assume "\<not> n \<le> n'"
  then have "(n' + 1) * us_day \<le> n * us_day" by (intro mult_right_mono) (auto simp: us_day_def)
  with assms show False by (simp add: algebra_simps)
qed

lemma forex_closed_until_next:
  assumes closed: "\<not> is_forex_session_open t" and u: "t \<le> u" "u < next_forex_session_open t"
  shows "\<not> is_forex_session_open u"
proof -
  obtain w d r where t: "t = (7 * w + d) * us_day + r" "0 \<le> d" "d < 7" "0 \<le> r" "r < us_day"
      "weekday t = d" "tod t = r" by (rule clock_cases)
  obtain v e q where u': "u = (7 * v + e) * us_day + q" "0 \<le> e" "e < 7" "0 \<le> q" "q < us_day"
      "weekday u = e" "tod u = q" by (rule clock_cases)
  note nxt = next_forex_session_open_parts [OF t(1-5) closed]
  have ct: "0 \<le> close_time" "close_time < us_day" "0 \<le> gap_end" "gap_end < us_day"
    by (simp_all add: clock_defs)
  have le: "7 * w + d \<le> 7 * v + e"
    using u(1) t(1) u'(1) t(4) u'(5) day_order by blast
  show ?thesis
  proof (cases "d \<le> 3")
    case True
    from u(2) nxt True u'(1) have lt: "(7 * v + e) * us_day + q < (7 * w + d) * us_day + gap_end" by simp
    then have "7 * v + e \<le> 7 * w + d" using u'(4) ct day_order by (meson less_imp_le)
    with le have eq: "7 * v + e = 7 * w + d" by simp
    with t(2,3) u'(2,3) have "e = d" by presburger
    moreover from eq lt have "q < gap_end" by simp
    moreover from eq u(1) t(1) u'(1) have "r \<le> q" by simp
    moreover from closed t(6,7) True have "close_time \<le> r"
      by (auto simp: is_forex_session_open_def Let_def split: if_splits)
    ultimately show ?thesis using True u'(6,7) t(2)
      by (auto simp: is_forex_session_open_def Let_def)
  next
    case False
    from u(2) nxt False u'(1)
    have lt: "(7 * v + e) * us_day + q < (7 * w + 6) * us_day + close_time" by simp
    then have "7 * v + e \<le> 7 * w + 6" using u'(4) ct day_order by (meson less_imp_le)
    with le False t(2,3) u'(2,3) have w: "v = w" and "d \<le> e" by presburger+
    consider "e = 4" | "e = 5" | "e = 6" using False \<open>d \<le> e\<close> u'(3) by linarith
    then show ?thesis
    proof cases
      case 1
      with False \<open>d \<le> e\<close> have "d = 4" by simp
      with closed t(6,7) have "close_time \<le> r" by (simp add: is_forex_session_open_def Let_def)
      with u(1) t(1) u'(1) w 1 \<open>d = 4\<close> have "close_time \<le> q" by simp
      with 1 u'(6,7) show ?thesis by (simp add: is_forex_session_open_def Let_def)
    next
      case 2
      with u'(6,7) show ?thesis by (simp add: is_forex_session_open_def Let_def)
    next
      case 3
      with lt w have "q < close_time" by simp
      with 3 u'(6,7) show ?thesis by (simp add: is_forex_session_open_def Let_def)
    qed
  qed
qed

lemma next_forex_open:
  assumes closed: "\<not> is_forex_session_open t"
  shows "t < next_forex_session_open t \<and> is_forex_session_open (next_forex_session_open t)"
proof -
  obtain w d r where t: "t = (7 * w + d) * us_day + r" "0 \<le> d" "d < 7" "0 \<le> r" "r < us_day"
      "weekday t = d" "tod t = r" by (rule clock_cases)
  note nxt = next_forex_session_open_parts [OF t(1-5) closed]
  have ct: "0 \<le> close_time" "close_time < us_day" "0 \<le> gap_end" "gap_end < us_day"
    by (simp_all add: clock_defs)
  show ?thesis
  proof (cases "d \<le> 3")
    case True
    from closed t(6,7) True have "r < gap_end"
      by (auto simp: is_forex_session_open_def Let_def split: if_splits)
    with True nxt t(1) have "t < next_forex_session_open t" by simp
    moreover from clock_of_parts [OF t(2,3) ct(3,4), of w] True nxt t(2)
    have "is_forex_session_open (next_forex_session_open t)"
      by (auto simp: is_forex_session_open_def Let_def)
    ultimately show ?thesis ..
  next
    case False
    have "(7 * w + d) * us_day + r < (7 * w + 6) * us_day + close_time"
    proof (cases "d = 6")
      case True
      with closed t(6,7) show ?thesis by (simp add: is_forex_session_open_def Let_def)
    next
      case neq: False
      with t(3) have "(7 * w + d + 1) * us_day \<le> (7 * w + 6) * us_day"
        by (intro mult_right_mono) (auto simp: us_day_def)
      with t(5) ct(1) show ?thesis by (simp add: algebra_simps)
    qed
    with False nxt t(1) have "t < next_forex_session_open t" by simp
    moreover have "is_forex_session_open (next_forex_session_open t)"
      using clock_of_parts [of 6 close_time w] ct False nxt
      by (simp add: is_forex_session_open_def Let_def)
    ultimately show ?thesis ..
  qed
qed

lemma in_window_find:
  "\<not> is_crypto_session_open now ws \<longleftrightarrow> (\<exists>w. List.find (in_window now) ws = Some w)"
  by (induction ws) (auto simp: is_crypto_session_open_def)

section \<open>Properties\<close>

text \<open>From any instant at which the FX market is closed, the computed next opening lies in the future, is an
  instant at which the market is open, and is the first one.\<close>

theorem next_forex_session_open_is_first:
  assumes "\<not> is_forex_session_open t"
  shows "t < next_forex_session_open t \<and> is_forex_session_open (next_forex_session_open t)
       \<and> (\<forall>u. t \<le> u \<longrightarrow> u < next_forex_session_open t \<longrightarrow> \<not> is_forex_session_open u)"
  using next_forex_open [OF assms] forex_closed_until_next [OF assms] by blast

theorem next_forex_session_open_is_first_witness:
  "is_forex_session_open (next_forex_session_open (5 * us_day))"
proof -
  have "\<not> is_forex_session_open (5 * us_day)" by (simp add: is_forex_session_open_def clock_defs)
  from next_forex_session_open_is_first [OF this] show ?thesis by blast
qed

text \<open>When crypto trading is closed, the reported reopening is the end of a maintenance window that contains the
  present instant; when it is open the reported instant is the present one.\<close>

theorem crypto_reopens_after_window:
  "if is_crypto_session_open now ws then next_crypto_session_open now ws = now
   else now < next_crypto_session_open now ws
      \<and> (\<exists>w \<in> set ws. in_window now w \<and> next_crypto_session_open now ws = window_end now w)"
proof (cases "is_crypto_session_open now ws")
  case True
  then have "List.find (in_window now) ws = None" using in_window_find [of now ws] by (metis not_Some_eq)
  with True show ?thesis by (simp add: next_crypto_session_open_def)
next
  case False
  then obtain w where w: "List.find (in_window now) ws = Some w" using in_window_find by blast
  with find_Some_iff' [OF w] False show ?thesis
    by (auto simp: next_crypto_session_open_def in_window_def intro!: bexI [of _ w])
qed

definition demo_window :: window where
  "demo_window = \<lparr>w_days = [''mon''], w_hour = 2, w_minute = 30, w_duration = 60\<rparr>"

theorem crypto_reopens_after_window_witness:
  "next_crypto_session_open (3 * 60 * us_minute) [demo_window] = (3 * 60 + 30) * us_minute"
proof -
  have "\<not> is_crypto_session_open (3 * 60 * us_minute) [demo_window]"
    by (simp add: is_crypto_session_open_def in_window_def demo_window_def day_abbr_def window_start_def
        window_end_def clock_defs)
  with crypto_reopens_after_window [of "3 * 60 * us_minute" "[demo_window]"] show ?thesis
    by (simp add: window_end_def window_start_def demo_window_def clock_defs)
qed

end
