(* ===== verification/Risk_Limits.thy ===== *)
theory Risk_Limits
  imports Inflight_Counters Market_Sessions
begin

text \<open>
  The data the risk gate works on (\<open>backend/app/services/risk_service.py\<close>,
  \<open>backend/app/schemas/risk.py\<close>, \<open>backend/app/models/risk.py\<close>): the evaluation context, the
  verdict, the tables its SQL reads as lists of rows, and the walk over scopes that resolves a
  limit.

  Everything the gate asks of the outside is a field of \<open>risk_env\<close>: the tables with a fault
  oracle (\<open>e_fault q = Some e\<close>: the statement \<open>q\<close> raises \<open>e\<close>), the configuration service, the
  in-flight counters, the sidecar's account summary and order preview (with the time it takes to
  answer), the calendars. The gate reads this state and never writes it. Log lines, metrics, the
  human-readable messages of the entries, their display values and the measured latency are left
  out.
\<close>

section \<open>Entries and verdicts\<close>

datatype eval_mode = Preview | Place_Order | Modify_Order
datatype effect = Open | Close

datatype blocker = Blocker (b_check: string) (b_code: string)
datatype warning = Warning (w_check: string) (w_code: "string option")

datatype final = Allow | Warn | Block

record verdict =
  final_verdict :: final
  blockers :: "blocker list"
  warnings :: "warning list"

text \<open>\<open>None\<close>: the check has nothing to say; otherwise a blocker or a warning or neither.\<close>

type_synonym check_result = "(blocker option \<times> warning option) option"

abbreviation no_finding :: "exn + check_result" where
  "no_finding \<equiv> Inr None"

definition block :: "string \<Rightarrow> string \<Rightarrow> exn + check_result" where
  "block c k = Inr (Some (Some (Blocker c k), None))"

definition warn :: "string \<Rightarrow> exn + check_result" where
  "warn c = Inr (Some (None, Some (Warning c None)))"

definition warn_code :: "string \<Rightarrow> string \<Rightarrow> exn + check_result" where
  "warn_code c k = Inr (Some (None, Some (Warning c (Some k))))"

section \<open>The evaluation context\<close>

record context_rec =
  account_id :: uuid
  broker_id :: string
  instrument_id :: "int option"
  c_side :: side
  qty :: decimal
  price :: "decimal option"
  symbol :: "string option"
  asset_class :: "string option"
  multiplier :: decimal
  first_notice_day :: "int option"
  position_effect :: "effect option"
  algo_strategy :: "string option"
  display_size :: "dec_text option"
  account_nlv_base :: "decimal option"
  notional :: "decimal option"

section \<open>Tables\<close>

record risk_limit =
  rl_scope_type :: string
  rl_scope_id :: "string option"
  rl_kind :: string
  rl_value :: decimal
  rl_warn_at :: "decimal option"
  rl_max_combo_loss :: "decimal option"
  rl_active :: bool

record position_row =
  p_account :: uuid
  p_instrument :: "int option"
  p_qty :: decimal
  p_avg_cost :: decimal
  p_multiplier :: decimal
  p_value_base :: decimal

record instrument_meta =
  m_qty_step :: "dec_text option"
  m_min_investment :: "dec_text option"
  m_max_leverage :: "dec_text option"

record instrument_row =
  i_id :: int
  i_meta :: "instrument_meta option"
  i_expiry :: "int option"
  i_exchange :: "string option"
  i_option_type :: "string option"
  i_strike :: "dec_text option"

record tax_row =
  tx_account :: uuid
  tx_class :: string
  tx_side :: string
  tx_track :: string
  tx_date :: int

record account_summary =
  nlv_currency_base :: decimal
  buying_power :: decimal
  day_trades_remaining :: int

datatype query =
    QKillSwitch | QLimit string "string option" string | QPnl | QExposure | QCash | QLongQty
  | QOptionMeta | QGreeks | QFxPosition | QInstrumentMeta | QCountry | QDisposals | QAlgo

record risk_env =
  e_limits :: "risk_limit list"
  e_kill :: "(uuid \<times> bool) list"
  e_pnl :: "(uuid \<times> decimal \<times> decimal \<times> decimal) list"
  e_positions :: "position_row list"
  e_instruments :: "instrument_row list"
  e_greeks :: "(int \<times> decimal option) list"
  e_countries :: "(uuid \<times> string option) list"
  e_tax :: "tax_row list"
  e_links :: "(string \<times> int) list"
  e_algos :: "(string \<times> string \<times> string) list"
  e_fault :: "query \<Rightarrow> exn option"
  e_cfg_kill :: "exn + bool"
  e_cfg_level :: "exn + int option"
  e_pdt :: "exn + int option"
  e_bp :: "exn + decimal"
  e_summary :: "exn + account_summary"
  e_preview :: "(exn + bool) \<times> decimal"
  e_today :: int
  e_today_in :: "string \<Rightarrow> exn + int"
  e_next_days :: "string \<Rightarrow> exn + int list"
  e_fx_now :: int
  e_crypto_now :: int

definition run_q :: "risk_env \<Rightarrow> query \<Rightarrow> 'a \<Rightarrow> exn + 'a" where
  "run_q env q x = (case e_fault env q of Some e \<Rightarrow> Inl e | None \<Rightarrow> Inr x)"

lemma run_q_Inr: "run_q env q x = Inr y \<longleftrightarrow> e_fault env q = None \<and> y = x"
  by (auto simp: run_q_def split: option.splits)

lemma run_q_ok [run_simps]: "e_fault env q = None \<Longrightarrow> run_q env q x = Inr x"
  by (simp add: run_q_def)

lemma run_q_fault [run_simps]: "e_fault env q = Some e \<Longrightarrow> run_q env q x = Inl e"
  by (simp add: run_q_def)

section \<open>Resolving a limit\<close>

definition limit_rows :: "risk_env \<Rightarrow> string \<Rightarrow> string option \<Rightarrow> string \<Rightarrow> risk_limit list" where
  "limit_rows env st sid kind =
     filter (\<lambda>l. rl_scope_type l = st \<and> rl_kind l = kind \<and> rl_active l \<and> rl_scope_id l = sid) (e_limits env)"

fun walk_scopes :: "risk_env \<Rightarrow> string \<Rightarrow> (string \<times> string option) list \<Rightarrow> exn + risk_limit option" where
  "walk_scopes env kind [] = Inr None"
| "walk_scopes env kind ((st, sid) # ss) =
     rbind (run_q env (QLimit st sid kind) (limit_rows env st sid kind)) (\<lambda>rows.
     rbind (scalar_one_or_none rows) (\<lambda>r.
       case r of Some l \<Rightarrow> Inr (Some l) | None \<Rightarrow> walk_scopes env kind ss))"

definition resolve_limit :: "risk_env \<Rightarrow> uuid \<Rightarrow> string \<Rightarrow> string \<Rightarrow> exn + risk_limit option" where
  "resolve_limit env acct broker kind =
     walk_scopes env kind [(''account'', Some acct), (''broker'', Some broker), (''global'', None)]"

lemma walk_scopes_sound:
  "walk_scopes env kind ss = Inr (Some l) \<Longrightarrow>
     l \<in> set (e_limits env) \<and> rl_active l \<and> rl_kind l = kind \<and> (rl_scope_type l, rl_scope_id l) \<in> set ss"
proof (induction ss)
  case Nil
  then show ?case by simp
next
  case (Cons p ss)
  obtain st sid where p: "p = (st, sid)" by (cases p)
  from Cons.prems p have fine: "e_fault env (QLimit st sid kind) = None"
    by (auto simp: run_q_def split: option.splits)
  show ?case
  proof (cases "limit_rows env st sid kind")
    case Nil
    with Cons p fine show ?thesis by (simp add: run_simps)
  next
    case (Cons r rs)
    with Cons.prems p fine have "rs = []" "l = r" by (cases rs; simp add: run_simps)+
    with Cons have "l \<in> set (limit_rows env st sid kind)" by simp
    with p show ?thesis by (simp add: limit_rows_def)
  qed
qed

text \<open>The first scope with a row wins.\<close>

lemma walk_scopes_first:
  assumes "\<And>q. e_fault env q = None"
    and "\<forall>(st, sid) \<in> set ss. limit_rows env st sid kind = []"
    and "limit_rows env st' sid' kind = [l]"
  shows "walk_scopes env kind (ss @ (st', sid') # rest) = Inr (Some l)"
  using assms(2) by (induction ss) (auto simp: run_simps assms)

lemma resolve_limit_sound:
  assumes "resolve_limit env acct broker kind = Inr (Some l)"
  shows "l \<in> set (e_limits env)" "rl_active l" "rl_kind l = kind"
  using walk_scopes_sound [OF assms [unfolded resolve_limit_def]] by blast+

end
