(* ===== verification/Risk_Gate.thy ===== *)
theory Risk_Gate
  imports Risk_Limits
begin

text \<open>
  The checks of \<open>RiskService\<close> in \<open>backend/app/services/risk_service.py\<close> and their aggregation
  by \<open>evaluate\<close>. Each check returns \<open>exn + check_result\<close>: \<open>Inl\<close> is the exception that leaves
  the method. \<open>fail_open\<close> is the \<open>except Exception: return None, None\<close> of the asset-class checks.
\<close>

definition fail_open :: "exn + check_result \<Rightarrow> exn + check_result" where
  "fail_open r = (case r of
       Inl CancelledError \<Rightarrow> Inl CancelledError
     | Inl _ \<Rightarrow> Inr (Some (None, None))
     | Inr x \<Rightarrow> Inr x)"

text \<open>Python's \<open>x or y\<close> on an optional \<open>Decimal\<close>: zero is falsy.\<close>

definition dec_or :: "decimal option \<Rightarrow> decimal \<Rightarrow> decimal" where
  "dec_or x y = (case x of Some v \<Rightarrow> if v \<noteq> 0 then v else y | None \<Rightarrow> y)"

definition truncate :: "decimal \<Rightarrow> int" where
  "truncate x = (if 0 \<le> x then \<lfloor>x\<rfloor> else - \<lfloor>- x\<rfloor>)"

definition ctx_notional :: "context_rec \<Rightarrow> decimal" where
  "ctx_notional ctx = dec_or (notional ctx) (qty ctx * dec_or (price ctx) 1)"

section \<open>Kill switches\<close>

definition check_account_kill_switch :: "risk_env \<Rightarrow> context_rec \<Rightarrow> exn + check_result" where
  "check_account_kill_switch env ctx =
     rbind (run_q env QKillSwitch (filter (\<lambda>(a, _). a = account_id ctx) (e_kill env))) (\<lambda>rows.
     rbind (scalar_one_or_none rows) (\<lambda>r.
       case r of
         Some (_, True) \<Rightarrow> block ''account_kill_switch'' ''account_kill_switch_enabled''
       | _ \<Rightarrow> no_finding))"

definition check_broker_kill_switch :: "risk_env \<Rightarrow> context_rec \<Rightarrow> exn + check_result" where
  "check_broker_kill_switch env ctx =
     rbind (e_cfg_kill env) (\<lambda>on.
       if on then block ''broker_kill_switch'' ''broker_kill_switch_enabled'' else no_finding)"

section \<open>Daily loss\<close>

definition STALENESS_WARN_SECONDS :: decimal where
  "STALENESS_WARN_SECONDS = 90"

definition check_max_daily_loss :: "risk_env \<Rightarrow> context_rec \<Rightarrow> exn + check_result" where
  "check_max_daily_loss env ctx =
     rbind (resolve_limit env (account_id ctx) (broker_id ctx) ''max_daily_loss_currency_base'') (\<lambda>cap.
     case cap of None \<Rightarrow> no_finding | Some cap \<Rightarrow>
     rbind (run_q env QPnl (List.find (\<lambda>(a, _). a = account_id ctx) (e_pnl env))) (\<lambda>row.
     case row of
       None \<Rightarrow> warn ''max_daily_loss_pnl_stale''
     | Some (_, realized, unrealized, staleness) \<Rightarrow>
         if STALENESS_WARN_SECONDS < staleness then warn ''max_daily_loss_pnl_stale''
         else
           let loss_today = - (realized + unrealized) in
           if rl_value cap \<le> loss_today then block ''max_daily_loss'' ''max_daily_loss_exceeded''
           else (case rl_warn_at cap of
                   Some w \<Rightarrow> if rl_value cap * w / 100 \<le> loss_today then warn ''max_daily_loss''
                             else no_finding
                 | None \<Rightarrow> no_finding)))"

section \<open>Concentration\<close>

definition exposure :: "risk_env \<Rightarrow> int \<Rightarrow> decimal" where
  "exposure env iid =
     sum_list (map (\<lambda>p. p_qty p * p_avg_cost p * p_multiplier p)
                   (filter (\<lambda>p. p_instrument p = Some iid) (e_positions env)))"

definition order_delta :: "context_rec \<Rightarrow> decimal" where
  "order_delta ctx =
     qty ctx * (case price ctx of Some p \<Rightarrow> p | None \<Rightarrow> 0) * (if c_side ctx = Buy then 1 else - 1)"

definition check_position_concentration :: "risk_env \<Rightarrow> context_rec \<Rightarrow> exn + check_result" where
  "check_position_concentration env ctx =
     (case instrument_id ctx of None \<Rightarrow> no_finding | Some iid \<Rightarrow>
     rbind (resolve_limit env (account_id ctx) (broker_id ctx) ''max_position_concentration_pct'') (\<lambda>cap.
     case cap of None \<Rightarrow> no_finding | Some cap \<Rightarrow>
     rbind (run_q env QExposure (exposure env iid)) (\<lambda>current.
     rbind (e_summary env) (\<lambda>summary.
       let nlv = nlv_currency_base summary in
       if nlv = 0 then no_finding
       else
         let post_pct = \<bar>current + order_delta ctx\<bar> / nlv * 100 in
         if rl_value cap \<le> post_pct
         then block ''position_concentration'' ''position_concentration_exceeded''
         else (case rl_warn_at cap of
                 Some w \<Rightarrow> if rl_value cap * w / 100 \<le> post_pct then warn ''position_concentration''
                           else no_finding
               | None \<Rightarrow> no_finding)))))"

section \<open>Buying power and day trades\<close>

definition check_buying_power :: "risk_env \<Rightarrow> context_rec \<Rightarrow> exn + check_result" where
  "check_buying_power env ctx =
     (if c_side ctx = Sell then no_finding else
     rbind (resolve_limit env (account_id ctx) (broker_id ctx) ''min_buying_power_buffer_pct'') (\<lambda>cap.
     case cap of None \<Rightarrow> no_finding | Some cap \<Rightarrow>
     (case price ctx of None \<Rightarrow> no_finding | Some p \<Rightarrow>
     let order_notional = qty ctx * p in
     rbind (e_summary env) (\<lambda>summary.
     case e_bp env of
       Inl e \<Rightarrow> if is_OSError e then warn ''buying_power'' else Inl e
     | Inr committed \<Rightarrow>
         let effective_bp = buying_power summary - committed in
         if effective_bp < order_notional then block ''buying_power'' ''buying_power_insufficient''
         else
           let remaining = effective_bp - order_notional;
               buffer_required = effective_bp * rl_value cap / 100 in
           if remaining < buffer_required then warn ''buying_power'' else no_finding))))"

definition check_pdt :: "risk_env \<Rightarrow> context_rec \<Rightarrow> exn + check_result" where
  "check_pdt env ctx =
     rbind (resolve_limit env (account_id ctx) (broker_id ctx) ''pdt_warn_remaining'') (\<lambda>cap.
     case cap of None \<Rightarrow> no_finding | Some cap \<Rightarrow>
     (case e_pdt env of
        Inl e \<Rightarrow> if is_OSError e then warn ''pdt'' else Inl e
      | Inr cached \<Rightarrow>
          rbind (case cached of Some n \<Rightarrow> Inr n
                 | None \<Rightarrow> rbind (e_summary env) (\<lambda>s. Inr (day_trades_remaining s))) (\<lambda>current.
          if current \<le> 0 then block ''pdt'' ''pdt_exhausted''
          else if current \<le> truncate (rl_value cap) then warn ''pdt''
          else no_finding)))"

section \<open>Margin preview\<close>

text \<open>\<open>asyncio.wait_for\<close>: an answer after the deadline is a \<open>TimeoutError\<close>.\<close>

definition wait_for :: "decimal \<Rightarrow> (exn + 'a) \<times> decimal \<Rightarrow> exn + 'a" where
  "wait_for timeout r = (if timeout < snd r then Inl TimeoutError else fst r)"

definition margin_timeout :: "eval_mode \<Rightarrow> decimal" where
  "margin_timeout mode = (if mode = Preview then 1 / 2 else 3)"

definition check_margin :: "risk_env \<Rightarrow> context_rec \<Rightarrow> eval_mode \<Rightarrow> exn + check_result" where
  "check_margin env ctx mode =
     (if symbol ctx = None \<or> asset_class ctx = None then
        (if mode = Preview then warn ''margin'' else block ''margin'' ''margin_check_unavailable'')
      else
        (case wait_for (margin_timeout mode) (e_preview env) of
           Inl AttributeError \<Rightarrow> warn ''margin''
         | Inl TimeoutError \<Rightarrow>
             if mode = Preview then warn ''margin'' else block ''margin'' ''margin_check_unavailable''
         | Inl RpcUnimplemented \<Rightarrow> warn ''margin''
         | Inl e \<Rightarrow> Inl e
         | Inr accepted \<Rightarrow> if accepted then no_finding else block ''margin'' ''margin_rejected_by_broker''))"

section \<open>Algo orders\<close>

definition DISPLAY_ALGOS :: "string list" where
  "DISPLAY_ALGOS = [''ICEBERG'', ''RESERVE'', ''DARK_ICE'']"

definition check_algo_capability :: "risk_env \<Rightarrow> context_rec \<Rightarrow> exn + check_result" where
  "check_algo_capability env ctx =
     (case algo_strategy ctx of None \<Rightarrow> no_finding | Some strategy \<Rightarrow>
     (case asset_class ctx of None \<Rightarrow> no_finding | Some ac \<Rightarrow>
     (case run_q env QAlgo (filter (\<lambda>(b, a, _). b = broker_id ctx \<and> a = ac) (e_algos env)) of
        Inl CancelledError \<Rightarrow> Inl CancelledError
      | Inl _ \<Rightarrow> no_finding
      | Inr rows \<Rightarrow>
          if strategy \<in> set (map (\<lambda>(_, _, s). s) rows) then no_finding
          else block ''algo_capability'' ''unsupported_algo_strategy'')))"

definition check_iceberg_display_size :: "risk_env \<Rightarrow> context_rec \<Rightarrow> exn + check_result" where
  "check_iceberg_display_size env ctx =
     (case algo_strategy ctx of None \<Rightarrow> no_finding | Some strategy \<Rightarrow>
     if strategy \<notin> set DISPLAY_ALGOS then no_finding else
     (case display_size ctx of
        None \<Rightarrow> block ''iceberg_display_size'' ''display_size_required''
      | Some text \<Rightarrow>
        (case to_decimal text of
           Inl _ \<Rightarrow> block ''iceberg_display_size'' ''display_size_malformed''
         | Inr d \<Rightarrow>
             if d \<le> 0 then block ''iceberg_display_size'' ''display_size_nonpositive''
             else if qty ctx \<le> d then block ''iceberg_display_size'' ''display_size_gte_qty''
             else if d < 1 then warn_code ''iceberg_display_size'' ''display_size_sub_lot''
             else no_finding)))"

end
