(* ===== verification/Risk_Assets.thy ===== *)
theory Risk_Assets
  imports Risk_Gate
begin

text \<open>
  The asset-class checks of \<open>RiskService\<close> that run before the concurrent ones
  (\<open>_check_options_exposure\<close>, \<open>_check_futures_exposure\<close>, \<open>_check_forex_exposure\<close>,
  \<open>_check_crypto_exposure\<close>, \<open>_check_bond_exposure\<close>, \<open>_check_fund_exposure\<close>,
  \<open>_check_cfd_exposure\<close>), the bed-and-breakfast warning and the combo envelope check.
\<close>

section \<open>Options\<close>

definition sum_where :: "(position_row \<Rightarrow> bool) \<Rightarrow> (position_row \<Rightarrow> decimal) \<Rightarrow> risk_env \<Rightarrow> decimal" where
  "sum_where P f env = sum_list (map f (filter P (e_positions env)))"

definition get_existing_long_position :: "risk_env \<Rightarrow> context_rec \<Rightarrow> exn + decimal" where
  "get_existing_long_position env ctx =
     (case instrument_id ctx of None \<Rightarrow> Inr 0
      | Some iid \<Rightarrow> run_q env QLongQty (sum_where (\<lambda>p. p_instrument p = Some iid \<and> 0 < p_qty p) p_qty env))"

type_synonym option_meta = "int option \<times> string option \<times> string option \<times> dec_text option"

text \<open>\<open>exchange or None\<close>, \<open>option_type or None\<close>, \<open>strike_str or None\<close>: the empty text is dropped.\<close>

definition nonempty :: "string option \<Rightarrow> string option" where
  "nonempty s = (if s = Some [] then None else s)"

definition get_option_meta :: "risk_env \<Rightarrow> context_rec \<Rightarrow> exn + option_meta" where
  "get_option_meta env ctx =
     (case instrument_id ctx of None \<Rightarrow> Inr (None, None, None, None)
      | Some iid \<Rightarrow>
          if asset_class ctx \<noteq> Some ''OPTION'' then Inr (None, None, None, None)
          else
            rbind (run_q env QOptionMeta (List.find (\<lambda>i. i_id i = iid) (e_instruments env))) (\<lambda>row.
            case row of
              None \<Rightarrow> Inr (None, None, None, None)
            | Some i \<Rightarrow> Inr (i_expiry i, nonempty (i_exchange i), nonempty (i_option_type i),
                             if i_strike i = Some DEmpty then None else i_strike i)))"

definition cash_secured_put_check :: "risk_env \<Rightarrow> context_rec \<Rightarrow> dec_text \<Rightarrow> exn + check_result" where
  "cash_secured_put_check env ctx strike_str =
     rbind (to_decimal strike_str) (\<lambda>strike.
     let required_cash = strike * qty ctx * multiplier ctx * (105 / 100) in
     rbind (run_q env QCash
              (sum_where (\<lambda>p. p_account p = account_id ctx \<and> p_instrument p = None) p_value_base env)) (\<lambda>cash.
     if cash < required_cash
     then block ''options_exposure'' ''cash_secured_put_insufficient_reserve''
     else no_finding))"

definition option_delta :: "risk_env \<Rightarrow> context_rec \<Rightarrow> exn + decimal option" where
  "option_delta env ctx =
     (case instrument_id ctx of None \<Rightarrow> Inr None
      | Some iid \<Rightarrow>
          (case run_q env QGreeks (List.find (\<lambda>(i, _). i = iid) (e_greeks env)) of
             Inl CancelledError \<Rightarrow> Inl CancelledError
           | Inl _ \<Rightarrow> Inr None
           | Inr None \<Rightarrow> Inr None
           | Inr (Some (_, d)) \<Rightarrow> Inr d))"

definition expiry_check :: "risk_env \<Rightarrow> context_rec \<Rightarrow> bool \<Rightarrow> string \<Rightarrow> int \<Rightarrow> exn + check_result" where
  "expiry_check env ctx is_sto exchange expiry =
     (case e_today_in env exchange of
        Inl (ValueError _) \<Rightarrow> no_finding
      | Inl e \<Rightarrow> Inl e
      | Inr today \<Rightarrow>
          if expiry < today then block ''options_exposure'' ''option_cutoff_passed''
          else if today = expiry then warn ''options_exposure''
          else if is_sto then
            (let within_5_days = (case e_next_days env exchange of
                   Inr days \<Rightarrow> expiry \<in> set days | Inl _ \<Rightarrow> False)
             in if within_5_days then
                  rbind (option_delta env ctx) (\<lambda>delta.
                    case delta of
                      None \<Rightarrow> warn ''options_exposure''
                    | Some d \<Rightarrow> if 7 / 10 \<le> \<bar>d\<bar> then warn ''options_exposure'' else no_finding)
                else no_finding)
          else no_finding)"

definition check_options_exposure :: "risk_env \<Rightarrow> context_rec \<Rightarrow> exn + check_result" where
  "check_options_exposure env ctx =
     rbind (e_cfg_level env) (\<lambda>lv.
     let trading_level = (case lv of None \<Rightarrow> 1 | Some l \<Rightarrow> l);
         is_sto = (c_side ctx = Sell \<and> position_effect ctx = Some Open) in
     rbind (if is_sto then
              rbind (get_existing_long_position env ctx) (\<lambda>cover.
                if cover < qty ctx \<and> trading_level < 3
                then block ''options_exposure'' ''naked_short_not_permitted'' else no_finding)
            else no_finding) (\<lambda>r1.
     if r1 \<noteq> None then Inr r1 else
     rbind (get_option_meta env ctx) (\<lambda>(expiry, exchange, option_type, strike_str).
     let csp = (if is_sto \<and> option_type = Some ''PUT'' \<and> trading_level = 2 \<and> strike_str \<noteq> None
                then cash_secured_put_check env ctx (the strike_str) else no_finding) in
     rbind (case csp of Inl CancelledError \<Rightarrow> Inl CancelledError | Inl _ \<Rightarrow> no_finding | Inr r \<Rightarrow> Inr r) (\<lambda>r2.
     if r2 \<noteq> None then Inr r2 else
     (case expiry of None \<Rightarrow> no_finding | Some ex \<Rightarrow>
     (case exchange of None \<Rightarrow> no_finding | Some xch \<Rightarrow> expiry_check env ctx is_sto xch ex))))))"

section \<open>Futures, FX, crypto\<close>

definition check_futures_exposure :: "risk_env \<Rightarrow> context_rec \<Rightarrow> exn + check_result" where
  "check_futures_exposure env ctx =
     (case first_notice_day ctx of
        Some fnd \<Rightarrow>
          if position_effect ctx \<noteq> Some Close \<and> fnd \<le> e_today env
          then block ''futures_physical_delivery'' ''futures_physical_delivery_block''
          else Inr (Some (None, None))
      | None \<Rightarrow> Inr (Some (None, None)))"

definition check_forex_exposure :: "risk_env \<Rightarrow> context_rec \<Rightarrow> exn + check_result" where
  "check_forex_exposure env ctx = fail_open
     (if \<not> is_forex_session_open (e_fx_now env) then block ''forex_session'' ''session_closed''
      else
        rbind (resolve_limit env (account_id ctx) (broker_id ctx) ''forex_max_notional_per_trade'') (\<lambda>lm.
        if (case lm of Some l \<Rightarrow> rl_value l < ctx_notional ctx | None \<Rightarrow> False)
        then block ''forex_notional'' ''forex_notional_exceeded''
        else
          rbind (run_q env QFxPosition
                  (filter (\<lambda>p. p_account p = account_id ctx \<and> instrument_id ctx \<noteq> None
                             \<and> p_instrument p = instrument_id ctx \<and> p_qty p \<noteq> 0) (e_positions env))) (\<lambda>rows.
          if rows \<noteq> [] then warn ''forex_consolidation'' else Inr (Some (None, None)))))"

definition instrument_meta_of :: "risk_env \<Rightarrow> int \<Rightarrow> exn + instrument_meta option" where
  "instrument_meta_of env iid =
     run_q env QInstrumentMeta
       (case List.find (\<lambda>i. i_id i = iid) (e_instruments env) of Some i \<Rightarrow> i_meta i | None \<Rightarrow> None)"

definition is_multiple :: "decimal \<Rightarrow> decimal \<Rightarrow> bool" where
  "is_multiple q step \<longleftrightarrow> of_int \<lfloor>q / step\<rfloor> = q / step"

text \<open>The gate calls \<open>is_crypto_session_open()\<close> without maintenance windows.\<close>

definition check_crypto_exposure :: "risk_env \<Rightarrow> context_rec \<Rightarrow> exn + check_result" where
  "check_crypto_exposure env ctx = fail_open
     (if \<not> is_crypto_session_open (e_crypto_now env) [] then block ''crypto_session'' ''session_closed''
      else
        rbind (case instrument_id ctx of None \<Rightarrow> no_finding | Some iid \<Rightarrow>
               rbind (instrument_meta_of env iid) (\<lambda>meta.
               case Option.bind meta m_qty_step of
                 None \<Rightarrow> no_finding
               | Some DEmpty \<Rightarrow> no_finding
               | Some text \<Rightarrow> rbind (to_decimal text) (\<lambda>step.
                   if 0 < step \<and> \<not> is_multiple (qty ctx) step
                   then block ''crypto_qty_precision'' ''invalid_qty_precision'' else no_finding))) (\<lambda>r.
        if r \<noteq> None then Inr r else
        (case account_nlv_base ctx of
           Some nlv \<Rightarrow>
             if 0 < nlv \<and> 20 / 100 < qty ctx * dec_or (price ctx) 1 / nlv
             then warn ''crypto_concentration'' else Inr (Some (None, None))
         | None \<Rightarrow> Inr (Some (None, None)))))"

section \<open>Bonds, funds, CFDs\<close>

definition over_limit :: "risk_limit option \<Rightarrow> decimal \<Rightarrow> bool" where
  "over_limit lm x = (case lm of Some l \<Rightarrow> rl_value l < x | None \<Rightarrow> False)"

definition concentration_warning ::
  "risk_env \<Rightarrow> context_rec \<Rightarrow> string \<Rightarrow> string \<Rightarrow> exn + check_result" where
  "concentration_warning env ctx kind check =
     rbind (resolve_limit env (account_id ctx) (broker_id ctx) kind) (\<lambda>conc.
     if (case account_nlv_base ctx of
           Some nlv \<Rightarrow> 0 < nlv \<and> over_limit conc (ctx_notional ctx / nlv * 100) | None \<Rightarrow> False)
     then warn check else Inr (Some (None, None)))"

definition check_bond_exposure :: "risk_env \<Rightarrow> context_rec \<Rightarrow> exn + check_result" where
  "check_bond_exposure env ctx = fail_open
     (rbind (resolve_limit env (account_id ctx) (broker_id ctx) ''bond_max_notional_per_trade'') (\<lambda>lm.
      if over_limit lm (ctx_notional ctx) then block ''bond_notional'' ''bond_notional_exceeded''
      else concentration_warning env ctx ''bond_max_concentration_pct'' ''bond_concentration''))"

definition check_fund_exposure :: "risk_env \<Rightarrow> context_rec \<Rightarrow> exn + check_result" where
  "check_fund_exposure env ctx = fail_open
     (rbind (resolve_limit env (account_id ctx) (broker_id ctx) ''fund_max_notional_per_trade'') (\<lambda>lm.
      if over_limit lm (ctx_notional ctx) then block ''fund_notional'' ''fund_notional_exceeded''
      else
        rbind (case instrument_id ctx of None \<Rightarrow> no_finding | Some iid \<Rightarrow>
               rbind (instrument_meta_of env iid) (\<lambda>meta.
               case Option.bind meta m_min_investment of
                 None \<Rightarrow> no_finding
               | Some text \<Rightarrow> rbind (to_decimal text) (\<lambda>min_inv.
                   if qty ctx < min_inv
                   then block ''fund_min_investment'' ''fund_below_min_investment'' else no_finding))) (\<lambda>r.
        if r \<noteq> None then Inr r
        else concentration_warning env ctx ''fund_max_concentration_pct'' ''fund_concentration'')))"

text \<open>
  \<open>str()\<close> of a \<open>NUMERIC(20,8)\<close> value, as \<open>Decimal\<close> prints it: eight decimals, scientific
  below \<open>1e-6\<close>.
\<close>

fun digits :: "nat \<Rightarrow> string" where
  "digits n = (if n < 10 then [char_of (48 + n)] else digits (n div 10) @ [char_of (48 + n mod 10)])"

declare digits.simps [simp del]

definition dec8_str :: "decimal \<Rightarrow> string" where
  "dec8_str x =
     (let n = nat (round_half_even (\<bar>x\<bar> * 100000000)); sign = (if x < 0 then ''-'' else []) in
      sign @ (if n < 10 then digits n @ ''E-8''
              else if n < 100 then digits (n div 10) @ CHR ''.'' # digits (n mod 10) @ ''E-7''
              else digits (n div 100000000) @ CHR ''.'' # drop 1 (digits (100000000 + n mod 100000000))))"

definition allowed_countries :: "decimal \<Rightarrow> string list" where
  "allowed_countries v =
     map (\<lambda>c. upper (strip c)) (filter (\<lambda>c. strip c \<noteq> []) (split_on (CHR '','') (dec8_str v)))"

definition check_cfd_country :: "risk_env \<Rightarrow> context_rec \<Rightarrow> exn + check_result" where
  "check_cfd_country env ctx =
     rbind (run_q env QCountry
              (map snd (filter (\<lambda>(a, _). a = account_id ctx) (e_countries env)))) (\<lambda>rows.
     let country = (case rows of c # _ \<Rightarrow> c | [] \<Rightarrow> None) in
     rbind (resolve_limit env (account_id ctx) (broker_id ctx) ''cfd_allowed_countries'') (\<lambda>row.
     case (row, country) of
       (Some l, Some c) \<Rightarrow>
         if allowed_countries (rl_value l) \<noteq> [] \<and> upper c \<notin> set (allowed_countries (rl_value l))
         then block ''cfd_country_restriction'' ''cfd_country_not_allowed'' else no_finding
     | _ \<Rightarrow> no_finding))"

definition check_cfd_leverage :: "risk_env \<Rightarrow> context_rec \<Rightarrow> exn + check_result" where
  "check_cfd_leverage env ctx =
     (case instrument_id ctx of None \<Rightarrow> no_finding | Some iid \<Rightarrow>
     rbind (instrument_meta_of env iid) (\<lambda>meta.
     case Option.bind meta m_max_leverage of
       None \<Rightarrow> no_finding
     | Some DEmpty \<Rightarrow> no_finding
     | Some text \<Rightarrow> rbind (to_decimal text) (\<lambda>lev.
         rbind (resolve_limit env (account_id ctx) (broker_id ctx) ''cfd_max_leverage'') (\<lambda>lm.
         if over_limit lm lev then block ''cfd_leverage'' ''cfd_leverage_exceeded'' else no_finding))))"

definition check_cfd_exposure :: "risk_env \<Rightarrow> context_rec \<Rightarrow> exn + check_result" where
  "check_cfd_exposure env ctx = fail_open
     (rbind (resolve_limit env (account_id ctx) (broker_id ctx) ''cfd_max_notional_per_trade'') (\<lambda>lm.
      if over_limit lm (ctx_notional ctx) then block ''cfd_notional'' ''cfd_notional_exceeded''
      else
        rbind (check_cfd_country env ctx) (\<lambda>r.
        if r \<noteq> None then Inr r else
        rbind (check_cfd_leverage env ctx) (\<lambda>r.
        if r \<noteq> None then Inr r
        else concentration_warning env ctx ''cfd_max_concentration_pct'' ''cfd_concentration''))))"

section \<open>Bed and breakfast, combos\<close>

definition check_bb_warning :: "risk_env \<Rightarrow> context_rec \<Rightarrow> exn + check_result" where
  "check_bb_warning env ctx =
     (if c_side ctx \<noteq> Buy then no_finding else
     (case instrument_id ctx of None \<Rightarrow> no_finding | Some iid \<Rightarrow>
     if asset_class ctx \<in> {Some ''FUTURE'', Some ''FUT'', Some ''CFD''} then no_finding else
     (case run_q env QDisposals
             (filter (\<lambda>t. tx_account t = account_id ctx \<and> (tx_class t, iid) \<in> set (e_links env)
                        \<and> tx_side t = ''sell'' \<and> tx_track t = ''pool''
                        \<and> e_today env - 30 \<le> tx_date t \<and> tx_date t < e_today env) (e_tax env)) of
        Inl CancelledError \<Rightarrow> Inl CancelledError
      | Inl _ \<Rightarrow> no_finding
      | Inr [] \<Rightarrow> no_finding
      | Inr _ \<Rightarrow> warn_code ''bb_warning'' ''bb_30_day_match'')))"

text \<open>
  The limits row of the ORM has no \<open>naked_margin_enabled\<close>, so \<open>getattr\<close> falls back to
  \<open>True\<close>; \<open>RiskService\<close> has no \<open>_limits\<close> either.
\<close>

definition check_combo_envelope :: "risk_env \<Rightarrow> string \<Rightarrow> decimal option \<Rightarrow> exn + check_result" where
  "check_combo_envelope env acct max_loss =
     (case parse_uuid acct of Inl _ \<Rightarrow> no_finding | Inr u \<Rightarrow>
      rbind (resolve_limit env u [] ''max_daily_loss_currency_base'') (\<lambda>limits.
      case max_loss of
        None \<Rightarrow> no_finding
      | Some ml \<Rightarrow>
          (case Option.bind limits rl_max_combo_loss of
             None \<Rightarrow> no_finding
           | Some cap \<Rightarrow>
               if cap < ml * 100 then block ''combo_max_loss'' ''combo_max_loss_exceeded''
               else no_finding)))"

end
