(* ===== verification/Risk_Evaluate.thy ===== *)
theory Risk_Evaluate
  imports Risk_Assets
begin

text \<open>
  \<open>RiskService.evaluate\<close> and \<open>evaluate_combo\<close>: the pre-check of the asset class, the eight
  concurrent checks and the margin check gathered with their exceptions, the bed-and-breakfast
  warning, and the precedence of the final verdict; and what the gate guarantees.
\<close>

section \<open>Aggregation\<close>

fun collect :: "(string \<times> (exn + check_result)) list \<Rightarrow> blocker list \<times> warning list" where
  "collect [] = ([], [])"
| "collect ((name, r) # rs) =
     (let (bs, ws) = collect rs in
      case r of
        Inl AttributeError \<Rightarrow> (bs, Warning ''evaluator'' None # ws)
      | Inl _ \<Rightarrow> (Blocker ''evaluator'' ''evaluator_error'' # bs, ws)
      | Inr None \<Rightarrow> (bs, ws)
      | Inr (Some (b, w)) \<Rightarrow>
          ((case b of Some x \<Rightarrow> x # bs | None \<Rightarrow> bs), (case w of Some x \<Rightarrow> x # ws | None \<Rightarrow> ws)))"

definition verdict_of :: "blocker list \<Rightarrow> warning list \<Rightarrow> verdict" where
  "verdict_of bs ws =
     \<lparr>final_verdict = (if bs \<noteq> [] then Block else if ws \<noteq> [] then Warn else Allow),
      blockers = bs, warnings = ws\<rparr>"

definition pre_check :: "risk_env \<Rightarrow> context_rec \<Rightarrow> exn + check_result" where
  "pre_check env ctx =
     (if asset_class ctx = Some ''OPTION'' then check_options_exposure env ctx
      else if asset_class ctx = Some ''FUTURE'' then check_futures_exposure env ctx
      else if asset_class ctx = Some ''FOREX'' then check_forex_exposure env ctx
      else if asset_class ctx = Some ''CRYPTO'' then check_crypto_exposure env ctx
      else if asset_class ctx = Some ''BOND'' then check_bond_exposure env ctx
      else if asset_class ctx = Some ''MUTUAL_FUND'' then check_fund_exposure env ctx
      else if asset_class ctx = Some ''CFD'' then check_cfd_exposure env ctx
      else no_finding)"

definition named_results ::
  "risk_env \<Rightarrow> context_rec \<Rightarrow> eval_mode \<Rightarrow> (string \<times> (exn + check_result)) list" where
  "named_results env ctx mode =
     [(''account_kill_switch'', check_account_kill_switch env ctx),
      (''broker_kill_switch'', check_broker_kill_switch env ctx),
      (''max_daily_loss'', check_max_daily_loss env ctx),
      (''pdt'', check_pdt env ctx),
      (''position_concentration'', check_position_concentration env ctx),
      (''buying_power'', check_buying_power env ctx),
      (''algo_capability'', check_algo_capability env ctx),
      (''iceberg_display_size'', check_iceberg_display_size env ctx),
      (''margin'', check_margin env ctx mode)]"

definition or_none :: "check_result \<Rightarrow> blocker option \<times> warning option" where
  "or_none r = (case r of Some bw \<Rightarrow> bw | None \<Rightarrow> (None, None))"

definition evaluate :: "risk_env \<Rightarrow> context_rec \<Rightarrow> eval_mode \<Rightarrow> exn + verdict" where
  "evaluate env ctx mode =
     rbind (pre_check env ctx) (\<lambda>pre.
     case or_none pre of
       (Some b, _) \<Rightarrow> Inr \<lparr>final_verdict = Block, blockers = [b], warnings = []\<rparr>
     | (None, pre_warning) \<Rightarrow>
         let (bs, ws) = collect (named_results env ctx mode);
             ws' = (case pre_warning of Some w \<Rightarrow> w # ws | None \<Rightarrow> ws)
         in rbind (check_bb_warning env ctx) (\<lambda>bb.
              Inr (verdict_of bs (ws' @ (case snd (or_none bb) of Some w \<Rightarrow> [w] | None \<Rightarrow> [])))))"

definition evaluate_combo ::
  "risk_env \<Rightarrow> string \<Rightarrow> decimal option \<Rightarrow> exn + verdict" where
  "evaluate_combo env acct max_loss =
     rbind (check_combo_envelope env acct max_loss) (\<lambda>r.
     let (b, w) = or_none r
     in Inr (verdict_of (case b of Some x \<Rightarrow> [x] | None \<Rightarrow> []) (case w of Some x \<Rightarrow> [x] | None \<Rightarrow> [])))"

section \<open>What the aggregation promises\<close>

definition well_formed :: "verdict \<Rightarrow> bool" where
  "well_formed v \<longleftrightarrow>
     final_verdict v = (if blockers v \<noteq> [] then Block else if warnings v \<noteq> [] then Warn else Allow)"

lemma verdict_of_simps [simp]:
  "blockers (verdict_of bs ws) = bs" "warnings (verdict_of bs ws) = ws"
  "final_verdict (verdict_of bs ws) = Block \<longleftrightarrow> bs \<noteq> []"
  "final_verdict (verdict_of bs ws) = Allow \<longleftrightarrow> bs = [] \<and> ws = []"
  "well_formed (verdict_of bs ws)"
  by (simp_all add: verdict_of_def well_formed_def)

text \<open>A result that must end up among the blockers.\<close>

fun is_blocking :: "exn + check_result \<Rightarrow> bool" where
  "is_blocking (Inl e) \<longleftrightarrow> e \<noteq> AttributeError"
| "is_blocking (Inr (Some (Some b, w))) \<longleftrightarrow> True"
| "is_blocking (Inr _) \<longleftrightarrow> False"

lemma is_blocking_block [simp]: "is_blocking (block c k)"
  by (simp add: block_def)

lemma not_blocking_warn [simp]: "\<not> is_blocking (warn c)" "\<not> is_blocking (warn_code c k)"
  by (simp_all add: warn_def warn_code_def)

lemma is_blocking_Inr: "is_blocking (Inr r) \<longleftrightarrow> (\<exists>b w. r = Some (Some b, w))"
  by (cases "Inr r :: exn + check_result" rule: is_blocking.cases) auto

lemma collect_blocks: "fst (collect rs) \<noteq> [] \<longleftrightarrow> (\<exists>(n, r) \<in> set rs. is_blocking r)"
proof (induction rs)
  case Nil
  then show ?case by simp
next
  case (Cons p rs)
  obtain n r where p: "p = (n, r)" by (cases p)
  obtain bs ws where c: "collect rs = (bs, ws)" by (cases "collect rs")
  have "fst (collect (p # rs)) \<noteq> [] \<longleftrightarrow> bs \<noteq> [] \<or> is_blocking r"
    using p c by (cases r rule: is_blocking.cases) (auto split: exn.splits option.splits)
  with Cons p c show ?case by auto
qed

lemma evaluate_cases:
  assumes "evaluate env ctx mode = Inr v"
  obtains (pre) b w where "pre_check env ctx = Inr (Some (Some b, w))"
      "v = \<lparr>final_verdict = Block, blockers = [b], warnings = []\<rparr>"
  | (full) pre ws where "pre_check env ctx = Inr pre" "fst (or_none pre) = None"
      "v = verdict_of (fst (collect (named_results env ctx mode))) ws"
proof -
  from assms obtain pre0 where p: "pre_check env ctx = Inr pre0"
    by (auto simp: evaluate_def rbind_Inr_iff)
  obtain b0 w0 where o: "or_none pre0 = (b0, w0)" by (cases "or_none pre0")
  show thesis
  proof (cases b0)
    case (Some b)
    with o have "pre0 = Some (Some b, w0)" by (simp add: or_none_def split: option.splits)
    with assms p Some o pre show thesis by (simp add: evaluate_def)
  next
    case None
    with assms p o full [OF p] show thesis
      by (auto simp: evaluate_def rbind_Inr_iff Let_def split: prod.splits)
  qed
qed

lemma evaluate_blocks_if:
  assumes "evaluate env ctx mode = Inr v" and "(n, r) \<in> set (named_results env ctx mode)"
    and "is_blocking r"
  shows "final_verdict v = Block"
  using assms(1)
proof (cases rule: evaluate_cases)
  case (full pre ws)
  have "fst (collect (named_results env ctx mode)) \<noteq> []"
    using assms(2,3) collect_blocks by blast
  with full show ?thesis by simp
qed simp

lemma evaluate_not_blocked:
  assumes "evaluate env ctx mode = Inr v" and "final_verdict v \<noteq> Block"
    and "(n, r) \<in> set (named_results env ctx mode)"
  shows "\<not> is_blocking r"
  using assms evaluate_blocks_if by blast

lemma evaluate_returns:
  assumes "pre_check env ctx = Inr pre" and "check_bb_warning env ctx = Inr bb"
  shows "\<exists>v. evaluate env ctx mode = Inr v"
  using assms
  by (cases "or_none pre"; cases "fst (or_none pre)"; cases "collect (named_results env ctx mode)")
    (auto simp: evaluate_def Let_def)

end
