(* ===== verification/Risk_Guarantees.thy ===== *)
theory Risk_Guarantees
  imports Risk_Evaluate
begin

text \<open>
  What \<open>RiskService.evaluate\<close> guarantees to the order path, as properties over the whole gate,
  and the places where a check says less than its name.
\<close>

section \<open>A concrete environment\<close>

definition demo_env :: risk_env where
  "demo_env = \<lparr>e_limits = [], e_kill = [], e_pnl = [], e_positions = [], e_instruments = [], e_greeks = [],
     e_countries = [], e_tax = [], e_links = [], e_algos = [], e_fault = (\<lambda>_. None),
     e_cfg_kill = Inr False, e_cfg_level = Inr None, e_pdt = Inr (Some 3), e_bp = Inr 0,
     e_summary = Inr \<lparr>nlv_currency_base = 100000, buying_power = 5000, day_trades_remaining = 3\<rparr>,
     e_preview = (Inr True, 0), e_today = 20000, e_today_in = (\<lambda>_. Inr 20000), e_next_days = (\<lambda>_. Inr []),
     e_fx_now = 0, e_crypto_now = 0\<rparr>"

definition demo_ctx :: context_rec where
  "demo_ctx = \<lparr>account_id = ''a1'', broker_id = ''ibkr'', instrument_id = None, c_side = Buy, qty = 10,
     price = Some 20, symbol = Some ''X'', asset_class = Some ''STOCK'', multiplier = 1,
     first_notice_day = None, position_effect = None, algo_strategy = None, display_size = None,
     account_nlv_base = None, notional = None\<rparr>"

definition demo_limit :: "string \<Rightarrow> string option \<Rightarrow> string \<Rightarrow> decimal \<Rightarrow> risk_limit" where
  "demo_limit st sid kind v = \<lparr>rl_scope_type = st, rl_scope_id = sid, rl_kind = kind, rl_value = v,
     rl_warn_at = None, rl_max_combo_loss = None, rl_active = True\<rparr>"

lemmas gate_defs = evaluate_def pre_check_def or_none_def named_results_def verdict_of_def
  check_account_kill_switch_def check_broker_kill_switch_def check_max_daily_loss_def check_pdt_def
  check_position_concentration_def check_buying_power_def check_algo_capability_def
  check_iceberg_display_size_def check_margin_def check_bb_warning_def
  resolve_limit_def limit_rows_def wait_for_def margin_timeout_def block_def warn_def warn_code_def run_q_def

lemmas demo_defs = demo_env_def demo_ctx_def demo_limit_def

text \<open>The checks by their position in the gather.\<close>

lemma results_member [simp]:
  "(''account_kill_switch'', check_account_kill_switch env ctx) \<in> set (named_results env ctx mode)"
  "(''max_daily_loss'', check_max_daily_loss env ctx) \<in> set (named_results env ctx mode)"
  "(''pdt'', check_pdt env ctx) \<in> set (named_results env ctx mode)"
  "(''buying_power'', check_buying_power env ctx) \<in> set (named_results env ctx mode)"
  "(''iceberg_display_size'', check_iceberg_display_size env ctx) \<in> set (named_results env ctx mode)"
  "(''margin'', check_margin env ctx mode) \<in> set (named_results env ctx mode)"
  by (simp_all add: named_results_def)

section \<open>The verdict\<close>



text \<open>C6: while the kill switch of the account is on, no evaluation of an order of that account ends in
  anything but a block, whatever the other checks say.\<close>

theorem kill_switch_blocks:
  assumes "evaluate env ctx mode = Inr v"
    and "filter (\<lambda>(a, _). a = account_id ctx) (e_kill env) = [(account_id ctx, True)]"
    and "e_fault env QKillSwitch \<noteq> Some AttributeError"
  shows "final_verdict v = Block"
proof (rule evaluate_blocks_if [OF assms(1) results_member(1)])
  show "is_blocking (check_account_kill_switch env ctx)"
    using assms(3) by (cases "e_fault env QKillSwitch")
      (auto simp: check_account_kill_switch_def run_q_def assms(2) block_def)
qed

theorem kill_switch_blocks_witness:
  "\<exists>v. evaluate (demo_env\<lparr>e_kill := [(''a1'', True)]\<rparr>) demo_ctx Place_Order = Inr v \<and> final_verdict v = Block"
proof -
  obtain v where v: "evaluate (demo_env\<lparr>e_kill := [(''a1'', True)]\<rparr>) demo_ctx Place_Order = Inr v"
    by (simp add: gate_defs demo_defs)
  from kill_switch_blocks [OF v] v show ?thesis by (simp add: demo_defs)
qed

text \<open>The gate fails closed: when any of the gathered checks raises anything but an \<open>AttributeError\<close>, a verdict
  that is returned blocks.\<close>

theorem raising_check_blocks:
  assumes "evaluate env ctx mode = Inr v" and "(n, Inl e) \<in> set (named_results env ctx mode)"
    and "e \<noteq> AttributeError"
  shows "final_verdict v = Block"
  using evaluate_blocks_if [OF assms(1,2)] assms(3) by simp

theorem raising_check_blocks_witness:
  "\<exists>v. evaluate (demo_env\<lparr>e_cfg_kill := Inl RedisError\<rparr>) demo_ctx Place_Order = Inr v \<and> final_verdict v = Block"
proof -
  let ?e = "demo_env\<lparr>e_cfg_kill := Inl RedisError\<rparr>"
  obtain v where v: "evaluate ?e demo_ctx Place_Order = Inr v"
    by (simp add: gate_defs demo_defs)
  have "(''broker_kill_switch'', Inl RedisError) \<in> set (named_results ?e demo_ctx Place_Order)"
    by (simp add: named_results_def check_broker_kill_switch_def)
  from raising_check_blocks [OF v this] v show ?thesis by simp
qed

text \<open>A margin preview that takes longer than three seconds blocks a placement or a modification, and is only
  a warning for a preview, where half a second is already too long.\<close>

theorem slow_margin_preview:
  assumes "3 < snd (e_preview env)" and "symbol ctx \<noteq> None" and "asset_class ctx \<noteq> None"
    and "mode \<noteq> Preview" and "evaluate env ctx mode = Inr v"
  shows "final_verdict v = Block \<and> check_margin env ctx Preview = warn ''margin''"
proof
  have "check_margin env ctx mode = block ''margin'' ''margin_check_unavailable''"
    using assms by (auto simp: check_margin_def wait_for_def margin_timeout_def)
  then show "final_verdict v = Block"
    using evaluate_blocks_if [OF assms(5) results_member(6)] by simp
  show "check_margin env ctx Preview = warn ''margin''"
    using assms by (auto simp: check_margin_def wait_for_def margin_timeout_def)
qed

theorem slow_margin_preview_witness:
  "\<exists>v. evaluate (demo_env\<lparr>e_preview := (Inr True, 4)\<rparr>) demo_ctx Place_Order = Inr v \<and> final_verdict v = Block"
proof -
  let ?e = "demo_env\<lparr>e_preview := (Inr True, 4)\<rparr>"
  obtain v where v: "evaluate ?e demo_ctx Place_Order = Inr v"
    by (simp add: gate_defs demo_defs)
  have "final_verdict v = Block \<and> check_margin ?e demo_ctx Preview = warn ''margin''"
    by (rule slow_margin_preview [OF _ _ _ _ v]) (simp_all add: demo_defs)
  with v show ?thesis by blast
qed

section \<open>Single limits\<close>

text \<open>A limit that the account has wins over the one of its broker, which wins over the global one; without
  any row there is no limit, and two rows for one scope are an error, not a choice.\<close>

theorem limit_precedence:
  assumes "\<And>q. e_fault env q = None"
  shows "resolve_limit env acct broker kind =
    rbind (scalar_one_or_none (limit_rows env ''account'' (Some acct) kind)) (\<lambda>a.
      case a of Some l \<Rightarrow> Inr (Some l) | None \<Rightarrow>
    rbind (scalar_one_or_none (limit_rows env ''broker'' (Some broker) kind)) (\<lambda>b.
      case b of Some l \<Rightarrow> Inr (Some l) | None \<Rightarrow>
    scalar_one_or_none (limit_rows env ''global'' None kind)))"
proof -
  have "rbind m (\<lambda>r. case r of None \<Rightarrow> Inr None | Some x \<Rightarrow> Inr (Some x)) = m" for m :: "exn + risk_limit option"
    by (cases m) (auto split: option.splits)
  then show ?thesis by (simp add: resolve_limit_def run_q_def assms cong: option.case_cong)
qed

theorem limit_precedence_witness:
  "resolve_limit (demo_env\<lparr>e_limits := [demo_limit ''global'' None ''k'' 9, demo_limit ''account'' (Some ''a1'') ''k'' 5]\<rparr>)
     ''a1'' ''ibkr'' ''k'' = Inr (Some (demo_limit ''account'' (Some ''a1'') ''k'' 5))"
  by (subst limit_precedence) (simp_all add: demo_defs limit_rows_def)

text \<open>C4: a priced buy that is not blocked fits into the broker's buying power net of what other submissions have
  already committed, whenever a buffer limit applies to the account.\<close>

theorem buy_fits_buying_power:
  assumes v: "evaluate env ctx mode = Inr v" "final_verdict v \<noteq> Block"
    and cap: "resolve_limit env (account_id ctx) (broker_id ctx) ''min_buying_power_buffer_pct'' = Inr (Some cap)"
    and ctx: "c_side ctx = Buy" "price ctx = Some p"
    and env: "e_summary env = Inr sm" "e_bp env = Inr committed"
  shows "qty ctx * p \<le> buying_power sm - committed"
proof -
  have "\<not> is_blocking (check_buying_power env ctx)"
    using evaluate_not_blocked [OF v results_member(4)] .
  then show ?thesis
    using cap ctx env by (auto simp: check_buying_power_def Let_def not_less split: if_splits)
qed

definition bp_env :: risk_env where
  "bp_env = demo_env\<lparr>e_limits := [demo_limit ''global'' None ''min_buying_power_buffer_pct'' 10]\<rparr>"

theorem buy_fits_buying_power_witness:
  "\<exists>v. evaluate bp_env demo_ctx Place_Order = Inr v \<and> qty demo_ctx * 20 \<le> (5000 - 0 :: decimal)"
proof -
  have "\<exists>v. evaluate bp_env demo_ctx Place_Order = Inr v \<and> final_verdict v \<noteq> Block"
    by (simp add: bp_env_def gate_defs demo_defs Let_def)
  then obtain v where v: "evaluate bp_env demo_ctx Place_Order = Inr v" "final_verdict v \<noteq> Block" by blast
  have "resolve_limit bp_env (account_id demo_ctx) (broker_id demo_ctx) ''min_buying_power_buffer_pct''
      = Inr (Some (demo_limit ''global'' None ''min_buying_power_buffer_pct'' 10))"
    by (simp add: bp_env_def gate_defs demo_defs)
  from buy_fits_buying_power [OF v this, of 20] v show ?thesis by (simp add: bp_env_def demo_defs)
qed

text \<open>An order that is not blocked leaves the day's loss below the cap, whenever a cap applies and the account
  has a fresh profit-and-loss row.\<close>

theorem loss_below_cap:
  assumes v: "evaluate env ctx mode = Inr v" "final_verdict v \<noteq> Block"
    and cap: "resolve_limit env (account_id ctx) (broker_id ctx) ''max_daily_loss_currency_base'' = Inr (Some cap)"
    and row: "List.find (\<lambda>(a, _). a = account_id ctx) (e_pnl env) = Some (a, realized, unrealized, staleness)"
    and fresh: "staleness \<le> 90" and "e_fault env QPnl = None"
  shows "- (realized + unrealized) < rl_value cap"
proof -
  have "\<not> is_blocking (check_max_daily_loss env ctx)"
    using evaluate_not_blocked [OF v results_member(2)] .
  then show ?thesis
    using assms(3-) by (auto simp: check_max_daily_loss_def run_q_def STALENESS_WARN_SECONDS_def Let_def split: if_splits)
qed

definition loss_env :: risk_env where
  "loss_env = demo_env\<lparr>e_limits := [demo_limit ''account'' (Some ''a1'') ''max_daily_loss_currency_base'' 500],
     e_pnl := [(''a1'', - 200, - 100, 5)]\<rparr>"

theorem loss_below_cap_witness:
  "\<exists>v. evaluate loss_env demo_ctx Place_Order = Inr v \<and> - ((- 200) + (- 100)) < (500 :: decimal)"
proof -
  have "\<exists>v. evaluate loss_env demo_ctx Place_Order = Inr v \<and> final_verdict v \<noteq> Block"
    by (simp add: loss_env_def gate_defs demo_defs Let_def STALENESS_WARN_SECONDS_def)
  then obtain v where v: "evaluate loss_env demo_ctx Place_Order = Inr v" "final_verdict v \<noteq> Block" by blast
  have c: "resolve_limit loss_env (account_id demo_ctx) (broker_id demo_ctx) ''max_daily_loss_currency_base''
      = Inr (Some (demo_limit ''account'' (Some ''a1'') ''max_daily_loss_currency_base'' 500))"
    by (simp add: loss_env_def gate_defs demo_defs)
  have r: "List.find (\<lambda>(a, _). a = account_id demo_ctx) (e_pnl loss_env) = Some (''a1'', - 200, - 100, 5)"
    by (simp add: loss_env_def demo_defs)
  from loss_below_cap [OF v c r] v show ?thesis by (simp add: loss_env_def demo_defs)
qed

text \<open>The display-size check accepts an algo order with a displayed size exactly when that size is a number
  strictly between zero and the order quantity; a missing or malformed one blocks instead of raising.\<close>

theorem display_size_checked:
  assumes "algo_strategy ctx = Some st" and "st \<in> set DISPLAY_ALGOS"
  shows "\<not> is_blocking (check_iceberg_display_size env ctx) \<longleftrightarrow>
    (\<exists>d. display_size ctx = Some (DNum d) \<and> 0 < d \<and> d < qty ctx)"
proof (cases "display_size ctx")
  case None
  with assms show ?thesis by (simp add: check_iceberg_display_size_def)
next
  case (Some t)
  with assms show ?thesis by (cases t) (auto simp: check_iceberg_display_size_def)
qed

theorem display_size_checked_witness:
  "is_blocking (check_iceberg_display_size demo_env (demo_ctx\<lparr>algo_strategy := Some ''ICEBERG'', display_size := Some (DNum 10)\<rparr>))"
  using display_size_checked [of "demo_ctx\<lparr>algo_strategy := Some ''ICEBERG'', display_size := Some (DNum 10)\<rparr>"
      "''ICEBERG''" demo_env]
  by (simp add: DISPLAY_ALGOS_def demo_ctx_def)

text \<open>An order that would open or extend a future on or after its first notice day never passes the gate.\<close>

theorem no_delivery_month_opening:
  assumes "asset_class ctx = Some ''FUTURE''" and "first_notice_day ctx = Some d" and "d \<le> e_today env"
    and "position_effect ctx \<noteq> Some Close"
  shows "\<exists>v. evaluate env ctx mode = Inr v \<and> final_verdict v = Block"
proof -
  have "pre_check env ctx = block ''futures_physical_delivery'' ''futures_physical_delivery_block''"
    using assms by (simp add: pre_check_def check_futures_exposure_def)
  then show ?thesis by (simp add: evaluate_def block_def or_none_def)
qed

theorem no_delivery_month_opening_witness:
  "\<exists>v. evaluate demo_env (demo_ctx\<lparr>asset_class := Some ''FUTURE'', first_notice_day := Some 20000\<rparr>) Place_Order = Inr v
       \<and> final_verdict v = Block"
  by (rule no_delivery_month_opening [where d = 20000]) (simp_all add: demo_defs)

text \<open>A sell-to-open of an option beyond the long position held is blocked below trading level three.\<close>

theorem naked_short_blocked:
  assumes "asset_class ctx = Some ''OPTION''" and "c_side ctx = Sell" and "position_effect ctx = Some Open"
    and "e_cfg_level env = Inr lv" and "(case lv of None \<Rightarrow> 1 | Some l \<Rightarrow> l) < 3"
    and "get_existing_long_position env ctx = Inr cover" and "cover < qty ctx"
  shows "\<exists>v. evaluate env ctx mode = Inr v \<and> final_verdict v = Block"
proof -
  have "pre_check env ctx = block ''options_exposure'' ''naked_short_not_permitted''"
    using assms by (simp add: pre_check_def check_options_exposure_def block_def Let_def)
  then show ?thesis by (simp add: evaluate_def block_def or_none_def)
qed

theorem naked_short_blocked_witness:
  "\<exists>v. evaluate demo_env (demo_ctx\<lparr>asset_class := Some ''OPTION'', c_side := Sell, position_effect := Some Open\<rparr>) Place_Order
         = Inr v \<and> final_verdict v = Block"
  by (rule naked_short_blocked [where lv = None and cover = 0])
    (simp_all add: demo_defs get_existing_long_position_def)

section \<open>Where a check says less than its name\<close>

text \<open>Losing Redis is meant to degrade the buying-power check to a warning; that happens for the socket errors of
  the standard library only, while the client's own exception blocks the order.\<close>

theorem redis_loss_policy:
  assumes "evaluate env ctx mode = Inr v" and "c_side ctx = Buy" and "price ctx = Some p"
    and "resolve_limit env (account_id ctx) (broker_id ctx) ''min_buying_power_buffer_pct'' = Inr (Some cap)"
    and "e_summary env = Inr sm" and "e_bp env = Inl e"
  shows "(is_OSError e \<longrightarrow> check_buying_power env ctx = warn ''buying_power'')
       \<and> (e = RedisError \<longrightarrow> final_verdict v = Block)"
proof -
  have "e = RedisError \<Longrightarrow> is_blocking (check_buying_power env ctx)"
    using assms by (simp add: check_buying_power_def Let_def)
  moreover have "is_OSError e \<Longrightarrow> check_buying_power env ctx = warn ''buying_power''"
    using assms by (simp add: check_buying_power_def Let_def)
  ultimately show ?thesis using evaluate_blocks_if [OF assms(1) results_member(4)] by blast
qed

theorem redis_loss_policy_witness:
  "\<exists>v. evaluate (bp_env\<lparr>e_bp := Inl RedisError\<rparr>) demo_ctx Place_Order = Inr v \<and> final_verdict v = Block"
proof -
  let ?e = "bp_env\<lparr>e_bp := Inl RedisError\<rparr>"
  obtain v where v: "evaluate ?e demo_ctx Place_Order = Inr v"
    by (simp add: bp_env_def gate_defs demo_defs Let_def)
  have "resolve_limit ?e (account_id demo_ctx) (broker_id demo_ctx) ''min_buying_power_buffer_pct''
      = Inr (Some (demo_limit ''global'' None ''min_buying_power_buffer_pct'' 10))"
    by (simp add: bp_env_def gate_defs demo_defs)
  from redis_loss_policy [OF v _ _ this, of 20] v show ?thesis by (simp add: bp_env_def demo_defs)
qed

text \<open>The CFD check fails open as a whole: when the lookup of \<open>cfd_allowed_countries\<close> raises, as it does where
  that kind is missing from the enumeration of the database, no leverage and no concentration limit is ever
  enforced, and only the notional limit can still block.\<close>

theorem cfd_check_fails_open:
  assumes "e_fault env (QLimit ''account'' (Some (account_id ctx)) ''cfd_allowed_countries'') = Some e"
    and "e \<noteq> CancelledError"
  shows "check_cfd_exposure env ctx \<in>
    {Inl CancelledError, Inr (Some (None, None)), block ''cfd_notional'' ''cfd_notional_exceeded''}"
proof -
  have c: "check_cfd_country env ctx = Inl (case e_fault env QCountry of Some e' \<Rightarrow> e' | None \<Rightarrow> e)"
    using assms by (auto simp: check_cfd_country_def run_q_def resolve_limit_def Let_def split: option.splits)
  have f: "fail_open (Inl x) \<in> {Inl CancelledError, Inr (Some (None, None))}" for x
    by (cases x) (auto simp: fail_open_def)
  obtain r where r: "resolve_limit env (account_id ctx) (broker_id ctx) ''cfd_max_notional_per_trade'' = r" by simp
  show ?thesis
  proof (cases r)
    case (Inl x)
    with r f [of x] show ?thesis by (auto simp: check_cfd_exposure_def)
  next
    case (Inr lm)
    with r c f show ?thesis
      by (auto simp: check_cfd_exposure_def block_def fail_open_def split: exn.splits)
  qed
qed

theorem cfd_check_fails_open_witness:
  "check_cfd_exposure
     (demo_env\<lparr>e_fault := (\<lambda>q. if q = QLimit ''account'' (Some ''a1'') ''cfd_allowed_countries'' then Some DatabaseError else None)\<rparr>)
     demo_ctx \<in> {Inl CancelledError, Inr (Some (None, None)), block ''cfd_notional'' ''cfd_notional_exceeded''}"
  by (rule cfd_check_fails_open [where e = DatabaseError]) (simp_all add: demo_defs)

text \<open>A combo whose loss is unbounded is never blocked by the gate, and a bounded one is blocked exactly when a
  hundred times its maximal loss exceeds the cap of the limits row.\<close>

theorem combo_envelope_bounds:
  assumes "evaluate_combo env acct ml = Inr v" and "parse_uuid acct = Inr u"
    and "resolve_limit env u [] ''max_daily_loss_currency_base'' = Inr (Some l)"
    and "rl_max_combo_loss l = Some cap"
  shows "final_verdict v = Block \<longleftrightarrow> (\<exists>x. ml = Some x \<and> cap < x * 100)"
proof -
  have r: "check_combo_envelope env acct ml = (case ml of None \<Rightarrow> no_finding
      | Some x \<Rightarrow> if cap < x * 100 then block ''combo_max_loss'' ''combo_max_loss_exceeded'' else no_finding)"
    using assms(2-4) by (cases ml) (simp_all add: check_combo_envelope_def)
  from assms(1) show ?thesis unfolding evaluate_combo_def r
    by (auto simp: or_none_def block_def split: option.splits if_splits)
qed

definition combo_env :: risk_env where
  "combo_env = demo_env\<lparr>e_limits :=
     [(demo_limit ''global'' None ''max_daily_loss_currency_base'' 500)\<lparr>rl_max_combo_loss := Some 1000\<rparr>]\<rparr>"

definition demo_uuid :: uuid where
  "demo_uuid = ''00000000-0000-0000-0000-000000000001''"

theorem combo_envelope_bounds_witness:
  "\<exists>v. evaluate_combo combo_env demo_uuid (Some 11) = Inr v \<and> final_verdict v = Block"
proof -
  let ?l = "(demo_limit ''global'' None ''max_daily_loss_currency_base'' 500)\<lparr>rl_max_combo_loss := Some 1000\<rparr>"
  have u: "parse_uuid demo_uuid = Inr demo_uuid" by code_simp
  have l: "resolve_limit combo_env demo_uuid [] ''max_daily_loss_currency_base'' = Inr (Some ?l)"
    by (simp add: combo_env_def gate_defs demo_defs demo_uuid_def)
  obtain v where v: "evaluate_combo combo_env demo_uuid (Some 11) = Inr v"
    using u l by (simp add: evaluate_combo_def check_combo_envelope_def demo_defs block_def or_none_def)
  from combo_envelope_bounds [OF v u l, of 1000] v show ?thesis by simp
qed

end
