(* ===== verification/Combo_Fills.thy ===== *)
theory Combo_Fills
  imports Prelude
begin

text \<open>
  \<open>backend/app/services/combos/combo_fill_listener.py\<close>: a fill of an order that is a leg of a
  combo marks the leg and recomputes the status of the combo from all of its legs.
\<close>

record leg_row =
  l_combo :: uuid
  l_order :: "uuid option"
  l_status :: string
  l_filled :: decimal
  l_avg :: "decimal option"

record combo_row =
  cb_id :: uuid
  cb_status :: string

definition recompute_combo_status :: "leg_row list \<Rightarrow> uuid \<Rightarrow> string" where
  "recompute_combo_status legs cid =
     (let rows = filter (\<lambda>l. l_combo l = cid) legs;
          statuses = map l_status rows; filled_qtys = map l_filled rows in
      if list_all (\<lambda>s. s = ''filled'') statuses then ''filled''
      else if list_all (\<lambda>s. s \<in> {''cancelled'', ''rejected''}) statuses \<and> list_all (\<lambda>q. q = 0) filled_qtys
      then ''cancelled''
      else if list_all (\<lambda>s. s \<in> {''filled'', ''cancelled'', ''rejected''}) statuses
            \<and> list_ex (\<lambda>q. 0 < q) filled_qtys
            \<and> list_ex (\<lambda>s. s \<in> {''cancelled'', ''rejected''}) statuses
      then ''legged_out''
      else if list_ex (\<lambda>q. 0 < q) filled_qtys then ''partially_filled''
      else ''working'')"

definition handle_fill ::
  "uuid option \<Rightarrow> uuid \<Rightarrow> decimal \<Rightarrow> decimal \<Rightarrow> combo_row list \<times> leg_row list \<Rightarrow> combo_row list \<times> leg_row list" where
  "handle_fill combo_id oid filled avg st =
     (case st of (combos, legs) \<Rightarrow>
      (case combo_id of None \<Rightarrow> (combos, legs) | Some cid \<Rightarrow>
       if cid \<notin> cb_id ` set combos then (combos, legs)
       else
         let legs' = map (\<lambda>l. if l_order l = Some oid
                              then l\<lparr>l_status := ''filled'', l_filled := filled, l_avg := Some avg\<rparr> else l) legs
         in (map (\<lambda>c. if cb_id c = cid then c\<lparr>cb_status := recompute_combo_status legs' cid\<rparr> else c) combos,
             legs')))"

section \<open>The status of a combo\<close>

definition legs_of :: "leg_row list \<Rightarrow> uuid \<Rightarrow> leg_row set" where
  "legs_of legs cid = {l \<in> set legs. l_combo l = cid}"

lemma recompute_filled:
  "recompute_combo_status legs cid = ''filled'' \<longleftrightarrow> (\<forall>l \<in> legs_of legs cid. l_status l = ''filled'')"
  by (auto simp: recompute_combo_status_def Let_def list_all_iff legs_of_def)

lemma recompute_legged_out:
  "recompute_combo_status legs cid = ''legged_out'' \<longleftrightarrow>
     (\<forall>l \<in> legs_of legs cid. l_status l \<in> {''filled'', ''cancelled'', ''rejected''})
     \<and> (\<exists>l \<in> legs_of legs cid. 0 < l_filled l)
     \<and> (\<exists>l \<in> legs_of legs cid. l_status l \<in> {''cancelled'', ''rejected''})"
  by (auto simp: recompute_combo_status_def Let_def list_all_iff list_ex_iff legs_of_def)

lemma handle_fill_legs:
  "l \<in> set (snd (handle_fill combo_id oid filled avg (combos, legs))) \<Longrightarrow> l_order l \<noteq> Some oid \<Longrightarrow>
     l \<in> set legs"
  by (auto simp: handle_fill_def Let_def split: option.splits if_splits)

section \<open>Properties\<close>

text \<open>A combo is reported legged out exactly when all its legs are terminal, some leg has a fill and some leg
  was cancelled or rejected; it is reported filled exactly when every leg is.\<close>

theorem combo_status_classified:
  "(recompute_combo_status legs cid = ''legged_out'' \<longleftrightarrow>
     (\<forall>l \<in> legs_of legs cid. l_status l \<in> {''filled'', ''cancelled'', ''rejected''})
     \<and> (\<exists>l \<in> legs_of legs cid. 0 < l_filled l)
     \<and> (\<exists>l \<in> legs_of legs cid. l_status l \<in> {''cancelled'', ''rejected''}))
   \<and> (recompute_combo_status legs cid = ''filled'' \<longleftrightarrow> (\<forall>l \<in> legs_of legs cid. l_status l = ''filled''))"
  using recompute_legged_out recompute_filled by blast

definition demo_legs :: "leg_row list" where
  "demo_legs = [\<lparr>l_combo = ''k'', l_order = Some ''o1'', l_status = ''filled'', l_filled = 2, l_avg = Some 1\<rparr>,
                \<lparr>l_combo = ''k'', l_order = Some ''o2'', l_status = ''rejected'', l_filled = 0, l_avg = None\<rparr>]"

theorem combo_status_classified_witness: "recompute_combo_status demo_legs ''k'' = ''legged_out''"
proof -
  have "legs_of demo_legs ''k'' = set demo_legs" by (auto simp: legs_of_def demo_legs_def)
  then show ?thesis
    using combo_status_classified [of demo_legs "''k''"] by (simp add: demo_legs_def)
qed

text \<open>Any fill report, of whatever quantity, marks its leg filled: a combo whose other legs are filled becomes
  \<open>filled\<close> at the first partial fill of the last one.\<close>

theorem partial_fill_completes_combo:
  assumes "\<forall>l \<in> set legs. l_combo l = cid \<and> l_order l \<noteq> Some oid \<longrightarrow> l_status l = ''filled''"
    and "c \<in> set cs" and "cb_id c = cid"
  shows "\<forall>c' \<in> set (fst (handle_fill (Some cid) oid q a (cs, legs))). cb_id c' = cid \<longrightarrow> cb_status c' = ''filled''"
proof -
  let ?ls = "map (\<lambda>l. if l_order l = Some oid
                      then l\<lparr>l_status := ''filled'', l_filled := q, l_avg := Some a\<rparr> else l) legs"
  have "recompute_combo_status ?ls cid = ''filled''"
    unfolding recompute_filled using assms(1) by (auto simp: legs_of_def)
  with assms(2,3) show ?thesis by (auto simp: handle_fill_def Let_def)
qed

theorem partial_fill_completes_combo_witness:
  "map cb_status (fst (handle_fill (Some ''k'') ''o2'' 1 1 ([\<lparr>cb_id = ''k'', cb_status = ''working''\<rparr>], demo_legs)))
     = [''filled'']"
proof -
  have "\<forall>c' \<in> set (fst (handle_fill (Some ''k'') ''o2'' 1 1 ([\<lparr>cb_id = ''k'', cb_status = ''working''\<rparr>], demo_legs))).
     cb_id c' = ''k'' \<longrightarrow> cb_status c' = ''filled''"
    by (rule partial_fill_completes_combo [where c = "\<lparr>cb_id = ''k'', cb_status = ''working''\<rparr>"])
      (simp_all add: demo_legs_def)
  then show ?thesis by (simp add: handle_fill_def Let_def)
qed

end
