(* ===== verification/Order_Events.thy ===== *)
theory Order_Events
  imports Combo_Fills "HOL-Library.Product_Order" "HOL-Library.Option_ord"
begin

text \<open>
  \<open>backend/app/services/order_event_consumer.py\<close>: what one broker event does to the database,
  to the Redis commission buffer and to the subscribers, and what a resync from a snapshot
  injects.

  The tables are lists of rows in a record \<open>odb\<close>; the constraints of the schema that a statement
  of the consumer can violate (\<open>filled_qty <= qty\<close>, \<open>notional_filled NOT NULL\<close>, the unique
  broker order id, \<open>qty > 0\<close>, the currency pattern) are checked by the statement and raise
  \<open>DatabaseError\<close>. A transaction is an action on \<open>odb\<close> and the commission buffer; on an exception
  the database part is dropped, the Redis part stays. Timestamps are microseconds since
  \<open>datetime.min\<close>. Storage rounding of \<open>NUMERIC\<close> columns, metrics, logs and loss of the database
  or of Redis are left out, and so are the tasks that own the streams: an event is processed for
  the account of its stream.
\<close>

section \<open>Rows\<close>

datatype ostatus =
    PendingSubmit | Submitted | Modified | Partial | Filled | Cancelled | Rejected | Expired | Inactive

fun order_status_rank :: "ostatus \<Rightarrow> int" where
  "order_status_rank PendingSubmit = 0"
| "order_status_rank Submitted = 1"
| "order_status_rank Inactive = 1"
| "order_status_rank Modified = 1"
| "order_status_rank Partial = 3"
| "order_status_rank Filled = 4"
| "order_status_rank Cancelled = 5"
| "order_status_rank Rejected = 5"
| "order_status_rank Expired = 5"

definition TERMINAL_STATUSES :: "ostatus list" where
  "TERMINAL_STATUSES = [Filled, Cancelled, Rejected, Expired, Inactive]"

fun status_text :: "ostatus \<Rightarrow> string" where
  "status_text PendingSubmit = ''pending_submit''"
| "status_text Submitted = ''submitted''"
| "status_text Modified = ''modified''"
| "status_text Partial = ''partial''"
| "status_text Filled = ''filled''"
| "status_text Cancelled = ''cancelled''"
| "status_text Rejected = ''rejected''"
| "status_text Expired = ''expired''"
| "status_text Inactive = ''inactive''"

definition aliases :: "(string \<times> ostatus) list" where
  "aliases =
     [(''pending'', PendingSubmit), (''submitted'', Submitted), (''partial'', Partial),
      (''filled'', Filled), (''cancelled'', Cancelled), (''canceled'', Cancelled),
      (''rejected'', Rejected), (''expired'', Expired), (''inactive'', Inactive),
      (''modified'', Modified)]"

definition normalize_status :: "string \<Rightarrow> exn + ostatus" where
  "normalize_status s =
     (case map_of aliases (remove_prefix ''status_'' (lower s)) of
        Some st \<Rightarrow> Inr st | None \<Rightarrow> Inl (ValueError ''unknown order status''))"

record order_row =
  o_id :: uuid
  o_account :: uuid
  o_client :: uuid
  o_broker :: "string option"
  o_qty :: decimal
  o_status :: ostatus
  o_filled :: decimal
  o_avg :: "decimal option"
  o_notional_filled :: "decimal option"
  o_last_event_at :: "int option"
  o_combo :: "uuid option"

record event_row =
  er_id :: nat
  er_order :: "uuid option"
  er_account :: uuid
  er_broker :: "string option"
  er_status :: ostatus
  er_filled :: "decimal option"
  er_avg :: "decimal option"
  er_at :: int

record fill_row =
  f_order :: uuid
  f_exec :: string
  f_qty :: decimal
  f_price :: decimal
  f_currency :: string
  f_executed_at :: int
  f_commission :: "decimal option"
  f_commission_currency :: "string option"
  f_enriched :: "int option \<times> string option \<times> uuid option"

record pending_row =
  pf_exec :: string
  pf_broker :: string
  pf_account :: uuid
  pf_qty :: decimal
  pf_price :: decimal
  pf_currency :: string
  pf_executed_at :: int
  pf_commission :: "decimal option"
  pf_commission_currency :: "string option"

record odb =
  orders :: "order_row list"
  events :: "event_row list"
  fills :: "fill_row list"
  pending :: "pending_row list"
  combos :: "combo_row list"
  legs :: "leg_row list"
  enrich :: "uuid \<Rightarrow> int option \<times> string option \<times> uuid option"

type_synonym cbuf = "(string \<times> decimal \<times> string) list"

type_synonym tx = "odb \<times> cbuf"

text \<open>\<open>event.raw_payload\<close>: what \<open>json.loads\<close> makes of it; of an object, the fields that are read.\<close>

record payload_fields =
  pl_currency :: "string option"
  pl_commission :: "dec_text option"
  pl_commission_currency :: "string option"

datatype payload = PEmpty | PBad | PDict payload_fields | POther

record event =
  ev_broker :: string
  ev_client :: string
  ev_status :: string
  ev_filled :: dec_text
  ev_avg :: dec_text
  ev_at :: "int option"
  ev_payload :: payload
  ev_exec :: string
  ev_kind :: string

record parsed =
  ps_at :: int
  ps_payload :: payload_fields
  ps_status :: ostatus
  ps_filled :: "decimal option"
  ps_avg :: "decimal option"
  ps_client :: "uuid option"

section \<open>Parsing an event\<close>

definition no_fields :: payload_fields where
  "no_fields = \<lparr>pl_currency = None, pl_commission = None, pl_commission_currency = None\<rparr>"

fun parse_raw_payload :: "payload \<Rightarrow> exn + payload_fields" where
  "parse_raw_payload PEmpty = Inr no_fields"
| "parse_raw_payload PBad = Inl (ValueError ''JSONDecodeError'')"
| "parse_raw_payload (PDict f) = Inr f"
| "parse_raw_payload POther = Inr no_fields"

fun parse_decimal :: "dec_text \<Rightarrow> exn + decimal option" where
  "parse_decimal DEmpty = Inr None"
| "parse_decimal DBad = Inl (ValueError ''invalid decimal'')"
| "parse_decimal (DNum x) = Inr (Some x)"

definition parse_client_order_id :: "string \<Rightarrow> exn + uuid option" where
  "parse_client_order_id s = (if s = [] then Inr None else rbind (parse_uuid s) (\<lambda>u. Inr (Some u)))"

definition parse_event :: "event \<Rightarrow> exn + parsed" where
  "parse_event ev =
     rbind (parse_raw_payload (ev_payload ev)) (\<lambda>pl.
     rbind (normalize_status (ev_status ev)) (\<lambda>st.
     rbind (parse_decimal (ev_filled ev)) (\<lambda>f.
     rbind (parse_decimal (ev_avg ev)) (\<lambda>a.
     rbind (parse_client_order_id (ev_client ev)) (\<lambda>c.
       Inr \<lparr>ps_at = (case ev_at ev of Some t \<Rightarrow> t | None \<Rightarrow> 0), ps_payload = pl, ps_status = st,
            ps_filled = f, ps_avg = a, ps_client = c\<rparr>)))))"

text \<open>\<open>str(x or "USD").upper()[:3]\<close>.\<close>

definition ccy3 :: "string option \<Rightarrow> string" where
  "ccy3 s = take 3 (upper (case s of Some (c # cs) \<Rightarrow> c # cs | _ \<Rightarrow> ''USD''))"

definition ccy_ok :: "string \<Rightarrow> bool" where
  "ccy_ok s \<longleftrightarrow> length s = 3 \<and> list_all (\<lambda>c. c \<in> set ''ABCDEFGHIJKLMNOPQRSTUVWXYZ'') s"

section \<open>Statements\<close>

definition matching_order_id :: "odb \<Rightarrow> uuid \<Rightarrow> uuid option \<Rightarrow> uuid option" where
  "matching_order_id db acct client =
     (case client of None \<Rightarrow> None
      | Some c \<Rightarrow> map_option o_id (List.find (\<lambda>o'. o_account o' = acct \<and> o_client o' = c) (orders db)))"

definition insert_order_event :: "uuid \<Rightarrow> event \<Rightarrow> uuid option \<Rightarrow> parsed \<Rightarrow> (nat, tx) act" where
  "insert_order_event acct ev oid ps = (\<lambda>(db, cb).
     let n = length (events db) in
     (Inr n, (db\<lparr>events := events db @
        [\<lparr>er_id = n, er_order = oid, er_account = acct,
          er_broker = (if ev_broker ev = [] then None else Some (ev_broker ev)),
          er_status = ps_status ps, er_filled = ps_filled ps, er_avg = ps_avg ps, er_at = ps_at ps\<rparr>]\<rparr>, cb)))"

text \<open>The \<open>SET\<close> and \<open>WHERE\<close> clauses of \<open>_update_order\<close>.\<close>

definition next_status :: "ostatus \<Rightarrow> ostatus \<Rightarrow> ostatus" where
  "next_status cur new =
     (if cur \<in> set TERMINAL_STATUSES then cur
      else if order_status_rank new < order_status_rank cur then cur else new)"

definition set_order :: "event \<Rightarrow> parsed \<Rightarrow> order_row \<Rightarrow> order_row" where
  "set_order ev ps r = r\<lparr>
     o_status := next_status (o_status r) (ps_status ps),
     o_broker := (case o_broker r of Some b \<Rightarrow> Some b
                  | None \<Rightarrow> if ev_broker ev = [] then None else Some (ev_broker ev)),
     o_filled := max (o_filled r) (case ps_filled ps of Some q \<Rightarrow> q | None \<Rightarrow> o_filled r),
     o_avg := ps_avg ps,
     o_notional_filled := (case ps_avg ps of
         Some a \<Rightarrow> (case ps_filled ps of Some q \<Rightarrow> Some (q * a) | None \<Rightarrow> None)
       | None \<Rightarrow> o_notional_filled r),
     o_last_event_at := Some (max (case o_last_event_at r of Some t \<Rightarrow> t | None \<Rightarrow> ps_at ps) (ps_at ps))\<rparr>"

definition hits :: "uuid \<Rightarrow> uuid \<Rightarrow> parsed \<Rightarrow> order_row \<Rightarrow> bool" where
  "hits acct c ps r \<longleftrightarrow> o_account r = acct \<and> o_client r = c
     \<and> (case o_last_event_at r of Some t \<Rightarrow> t \<le> ps_at ps | None \<Rightarrow> True)"

definition row_ok :: "order_row \<Rightarrow> bool" where
  "row_ok r \<longleftrightarrow> 0 \<le> o_filled r \<and> o_filled r \<le> o_qty r \<and> o_notional_filled r \<noteq> None"

definition broker_ids :: "order_row list \<Rightarrow> (uuid \<times> string) list" where
  "broker_ids rs = concat (map (\<lambda>r. case o_broker r of Some b \<Rightarrow> [(o_account r, b)] | None \<Rightarrow> []) rs)"

definition update_order :: "uuid \<Rightarrow> event \<Rightarrow> uuid \<Rightarrow> parsed \<Rightarrow> (unit, tx) act" where
  "update_order acct ev c ps = (\<lambda>(db, cb).
     let rs = map (\<lambda>r. if hits acct c ps r then set_order ev ps r else r) (orders db) in
     if list_all (\<lambda>r. hits acct c ps r \<longrightarrow> row_ok (set_order ev ps r)) (orders db)
        \<and> distinct (broker_ids rs)
     then (Inr (), (db\<lparr>orders := rs\<rparr>, cb))
     else (Inl DatabaseError, (db, cb)))"

definition combo_fill :: "uuid \<Rightarrow> decimal \<Rightarrow> decimal \<Rightarrow> (unit, tx) act" where
  "combo_fill oid filled avg = (\<lambda>(db, cb).
     let cid = (case List.find (\<lambda>r. o_id r = oid) (orders db) of Some r \<Rightarrow> o_combo r | None \<Rightarrow> None);
         (cs, ls) = handle_fill cid oid filled avg (combos db, legs db)
     in (Inr (), (db\<lparr>combos := cs, legs := ls\<rparr>, cb)))"

definition commission_buffer_set :: "string \<Rightarrow> decimal \<Rightarrow> string \<Rightarrow> cbuf \<Rightarrow> cbuf" where
  "commission_buffer_set e c ccy cb = AList.update e (c, ccy) cb"

definition commission_buffer_pop :: "string \<Rightarrow> ((decimal \<times> string) option, tx) act" where
  "commission_buffer_pop e = (\<lambda>(db, cb). (Inr (map_of cb e), (db, AList.delete e cb)))"

text \<open>\<open>UPDATE fills SET commission ... WHERE exec_id\<close>.\<close>

definition set_commission :: "string \<Rightarrow> decimal \<Rightarrow> string \<Rightarrow> (nat, tx) act" where
  "set_commission e c ccy = (\<lambda>(db, cb).
     let n = length (filter (\<lambda>f. f_exec f = e) (fills db)) in
     if n = 0 \<or> ccy_ok ccy then
       (Inr n, (db\<lparr>fills := map (\<lambda>f. if f_exec f = e
          then f\<lparr>f_commission := Some c, f_commission_currency := Some ccy\<rparr> else f) (fills db)\<rparr>, cb))
     else (Inl DatabaseError, (db, cb)))"

text \<open>\<open>INSERT ... ON CONFLICT (exec_id) DO NOTHING\<close>, after the checks of the table.\<close>

definition insert_pending :: "pending_row \<Rightarrow> (unit, tx) act" where
  "insert_pending p = (\<lambda>(db, cb).
     if 0 < pf_qty p \<and> ccy_ok (pf_currency p) then
       (Inr (), (if pf_exec p \<in> pf_exec ` set (pending db) then db
                 else db\<lparr>pending := pending db @ [p]\<rparr>, cb))
     else (Inl DatabaseError, (db, cb)))"

text \<open>The columns \<open>instrument_id\<close>, \<open>side\<close>, \<open>bot_id\<close> are read off the joined order first.\<close>

definition insert_fill :: "fill_row \<Rightarrow> (unit, tx) act" where
  "insert_fill f = (\<lambda>(db, cb).
     if 0 < f_qty f \<and> ccy_ok (f_currency f) then
       (Inr (), (if f_exec f \<in> f_exec ` set (fills db) then db
                 else db\<lparr>fills := fills db @ [f\<lparr>f_enriched := enrich db (f_order f)\<rparr>]\<rparr>, cb))
     else (Inl DatabaseError, (db, cb)))"

definition or_zero :: "decimal option \<Rightarrow> decimal" where
  "or_zero x = (case x of Some v \<Rightarrow> v | None \<Rightarrow> 0)"

definition record_fill :: "uuid \<Rightarrow> event \<Rightarrow> uuid option \<Rightarrow> parsed \<Rightarrow> (unit, tx) act" where
  "record_fill acct ev oid ps =
     (case oid of
        None \<Rightarrow> insert_pending
          \<lparr>pf_exec = ev_exec ev, pf_broker = ev_broker ev, pf_account = acct,
           pf_qty = or_zero (ps_filled ps), pf_price = or_zero (ps_avg ps),
           pf_currency = ccy3 (pl_currency (ps_payload ps)), pf_executed_at = ps_at ps,
           pf_commission = None, pf_commission_currency = None\<rparr>
      | Some o' \<Rightarrow>
          aseq (insert_fill
            \<lparr>f_order = o', f_exec = ev_exec ev, f_qty = or_zero (ps_filled ps),
             f_price = or_zero (ps_avg ps), f_currency = ccy3 (pl_currency (ps_payload ps)),
             f_executed_at = ps_at ps, f_commission = None, f_commission_currency = None,
             f_enriched = (None, None, None)\<rparr>)
          (abind (commission_buffer_pop (ev_exec ev))
            (\<lambda>b. case b of None \<Rightarrow> aret ()
                 | Some (c, ccy) \<Rightarrow> abind (set_commission (ev_exec ev) c ccy) (\<lambda>_. aret ()))))"

definition fill_of_pending :: "odb \<Rightarrow> uuid \<Rightarrow> pending_row \<Rightarrow> fill_row" where
  "fill_of_pending db oid p =
     \<lparr>f_order = oid, f_exec = pf_exec p, f_qty = pf_qty p, f_price = pf_price p,
      f_currency = pf_currency p, f_executed_at = pf_executed_at p,
      f_commission = pf_commission p, f_commission_currency = pf_commission_currency p,
      f_enriched = enrich db oid\<rparr>"

definition drain_pending_fills :: "uuid \<Rightarrow> string \<Rightarrow> (unit, tx) act" where
  "drain_pending_fills oid broker = (\<lambda>(db, cb).
     let drained = filter (\<lambda>p. pf_broker p = broker) (pending db);
         new = filter (\<lambda>p. pf_exec p \<notin> f_exec ` set (fills db)) drained
     in (Inr (), (db\<lparr>pending := filter (\<lambda>p. pf_broker p \<noteq> broker) (pending db),
                     fills := fills db @ map (fill_of_pending db oid) new\<rparr>, cb)))"


section \<open>Processing an event\<close>

datatype outcome = Echo | Recorded nat bool

definition awhen :: "bool \<Rightarrow> (unit, 's) act \<Rightarrow> (unit, 's) act" where
  "awhen b m = (if b then m else aret ())"

declare awhen_def [run_simps]

definition is_echo :: "uuid \<Rightarrow> event \<Rightarrow> parsed \<Rightarrow> odb \<Rightarrow> exn + bool" where
  "is_echo acct ev ps db =
     rbind (scalar_one_or_none
              (map o_status (filter (\<lambda>r. o_broker r = Some (ev_broker ev) \<and> o_account r = acct) (orders db))))
       (\<lambda>cur. Inr (cur = Some (ps_status ps) \<and> ev_exec ev = []))"

text \<open>What follows the update of the order: combo listener, fill, pending fills.\<close>

definition follow_ups :: "uuid \<Rightarrow> event \<Rightarrow> parsed \<Rightarrow> uuid option \<Rightarrow> nat \<Rightarrow> (outcome, tx) act" where
  "follow_ups acct ev ps oid n =
     aseq (case (oid, ps_filled ps) of
             (Some i, Some q) \<Rightarrow> awhen (0 < q) (combo_fill i q (or_zero (ps_avg ps))) | _ \<Rightarrow> aret ())
     (aseq (awhen (ev_exec ev \<noteq> [] \<and> ev_kind ev = ''exec_details'') (record_fill acct ev oid ps))
     (aseq (case oid of
              Some i \<Rightarrow> awhen (ev_broker ev \<noteq> []) (drain_pending_fills i (ev_broker ev)) | None \<Rightarrow> aret ())
     (aret (Recorded n (ev_kind ev \<noteq> ''replaced'')))))"

definition apply_event :: "uuid \<Rightarrow> event \<Rightarrow> parsed \<Rightarrow> uuid option \<Rightarrow> (outcome, tx) act" where
  "apply_event acct ev ps oid =
     abind (insert_order_event acct ev oid ps) (\<lambda>n.
     aseq (case ps_client ps of
             Some c \<Rightarrow> awhen (ev_kind ev \<noteq> ''replaced'') (update_order acct ev c ps) | None \<Rightarrow> aret ())
     (follow_ups acct ev ps oid n))"

definition event_tx :: "uuid \<Rightarrow> event \<Rightarrow> (outcome, tx) act" where
  "event_tx acct ev =
     abind (of_res (parse_event ev)) (\<lambda>ps.
     abind (\<lambda>(db, cb). (is_echo acct ev ps db, (db, cb))) (\<lambda>echo.
     if echo then aret Echo
     else abind (\<lambda>(db, cb). (Inr (matching_order_id db acct (ps_client ps)), (db, cb))) (apply_event acct ev ps)))"

record consumer =
  sdb :: odb
  buf :: cbuf
  consecutive_failures :: nat
  published :: "(string \<times> nat) list"

definition MAX_CONSECUTIVE_FAILURES :: nat where "MAX_CONSECUTIVE_FAILURES = 50"

definition record_event_failure :: "(unit, consumer) act" where
  "record_event_failure = (\<lambda>s.
     let s' = s\<lparr>consecutive_failures := consecutive_failures s + 1\<rparr> in
     if MAX_CONSECUTIVE_FAILURES \<le> consecutive_failures s'
     then (Inl (RuntimeError ''broker order event consumer circuit breaker tripped''), s')
     else (Inr (), s'))"

definition channels :: "uuid \<Rightarrow> string list" where
  "channels acct = [''orders:events:fleet'', ''orders:events:account:'' @ acct]"

definition process_commission_report :: "event \<Rightarrow> (unit, consumer) act" where
  "process_commission_report ev = (\<lambda>s.
     case parse_raw_payload (ev_payload ev) of
       Inl e \<Rightarrow> (Inl e, s)
     | Inr pl \<Rightarrow>
        (case to_decimal (case pl_commission pl of Some c \<Rightarrow> c | None \<Rightarrow> DNum 0) of
           Inl _ \<Rightarrow> (Inr (), s)
         | Inr c \<Rightarrow>
            let ccy = take 3 (upper (case pl_commission_currency pl of Some x \<Rightarrow> x | None \<Rightarrow> ''USD'')) in
            (case set_commission (ev_exec ev) c ccy (sdb s, buf s) of
               (Inl _, _) \<Rightarrow> (Inr (), s)
             | (Inr n, (db, cb)) \<Rightarrow>
                 (Inr (), s\<lparr>sdb := db,
                            buf := if n = 0 then commission_buffer_set (ev_exec ev) c ccy cb else cb,
                            consecutive_failures := 0\<rparr>))))"

definition process_event :: "uuid \<Rightarrow> event \<Rightarrow> (unit, consumer) act" where
  "process_event acct ev =
     (if ev_kind ev = ''commission_report'' \<and> ev_exec ev \<noteq> [] then process_commission_report ev
      else (\<lambda>s.
        case event_tx acct ev (sdb s, buf s) of
          (Inl _, (db, cb)) \<Rightarrow> record_event_failure (s\<lparr>buf := cb\<rparr>)
        | (Inr Echo, _) \<Rightarrow> (Inr (), s)
        | (Inr (Recorded n pub), (db, cb)) \<Rightarrow>
            (Inr (), s\<lparr>sdb := db, buf := cb, consecutive_failures := 0,
                       published := published s @ (if pub then map (\<lambda>c. (c, n)) (channels acct) else [])\<rparr>)))"

text \<open>The state after one event of a stream, whatever \<open>_process_event\<close> returned.\<close>

definition consume :: "uuid \<times> event \<Rightarrow> consumer \<Rightarrow> consumer" where
  "consume = (\<lambda>(acct, ev) s. snd (process_event acct ev s))"

section \<open>Resync\<close>

record snapshot_order =
  so_order_id :: string
  so_status :: string
  so_filled :: dec_text
  so_avg :: dec_text
  so_submitted_at :: "int option"
  so_updated_at :: "int option"

definition status_aliases :: "(string \<times> string) list" where
  "status_aliases =
     [(''pending'', ''pending_submit''), (''submitted'', ''submitted''), (''partial'', ''partial''),
      (''filled'', ''filled''), (''cancelled'', ''cancelled''), (''rejected'', ''rejected''),
      (''expired'', ''expired''), (''inactive'', ''inactive''), (''modified'', ''modified''),
      (''unspecified'', ''pending_submit''), (''status_unspecified'', ''pending_submit'')]"

definition resync_status :: "string \<Rightarrow> string" where
  "resync_status s =
     (let t = remove_prefix ''status_'' (lower s) in
      case map_of status_aliases t of Some n \<Rightarrow> n | None \<Rightarrow> t)"

definition synth_of :: "snapshot_order \<Rightarrow> event" where
  "synth_of so =
     \<lparr>ev_broker = so_order_id so, ev_client = so_order_id so, ev_status = resync_status (so_status so),
      ev_filled = so_filled so, ev_avg = so_avg so,
      ev_at = Some (case so_updated_at so of Some t \<Rightarrow> t
                    | None \<Rightarrow> (case so_submitted_at so of Some t \<Rightarrow> t | None \<Rightarrow> 0)),
      ev_payload = PDict no_fields, ev_exec = [], ev_kind = []\<rparr>"

definition unchanged :: "odb \<Rightarrow> uuid \<Rightarrow> snapshot_order \<Rightarrow> bool" where
  "unchanged db acct so =
     (case List.find (\<lambda>r. o_account r = acct \<and> o_client r = so_order_id so) (rev (orders db)) of
        Some r \<Rightarrow> status_text (o_status r) = resync_status (so_status so)
      | None \<Rightarrow> False)"

definition event_time :: "event \<Rightarrow> int" where
  "event_time e = (case ev_at e of Some t \<Rightarrow> t | None \<Rightarrow> 0)"

definition synthesize_resync_events :: "odb \<Rightarrow> uuid \<Rightarrow> snapshot_order list \<Rightarrow> event list" where
  "synthesize_resync_events db acct snap =
     sort_key event_time (map synth_of (filter (\<lambda>so. \<not> unchanged db acct so) snap))"

text \<open>
  \<open>_run_account_stream_once\<close>: the synthetic events, then the live ones in their order; the first
  exception ends the stream.
\<close>

fun process_all :: "uuid \<Rightarrow> event list \<Rightarrow> (unit, consumer) act" where
  "process_all acct [] = aret ()"
| "process_all acct (e # es) = aseq (process_event acct e) (process_all acct es)"

definition run_stream_once :: "uuid \<Rightarrow> snapshot_order list \<Rightarrow> event list \<Rightarrow> (unit, consumer) act" where
  "run_stream_once acct snap live = (\<lambda>s.
     aseq (process_all acct (synthesize_resync_events (sdb s) acct snap)) (process_all acct live) s)"

end
