(* ===== verification/Order_Lifecycle.thy ===== *)
theory Order_Lifecycle
  imports Order_Events
begin

text \<open>
  What \<open>Order_Events\<close> guarantees of an order over any sequence of broker events: its row is only
  ever rewritten by the \<open>UPDATE\<close> of \<open>_update_order\<close>, a terminal status is final, rank, filled
  quantity and event time never go down, and the constraints and the uniqueness of executions
  are kept. \<open>keeps_orders\<close> and \<open>db_ok\<close> are discharged per statement.
\<close>

section \<open>Which statements touch what\<close>

lemma preserves_awhen [preserves_intro]: "preserves P m \<Longrightarrow> preserves P (awhen b m)"
  by (simp add: awhen_def preserves_aret)

definition db_ok :: "odb \<Rightarrow> bool" where
  "db_ok db \<longleftrightarrow> distinct (map f_exec (fills db)) \<and> distinct (map pf_exec (pending db))
     \<and> list_all row_ok (orders db) \<and> distinct (broker_ids (orders db))
     \<and> list_all (\<lambda>p. pf_commission p = None) (pending db)"

abbreviation orders_are :: "(order_row list \<Rightarrow> bool) \<Rightarrow> tx \<Rightarrow> bool" where
  "orders_are Q st \<equiv> Q (orders (fst st))"

abbreviation tx_ok :: "tx \<Rightarrow> bool" where
  "tx_ok st \<equiv> db_ok (fst st)"

lemma map_f_exec_set_commission [simp]:
  "map f_exec (map (\<lambda>f. if f_exec f = e then f\<lparr>f_commission := c, f_commission_currency := y\<rparr> else f) fs)
     = map f_exec fs"
  by (induction fs) auto

lemma keeps_orders [preserves_intro]:
  "preserves (orders_are Q) (insert_order_event acct ev oid ps)"
  "preserves (orders_are Q) (combo_fill i q a)"
  "preserves (orders_are Q) (set_commission e c ccy)"
  "preserves (orders_are Q) (insert_pending p)"
  "preserves (orders_are Q) (insert_fill f)"
  "preserves (orders_are Q) (drain_pending_fills i b)"
  by (auto simp: preserves_def insert_order_event_def combo_fill_def set_commission_def insert_pending_def
        insert_fill_def drain_pending_fills_def Let_def split: prod.splits)

lemma keeps_ok [preserves_intro]:
  "preserves tx_ok (insert_order_event acct ev oid ps)"
  "preserves tx_ok (combo_fill i q a)"
  "preserves tx_ok (set_commission e c ccy)"
  "pf_commission p = None \<Longrightarrow> preserves tx_ok (insert_pending p)"
  "preserves tx_ok (insert_fill f)"
  by (auto simp: preserves_def insert_order_event_def combo_fill_def set_commission_def insert_pending_def
        insert_fill_def Let_def db_ok_def simp del: map_map split: prod.splits)

lemma keeps_ok_drain [preserves_intro]: "preserves tx_ok (drain_pending_fills i b)"
proof -
  have f: "map f_exec (map (fill_of_pending db oid) ps) = map pf_exec ps" for db oid ps
    by (simp add: fill_of_pending_def)
  show ?thesis
    by (auto simp: preserves_def drain_pending_fills_def Let_def db_ok_def f distinct_map_filter list_all_iff
      simp del: map_map) (metis (no_types, lifting) image_eqI)
qed

lemma keeps_ok_update [preserves_intro]: "preserves tx_ok (update_order acct ev c ps)"
  by (auto simp: preserves_def update_order_def Let_def db_ok_def list_all_iff)

lemma keeps_read [preserves_intro]:
  "preserves P (\<lambda>(db, cb). (g db, (db, cb)))"
  by (auto simp: preserves_def)

lemma keeps_pop [preserves_intro]:
  "preserves (orders_are Q) (commission_buffer_pop e)" "preserves tx_ok (commission_buffer_pop e)"
  by (auto simp: preserves_def commission_buffer_pop_def)

lemma keeps_record_fill [preserves_intro]:
  "preserves (orders_are Q) (record_fill acct ev oid ps)" "preserves tx_ok (record_fill acct ev oid ps)"
  by (auto simp: record_fill_def intro!: preserves_intro split: option.splits)

lemma keeps_ok_tx: "preserves tx_ok (event_tx acct ev)"
  by (auto simp: event_tx_def apply_event_def follow_ups_def Let_def intro!: preserves_intro split: option.splits)

section \<open>How a row evolves\<close>

text \<open>One row after any number of updates: same keys, nothing goes down, terminal is final.\<close>

definition row_le :: "order_row \<Rightarrow> order_row \<Rightarrow> bool" where
  "row_le r r' \<longleftrightarrow> o_id r' = o_id r \<and> o_qty r' = o_qty r \<and> o_account r' = o_account r \<and> o_client r' = o_client r
     \<and> order_status_rank (o_status r) \<le> order_status_rank (o_status r')
     \<and> o_filled r \<le> o_filled r' \<and> o_last_event_at r \<le> o_last_event_at r'
     \<and> (o_status r \<in> set TERMINAL_STATUSES \<longrightarrow> o_status r' = o_status r)"

lemma row_le_refl [simp]: "row_le r r"
  by (simp add: row_le_def)

lemma row_le_trans: "row_le r r' \<Longrightarrow> row_le r' r'' \<Longrightarrow> row_le r r''"
  by (auto simp: row_le_def)

lemma next_status_rank: "order_status_rank cur \<le> order_status_rank (next_status cur new)"
  by (simp add: next_status_def)

lemma next_status_terminal: "cur \<in> set TERMINAL_STATUSES \<Longrightarrow> next_status cur new = cur"
  by (simp add: next_status_def)

lemma row_le_set_order: "row_le r (set_order ev ps r)"
  by (auto simp: row_le_def set_order_def next_status_rank next_status_terminal split: option.splits)

definition evolves :: "order_row list \<Rightarrow> order_row list \<Rightarrow> bool" where
  "evolves rs rs' = list_all2 row_le rs rs'"

lemma evolves_refl [simp]: "evolves rs rs"
  by (simp add: evolves_def list.rel_refl)

lemma evolves_trans: "evolves rs rs' \<Longrightarrow> evolves rs' rs'' \<Longrightarrow> evolves rs rs''"
  unfolding evolves_def using list_all2_trans [of row_le row_le row_le] row_le_trans by blast

lemma evolves_map: "(\<And>r. row_le r (f r)) \<Longrightarrow> evolves rs (map f rs)"
  by (simp add: evolves_def list_all2_map2 list.rel_refl_strong)

lemma keeps_evolves [preserves_intro]: "preserves (orders_are (evolves rs)) (update_order acct ev c ps)"
proof -
  have "evolves os (map (\<lambda>r. if hits acct c ps r then set_order ev ps r else r) os)" for os
    by (rule evolves_map) (simp add: row_le_set_order)
  then show ?thesis
    by (auto simp: preserves_def update_order_def Let_def intro: evolves_trans)
qed

lemma keeps_evolves_tx: "preserves (orders_are (evolves rs)) (event_tx acct ev)"
  by (auto simp: event_tx_def apply_event_def follow_ups_def Let_def intro!: preserves_intro split: option.splits)

section \<open>One event of a stream\<close>

text \<open>The commission report and the failure path leave the order rows alone.\<close>

lemma consume_cases:
  obtains (same) "orders (sdb (consume (acct, ev) s)) = orders (sdb s)"
      "db_ok (sdb s) \<Longrightarrow> db_ok (sdb (consume (acct, ev) s))"
  | (tx) r cb where "event_tx acct ev (sdb s, buf s) = (Inr r, (sdb (consume (acct, ev) s), cb))"
      "ev_kind ev = ''commission_report'' \<longrightarrow> ev_exec ev = []"
proof (cases "ev_kind ev = ''commission_report'' \<and> ev_exec ev \<noteq> []")
  case True
  have c: "orders db = orders (sdb s)" "db_ok (sdb s) \<Longrightarrow> db_ok db"
    if "set_commission (ev_exec ev) c y (sdb s, buf s) = (r, (db, cb))" for c y r db cb
    using that preservesD [OF keeps_orders(3) _ that, of "\<lambda>rs. rs = orders (sdb s)"]
      preservesD [OF keeps_ok(3) _ that] by auto
  show thesis
    using True by (intro same)
      (auto simp: consume_def process_event_def process_commission_report_def Let_def
         split: sum.splits prod.splits dest: c)
next
  case False
  obtain r db cb where e: "event_tx acct ev (sdb s, buf s) = (r, (db, cb))"
    by (metis prod_cases3)
  show thesis
  proof (cases "\<exists>n p. r = Inr (Recorded n p)")
    case True
    with e False tx [of _ cb] show thesis
      by (auto simp: consume_def process_event_def)
  next
    case not_rec: False
    have "sdb (consume (acct, ev) s) = sdb s"
      using e False not_rec
      by (auto simp: consume_def process_event_def record_event_failure_def Let_def
           split: sum.splits outcome.splits)
    then show thesis by (intro same) auto
  qed
qed

lemma consume_evolves: "evolves (orders (sdb s)) (orders (sdb (consume e s)))"
proof -
  obtain acct ev where e: "e = (acct, ev)" by (cases e)
  show ?thesis
  proof (cases rule: consume_cases [of acct ev s])
    case same
    with e show ?thesis by simp
  next
    case (tx r cb)
    from preservesD [OF keeps_evolves_tx _ tx(1), of "orders (sdb s)"] e show ?thesis by simp
  qed
qed

lemma consume_ok: "db_ok (sdb s) \<Longrightarrow> db_ok (sdb (consume e s))"
proof -
  assume ok: "db_ok (sdb s)"
  obtain acct ev where e: "e = (acct, ev)" by (cases e)
  show ?thesis
  proof (cases rule: consume_cases [of acct ev s])
    case same
    with e ok show ?thesis by simp
  next
    case (tx r cb)
    from preservesD [OF keeps_ok_tx _ tx(1)] e ok show ?thesis by simp
  qed
qed

section \<open>Runs\<close>

definition find_order :: "uuid \<Rightarrow> consumer \<Rightarrow> order_row option" where
  "find_order i s = List.find (\<lambda>r. o_id r = i) (orders (sdb s))"

definition progress :: "uuid \<Rightarrow> consumer \<Rightarrow> (int \<times> decimal \<times> int option) option" where
  "progress i s =
     map_option (\<lambda>r. (order_status_rank (o_status r), o_filled r, o_last_event_at r)) (find_order i s)"

definition is_final :: "uuid \<Rightarrow> consumer \<Rightarrow> bool" where
  "is_final i s \<longleftrightarrow> (\<exists>r. find_order i s = Some r \<and> o_status r \<in> set TERMINAL_STATUSES)"

lemma find_evolves:
  "evolves rs rs' \<Longrightarrow> rel_option row_le (List.find (\<lambda>r. o_id r = i) rs) (List.find (\<lambda>r. o_id r = i) rs')"
  unfolding evolves_def by (induction rule: list_all2_induct) (auto simp: row_le_def)

lemma consume_find: "rel_option row_le (find_order i s) (find_order i (consume e s))"
  unfolding find_order_def by (rule find_evolves) (rule consume_evolves)

interpretation lifecycle: monotone_machine consume "\<lambda>s. db_ok (sdb s)" "progress i" for i
proof
  fix s e
  show "progress i s \<le> progress i (consume e s)"
    using consume_find [of i s e]
    by (cases "find_order i s"; cases "find_order i (consume e s)")
      (auto simp: progress_def row_le_def less_eq_prod_def)
qed (rule consume_ok)

interpretation lifecycle: absorbing_machine consume "\<lambda>s. db_ok (sdb s)" "is_final i"
  "\<lambda>s. map_option o_status (find_order i s)" for i
proof
  fix s e
  assume "is_final i s"
  then show "map_option o_status (find_order i (consume e s)) = map_option o_status (find_order i s)"
    and "is_final i (consume e s)"
    using consume_find [of i s e]
    by (cases "find_order i s"; cases "find_order i (consume e s)"; auto simp: is_final_def row_le_def)+
qed

lemma run_evolves: "evolves (orders (sdb s)) (orders (sdb (fold consume es s)))"
  by (induction es arbitrary: s) (auto intro: evolves_trans consume_evolves)

lemma rejected_for_good:
  assumes "find_order i s = Some r" and "o_status r = Rejected"
  shows "map_option o_status (find_order i (fold consume es s)) = Some Rejected"
proof -
  have "rel_option row_le (find_order i s) (find_order i (fold consume es s))"
    unfolding find_order_def by (rule find_evolves) (rule run_evolves)
  with assms show ?thesis
    by (cases "find_order i (fold consume es s)") (auto simp: row_le_def TERMINAL_STATUSES_def)
qed

section \<open>Single events\<close>

lemma fst_snd_keeps: "preserves (orders_are Q) m \<Longrightarrow> Q (orders db) \<Longrightarrow> m (db, cb) = (r, (db', cb')) \<Longrightarrow> Q (orders db')"
  using preservesD [of "orders_are Q" m "(db, cb)" r "(db', cb')"] by simp

lemma follow_ups_keeps: "preserves (orders_are Q) (follow_ups acct ev ps oid n)"
  by (auto simp: follow_ups_def intro!: preserves_intro split: option.splits)

lemma follow_ups_Recorded:
  "follow_ups acct ev ps oid n st = (Inr o', st') \<Longrightarrow> o' = Recorded n (ev_kind ev \<noteq> ''replaced'')"
  by (auto simp: follow_ups_def run_simps split: sum.splits prod.splits)

definition rows_after :: "uuid \<Rightarrow> event \<Rightarrow> parsed \<Rightarrow> order_row list \<Rightarrow> order_row list" where
  "rows_after acct ev ps rs =
     (case ps_client ps of
        Some c \<Rightarrow> if ev_kind ev = ''replaced'' then rs
                  else map (\<lambda>r. if hits acct c ps r then set_order ev ps r else r) rs
      | None \<Rightarrow> rs)"

lemma apply_event_rows:
  assumes "apply_event acct ev ps oid (db, cb) = (Inr o', (db', cb'))"
  shows "orders db' = rows_after acct ev ps (orders db)" "o' = Recorded (length (events db)) (ev_kind ev \<noteq> ''replaced'')"
proof -
  let ?upd = "case ps_client ps of
      Some c \<Rightarrow> awhen (ev_kind ev \<noteq> ''replaced'') (update_order acct ev c ps) | None \<Rightarrow> aret ()"
  define db1 where "db1 = fst (snd (insert_order_event acct ev oid ps (db, cb)))"
  have db1: "insert_order_event acct ev oid ps (db, cb) = (Inr (length (events db)), (db1, cb))"
      "orders db1 = orders db"
    by (auto simp: insert_order_event_def Let_def db1_def)
  obtain u db2 cb2 where u: "?upd (db1, cb) = (u, (db2, cb2))" by (metis prod_cases3)
  from u db1(2) have os2: "u = Inr () \<Longrightarrow> orders db2 = rows_after acct ev ps (orders db)"
    by (auto simp: run_simps update_order_def Let_def rows_after_def split: option.splits if_splits)
  from assms db1(1) u have "u = Inr ()"
      and f: "follow_ups acct ev ps oid (length (events db)) (db2, cb2) = (Inr o', (db', cb'))"
    by (auto simp: apply_event_def run_simps split: sum.splits)
  with os2 fst_snd_keeps [OF follow_ups_keeps [of "\<lambda>rs. rs = rows_after acct ev ps (orders db)"] _ f]
  show "orders db' = rows_after acct ev ps (orders db)" by simp
  show "o' = Recorded (length (events db)) (ev_kind ev \<noteq> ''replaced'')"
    using follow_ups_Recorded [OF f] .
qed

lemma event_tx_rows:
  assumes "event_tx acct ev (db, cb) = (Inr (Recorded n p), (db', cb'))"
  obtains ps where "parse_event ev = Inr ps" "p = (ev_kind ev \<noteq> ''replaced'')"
    "orders db' = rows_after acct ev ps (orders db)"
proof -
  from assms obtain ps where ps: "parse_event ev = Inr ps"
    and a: "apply_event acct ev ps (matching_order_id db acct (ps_client ps)) (db, cb)
              = (Inr (Recorded n p), (db', cb'))"
    by (auto simp: event_tx_def run_simps split: sum.splits if_splits)
  from that [OF ps] apply_event_rows [OF a] show thesis by simp
qed

section \<open>Uniqueness of keys\<close>

lemma broker_ids_Cons:
  "broker_ids (r # rs) = (case o_broker r of Some b \<Rightarrow> [(o_account r, b)] | None \<Rightarrow> []) @ broker_ids rs"
  by (simp add: broker_ids_def)

lemma broker_ids_mem: "(a, b) \<in> set (broker_ids rs) \<longleftrightarrow> (\<exists>r \<in> set rs. o_account r = a \<and> o_broker r = Some b)"
  by (induction rs) (auto simp: broker_ids_def split: option.splits)

lemma filter_broker_unique:
  assumes "distinct (broker_ids rs)" "r \<in> set rs" "o_broker r = Some b" "o_account r = a"
  shows "filter (\<lambda>r. o_broker r = Some b \<and> o_account r = a) rs = [r]"
  using assms
proof (induction rs)
  case Nil
  then show ?case by simp
next
  case (Cons x rs)
  have none: "filter (\<lambda>r. o_broker r = Some b \<and> o_account r = a) rs = []"
    if "o_broker x = Some b" "o_account x = a"
    using Cons.prems(1) that by (auto simp: broker_ids_Cons broker_ids_mem filter_empty_conv)
  show ?case
  proof (cases "o_broker x = Some b \<and> o_account x = a")
    case True
    with Cons.prems none have "x = r" by (auto simp: filter_empty_conv)
    with True none show ?thesis by simp
  next
    case False
    with Cons show ?thesis by (auto simp: broker_ids_Cons)
  qed
qed

section \<open>Properties\<close>

definition demo_order :: order_row where
  "demo_order = \<lparr>o_id = ''o1'', o_account = ''a1'', o_client = ''c1'', o_broker = Some ''b1'', o_qty = 10,
     o_status = Filled, o_filled = 10, o_avg = Some 5, o_notional_filled = Some 50,
     o_last_event_at = Some 7, o_combo = None\<rparr>"

definition demo_db :: "order_row list \<Rightarrow> odb" where
  "demo_db rs = \<lparr>orders = rs, events = [], fills = [], pending = [], combos = [], legs = [],
     enrich = (\<lambda>_. (None, None, None))\<rparr>"

definition demo :: "order_row list \<Rightarrow> consumer" where
  "demo rs = \<lparr>sdb = demo_db rs, buf = [], consecutive_failures = 0, published = []\<rparr>"

definition demo_event :: event where
  "demo_event = \<lparr>ev_broker = ''b1'', ev_client = [], ev_status = ''FILLED'', ev_filled = DNum 10,
     ev_avg = DNum 5, ev_at = Some 9, ev_payload = PEmpty, ev_exec = [], ev_kind = []\<rparr>"

lemma demo_simps [simp]:
  "orders (sdb (demo rs)) = rs" "fills (sdb (demo rs)) = []" "pending (sdb (demo rs)) = []"
  by (simp_all add: demo_def demo_db_def)

lemma demo_ok [simp]: "db_ok (sdb (demo [demo_order]))"
  by (simp add: db_ok_def row_ok_def demo_order_def broker_ids_def)

lemma demo_find [simp]: "find_order ''o1'' (demo [demo_order]) = Some demo_order"
  by (simp add: find_order_def demo_order_def)

text \<open>C2: once an order row is in a terminal status, no sequence of broker events (live, synthetic or
  replayed, of any account) changes its status.\<close>

theorem terminal_status_final:
  assumes "db_ok (sdb s)" and "find_order i s = Some r" and "o_status r \<in> set TERMINAL_STATUSES"
  shows "map_option o_status (find_order i (fold consume es s)) = Some (o_status r)"
proof -
  have "is_final i s" using assms by (simp add: is_final_def)
  with assms show ?thesis using lifecycle.run_terminal [of s i es] by simp
qed

theorem terminal_status_final_witness:
  "map_option o_status (find_order ''o1'' (fold consume [(''a1'', demo_event)] (demo [demo_order]))) = Some Filled"
  using terminal_status_final [of "demo [demo_order]" "''o1''" demo_order "[(''a1'', demo_event)]"]
  by (simp add: TERMINAL_STATUSES_def) (simp add: demo_order_def)

text \<open>C5: over any sequence of broker events an order keeps its identity, its quantity is never overfilled,
  and its status rank, filled quantity and event time never decrease.\<close>

theorem order_progress_monotone:
  assumes ok: "db_ok (sdb s)" and r: "find_order i s = Some r"
  shows "\<exists>r'. find_order i (fold consume es s) = Some r' \<and> row_le r r'
           \<and> o_filled r \<le> o_filled r' \<and> o_filled r' \<le> o_qty r
           \<and> order_status_rank (o_status r) \<le> order_status_rank (o_status r')"
proof -
  have "rel_option row_le (find_order i s) (find_order i (fold consume es s))"
  proof (induction es arbitrary: s)
    case (Cons e es)
    from consume_find [of i s e] Cons [of "consume e s"] row_le_trans show ?case
      by (cases "find_order i s"; cases "find_order i (consume e s)";
          cases "find_order i (fold consume es (consume e s))") auto
  qed (simp add: option.rel_refl)
  with r obtain r' where r': "find_order i (fold consume es s) = Some r'" "row_le r r'"
    by (cases "find_order i (fold consume es s)") auto
  from lifecycle.run_inv [OF ok, of es] r'(1) have "row_ok r'"
    by (auto simp: db_ok_def list_all_iff find_order_def dest: find_Some_iff')
  with r' show ?thesis by (auto simp: row_ok_def row_le_def)
qed

theorem order_progress_monotone_witness:
  "\<exists>r'. find_order ''o1'' (fold consume [(''a1'', demo_event)] (demo [demo_order])) = Some r' \<and> o_filled r' = 10"
  using order_progress_monotone [OF demo_ok demo_find, of "[(''a1'', demo_event)]"]
  by (auto simp: demo_order_def row_le_def)



text \<open>A re-emitted status (same broker order, same status, no execution id) changes nothing at all:
  no event row, no publication, no failure count.\<close>

theorem echo_ignored:
  assumes "db_ok (sdb s)" and "parse_event ev = Inr ps" and "ev_exec ev = []"
    and "r \<in> set (orders (sdb s))" and "o_account r = acct" and "o_broker r = Some (ev_broker ev)"
    and "o_status r = ps_status ps"
  shows "process_event acct ev s = (Inr (), s)"
proof -
  have "filter (\<lambda>r. o_broker r = Some (ev_broker ev) \<and> o_account r = acct) (orders (sdb s)) = [r]"
    using assms by (intro filter_broker_unique) (auto simp: db_ok_def)
  with assms have "is_echo acct ev ps (sdb s) = Inr True" by (simp add: is_echo_def)
  with assms show ?thesis by (simp add: process_event_def event_tx_def run_simps)
qed

theorem echo_ignored_witness:
  "process_event ''a1'' demo_event (demo [demo_order]) = (Inr (), demo [demo_order])"
proof (rule echo_ignored [where r = demo_order])
  show "parse_event demo_event = Inr \<lparr>ps_at = 9, ps_payload = no_fields, ps_status = Filled,
      ps_filled = Some 10, ps_avg = Some 5, ps_client = None\<rparr>"
    by code_simp
qed (simp_all add: demo_event_def demo_order_def db_ok_def row_ok_def broker_ids_def)

lemma process_event_rows:
  assumes "event_tx acct ev (sdb s, buf s) = (Inr (Recorded n True), st')"
    and "ev_kind ev \<noteq> ''commission_report''"
  shows "\<exists>ps. parse_event ev = Inr ps \<and>
    orders (sdb (snd (process_event acct ev s))) =
      map (\<lambda>r. if ps_client ps = Some (o_client r) \<and> o_account r = acct
                   \<and> (\<forall>t. o_last_event_at r = Some t \<longrightarrow> t \<le> ps_at ps)
               then set_order ev ps r else r) (orders (sdb s))"
proof -
  obtain db' cb' where st': "st' = (db', cb')" by (cases st')
  from event_tx_rows [OF assms(1) [unfolded st']] obtain ps where ps: "parse_event ev = Inr ps"
      "ev_kind ev \<noteq> ''replaced''" "orders db' = rows_after acct ev ps (orders (sdb s))" by auto
  have "orders db' = map (\<lambda>r. if ps_client ps = Some (o_client r) \<and> o_account r = acct
                   \<and> (\<forall>t. o_last_event_at r = Some t \<longrightarrow> t \<le> ps_at ps)
               then set_order ev ps r else r) (orders (sdb s))"
    unfolding ps(3) rows_after_def
    by (cases "ps_client ps") (auto simp: ps(2) hits_def split: option.splits)
  with ps(1) assms st' show ?thesis by (auto simp: process_event_def)
qed

text \<open>An event that is recorded rewrites exactly the order of its account and client order id, by the
  \<open>SET\<close> clause, unless the row has seen a newer event; every other row stays as it is.\<close>

theorem event_updates_its_order:
  assumes "event_tx acct ev (sdb s, buf s) = (Inr (Recorded n True), st')"
    and "ev_kind ev \<noteq> ''commission_report''"
  shows "\<exists>ps. parse_event ev = Inr ps \<and>
    orders (sdb (snd (process_event acct ev s))) =
      map (\<lambda>r. if ps_client ps = Some (o_client r) \<and> o_account r = acct
                   \<and> (\<forall>t. o_last_event_at r = Some t \<longrightarrow> t \<le> ps_at ps)
               then set_order ev ps r else r) (orders (sdb s))"
  by (rule process_event_rows [OF assms])

definition demo_fill :: event where
  "demo_fill = demo_event\<lparr>ev_client := ''00000000-0000-0000-0000-000000000001'', ev_exec := ''x1'',
     ev_kind := ''exec_details''\<rparr>"

definition demo_open :: order_row where
  "demo_open = demo_order\<lparr>o_status := Submitted, o_filled := 0, o_client := ''00000000-0000-0000-0000-000000000001''\<rparr>"

theorem event_updates_its_order_witness:
  "orders (sdb (snd (process_event ''a1'' demo_fill (demo [demo_open]))))
     = [demo_open\<lparr>o_status := Filled, o_filled := 10, o_last_event_at := Some 9\<rparr>]"
proof -
  let ?s = "demo [demo_open]"
  have p: "parse_event demo_fill = Inr \<lparr>ps_at = 9, ps_payload = no_fields, ps_status = Filled,
      ps_filled = Some 10, ps_avg = Some 5, ps_client = Some ''00000000-0000-0000-0000-000000000001''\<rparr>"
    by code_simp
  have ccy: "ccy_ok (ccy3 None)" by code_simp
  have f: "ev_broker demo_fill = ''b1''" "ev_exec demo_fill = ''x1''" "ev_kind demo_fill = ''exec_details''"
    by (simp_all add: demo_fill_def demo_event_def)
  have k: "ev_kind demo_fill \<noteq> ''commission_report''" by (simp add: demo_fill_def)
  obtain n st' where t: "event_tx ''a1'' demo_fill (sdb ?s, buf ?s) = (Inr (Recorded n True), st')"
    by (simp add: event_tx_def p f run_simps is_echo_def apply_event_def follow_ups_def insert_order_event_def
        update_order_def matching_order_id_def demo_def demo_db_def demo_open_def demo_order_def
        hits_def set_order_def row_ok_def broker_ids_def next_status_def TERMINAL_STATUSES_def
        combo_fill_def handle_fill_def record_fill_def insert_fill_def ccy no_fields_def or_zero_def
        commission_buffer_pop_def drain_pending_fills_def Let_def)
  from event_updates_its_order [OF t k] p show ?thesis
    by (auto simp: demo_open_def demo_order_def set_order_def next_status_def TERMINAL_STATUSES_def demo_fill_def demo_event_def)
qed

text \<open>A \<open>replaced\<close> event (the cancel half of a cancel-and-replace) never touches an order row and is
  never published.\<close>

theorem replaced_event_silent:
  assumes "ev_kind ev = ''replaced''"
  shows "orders (sdb (snd (process_event acct ev s))) = orders (sdb s)
       \<and> published (snd (process_event acct ev s)) = published s"
proof -
  obtain r db cb where e: "event_tx acct ev (sdb s, buf s) = (r, (db, cb))" by (metis prod_cases3)
  show ?thesis
  proof (cases r)
    case (Inl e')
    with e assms show ?thesis by (simp add: process_event_def record_event_failure_def Let_def)
  next
    case (Inr o')
    show ?thesis
    proof (cases o')
      case Echo
      with e Inr assms show ?thesis by (simp add: process_event_def)
    next
      case (Recorded n p)
      obtain ps where "p = (ev_kind ev \<noteq> ''replaced'')" and "orders db = rows_after acct ev ps (orders (sdb s))"
        using event_tx_rows [OF e [unfolded Inr Recorded]] by metis
      then have "p = False" "orders db = orders (sdb s)"
        by (simp_all add: rows_after_def assms split: option.splits)
      with e Inr Recorded assms show ?thesis by (simp add: process_event_def)
    qed
  qed
qed

theorem replaced_event_silent_witness:
  "orders (sdb (snd (process_event ''a1'' (demo_fill\<lparr>ev_kind := ''replaced''\<rparr>) (demo [demo_open])))) = [demo_open]"
  using replaced_event_silent [of "demo_fill\<lparr>ev_kind := ''replaced''\<rparr>" "''a1''" "demo [demo_open]"] by simp

text \<open>An event whose transaction raises leaves tables and subscribers as they were and counts one failure;
  the fiftieth failure in a row trips the circuit breaker, an earlier one is absorbed.\<close>

theorem failed_event_rolls_back:
  assumes "event_tx acct ev (sdb s, buf s) = (Inl e, (db, cb))" and "ev_kind ev \<noteq> ''commission_report''"
  shows "process_event acct ev s =
    (if consecutive_failures s < 49 then Inr ()
     else Inl (RuntimeError ''broker order event consumer circuit breaker tripped''),
     s\<lparr>buf := cb, consecutive_failures := consecutive_failures s + 1\<rparr>)"
  using assms by (simp add: process_event_def record_event_failure_def MAX_CONSECUTIVE_FAILURES_def Let_def)

theorem failed_event_rolls_back_witness:
  "fst (process_event ''a1'' (demo_event\<lparr>ev_status := ''odd''\<rparr>) (demo [])) = Inr ()"
proof -
  let ?e = "demo_event\<lparr>ev_status := ''odd''\<rparr>"
  have "normalize_status ''odd'' = Inl (ValueError ''unknown order status'')" by code_simp
  then have "event_tx ''a1'' ?e (sdb (demo []), buf (demo [])) =
      (Inl (ValueError ''unknown order status''), (sdb (demo []), buf (demo [])))"
    by (simp add: event_tx_def parse_event_def demo_event_def run_simps)
  from failed_event_rolls_back [OF this] show ?thesis by (simp add: demo_event_def) (simp add: demo_def)
qed

lemma synth_pending_fails:
  assumes "resync_status (so_status so) = ''pending_submit''"
  shows "event_tx acct (synth_of so) st = (Inl (ValueError ''unknown order status''), st)"
proof -
  have "normalize_status ''pending_submit'' = Inl (ValueError ''unknown order status'')" by code_simp
  with assms show ?thesis by (simp add: event_tx_def parse_event_def synth_of_def run_simps)
qed

lemma process_synth_pending:
  assumes "resync_status (so_status so) = ''pending_submit''"
  shows "process_event acct (synth_of so) s = record_event_failure s"
  using synth_pending_fails [OF assms] by (simp add: process_event_def synth_of_def)

text \<open>Resynchronisation names a pending order \<open>pending_submit\<close>, which \<open>_normalize_status\<close> does not know:
  the synthetic event of every such order is dropped, and fifty of them in a snapshot trip the circuit
  breaker before any live event is read.\<close>

theorem pending_resync_trips_breaker:
  assumes "50 \<le> consecutive_failures s + length sos" and "consecutive_failures s < 50"
    and "\<forall>so \<in> set sos. resync_status (so_status so) = ''pending_submit''"
  shows "fst (process_all acct (map synth_of sos) s)
           = Inl (RuntimeError ''broker order event consumer circuit breaker tripped'')
       \<and> sdb (snd (process_all acct (map synth_of sos) s)) = sdb s"
  using assms
proof (induction sos arbitrary: s)
  case Nil
  then show ?case by simp
next
  case (Cons so sos)
  have step: "process_event acct (synth_of so) s = record_event_failure s"
    using Cons.prems(3) by (simp add: process_synth_pending)
  show ?case
  proof (cases "consecutive_failures s = 49")
    case True
    then show ?thesis
      by (simp add: step run_simps record_event_failure_def MAX_CONSECUTIVE_FAILURES_def Let_def)
  next
    case False
    let ?s = "s\<lparr>consecutive_failures := consecutive_failures s + 1\<rparr>"
    from False Cons.prems(2) have r: "record_event_failure s = (Inr (), ?s)"
      by (simp add: record_event_failure_def MAX_CONSECUTIVE_FAILURES_def Let_def)
    from Cons.IH [of ?s] Cons.prems False r step show ?thesis by (simp add: run_simps)
  qed
qed

definition demo_snapshot :: "string \<Rightarrow> snapshot_order" where
  "demo_snapshot st = \<lparr>so_order_id = ''c1'', so_status = st, so_filled = DNum 0, so_avg = DNum 0,
     so_submitted_at = None, so_updated_at = None\<rparr>"

theorem pending_resync_trips_breaker_witness:
  "fst (process_all ''a1'' (map synth_of (replicate 50 (demo_snapshot ''PENDING''))) (demo []))
     = Inl (RuntimeError ''broker order event consumer circuit breaker tripped'')"
proof -
  have "resync_status ''PENDING'' = ''pending_submit''" by code_simp
  then have "\<forall>so \<in> set (replicate 50 (demo_snapshot ''PENDING'')). resync_status (so_status so) = ''pending_submit''"
    by (simp add: demo_snapshot_def)
  from pending_resync_trips_breaker [OF _ _ this, of "demo []" "''a1''"] show ?thesis
    by (simp add: demo_def)
qed

text \<open>A commission report may arrive before or after its execution: recording the fill and then the report,
  or buffering the report and then recording the fill, leave the same fills.\<close>

theorem commission_either_order:
  assumes "ev_exec ev \<notin> f_exec ` set (fills db)" and "ccy_ok y"
    and "0 < or_zero (ps_filled ps)" and "ccy_ok (ccy3 (pl_currency (ps_payload ps)))"
    and "map_of cb (ev_exec ev) = None"
  shows "fills (fst (snd (aseq (record_fill acct ev (Some i) ps) (set_commission (ev_exec ev) c y) (db, cb))))
       = fills (fst (snd (record_fill acct ev (Some i) ps (db, commission_buffer_set (ev_exec ev) c y cb))))"
  using assms
  by (simp add: record_fill_def run_simps insert_fill_def commission_buffer_pop_def set_commission_def
      commission_buffer_set_def)

definition demo_parsed :: parsed where
  "demo_parsed = \<lparr>ps_at = 9, ps_payload = no_fields, ps_status = Filled, ps_filled = Some 10, ps_avg = Some 5,
     ps_client = None\<rparr>"

theorem commission_either_order_witness:
  "fills (fst (snd (aseq (record_fill ''a1'' demo_fill (Some ''o1'') demo_parsed)
                      (set_commission (ev_exec demo_fill) 1 ''USD'') (demo_db [], []))))
     = fills (fst (snd (record_fill ''a1'' demo_fill (Some ''o1'') demo_parsed
                      (demo_db [], commission_buffer_set (ev_exec demo_fill) 1 ''USD'' []))))"
proof -
  have "ccy_ok ''USD''" "ccy_ok (ccy3 None)" by code_simp+
  then show ?thesis
    by (intro commission_either_order) (simp_all add: demo_db_def demo_parsed_def or_zero_def no_fields_def)
qed

text \<open>Fills that waited in \<open>pending_fills\<close> are moved with the commission of the pending row, which nothing ever
  sets; a commission report that was buffered for them stays in the buffer and is not applied.\<close>

theorem drained_fills_ignore_buffer:
  assumes "db_ok db" and "p \<in> set (pending db)" and "pf_broker p = b"
    and "pf_exec p \<notin> f_exec ` set (fills db)"
  shows "\<exists>db'. drain_pending_fills i b (db, cb) = (Inr (), (db', cb)) \<and>
    (\<exists>f \<in> set (fills db'). f_exec f = pf_exec p \<and> f_order f = i \<and> f_commission f = None)
    \<and> p \<notin> set (pending db')"
proof -
  have "f_exec (fill_of_pending db i p) = pf_exec p" "f_order (fill_of_pending db i p) = i"
      "f_commission (fill_of_pending db i p) = None"
    using assms by (auto simp: fill_of_pending_def db_ok_def list_all_iff)
  with assms show ?thesis
    by (auto simp: drain_pending_fills_def Let_def intro!: bexI [of _ "fill_of_pending db i p"])
qed

definition demo_pending :: pending_row where
  "demo_pending = \<lparr>pf_exec = ''x1'', pf_broker = ''b1'', pf_account = ''a2'', pf_qty = 10, pf_price = 5,
     pf_currency = ''USD'', pf_executed_at = 9, pf_commission = None, pf_commission_currency = None\<rparr>"

theorem drained_fills_ignore_buffer_witness:
  "\<exists>db'. drain_pending_fills ''o1'' ''b1'' ((demo_db [])\<lparr>pending := [demo_pending]\<rparr>, [(''x1'', 1, ''USD'')])
       = (Inr (), (db', [(''x1'', 1, ''USD'')]))
     \<and> (\<exists>f \<in> set (fills db'). f_exec f = ''x1'' \<and> f_order f = ''o1'' \<and> f_commission f = None)"
  using drained_fills_ignore_buffer [of "(demo_db [])\<lparr>pending := [demo_pending]\<rparr>" demo_pending "''b1''" "''o1''"
      "[(''x1'', 1, ''USD'')]"]
  by (auto simp: demo_pending_def demo_db_def db_ok_def broker_ids_def)

end
