(* ===== verification/Orders_Data.thy ===== *)
theory Orders_Data
  imports Order_Events Risk_Evaluate
begin

text \<open>
  Requests, the statements on the \<open>orders\<close> table and the helpers of the order service
  (\<open>backend/app/services/orders_service.py\<close>, \<open>backend/app/schemas/orders.py\<close>,
  \<open>backend/app/services/orders_policy.py\<close>).

  The \<open>orders\<close> table is shared with the event consumer: its columns that the consumer reads or writes
  are the rows of \<open>odb\<close>, the remaining ones are \<open>w_cols\<close>, a map from the order's id. The
  preview nonces and the replay cache are maps beside the counters' Redis connection, and their
  commands take a fault from the same schedule. A nonce value is the hashed payload itself: SHA-256
  stands for an injective function. Numbers arrive as the text a pattern accepts and are
  modelled by their value. What a broker is told is logged in \<open>w_sent\<close>.
\<close>

section \<open>Requests\<close>

datatype otype = MARKET | LIMIT | STOP | STOP_LIMIT | TRAIL | TRAIL_LIMIT | MOC | MOO | LOC | LOO
datatype otif = DAY | GTC | IOC | FOK | GTD
datatype trail_type = AMOUNT | PERCENT

definition SESSION_BOUND_ORDER_TYPES :: "otype list" where
  "SESSION_BOUND_ORDER_TYPES = [MOC, MOO, LOC, LOO]"

record order_req =
  rq_account :: uuid
  rq_conid :: string
  rq_side :: side
  rq_type :: otype
  rq_tif :: otif
  rq_qty :: "decimal option"
  rq_cash :: "decimal option"
  rq_limit :: "decimal option"
  rq_stop :: "decimal option"
  rq_trail :: "decimal option"
  rq_trail_type :: "trail_type option"
  rq_trail_limit :: "decimal option"
  rq_expiry :: "string option"
  rq_algo :: "string option"
  rq_display :: "dec_text option"
  rq_effect :: "string option"

record place_req = order_req +
  rq_client :: uuid
  rq_nonce :: string

text \<open>\<open>date.fromisoformat\<close> is a parameter: \<open>date_ok s\<close> tells whether it accepts \<open>s\<close>.\<close>

fun shape_of_type ::
  "otype \<Rightarrow> decimal option \<Rightarrow> decimal option \<Rightarrow> decimal option \<Rightarrow> trail_type option \<Rightarrow> decimal option \<Rightarrow> bool" where
  "shape_of_type MARKET l s t tt u = (l = None \<and> s = None \<and> t = None \<and> tt = None \<and> u = None)"
| "shape_of_type LIMIT l s t tt u = (l \<noteq> None \<and> s = None \<and> t = None \<and> tt = None \<and> u = None)"
| "shape_of_type STOP l s t tt u = (s \<noteq> None \<and> l = None \<and> t = None \<and> tt = None \<and> u = None)"
| "shape_of_type STOP_LIMIT l s t tt u = (s \<noteq> None \<and> l \<noteq> None \<and> t = None \<and> tt = None \<and> u = None)"
| "shape_of_type TRAIL l s t tt u = (t \<noteq> None \<and> tt \<noteq> None \<and> l = None \<and> s = None \<and> u = None)"
| "shape_of_type TRAIL_LIMIT l s t tt u = (t \<noteq> None \<and> tt \<noteq> None \<and> u \<noteq> None \<and> l = None \<and> s = None)"
| "shape_of_type MOC l s t tt u = (l = None \<and> s = None \<and> t = None \<and> tt = None \<and> u = None)"
| "shape_of_type MOO l s t tt u = (l = None \<and> s = None \<and> t = None \<and> tt = None \<and> u = None)"
| "shape_of_type LOC l s t tt u = (l \<noteq> None \<and> s = None \<and> t = None \<and> tt = None \<and> u = None)"
| "shape_of_type LOO l s t tt u = (l \<noteq> None \<and> s = None \<and> t = None \<and> tt = None \<and> u = None)"

definition validate_order_shape ::
  "(string \<Rightarrow> bool) \<Rightarrow> otype \<Rightarrow> otif \<Rightarrow> decimal option \<Rightarrow> decimal option \<Rightarrow> decimal option
   \<Rightarrow> trail_type option \<Rightarrow> decimal option \<Rightarrow> string option \<Rightarrow> exn + unit" where
  "validate_order_shape date_ok ty tf l s t tt u ex =
     (if (case ex of Some d \<Rightarrow> \<not> date_ok d | None \<Rightarrow> False)
      then Inl (ValueError ''expiry_date must be a valid ISO date string'')
      else if ty \<in> set SESSION_BOUND_ORDER_TYPES \<and> tf \<noteq> DAY then Inl (ValueError ''session_window_closed'')
      else if tf = GTD \<and> ex = None then Inl (ValueError ''GTD orders require expiry_date'')
      else if tf \<noteq> GTD \<and> ex \<noteq> None then Inl (ValueError ''expiry_date needs GTD'')
      else if \<not> shape_of_type ty l s t tt u then Inl (ValueError ''price fields do not fit the order type'')
      else Inr ())"

text \<open>\<open>PreviewRequest._check_order_type_prices\<close>.\<close>

definition validate_request :: "(string \<Rightarrow> bool) \<Rightarrow> 'z order_req_scheme \<Rightarrow> exn + unit" where
  "validate_request date_ok q =
     (if (rq_qty q = None) = (rq_cash q = None) then Inl (ValueError ''cash_amount_xor_qty'')
      else if rq_cash q \<noteq> None \<and> rq_side q \<noteq> Buy then Inl (ValueError ''cash_amount_buy_only'')
      else if rq_cash q \<noteq> None \<and> rq_type q \<noteq> MARKET then Inl (ValueError ''cash_amount_market_only'')
      else if rq_cash q \<noteq> None \<and> rq_tif q \<noteq> DAY then Inl (ValueError ''cash_amount_day_only'')
      else validate_order_shape date_ok (rq_type q) (rq_tif q) (rq_limit q) (rq_stop q) (rq_trail q)
             (rq_trail_type q) (rq_trail_limit q) (rq_expiry q))"

definition canonicalize_qty :: "decimal option \<Rightarrow> exn + decimal" where
  "canonicalize_qty q = (case q of None \<Rightarrow> Inl NotImplementedError | Some x \<Rightarrow> Inr (quantize8 x))"

section \<open>Policy and caps\<close>

datatype cap_level = Ok_Cap | Near_Cap | Exceeded_Cap

definition cap_status :: "decimal \<Rightarrow> decimal \<Rightarrow> cap_level" where
  "cap_status filled cap =
     (if cap < filled then Exceeded_Cap
      else if 0 < cap \<and> 8 / 10 \<le> filled / cap then Near_Cap else Ok_Cap)"

text \<open>The configuration rows of namespace \<open>broker\<close>, by key: a row holds a flag or another value.\<close>

datatype cfg_value = CBool bool | CText dec_text

record trade_policy =
  max_notional_per_order :: decimal
  daily_notional_cap :: decimal
  trade_enabled :: bool
  simulator_only :: bool

definition cfg_get_bool :: "(string \<Rightarrow> cfg_value option) \<Rightarrow> string \<Rightarrow> bool \<Rightarrow> exn + bool" where
  "cfg_get_bool cfg k dflt =
     (case cfg k of None \<Rightarrow> Inr dflt | Some (CBool b) \<Rightarrow> Inr b | Some (CText _) \<Rightarrow> Inl TypeError)"

text \<open>\<open>Decimal(str(value))\<close>: the text of a flag is no number.\<close>

definition cfg_decimal :: "(string \<Rightarrow> cfg_value option) \<Rightarrow> string \<Rightarrow> decimal \<Rightarrow> exn + decimal" where
  "cfg_decimal cfg k dflt =
     (case cfg k of None \<Rightarrow> Inr dflt | Some (CText t) \<Rightarrow> to_decimal t | Some (CBool _) \<Rightarrow> Inl InvalidOperation)"

definition get_account_policy ::
  "(string \<Rightarrow> cfg_value option) \<Rightarrow> string \<Rightarrow> string \<Rightarrow> exn + trade_policy" where
  "get_account_policy cfg lab mode =
     rbind (cfg_get_bool cfg (lab @ ''.trade_enabled'') False) (\<lambda>te.
     rbind (cfg_get_bool cfg (lab @ ''.simulator_only'') (mode = ''live'')) (\<lambda>so.
     rbind (cfg_decimal cfg (lab @ ''.max_notional_per_order'') 10000) (\<lambda>mx.
     rbind (cfg_decimal cfg (lab @ ''.daily_notional_cap'') 50000) (\<lambda>dc.
       Inr \<lparr>max_notional_per_order = mx, daily_notional_cap = dc, trade_enabled = te, simulator_only = so\<rparr>))))"

definition is_kill_switch_active :: "(string \<Rightarrow> cfg_value option) \<Rightarrow> exn + bool" where
  "is_kill_switch_active cfg = cfg_get_bool cfg ''kill_switch_enabled'' False"

definition is_regular_trading_hours :: "int \<Rightarrow> bool" where
  "is_regular_trading_hours now =
     (weekday now < 5 \<and> (let minutes = tod now div us_minute in 14 * 60 + 30 \<le> minutes \<and> minutes < 21 * 60))"

definition KNOWN_BROKERS :: "string list" where
  "KNOWN_BROKERS = [''ibkr'', ''schwab'', ''alpaca'', ''futu'']"

definition capability_broker_id :: "string \<Rightarrow> string" where
  "capability_broker_id lab =
     (if lab \<in> set KNOWN_BROKERS then lab
      else let prefix = hd (split_on (CHR ''-'') lab) in
           if prefix \<in> set KNOWN_BROKERS then prefix else ''ibkr'')"

section \<open>The nonce\<close>

text \<open>The eight hashed fields; a stored value that carries no such hash matches none (\<open>nv_hash = None\<close>).\<close>

type_synonym phash = "uuid \<times> string \<times> side \<times> otype \<times> otif \<times> decimal \<times> decimal option \<times> decimal option"

record nonce_val =
  nv_hash :: "phash option"
  nv_rth :: "bool option"

definition preview_payload_hash ::
  "uuid \<Rightarrow> string \<Rightarrow> side \<Rightarrow> otype \<Rightarrow> otif \<Rightarrow> decimal option \<Rightarrow> decimal option \<Rightarrow> decimal option \<Rightarrow> exn + phash" where
  "preview_payload_hash acct conid sd ty tf q l s =
     rbind (canonicalize_qty q) (\<lambda>cq.
       Inr (acct, conid, sd, ty, tf, cq, map_option quantize8 l, map_option quantize8 s))"

definition request_hash :: "'z order_req_scheme \<Rightarrow> exn + phash" where
  "request_hash q =
     preview_payload_hash (rq_account q) (rq_conid q) (rq_side q) (rq_type q) (rq_tif q) (rq_qty q) (rq_limit q) (rq_stop q)"

section \<open>The world of the order service\<close>

record order_cols =
  oc_conid :: string
  oc_symbol :: string
  oc_side :: side
  oc_type :: otype
  oc_tif :: otif
  oc_limit :: "decimal option"
  oc_stop :: "decimal option"
  oc_notional :: decimal
  oc_cancel_at :: "int option"
  oc_created :: int
  oc_parent :: "uuid option"
  oc_oca :: "string option"
  oc_algo :: "string option"

text \<open>What \<open>_OrderSidecarClient\<close> is handed: the argument lists of its calls.\<close>

record place_wire =
  pw_client :: uuid
  pw_conid :: string
  pw_side :: side
  pw_type :: otype
  pw_tif :: otif
  pw_qty :: decimal
  pw_limit :: "decimal option"
  pw_stop :: "decimal option"
  pw_trail :: "decimal option"
  pw_trail_type :: "trail_type option"
  pw_trail_limit :: "decimal option"
  pw_expiry :: "string option"

datatype broker_msg =
    PlaceMsg string place_wire
  | CancelMsg string string
  | ModifyMsg string string otif decimal "decimal option" "decimal option"
  | BracketMsg string place_wire "place_wire option" "place_wire option"

text \<open>The answer of a modification, as cached for its nonce.\<close>

record modify_result =
  mr_client :: uuid
  mr_broker :: string
  mr_status :: ostatus
  mr_qty :: decimal
  mr_limit :: "decimal option"
  mr_stop :: "decimal option"
  mr_tif :: otif

record 'r world =
  w_db :: odb
  w_cols :: "uuid \<Rightarrow> order_cols option"
  w_conn :: "'r conn"
  w_nonces :: "uuid \<times> string \<Rightarrow> nonce_val option"
  w_rate :: "string \<Rightarrow> nat"
  w_replay :: "uuid \<times> string \<Rightarrow> modify_result option"
  w_sent :: "broker_msg list"

text \<open>A command on the Redis side maps, and the counters' operations, on the whole world.\<close>

definition rcmd :: "('r world \<Rightarrow> 'a \<times> 'r world) \<Rightarrow> ('a, 'r world) act" where
  "rcmd c w = (case faults (w_conn w) of
       Some e # fs \<Rightarrow> (Inl e, w\<lparr>w_conn := (w_conn w)\<lparr>faults := fs\<rparr>\<rparr>)
     | None # fs \<Rightarrow> (let (x, w') = c (w\<lparr>w_conn := (w_conn w)\<lparr>faults := fs\<rparr>\<rparr>) in (Inr x, w'))
     | [] \<Rightarrow> (let (x, w') = c w in (Inr x, w')))"

definition on_conn :: "('a, 'r conn) act \<Rightarrow> ('a, 'r world) act" where
  "on_conn m w = (case m (w_conn w) of (r, k) \<Rightarrow> (r, w\<lparr>w_conn := k\<rparr>))"

text \<open>\<open>try: ... except Exception\<close>: \<open>CancelledError\<close> is no \<open>Exception\<close>.\<close>

definition guarded :: "('a, 's) act \<Rightarrow> ('a option, 's) act" where
  "guarded m = (\<lambda>s. case m s of
       (Inl CancelledError, s') \<Rightarrow> (Inl CancelledError, s')
     | (Inl _, s') \<Rightarrow> (Inr None, s')
     | (Inr x, s') \<Rightarrow> (Inr (Some x), s'))"

definition aread :: "('s \<Rightarrow> 'a) \<Rightarrow> ('a, 's) act" where
  "aread f = (\<lambda>s. (Inr (f s), s))"

definition fail :: "exn \<Rightarrow> ('a, 's) act" where
  "fail e = of_res (Inl e)"

text \<open>\<open>if c: raise e\<close>.\<close>

definition raise_if :: "bool \<Rightarrow> exn \<Rightarrow> (unit, 's) act" where
  "raise_if c e = (if c then fail e else aret ())"

declare aread_def [run_simps] fail_def [run_simps] raise_if_def [run_simps]

lemma keeps_aread [keeps_intro]: "keeps f (aread g)"
  by (simp add: keeps_def aread_def)

lemma keeps_fail [keeps_intro]: "keeps f (fail e)"
  by (simp add: keeps_def fail_def of_res_def)

lemma keeps_raise_if [keeps_intro]: "keeps f (raise_if c e)"
  by (simp add: raise_if_def keeps_intro)

lemma keeps_guarded [keeps_intro]: "keeps f m \<Longrightarrow> keeps f (guarded m)"
  unfolding keeps_def guarded_def by (auto split: prod.splits sum.splits exn.splits) (metis snd_conv)+

lemma keeps_on_conn [keeps_intro]: "(\<And>k w. f (w\<lparr>w_conn := k\<rparr>) = f w) \<Longrightarrow> keeps f (on_conn m)"
  by (simp add: keeps_def on_conn_def split: prod.splits)

text \<open>What a command leaves alone: anything that neither its effect nor a spent fault can move.\<close>

lemma keeps_rcmd [keeps_intro]:
  assumes "\<And>k w. f (w\<lparr>w_conn := k\<rparr>) = f w" and "\<And>w. f (snd (c w)) = f w"
  shows "keeps f (rcmd c)"
  unfolding keeps_def
proof
  fix w
  show "f (snd (rcmd c w)) = f w"
    using assms(1) [of _ w] assms(2)
    by (simp add: rcmd_def Let_def split: prod.splits option.splits list.splits) (metis snd_conv)
qed

section \<open>Statements on the orders table\<close>

text \<open>
  The check that migration \<open>0004\<close> gives the table. PostgreSQL names it \<open>orders_check\<close>, since it
  spans several columns; migration \<open>0028\<close> drops \<open>orders_order_type_check IF EXISTS\<close>, so it stays.
\<close>

definition orders_check :: "otype \<Rightarrow> decimal option \<Rightarrow> decimal option \<Rightarrow> bool" where
  "orders_check ty l s \<longleftrightarrow>
     (ty = MARKET \<and> l = None \<and> s = None) \<or> (ty = LIMIT \<and> l \<noteq> None \<and> s = None)
   \<or> (ty = STOP \<and> l = None \<and> s \<noteq> None)"

definition lookup_order :: "(order_row \<Rightarrow> bool) \<Rightarrow> 'r world \<Rightarrow> order_row option" where
  "lookup_order P w = List.find P (orders (w_db w))"

definition new_row :: "uuid \<Rightarrow> uuid \<Rightarrow> uuid \<Rightarrow> decimal \<Rightarrow> order_row" where
  "new_row oid acct client q =
     \<lparr>o_id = oid, o_account = acct, o_client = client, o_broker = None, o_qty = q,
      o_status = PendingSubmit, o_filled = 0, o_avg = None, o_notional_filled = Some 0,
      o_last_event_at = None, o_combo = None\<rparr>"

text \<open>\<open>INSERT ... ON CONFLICT (account_id, client_order_id) DO NOTHING RETURNING\<close>; checks come first.\<close>

definition insert_order :: "order_row \<Rightarrow> order_cols \<Rightarrow> (order_row option, 'r world) act" where
  "insert_order row cols = (\<lambda>w.
     if \<not> (0 < o_qty row \<and> orders_check (oc_type cols) (oc_limit cols) (oc_stop cols))
     then (Inl DatabaseError, w)
     else if lookup_order (\<lambda>r. o_account r = o_account row \<and> o_client r = o_client row) w \<noteq> None
     then (Inr None, w)
     else (Inr (Some row), w\<lparr>w_db := (w_db w)\<lparr>orders := orders (w_db w) @ [row]\<rparr>,
                             w_cols := (w_cols w)(o_id row \<mapsto> cols)\<rparr>))"

text \<open>\<open>UPDATE orders SET ... WHERE id\<close>, with the unique broker order id of an account.\<close>

definition update_by_id :: "uuid \<Rightarrow> (order_row \<Rightarrow> order_row) \<Rightarrow> (order_row option, 'r world) act" where
  "update_by_id oid f = (\<lambda>w.
     let rs = map (\<lambda>r. if o_id r = oid then f r else r) (orders (w_db w)) in
     if distinct (broker_ids rs)
     then (Inr (List.find (\<lambda>r. o_id r = oid) rs), w\<lparr>w_db := (w_db w)\<lparr>orders := rs\<rparr>\<rparr>)
     else (Inl DatabaseError, w))"

definition mark_order_submitted :: "uuid \<Rightarrow> string \<Rightarrow> (order_row option, 'r world) act" where
  "mark_order_submitted oid b = update_by_id oid (\<lambda>r. r\<lparr>o_broker := Some b, o_status := Submitted\<rparr>)"

definition set_status :: "uuid \<Rightarrow> ostatus \<Rightarrow> (order_row option, 'r world) act" where
  "set_status oid st = update_by_id oid (\<lambda>r. r\<lparr>o_status := st\<rparr>)"

definition notional_today :: "'r world \<Rightarrow> uuid \<Rightarrow> int \<Rightarrow> decimal" where
  "notional_today w acct now =
     quantize8 (sum_list (map (\<lambda>r. or_zero (o_notional_filled r))
       (filter (\<lambda>r. o_account r = acct \<and> o_status r \<notin> {Cancelled, Rejected, Expired, Inactive}
                   \<and> (case w_cols w (o_id r) of Some c \<Rightarrow> now - tod now \<le> oc_created c | None \<Rightarrow> False))
          (orders (w_db w)))))"

end
