(* ===== verification/Orders_Place.thy ===== *)
theory Orders_Place
  imports Orders_Data
begin

text \<open>
  \<open>place_order\<close> and \<open>preview_order\<close> of \<open>backend/app/services/orders_service.py\<close>, in the stations of the
  source: \<open>prepare\<close> (checks and notional), \<open>gate_and_caps\<close>, \<open>redeem_nonce\<close>, the insert,
  \<open>take_counters\<close> and \<open>dispatch\<close>.

  The configuration, the account and position tables, the capability matrix, cached quotes and
  rates, contract lookup, instrument resolution, the clock, the sidecar's answers and the risk
  environment are the record \<open>place_env\<close>; the two counters that the gate reads are taken from the
  current Redis state. The audit row is written in a session of its own with every exception
  caught, so it is left out, as are metrics and logs. A nonce may have expired: the map of
  nonces a call starts from is arbitrary.
\<close>

section \<open>Environment\<close>

record account_row =
  ar_label :: string
  ar_mode :: string
  ar_base :: string
  ar_nlv_currency :: string
  ar_number :: string

record contract_rec =
  ct_symbol :: string
  ct_local :: string
  ct_currency :: string
  ct_class :: string

record place_env =
  pe_cfg :: "string \<Rightarrow> cfg_value option"
  pe_now :: int
  pe_maintenance :: bool
  pe_date_ok :: "string \<Rightarrow> bool"
  pe_accounts :: "(uuid \<times> account_row) list"
  pe_supported :: "string \<Rightarrow> otype \<Rightarrow> otif \<Rightarrow> exn + bool"
  pe_client :: "string \<Rightarrow> exn + unit"
  pe_contract :: "string \<Rightarrow> exn + contract_rec"
  pe_mid :: "string \<Rightarrow> exn + decimal option"
  pe_one_shot :: "contract_rec \<Rightarrow> exn + decimal option"
  pe_fx :: "string \<Rightarrow> string \<Rightarrow> exn + decimal option"
  pe_instrument :: "bool \<Rightarrow> string \<Rightarrow> string \<Rightarrow> exn + int option"
  pe_multiplier :: "int \<Rightarrow> decimal option"
  pe_positions :: "(uuid \<times> string \<times> decimal) list"
  pe_risk :: risk_env
  pe_reply :: "place_wire \<Rightarrow> exn + string"
  pe_cfg_after :: "string \<Rightarrow> cfg_value option"
  pe_cancel :: "exn + bool"

record account_rec =
  gateway_label :: string
  ac_mode :: string
  currency_base :: string
  account_number :: string

definition resolve_account :: "place_env \<Rightarrow> uuid \<Rightarrow> exn + account_rec" where
  "resolve_account env acct =
     (case map_of (pe_accounts env) acct of
        None \<Rightarrow> Inl (HttpError 404 ''not_found'')
      | Some r \<Rightarrow> Inr \<lparr>gateway_label = ar_label r, ac_mode = ar_mode r,
            currency_base = (if ar_base r \<noteq> [] then ar_base r else ar_nlv_currency r),
            account_number = ar_number r\<rparr>)"

section \<open>Checks before dispatch\<close>

definition check_kill_switch :: "place_env \<Rightarrow> string \<Rightarrow> exn + unit" where
  "check_kill_switch env code =
     rbind (is_kill_switch_active (pe_cfg env)) (\<lambda>on. if on then Inl (HttpError 503 code) else Inr ())"

definition validate_pre_dispatch ::
  "place_env \<Rightarrow> bool \<Rightarrow> string \<Rightarrow> otype \<Rightarrow> otif \<Rightarrow> string option \<Rightarrow> bool \<Rightarrow> exn + unit" where
  "validate_pre_dispatch env skip lab ty tf algo leg =
     rbind (if skip then Inr () else
              rbind (check_kill_switch env ''broker_kill_switch_enabled'') (\<lambda>_.
                if pe_maintenance env then Inl (HttpError 503 ''broker_maintenance'') else Inr ())) (\<lambda>_.
     rbind (pe_supported env (capability_broker_id lab) ty tf) (\<lambda>ok.
       if ok then
         (case algo of
            None \<Rightarrow> Inr ()
          | Some a \<Rightarrow>
              if leg then Inl (HttpError 422 ''algo_on_bracket_leg_unsupported'')
              else if a \<in> set DISPLAY_ALGOS \<and> ty \<noteq> LIMIT then Inl (HttpError 422 ''algo_requires_limit'')
              else Inr ())
       else Inl (HttpError 422 ''unsupported_order_type_for_broker'')))"

definition resolve_contract :: "place_env \<Rightarrow> string \<Rightarrow> exn + contract_rec" where
  "resolve_contract env conid =
     (case pe_contract env conid of
        Inr c \<Rightarrow> Inr c
      | Inl e \<Rightarrow> if e \<in> {SidecarTimeout, SidecarUnavailable, CancelledError} then Inl e
                 else Inl (HttpError 404 ''contract_not_found''))"

definition get_market_mid :: "place_env \<Rightarrow> bool \<Rightarrow> contract_rec \<Rightarrow> string \<Rightarrow> exn + decimal" where
  "get_market_mid env quotes c conid =
     rbind (pe_mid env conid) (\<lambda>m.
     case m of Some x \<Rightarrow> Inr x
     | None \<Rightarrow>
         rbind (if quotes then pe_one_shot env c else Inr None) (\<lambda>o'.
         case o' of Some x \<Rightarrow> Inr x | None \<Rightarrow> Inl (HttpError 503 ''market_mid_unavailable'')))"

definition native_notional ::
  "place_env \<Rightarrow> bool \<Rightarrow> 'z order_req_scheme \<Rightarrow> contract_rec \<Rightarrow> decimal \<Rightarrow> exn + decimal" where
  "native_notional env quotes q c x =
     (case (rq_type q, rq_limit q, rq_stop q) of
        (LIMIT, Some p, _) \<Rightarrow> Inr (x * p)
      | (STOP, _, Some p) \<Rightarrow> Inr (x * p)
      | _ \<Rightarrow> rbind (get_market_mid env quotes c (rq_conid q)) (\<lambda>mid. Inr (x * mid * (105 / 100))))"

definition fx_rate :: "place_env \<Rightarrow> string \<Rightarrow> string \<Rightarrow> exn + decimal" where
  "fx_rate env a b =
     (if a = b then Inr 1 else
      rbind (pe_fx env a b) (\<lambda>r. case r of Some x \<Rightarrow> Inr x | None \<Rightarrow> Inl (HttpError 503 ''fx_rate_unavailable'')))"

record ticket =
  tk_account :: account_rec
  tk_contract :: contract_rec
  tk_qty :: decimal
  tk_notional :: decimal

text \<open>From the resolved account to the notional in the account's currency; common to both paths.\<close>

definition price_request :: "place_env \<Rightarrow> bool \<Rightarrow> 'z order_req_scheme \<Rightarrow> decimal \<Rightarrow> exn + ticket" where
  "price_request env quotes q x =
     rbind (resolve_account env (rq_account q)) (\<lambda>ac.
     rbind (validate_pre_dispatch env True (gateway_label ac) (rq_type q) (rq_tif q) (rq_algo q) False) (\<lambda>_.
     rbind (pe_client env (gateway_label ac)) (\<lambda>_.
     rbind (resolve_contract env (rq_conid q)) (\<lambda>c.
     rbind (native_notional env quotes q c x) (\<lambda>n.
     rbind (fx_rate env (ct_currency c) (currency_base ac)) (\<lambda>fx.
       Inr \<lparr>tk_account = ac, tk_contract = c, tk_qty = x, tk_notional = quantize8 (n * fx)\<rparr>))))))"

definition intake :: "place_env \<Rightarrow> 'z order_req_scheme \<Rightarrow> exn + decimal" where
  "intake env q =
     rbind (check_kill_switch env ''kill_switch_active'') (\<lambda>_.
     rbind (if pe_maintenance env then Inl (HttpError 503 ''maintenance'') else Inr ()) (\<lambda>_.
     rbind (validate_request (pe_date_ok env) q) (\<lambda>_. canonicalize_qty (rq_qty q))))"

definition prepare :: "place_env \<Rightarrow> 'z order_req_scheme \<Rightarrow> exn + ticket" where
  "prepare env q = rbind (intake env q) (price_request env False q)"

section \<open>Risk gate and caps\<close>

text \<open>\<open>request.position_effect.upper()\<close>: the gate compares it with these two only.\<close>

definition parse_effect :: "string option \<Rightarrow> effect option" where
  "parse_effect e =
     (case map_option upper e of
        Some t \<Rightarrow> if t = ''OPEN'' then Some Open else if t = ''CLOSE'' then Some Close else None
      | None \<Rightarrow> None)"

definition place_ctx :: "place_env \<Rightarrow> 'z order_req_scheme \<Rightarrow> ticket \<Rightarrow> int option \<Rightarrow> context_rec" where
  "place_ctx env q tk iid =
     \<lparr>account_id = rq_account q, broker_id = capability_broker_id (gateway_label (tk_account tk)),
      instrument_id = iid, c_side = rq_side q, qty = tk_qty tk, price = rq_limit q,
      symbol = Some (ct_symbol (tk_contract tk)), asset_class = Some (ct_class (tk_contract tk)),
      multiplier = (case iid of
          Some i \<Rightarrow> if ct_class (tk_contract tk) = ''OPTION''
                    then (case pe_multiplier env i of Some m \<Rightarrow> m | None \<Rightarrow> 1) else 1
        | None \<Rightarrow> 1),
      first_notice_day = None, position_effect = parse_effect (rq_effect q),
      algo_strategy = rq_algo q, display_size = rq_display q,
      account_nlv_base = None, notional = None\<rparr>"

text \<open>A fault of a counter read is the environment's; otherwise the gate sees the current counter.\<close>

definition gate_env :: "'r redis_srv \<Rightarrow> risk_env \<Rightarrow> uuid \<Rightarrow> 'r \<Rightarrow> risk_env" where
  "gate_env R re acct s = re\<lparr>
     e_bp := (case e_bp re of Inl e \<Rightarrow> Inl e
              | Inr _ \<Rightarrow> fst (inflight_bp_committed R acct \<lparr>srv = s, faults = []\<rparr>)),
     e_pdt := (case e_pdt re of Inl e \<Rightarrow> Inl e
              | Inr _ \<Rightarrow> fst (inflight_pdt_remaining R acct \<lparr>srv = s, faults = []\<rparr>))\<rparr>"

definition check_caps :: "decimal \<Rightarrow> decimal \<Rightarrow> trade_policy \<Rightarrow> exn + unit" where
  "check_caps filled n pol =
     (if cap_status n (max_notional_per_order pol) = Exceeded_Cap then Inl (HttpError 422 ''max_notional_exceeded'')
      else if cap_status (filled + n) (daily_notional_cap pol) = Exceeded_Cap
      then Inl (HttpError 422 ''daily_notional_exceeded'')
      else Inr ())"

definition gate_and_caps :: "'r redis_srv \<Rightarrow> place_env \<Rightarrow> place_req \<Rightarrow> ticket \<Rightarrow> 'r world \<Rightarrow> exn + unit" where
  "gate_and_caps R env q tk w =
     rbind (pe_instrument env True (capability_broker_id (gateway_label (tk_account tk))) (rq_conid q)) (\<lambda>iid.
     rbind (evaluate (gate_env R (pe_risk env) (rq_account q) (srv (w_conn w))) (place_ctx env q tk iid) Place_Order) (\<lambda>v.
     if final_verdict v = Block then Inl (HttpError 422 ''risk_gate_blocked'') else
     rbind (get_account_policy (pe_cfg env) (gateway_label (tk_account tk)) (ac_mode (tk_account tk)))
       (check_caps (notional_today w (rq_account q) (pe_now env)) (tk_notional tk))))"

section \<open>Nonce\<close>

definition nonce_get :: "uuid \<times> string \<Rightarrow> (nonce_val option, 'r world) act" where
  "nonce_get k = rcmd (\<lambda>w. (w_nonces w k, w))"

definition nonce_getdel :: "uuid \<times> string \<Rightarrow> (nonce_val option, 'r world) act" where
  "nonce_getdel k = rcmd (\<lambda>w. (w_nonces w k, w\<lparr>w_nonces := (w_nonces w)(k := None)\<rparr>))"

text \<open>\<open>GETDEL\<close> and the comparison of hashes, with the error codes of the caller.\<close>

definition consume_nonce :: "uuid \<times> string \<Rightarrow> exn \<Rightarrow> exn \<Rightarrow> exn + phash \<Rightarrow> (unit, 'r world) act" where
  "consume_nonce k missing mismatch h =
     abind (nonce_getdel k) (\<lambda>v.
     case v of None \<Rightarrow> fail missing
     | Some n \<Rightarrow> abind (of_res h) (\<lambda>h'. raise_if (nv_hash n \<noteq> Some h') mismatch))"

definition redeem_nonce :: "place_env \<Rightarrow> place_req \<Rightarrow> (unit, 'r world) act" where
  "redeem_nonce env q =
     (let k = (rq_account q, rq_nonce q) in
      abind (nonce_get k) (\<lambda>v.
      case v of None \<Rightarrow> fail (HttpError 422 ''unknown_nonce'')
      | Some n \<Rightarrow>
          aseq (raise_if (case nv_rth n of Some b \<Rightarrow> b \<noteq> is_regular_trading_hours (pe_now env) | None \<Rightarrow> False)
                  (HttpError 422 ''rth_changed''))
               (consume_nonce k (HttpError 422 ''unknown_nonce'') (HttpError 422 ''payload_mismatch'')
                  (request_hash q))))"

section \<open>Counters around the dispatch\<close>

definition take_counters ::
  "'r redis_srv \<Rightarrow> uuid \<Rightarrow> decimal \<Rightarrow> uuid \<Rightarrow> uuid \<Rightarrow> (uuid option \<times> uuid option, 'r world) act" where
  "take_counters R acct n t u =
     abind (guarded (on_conn (decrement_pdt R acct None t))) (\<lambda>p.
     abind (guarded (on_conn (commit_bp R acct n u))) (\<lambda>b. aret (map_option snd p, map_option snd b)))"

definition settle :: "uuid option \<Rightarrow> (uuid \<Rightarrow> ('a, 'r conn) act) \<Rightarrow> (unit, 'r world) act" where
  "settle tok m = (case tok of None \<Rightarrow> aret () | Some t \<Rightarrow> aseq (guarded (on_conn (m t))) (aret ()))"

definition revert_counters :: "'r redis_srv \<Rightarrow> uuid \<Rightarrow> uuid option \<times> uuid option \<Rightarrow> (unit, 'r world) act" where
  "revert_counters R acct toks =
     aseq (settle (fst toks) (revert_pdt R acct)) (settle (snd toks) (revert_bp R acct))"

definition finalize_counters :: "'r redis_srv \<Rightarrow> uuid \<Rightarrow> uuid option \<times> uuid option \<Rightarrow> (unit, 'r world) act" where
  "finalize_counters R acct toks =
     aseq (settle (fst toks) (commit_pdt R acct)) (settle (snd toks) (commit_bp_finalize R acct))"

section \<open>Dispatch\<close>

datatype submission_state = Submission_Ok | Pending_Unknown | Idempotent_Retry

definition wire_of :: "place_req \<Rightarrow> decimal \<Rightarrow> place_wire" where
  "wire_of q x =
     \<lparr>pw_client = rq_client q, pw_conid = rq_conid q, pw_side = rq_side q, pw_type = rq_type q,
      pw_tif = rq_tif q, pw_qty = x, pw_limit = rq_limit q, pw_stop = rq_stop q, pw_trail = rq_trail q,
      pw_trail_type = rq_trail_type q, pw_trail_limit = rq_trail_limit q, pw_expiry = rq_expiry q\<rparr>"

definition send :: "broker_msg \<Rightarrow> (unit, 'r world) act" where
  "send m = (\<lambda>w. (Inr (), w\<lparr>w_sent := w_sent w @ [m]\<rparr>))"

definition late_kill_switch :: "place_env \<Rightarrow> account_rec \<Rightarrow> string \<Rightarrow> (unit, 'r world) act" where
  "late_kill_switch env ac b =
     abind (of_res (is_kill_switch_active (pe_cfg_after env))) (\<lambda>on.
     if on then aseq (send (CancelMsg (account_number ac) b))
            (case pe_cancel env of
               Inl e \<Rightarrow> if e \<in> {SidecarTimeout, SidecarUnavailable} then aret () else fail e
             | Inr _ \<Rightarrow> aret ())
     else aret ())"

definition dispatch ::
  "'r redis_srv \<Rightarrow> place_env \<Rightarrow> place_req \<Rightarrow> ticket \<Rightarrow> order_row \<Rightarrow> uuid option \<times> uuid option
   \<Rightarrow> (order_row \<times> submission_state, 'r world) act" where
  "dispatch R env q tk row toks =
     (let wire = wire_of q (tk_qty tk) in
      aseq (send (PlaceMsg (account_number (tk_account tk)) wire))
      (case pe_reply env wire of
         Inl e \<Rightarrow>
           if e \<in> {SidecarTimeout, SidecarUnavailable} then aret (row, Pending_Unknown)
           else if e = CancelledError then fail e
           else aseq (revert_counters R (rq_account q) toks) (aseq (set_status (o_id row) Rejected) (fail e))
       | Inr b \<Rightarrow>
           abind (mark_order_submitted (o_id row) b) (\<lambda>sub.
           aseq (finalize_counters R (rq_account q) toks)
           (aseq (late_kill_switch env (tk_account tk) b)
             (aret (case sub of Some r \<Rightarrow> r | None \<Rightarrow> row, Submission_Ok))))))"

section \<open>Placing an order\<close>

text \<open>The fresh \<open>uuid7()\<close> of the row and the two \<open>uuid4\<close> tokens.\<close>

record fresh_ids =
  fr_order :: uuid
  fr_pdt :: uuid
  fr_bp :: uuid

definition cols_of :: "place_env \<Rightarrow> place_req \<Rightarrow> ticket \<Rightarrow> order_cols" where
  "cols_of env q tk =
     \<lparr>oc_conid = rq_conid q,
      oc_symbol = (if ct_symbol (tk_contract tk) \<noteq> [] then ct_symbol (tk_contract tk)
                   else if ct_local (tk_contract tk) \<noteq> [] then ct_local (tk_contract tk) else rq_conid q),
      oc_side = rq_side q, oc_type = rq_type q, oc_tif = rq_tif q, oc_limit = rq_limit q,
      oc_stop = rq_stop q, oc_notional = quantize8 (tk_notional tk), oc_cancel_at = None,
      oc_created = pe_now env, oc_parent = None, oc_oca = None, oc_algo = None\<rparr>"

text \<open>The part up to the nonce: nothing is stored yet.\<close>

definition admit :: "'r redis_srv \<Rightarrow> place_env \<Rightarrow> bool \<Rightarrow> place_req \<Rightarrow> (ticket, 'r world) act" where
  "admit R env skip_csrf q =
     abind (of_res (prepare env q)) (\<lambda>tk.
     abind (\<lambda>w. (gate_and_caps R env q tk w, w)) (\<lambda>_.
     aseq (if skip_csrf then aret () else redeem_nonce env q) (aret tk)))"

definition submit ::
  "'r redis_srv \<Rightarrow> place_env \<Rightarrow> fresh_ids \<Rightarrow> place_req \<Rightarrow> ticket \<Rightarrow> (order_row \<times> submission_state, 'r world) act" where
  "submit R env fr q tk =
     abind (insert_order (new_row (fr_order fr) (rq_account q) (rq_client q) (tk_qty tk)) (cols_of env q tk)) (\<lambda>ins.
     case ins of
       None \<Rightarrow>
         abind (aread (lookup_order (\<lambda>r. o_account r = rq_account q \<and> o_client r = rq_client q))) (\<lambda>ex.
         case ex of None \<Rightarrow> fail (HttpError 422 ''order_state_inconsistent'')
         | Some r \<Rightarrow> aret (r, Idempotent_Retry))
     | Some row \<Rightarrow>
         abind (take_counters R (rq_account q) (tk_notional tk) (fr_pdt fr) (fr_bp fr)) (\<lambda>toks.
         dispatch R env q tk row toks))"

definition place_order ::
  "'r redis_srv \<Rightarrow> place_env \<Rightarrow> fresh_ids \<Rightarrow> bool \<Rightarrow> place_req \<Rightarrow> (order_row \<times> submission_state, 'r world) act" where
  "place_order R env fr skip_csrf q = abind (admit R env skip_csrf q) (submit R env fr q)"

section \<open>Previewing an order\<close>

datatype sanity = Sane | High | Extreme

definition classify :: "decimal \<Rightarrow> decimal \<Rightarrow> side \<Rightarrow> sanity" where
  "classify current q sd =
     (let after = (if sd = Buy then current + q else current - q);
          ratio = \<bar>after\<bar> / max \<bar>current\<bar> 1
      in if ratio \<le> 5 then Sane else if ratio \<le> 10 then High else Extreme)"

record preview_response =
  pv_nonce :: string
  pv_notional :: decimal
  pv_filled_today :: decimal
  pv_policy :: trade_policy
  pv_cap_status :: cap_level
  pv_daily_cap_status :: cap_level
  pv_sanity :: sanity
  pv_warnings :: "warning list"
  pv_blockers :: "blocker list"

definition check_rate_limit :: "string \<Rightarrow> (unit, 'r world) act" where
  "check_rate_limit user =
     abind (rcmd (\<lambda>w. let n = w_rate w user + 1 in (n, w\<lparr>w_rate := (w_rate w)(user := n)\<rparr>))) (\<lambda>n.
     aseq (if n = 1 then rcmd (\<lambda>w. ((), w)) else aret ())
       (raise_if (10 < n) (HttpError 429 ''rate_limited'')))"

text \<open>\<open>SET ... EX 30 NX\<close>.\<close>

definition mint_nonce :: "uuid \<times> string \<Rightarrow> nonce_val \<Rightarrow> (unit, 'r world) act" where
  "mint_nonce k v = rcmd (\<lambda>w. ((), case w_nonces w k of
     Some _ \<Rightarrow> w | None \<Rightarrow> w\<lparr>w_nonces := (w_nonces w)(k \<mapsto> v)\<rparr>))"

definition preview_order ::
  "'r redis_srv \<Rightarrow> place_env \<Rightarrow> string \<Rightarrow> string \<Rightarrow> order_req \<Rightarrow> (preview_response, 'r world) act" where
  "preview_order R env user nonce q =
     abind (of_res (intake env q)) (\<lambda>x.
     aseq (check_rate_limit user)
     (abind (of_res (price_request env True q x)) (\<lambda>tk.
      abind (of_res (get_account_policy (pe_cfg env) (gateway_label (tk_account tk)) (ac_mode (tk_account tk)))) (\<lambda>pol.
      abind (aread (\<lambda>w. notional_today w (rq_account q) (pe_now env))) (\<lambda>filled.
      abind (of_res (request_hash q)) (\<lambda>h.
      aseq (mint_nonce (rq_account q, nonce)
              \<lparr>nv_hash = Some h, nv_rth = Some (is_regular_trading_hours (pe_now env))\<rparr>)
      (abind (of_res (pe_instrument env False (capability_broker_id (gateway_label (tk_account tk))) (rq_conid q))) (\<lambda>iid.
       abind (\<lambda>w. (evaluate (gate_env R (pe_risk env) (rq_account q) (srv (w_conn w)))
                     ((place_ctx env q tk iid)\<lparr>multiplier := 1, position_effect := None\<rparr>) Preview, w)) (\<lambda>v.
       aret \<lparr>pv_nonce = nonce, pv_notional = tk_notional tk, pv_filled_today = filled, pv_policy = pol,
             pv_cap_status = cap_status (tk_notional tk) (max_notional_per_order pol),
             pv_daily_cap_status = cap_status filled (daily_notional_cap pol),
             pv_sanity = classify (case List.find (\<lambda>(a, c, _). a = rq_account q \<and> c = rq_conid q) (pe_positions env) of
                                     Some (_, _, p) \<Rightarrow> p | None \<Rightarrow> 0) (tk_qty tk) (rq_side q),
             pv_warnings = warnings v, pv_blockers = blockers v\<rparr>)))))))))"

end
