(* ===== verification/Orders_Guarantees.thy ===== *)
theory Orders_Guarantees
  imports Orders_Place Order_Lifecycle Risk_Guarantees
begin

text \<open>
  What \<open>place_order\<close> promises: which checks every dispatched order has passed, that a preview
  buys one dispatch, that a client order id is sent once, what the counters hold for each answer
  of the sidecar, and where the order in which it does things leaves a gap.
\<close>

section \<open>What the stations leave alone\<close>

lemma keeps_nonce_get [keeps_intro]: "(\<And>k w. f (w\<lparr>w_conn := k\<rparr>) = f w) \<Longrightarrow> keeps f (nonce_get k)"
  unfolding nonce_get_def by (rule keeps_rcmd) simp_all

lemma keeps_nonce_getdel [keeps_intro]:
  "\<lbrakk>\<And>k w. f (w\<lparr>w_conn := k\<rparr>) = f w; \<And>n w. f (w\<lparr>w_nonces := n\<rparr>) = f w\<rbrakk> \<Longrightarrow> keeps f (nonce_getdel k)"
  unfolding nonce_getdel_def by (rule keeps_rcmd) simp_all

lemma keeps_redeem_nonce [keeps_intro]:
  "\<lbrakk>\<And>k w. f (w\<lparr>w_conn := k\<rparr>) = f w; \<And>n w. f (w\<lparr>w_nonces := n\<rparr>) = f w\<rbrakk> \<Longrightarrow> keeps f (redeem_nonce env q)"
  unfolding redeem_nonce_def consume_nonce_def Let_def by (intro keeps_intro)

lemma keeps_admit:
  "\<lbrakk>\<And>k w. f (w\<lparr>w_conn := k\<rparr>) = f w; \<And>n w. f (w\<lparr>w_nonces := n\<rparr>) = f w\<rbrakk> \<Longrightarrow> keeps f (admit R env skip q)"
  unfolding admit_def by (intro keeps_intro)

lemma keeps_take_counters [keeps_intro]:
  "(\<And>k w. f (w\<lparr>w_conn := k\<rparr>) = f w) \<Longrightarrow> keeps f (take_counters R acct n t u)"
  unfolding take_counters_def by (intro keeps_intro)

lemma keeps_settle [keeps_intro]:
  "(\<And>k w. f (w\<lparr>w_conn := k\<rparr>) = f w) \<Longrightarrow> keeps f (settle tok m)"
  unfolding settle_def by (intro keeps_intro)

lemma keeps_revert_counters [keeps_intro]:
  "(\<And>k w. f (w\<lparr>w_conn := k\<rparr>) = f w) \<Longrightarrow> keeps f (revert_counters R acct toks)"
  unfolding revert_counters_def by (intro keeps_intro)

lemma keeps_finalize_counters [keeps_intro]:
  "(\<And>k w. f (w\<lparr>w_conn := k\<rparr>) = f w) \<Longrightarrow> keeps f (finalize_counters R acct toks)"
  unfolding finalize_counters_def by (intro keeps_intro)

lemma keeps_insert_order [keeps_intro]:
  "\<lbrakk>\<And>d w. f (w\<lparr>w_db := d\<rparr>) = f w; \<And>c w. f (w\<lparr>w_cols := c\<rparr>) = f w\<rbrakk> \<Longrightarrow> keeps f (insert_order row cols)"
  by (simp add: keeps_def insert_order_def)

lemma keeps_update_by_id [keeps_intro]:
  "(\<And>d w. f (w\<lparr>w_db := d\<rparr>) = f w) \<Longrightarrow> keeps f (update_by_id oid g)"
  by (simp add: keeps_def update_by_id_def Let_def)

lemma keeps_mark_order_submitted [keeps_intro]:
  "(\<And>d w. f (w\<lparr>w_db := d\<rparr>) = f w) \<Longrightarrow> keeps f (mark_order_submitted oid b)"
  unfolding mark_order_submitted_def by (intro keeps_intro)

lemma keeps_set_status [keeps_intro]:
  "(\<And>d w. f (w\<lparr>w_db := d\<rparr>) = f w) \<Longrightarrow> keeps f (set_status oid st)"
  unfolding set_status_def by (intro keeps_intro)

lemma keeps_send [keeps_intro]: "(\<And>m w. f (w\<lparr>w_sent := m\<rparr>) = f w) \<Longrightarrow> keeps f (send m)"
  by (simp add: keeps_def send_def)

lemma keeps_late_kill_switch [keeps_intro]:
  "(\<And>m w. f (w\<lparr>w_sent := m\<rparr>) = f w) \<Longrightarrow> keeps f (late_kill_switch env ac b)"
  unfolding late_kill_switch_def by (intro keeps_intro)

lemma keeps_dispatch:
  "\<lbrakk>\<And>k w. f (w\<lparr>w_conn := k\<rparr>) = f w; \<And>d w. f (w\<lparr>w_db := d\<rparr>) = f w; \<And>m w. f (w\<lparr>w_sent := m\<rparr>) = f w\<rbrakk>
   \<Longrightarrow> keeps f (dispatch R env q tk row toks)"
  unfolding dispatch_def Let_def by (intro keeps_intro)

lemma keeps_submit:
  "\<lbrakk>\<And>k w. f (w\<lparr>w_conn := k\<rparr>) = f w; \<And>d w. f (w\<lparr>w_db := d\<rparr>) = f w; \<And>m w. f (w\<lparr>w_sent := m\<rparr>) = f w;
    \<And>c w. f (w\<lparr>w_cols := c\<rparr>) = f w\<rbrakk> \<Longrightarrow> keeps f (submit R env fr q tk)"
  unfolding submit_def by (intro keeps_intro keeps_dispatch)

section \<open>Admission\<close>

text \<open>A nonce that pays for the request: known, of the same session of the day, and of the same payload.\<close>

definition pays_for :: "place_env \<Rightarrow> place_req \<Rightarrow> nonce_val \<Rightarrow> bool" where
  "pays_for env q n \<longleftrightarrow>
     (case nv_rth n of Some b \<Rightarrow> b = is_regular_trading_hours (pe_now env) | None \<Rightarrow> True)
   \<and> (\<exists>h. request_hash q = Inr h \<and> nv_hash n = Some h)"

text \<open>A command that returns has run once, on the same store.\<close>

lemma rcmd_result:
  assumes "rcmd c w = (Inr x, w')"
  shows "\<exists>k. c (w\<lparr>w_conn := k\<rparr>) = (x, w') \<and> srv k = srv (w_conn w)"
proof (cases "faults (w_conn w)")
  case Nil
  then show ?thesis using assms
    by (intro exI [of _ "w_conn w"]) (auto simp: rcmd_def split: prod.splits)
next
  case (Cons o' fs)
  then show ?thesis using assms
    by (intro exI [of _ "(w_conn w)\<lparr>faults := fs\<rparr>"]) (auto simp: rcmd_def split: prod.splits option.splits)
qed

lemma nonce_get_result:
  "nonce_get k w = (Inr v, w') \<Longrightarrow> v = w_nonces w k \<and> w_nonces w' = w_nonces w \<and> srv (w_conn w') = srv (w_conn w)"
  by (auto simp: nonce_get_def dest!: rcmd_result)

lemma nonce_getdel_result:
  "nonce_getdel k w = (Inr v, w') \<Longrightarrow>
     v = w_nonces w k \<and> w_nonces w' = (w_nonces w)(k := None) \<and> srv (w_conn w') = srv (w_conn w)"
  by (auto simp: nonce_getdel_def dest!: rcmd_result)

lemma raise_if_returns: "raise_if c e s = (Inr x, s') \<longleftrightarrow> \<not> c \<and> s' = s"
  by (auto simp: run_simps)

lemma abind_returns:
  "abind m f s = (Inr y, s') \<longleftrightarrow> (\<exists>x t. m s = (Inr x, t) \<and> f x t = (Inr y, s'))"
  by (auto simp: abind_def split: prod.splits sum.splits)

lemma aseq_returns:
  "aseq m n s = (Inr y, s') \<longleftrightarrow> (\<exists>x t. m s = (Inr x, t) \<and> n t = (Inr y, s'))"
  by (simp add: aseq_def abind_returns)

lemma of_res_returns: "of_res r s = (Inr x, s') \<longleftrightarrow> r = Inr x \<and> s' = s"
  by (auto simp: of_res_def)

lemma aret_returns: "aret a s = (Inr x, s') \<longleftrightarrow> x = a \<and> s' = s"
  by (auto simp: aret_def)

lemma fail_never_returns: "fail e s \<noteq> (Inr x, s')"
  by (simp add: fail_def of_res_def)

lemmas returns = abind_returns aseq_returns of_res_returns aret_returns fail_never_returns raise_if_returns

lemma redeem_nonce_paid:
  assumes "redeem_nonce env q w = (Inr (), w')"
  shows "(\<exists>n. w_nonces w (rq_account q, rq_nonce q) = Some n \<and> pays_for env q n)
       \<and> w_nonces w' (rq_account q, rq_nonce q) = None \<and> srv (w_conn w') = srv (w_conn w)"
proof -
  let ?k = "(rq_account q, rq_nonce q)"
  obtain v w1 where g: "nonce_get ?k w = (Inr v, w1)"
    and rest: "(case v of None \<Rightarrow> fail (HttpError 422 ''unknown_nonce'')
      | Some n \<Rightarrow> aseq (raise_if (case nv_rth n of Some b \<Rightarrow> b \<noteq> is_regular_trading_hours (pe_now env) | None \<Rightarrow> False)
                  (HttpError 422 ''rth_changed''))
               (consume_nonce ?k (HttpError 422 ''unknown_nonce'') (HttpError 422 ''payload_mismatch'')
                  (request_hash q))) w1 = (Inr (), w')"
    using assms unfolding redeem_nonce_def Let_def by (auto simp: returns)
  from rest obtain n where v: "v = Some n"
    and rth: "case nv_rth n of Some b \<Rightarrow> b = is_regular_trading_hours (pe_now env) | None \<Rightarrow> True"
    and c: "consume_nonce ?k (HttpError 422 ''unknown_nonce'') (HttpError 422 ''payload_mismatch'')
                  (request_hash q) w1 = (Inr (), w')"
    by (cases v) (auto simp: returns split: option.splits)
  obtain v2 where d: "nonce_getdel ?k w1 = (Inr v2, w')" and "\<exists>m h. v2 = Some m \<and> request_hash q = Inr h \<and> nv_hash m = Some h"
    using c by (auto simp: consume_nonce_def returns split: option.splits)
  then show ?thesis
    using nonce_get_result [OF g] nonce_getdel_result [OF d] v rth by (auto simp: pays_for_def)
qed

lemma nonce_get_ok: "faults (w_conn w) = [] \<Longrightarrow> nonce_get k w = (Inr (w_nonces w k), w)"
  by (simp add: nonce_get_def rcmd_def)

lemma nonce_getdel_ok:
  "faults (w_conn w) = [] \<Longrightarrow> nonce_getdel k w = (Inr (w_nonces w k), w\<lparr>w_nonces := (w_nonces w)(k := None)\<rparr>)"
  by (simp add: nonce_getdel_def rcmd_def)

lemma redeem_nonce_ok:
  assumes "faults (w_conn w) = []" and "w_nonces w (rq_account q, rq_nonce q) = Some n" and "pays_for env q n"
  shows "redeem_nonce env q w = (Inr (), w\<lparr>w_nonces := (w_nonces w)((rq_account q, rq_nonce q) := None)\<rparr>)"
  using assms
  by (auto simp: redeem_nonce_def consume_nonce_def pays_for_def run_simps Let_def nonce_get_ok nonce_getdel_ok split: option.splits)

lemma admit_passed:
  assumes "admit R env skip q w = (Inr tk, w')"
  shows "prepare env q = Inr tk \<and> gate_and_caps R env q tk w = Inr ()
       \<and> (skip \<longrightarrow> w' = w) \<and> (\<not> skip \<longrightarrow> redeem_nonce env q w = (Inr (), w'))"
  using assms by (auto simp: admit_def returns split: if_splits)

section \<open>A concrete world\<close>

definition demo_req :: place_req where
  "demo_req = \<lparr>rq_account = ''a1'', rq_conid = ''265598'', rq_side = Buy, rq_type = LIMIT, rq_tif = DAY,
     rq_qty = Some 10, rq_cash = None, rq_limit = Some 20, rq_stop = None, rq_trail = None,
     rq_trail_type = None, rq_trail_limit = None, rq_expiry = None, rq_algo = None, rq_display = None,
     rq_effect = None, rq_client = ''c1'', rq_nonce = ''n1''\<rparr>"

definition demo_ice :: place_req where
  "demo_ice = demo_req\<lparr>rq_algo := Some ''ICEBERG'', rq_display := Some (DNum 2), rq_effect := None\<rparr>"

text \<open>The same order as a bot asks for it.\<close>

definition demo_bot_req :: place_req where
  "demo_bot_req = demo_req\<lparr>rq_effect := Some ''OPEN'', rq_nonce := ''bot:b1:c1''\<rparr>"

definition demo_penv :: place_env where
  "demo_penv = \<lparr>pe_cfg = (\<lambda>_. None), pe_now = 0, pe_maintenance = False, pe_date_ok = (\<lambda>_. True),
     pe_accounts = [(''a1'', \<lparr>ar_label = ''ibkr'', ar_mode = ''paper'', ar_base = ''USD'',
                             ar_nlv_currency = [], ar_number = ''DU1''\<rparr>)],
     pe_supported = (\<lambda>_ _ _. Inr True), pe_client = (\<lambda>_. Inr ()),
     pe_contract = (\<lambda>_. Inr \<lparr>ct_symbol = ''AAPL'', ct_local = ''AAPL'', ct_currency = ''USD'', ct_class = ''STOCK''\<rparr>),
     pe_mid = (\<lambda>_. Inr None), pe_one_shot = (\<lambda>_. Inr None), pe_fx = (\<lambda>_ _. Inr None),
     pe_instrument = (\<lambda>_ _ _. Inr None), pe_multiplier = (\<lambda>_. None), pe_positions = [],
     pe_risk = demo_env\<lparr>e_algos := [(''ibkr'', ''STOCK'', ''ICEBERG'')]\<rparr>, pe_reply = (\<lambda>_. Inr ''b1''), pe_cfg_after = (\<lambda>_. None), pe_cancel = Inr True\<rparr>"

definition demo_world :: "mem world" where
  "demo_world = \<lparr>w_db = demo_db [], w_cols = (\<lambda>_. None), w_conn = \<lparr>srv = (\<lambda>_. None), faults = []\<rparr>,
     w_nonces = (\<lambda>_. None)((''a1'', ''n1'') \<mapsto>
       \<lparr>nv_hash = Some (''a1'', ''265598'', Buy, LIMIT, DAY, 10, Some 20, None), nv_rth = Some False\<rparr>),
     w_rate = (\<lambda>_. 0), w_replay = (\<lambda>_. None), w_sent = []\<rparr>"

definition demo_ids :: fresh_ids where
  "demo_ids = \<lparr>fr_order = ''o1'', fr_pdt = ''t1'', fr_bp = ''u1''\<rparr>"

definition demo_ticket :: ticket where
  "demo_ticket = \<lparr>tk_account = \<lparr>gateway_label = ''ibkr'', ac_mode = ''paper'', currency_base = ''USD'',
       account_number = ''DU1''\<rparr>,
     tk_contract = \<lparr>ct_symbol = ''AAPL'', ct_local = ''AAPL'', ct_currency = ''USD'', ct_class = ''STOCK''\<rparr>,
     tk_qty = 10, tk_notional = 200\<rparr>"

lemmas place_defs = prepare_def intake_def price_request_def check_kill_switch_def is_kill_switch_active_def
  cfg_get_bool_def validate_request_def validate_order_shape_def canonicalize_qty_def resolve_account_def
  validate_pre_dispatch_def resolve_contract_def native_notional_def fx_rate_def capability_broker_id_def
  KNOWN_BROKERS_def

lemma demo_prepare: "prepare demo_penv demo_req = Inr demo_ticket" "prepare demo_penv demo_ice = Inr demo_ticket"
  "prepare demo_penv demo_bot_req = Inr demo_ticket"
  by (simp_all add: place_defs demo_penv_def demo_req_def demo_ice_def demo_bot_req_def demo_ticket_def
      SESSION_BOUND_ORDER_TYPES_def DISPLAY_ALGOS_def)

lemma demo_gate:
  assumes "q \<in> {demo_req, demo_ice, demo_bot_req}"
  shows "gate_and_caps mem_srv demo_penv q demo_ticket demo_world = Inr ()"
proof -
  have "evaluate (gate_env mem_srv (pe_risk demo_penv) ''a1'' (\<lambda>_. None)) (place_ctx demo_penv q demo_ticket None) Place_Order
      = Inr \<lparr>final_verdict = Allow, blockers = [], warnings = []\<rparr>"
    using assms
    by (auto simp: gate_defs demo_env_def place_ctx_def demo_req_def demo_ice_def demo_bot_req_def demo_penv_def demo_ticket_def
        gate_env_def parse_effect_def DISPLAY_ALGOS_def capability_broker_id_def KNOWN_BROKERS_def)
  moreover have "notional_today demo_world ''a1'' (pe_now demo_penv) = 0"
    by (simp add: notional_today_def demo_world_def demo_db_def)
  moreover have "rbind (get_account_policy (pe_cfg demo_penv) (gateway_label (tk_account demo_ticket)) (ac_mode (tk_account demo_ticket)))
       (check_caps 0 (tk_notional demo_ticket)) = Inr ()"
    by (simp add: demo_penv_def demo_ticket_def get_account_policy_def cfg_get_bool_def cfg_decimal_def check_caps_def cap_status_def)
  moreover have "rq_account q = ''a1''" using assms by (auto simp: demo_req_def demo_ice_def demo_bot_req_def)
  moreover have "pe_instrument demo_penv x y z = Inr None" "srv (w_conn demo_world) = (\<lambda>_. None)" for x y z
    by (simp_all add: demo_penv_def demo_world_def)
  ultimately show ?thesis by (simp add: gate_and_caps_def)
qed

definition demo_spent :: "mem world" where
  "demo_spent = demo_world\<lparr>w_nonces := (w_nonces demo_world)((''a1'', ''n1'') := None)\<rparr>"

lemma demo_admit:
  assumes "q \<in> {demo_req, demo_ice}"
  shows "admit mem_srv demo_penv False q demo_world = (Inr demo_ticket, demo_spent)"
proof -
  have "\<not> is_regular_trading_hours 0" by (simp add: is_regular_trading_hours_def clock_defs)
  then have "pays_for demo_penv q \<lparr>nv_hash = Some (''a1'', ''265598'', Buy, LIMIT, DAY, 10, Some 20, None), nv_rth = Some False\<rparr>"
    using assms
    by (auto simp: pays_for_def demo_req_def demo_ice_def demo_penv_def request_hash_def preview_payload_hash_def canonicalize_qty_def)
  then have "redeem_nonce demo_penv q demo_world = (Inr (), demo_spent)"
    using assms
    by (subst redeem_nonce_ok) (auto simp: demo_world_def demo_req_def demo_ice_def demo_spent_def)
  moreover have "gate_and_caps mem_srv demo_penv q demo_ticket demo_world = Inr ()" using demo_gate [of q] assms by blast
  ultimately show ?thesis using demo_prepare assms by (auto simp: admit_def run_simps)
qed

section \<open>What a dispatched order has passed\<close>

lemma submit_cases:
  assumes "submit R env fr q tk w = (r, w')"
  obtains (unsent) "w_sent w' = w_sent w"
    | (sent) row w1 toks w2 where
        "insert_order (new_row (fr_order fr) (rq_account q) (rq_client q) (tk_qty tk)) (cols_of env q tk) w = (Inr (Some row), w1)"
        "take_counters R (rq_account q) (tk_notional tk) (fr_pdt fr) (fr_bp fr) w1 = (Inr toks, w2)"
        "dispatch R env q tk row toks w2 = (r, w')"
proof -
  let ?ins = "insert_order (new_row (fr_order fr) (rq_account q) (rq_client q) (tk_qty tk)) (cols_of env q tk)"
  have ki: "keeps w_sent ?ins" by (intro keeps_intro) simp_all
  have kt: "keeps w_sent (take_counters R (rq_account q) (tk_notional tk) (fr_pdt fr) (fr_bp fr))"
    by (intro keeps_intro) simp
  obtain x w1 where i: "?ins w = (x, w1)" by fastforce
  show thesis
  proof (cases x)
    case (Inl e)
    with i assms have "w' = w1" by (simp add: submit_def abind_def)
    with keepsD [OF ki i] show thesis by (auto intro: unsent)
  next
    case (Inr y)
    show thesis
    proof (cases y)
      case None
      with Inr i assms have "w' = w1"
        by (auto simp: submit_def abind_def aread_def run_simps split: option.splits)
      with keepsD [OF ki i] show thesis by (auto intro: unsent)
    next
      case (Some row)
      with Inr i assms have s: "abind (take_counters R (rq_account q) (tk_notional tk) (fr_pdt fr) (fr_bp fr))
          (dispatch R env q tk row) w1 = (r, w')"
        by (simp add: submit_def) (simp add: abind_def)
      then show thesis
      proof (cases rule: abind_cases)
        case (raised e)
        with keepsD [OF kt raised(1)] keepsD [OF ki i] show thesis by (auto intro: unsent)
      next
        case (went_on toks w2)
        with i Inr Some show thesis by (auto intro: sent)
      qed
    qed
  qed
qed

lemma place_order_cases:
  assumes "place_order R env fr skip q w = (r, w')"
  obtains (unsent) "w_sent w' = w_sent w"
    | (sent) tk w1 row w2 toks w3 where "admit R env skip q w = (Inr tk, w1)"
        "insert_order (new_row (fr_order fr) (rq_account q) (rq_client q) (tk_qty tk)) (cols_of env q tk) w1 = (Inr (Some row), w2)"
        "take_counters R (rq_account q) (tk_notional tk) (fr_pdt fr) (fr_bp fr) w2 = (Inr toks, w3)"
        "dispatch R env q tk row toks w3 = (r, w')"
proof -
  have ka: "keeps w_sent (admit R env skip q)" by (rule keeps_admit) simp_all
  from assms show thesis unfolding place_order_def
  proof (cases rule: abind_cases)
    case (raised e)
    with keepsD [OF ka raised(1)] show thesis by (auto intro: unsent)
  next
    case (went_on tk w1)
    from went_on(2) show thesis
      by (cases rule: submit_cases) (use keepsD [OF ka went_on(1)] went_on(1) in \<open>auto intro: unsent sent\<close>)
  qed
qed

lemma intake_open: "intake env q = Inr x \<Longrightarrow> is_kill_switch_active (pe_cfg env) = Inr False \<and> \<not> pe_maintenance env"
  by (auto simp: intake_def check_kill_switch_def rbind_Inr_iff split: if_splits)

lemma cap_status_exceeded [simp]: "cap_status x c = Exceeded_Cap \<longleftrightarrow> c < x"
  by (simp add: cap_status_def)

lemma gate_and_caps_passed:
  assumes "gate_and_caps R env q tk w = Inr ()"
  shows "\<exists>iid v pol. evaluate (gate_env R (pe_risk env) (rq_account q) (srv (w_conn w))) (place_ctx env q tk iid) Place_Order = Inr v
       \<and> final_verdict v \<noteq> Block
       \<and> get_account_policy (pe_cfg env) (gateway_label (tk_account tk)) (ac_mode (tk_account tk)) = Inr pol
       \<and> tk_notional tk \<le> max_notional_per_order pol
       \<and> notional_today w (rq_account q) (pe_now env) + tk_notional tk \<le> daily_notional_cap pol"
  using assms by (auto simp: gate_and_caps_def check_caps_def rbind_Inr_iff Let_def not_less split: if_splits)


text \<open>C9: an order that goes out on the user's path was paid for by a preview of the same account, contract, side,
  type, time in force, quantity and prices, minted in the same session phase; the nonce is gone afterwards, and no
  further request that names it is dispatched.\<close>

theorem dispatch_spends_preview:
  assumes "place_order R env fr False q w = (r, w')" and "w_sent w' \<noteq> w_sent w"
    and "rq_account q2 = rq_account q" and "rq_nonce q2 = rq_nonce q"
  shows "(\<exists>n. w_nonces w (rq_account q, rq_nonce q) = Some n \<and> pays_for env q n)
       \<and> w_nonces w' (rq_account q, rq_nonce q) = None
       \<and> w_sent (snd (place_order R env2 fr2 False q2 w')) = w_sent w'"
  using assms(1)
proof (cases rule: place_order_cases)
  case unsent
  with assms(2) show ?thesis by simp
next
  case (sent tk w1 row w2 toks w3)
  let ?k = "(rq_account q, rq_nonce q)"
  from sent(1) have red: "redeem_nonce env q w = (Inr (), w1)" by (auto dest: admit_passed)
  have "submit R env fr q tk w1 = (r, w')"
    using sent by (simp add: submit_def abind_def)
  then have "w_nonces w' = w_nonces w1"
    by (rule keepsD [OF keeps_submit, rotated 4]) simp_all
  with redeem_nonce_paid [OF red] have gone: "w_nonces w' ?k = None"
    and paid: "\<exists>n. w_nonces w ?k = Some n \<and> pays_for env q n" by auto
  obtain r2 w2' where e: "place_order R env2 fr2 False q2 w' = (r2, w2')" by fastforce
  then have "w_sent w2' = w_sent w'"
  proof (cases rule: place_order_cases)
    case sent2: (sent tk2 v1 row2 v2 toks2 v3)
    from sent2(1) have "redeem_nonce env2 q2 w' = (Inr (), v1)" by (auto dest: admit_passed)
    from redeem_nonce_paid [OF this] gone assms(3,4) show ?thesis by simp
  qed
  with e gone paid show ?thesis by simp
qed

section \<open>One dispatch per client order id\<close>

definition client_keys :: "'r world \<Rightarrow> (uuid \<times> uuid) list" where
  "client_keys w = map (\<lambda>r. (o_account r, o_client r)) (orders (w_db w))"

lemma client_keys_simps [simp]:
  "client_keys (w\<lparr>w_conn := k\<rparr>) = client_keys w" "client_keys (w\<lparr>w_nonces := n\<rparr>) = client_keys w"
  "client_keys (w\<lparr>w_sent := m\<rparr>) = client_keys w" "client_keys (w\<lparr>w_cols := c\<rparr>) = client_keys w"
  by (simp_all add: client_keys_def)

lemma keeps_keys_update:
  assumes "\<And>r. o_account (f r) = o_account r \<and> o_client (f r) = o_client r"
  shows "keeps client_keys (update_by_id oid f)"
  using assms by (auto simp: keeps_def update_by_id_def client_keys_def Let_def)

lemma keeps_keys_dispatch: "keeps client_keys (dispatch R env q tk row toks)"
  unfolding dispatch_def Let_def mark_order_submitted_def set_status_def
  by (intro keeps_intro keeps_keys_update) simp_all

lemma lookup_order_None: "lookup_order P w = None \<longleftrightarrow> (\<forall>r \<in> set (orders (w_db w)). \<not> P r)"
  by (auto simp: lookup_order_def find_None_iff)

lemma in_client_keys: "(a, c) \<in> set (client_keys w) \<longleftrightarrow> lookup_order (\<lambda>r. o_account r = a \<and> o_client r = c) w \<noteq> None"
  by (auto simp: client_keys_def lookup_order_None)

lemma insert_order_inserted:
  assumes "insert_order row cols w = (Inr (Some r), w')"
  shows "r = row \<and> 0 < o_qty row \<and> orders_check (oc_type cols) (oc_limit cols) (oc_stop cols)
       \<and> (o_account row, o_client row) \<notin> set (client_keys w)
       \<and> w' = w\<lparr>w_db := (w_db w)\<lparr>orders := orders (w_db w) @ [row]\<rparr>, w_cols := (w_cols w)(o_id row \<mapsto> cols)\<rparr>"
  using assms by (auto simp: insert_order_def in_client_keys split: if_splits)

lemma new_row_simps [simp]:
  "o_id (new_row i a c x) = i" "o_account (new_row i a c x) = a" "o_client (new_row i a c x) = c"
  "o_qty (new_row i a c x) = x" "o_status (new_row i a c x) = PendingSubmit" "o_broker (new_row i a c x) = None"
  by (simp_all add: new_row_def)

lemma known_client_unsent:
  assumes "(rq_account q, rq_client q) \<in> set (client_keys w)"
  shows "w_sent (snd (place_order R env fr skip q w)) = w_sent w"
proof -
  obtain r w' where e: "place_order R env fr skip q w = (r, w')" by fastforce
  then show ?thesis
  proof (cases rule: place_order_cases)
    case (sent tk w1 row w2 toks w3)
    have "keeps client_keys (admit R env skip q)" by (rule keeps_admit) simp_all
    from keepsD [OF this sent(1)] insert_order_inserted [OF sent(2)] assms show ?thesis by simp
  qed (use e in simp)
qed

lemma dispatch_outbox:
  assumes "dispatch R env q tk row toks w = (r, w')"
  shows "\<exists>ms. w_sent w' = w_sent w @ PlaceMsg (account_number (tk_account tk)) (wire_of q (tk_qty tk)) # ms
            \<and> (ms = [] \<or> (\<exists>b. ms = [CancelMsg (account_number (tk_account tk)) b]))"
proof -
  let ?m = "PlaceMsg (account_number (tk_account tk)) (wire_of q (tk_qty tk))"
  let ?u = "w\<lparr>w_sent := w_sent w @ [?m]\<rparr>"
  have late: "w_sent t' = w_sent t \<or> w_sent t' = w_sent t @ [CancelMsg (account_number (tk_account tk)) b]"
    if "late_kill_switch env (tk_account tk) b t = (x, t')" for b t x t'
    using that by (auto simp: late_kill_switch_def send_def run_simps split: if_splits prod.splits sum.splits)
  show ?thesis
  proof (cases "pe_reply env (wire_of q (tk_qty tk))")
    case (Inl e)
    have k: "keeps w_sent (if e \<in> {SidecarTimeout, SidecarUnavailable} then aret (row, Pending_Unknown)
           else if e = CancelledError then fail e
           else aseq (revert_counters R (rq_account q) toks) (aseq (set_status (o_id row) Rejected) (fail e)))"
      by (intro keeps_intro) simp_all
    from Inl assms have "(if e \<in> {SidecarTimeout, SidecarUnavailable} then aret (row, Pending_Unknown)
           else if e = CancelledError then fail e
           else aseq (revert_counters R (rq_account q) toks) (aseq (set_status (o_id row) Rejected) (fail e))) ?u = (r, w')"
      unfolding dispatch_def Let_def aseq_def by (simp add: abind_def send_def)
    from keepsD [OF k this] show ?thesis by simp
  next
    case (Inr b)
    have km: "keeps w_sent (mark_order_submitted (o_id row) b)" and kf: "keeps w_sent (finalize_counters R (rq_account q) toks)"
      by (intro keeps_intro; simp)+
    from Inr assms have "abind (mark_order_submitted (o_id row) b) (\<lambda>sub.
           abind (finalize_counters R (rq_account q) toks) (\<lambda>_.
           abind (late_kill_switch env (tk_account tk) b) (\<lambda>_.
             aret (case sub of Some r \<Rightarrow> r | None \<Rightarrow> row, Submission_Ok)))) ?u = (r, w')"
      unfolding dispatch_def Let_def aseq_def by (simp add: abind_def send_def)
    then show ?thesis
    proof (cases rule: abind_cases)
      case (raised e)
      with keepsD [OF km raised(1)] show ?thesis by simp
    next
      case (went_on sub t)
      note s1 = keepsD [OF km went_on(1)]
      from went_on(2) show ?thesis
      proof (cases rule: abind_cases)
        case (raised e)
        with keepsD [OF kf raised(1)] s1 show ?thesis by simp
      next
        case fin: (went_on y t2)
        obtain z t3 where l: "late_kill_switch env (tk_account tk) b t2 = (z, t3)" by fastforce
        with fin(2) have "w' = t3" by (cases z) (auto simp: abind_def aret_def)
        with late [OF l] keepsD [OF kf fin(1)] s1 show ?thesis by auto
      qed
    qed
  qed
qed


section \<open>Counters around a dispatch\<close>

text \<open>An operation on the connection that, without faults, leaves its store behind and is not cancelled.\<close>

definition clean :: "('a, 'r conn) act \<Rightarrow> bool" where
  "clean m \<longleftrightarrow> (\<forall>s. snd (m \<lparr>srv = s, faults = []\<rparr>) = \<lparr>srv = exec m s, faults = []\<rparr>
                    \<and> fst (m \<lparr>srv = s, faults = []\<rparr>) \<noteq> Inl CancelledError)"

lemma py_int_not_cancelled [simp]: "py_int x \<noteq> Inl CancelledError"
  by (simp add: py_int_def)

lemma clean_ops:
  "clean (decrement_pdt R a None t)" "clean (commit_bp R a n t)" "clean (revert_pdt R a t)"
  "clean (revert_bp R a t)" "clean (commit_pdt R a t)" "clean (commit_bp_finalize R a t)"
  by (auto simp: clean_def exec_def decrement_pdt_def commit_bp_def revert_pdt_def revert_bp_def
      commit_pdt_def commit_bp_finalize_def run_simps Let_def py_int_def split: option.splits)

definition put_store :: "'r \<Rightarrow> 'r world \<Rightarrow> 'r world" where
  "put_store s w = w\<lparr>w_conn := \<lparr>srv = s, faults = []\<rparr>\<rparr>"

lemma put_store_simps [simp]:
  "srv (w_conn (put_store s w)) = s" "faults (w_conn (put_store s w)) = []"
  "w_db (put_store s w) = w_db w" "w_sent (put_store s w) = w_sent w" "w_cols (put_store s w) = w_cols w"
  "put_store s (put_store s' w) = put_store s w"
  by (simp_all add: put_store_def)

lemma guarded_clean:
  assumes "clean m" and "faults (w_conn w) = []"
  shows "guarded (on_conn m) w =
    (Inr (case fst (m \<lparr>srv = srv (w_conn w), faults = []\<rparr>) of Inl _ \<Rightarrow> None | Inr x \<Rightarrow> Some x),
     put_store (exec m (srv (w_conn w))) w)"
proof -
  have "w_conn w = \<lparr>srv = srv (w_conn w), faults = []\<rparr>" using assms(2) by simp
  then obtain r where r: "m (w_conn w) = (r, \<lparr>srv = exec m (srv (w_conn w)), faults = []\<rparr>)"
    and f: "r = fst (m \<lparr>srv = srv (w_conn w), faults = []\<rparr>)" "r \<noteq> Inl CancelledError"
    using assms(1) unfolding clean_def by (metis prod.collapse)
  have "on_conn m w = (r, put_store (exec m (srv (w_conn w))) w)"
    by (simp add: on_conn_def r put_store_def)
  then show ?thesis
    unfolding f(1) [symmetric] using f(2) by (auto simp: guarded_def split: sum.splits exn.splits)
qed

lemma settle_clean:
  assumes "\<And>t. clean (m t)" and "faults (w_conn w) = []"
  shows "settle (Some t) m w = (Inr (), put_store (exec (m t) (srv (w_conn w))) w)"
  using guarded_clean [OF assms(1,2)] by (simp add: settle_def run_simps)

context redis_service
begin

lemma decrement_returns:
  assumes "pdt_total R a s = of_int i"
  shows "fst (decrement_pdt R a None t \<lparr>srv = s, faults = []\<rparr>) = Inr (i - 1, t)"
proof -
  have "num (srv_get R s (PdtKey a)) - 1 = of_int (i - 1)"
    using assms by (simp add: pdt_total_def)
  then show ?thesis
    using py_int_of_int [of "i - 1"] by (simp add: decrement_pdt_def run_simps Let_def redis_laws)
qed

lemma commit_bp_returns: "\<exists>v. fst (commit_bp R a n u \<lparr>srv = s, faults = []\<rparr>) = Inr (v, u)"
  by (simp add: commit_bp_def run_simps Let_def)

lemma take_counters_clean:
  assumes "faults (w_conn w) = []" and "pdt_total R a (srv (w_conn w)) = of_int i"
  shows "take_counters R a n t u w = (Inr (Some t, Some u),
     put_store (exec (commit_bp R a n u) (exec (decrement_pdt R a None t) (srv (w_conn w)))) w)"
proof -
  obtain v where "fst (commit_bp R a n u \<lparr>srv = exec (decrement_pdt R a None t) (srv (w_conn w)), faults = []\<rparr>) = Inr (v, u)"
    using commit_bp_returns by blast
  then show ?thesis
    using decrement_returns [OF assms(2), of t] guarded_clean [OF clean_ops(1) assms(1)]
    by (simp add: take_counters_def abind_def aret_def guarded_clean clean_ops)
qed

text \<open>What the two books hold after the operations of one dispatch.\<close>

lemma books_held:
  fixes s a n t u
  defines "s2 \<equiv> exec (commit_bp R a n u) (exec (decrement_pdt R a None t) s)"
  shows "pdt_book R a s2 = (insert t (pdt_live R a s), pdt_total R a s - 1)
       \<and> bp_book R a s2 = (insert u (bp_live R a s), bp_total R a s + n)"
  by (auto simp: s2_def pdt_book_def bp_book_def pdt_live_def pdt_total_def bp_live_def bp_total_def
      exec_ops redis_laws)

lemma books_settled:
  fixes s a n t u
  defines "s2 \<equiv> exec (commit_bp R a n u) (exec (decrement_pdt R a None t) s)"
  assumes "t \<notin> pdt_live R a s" and "u \<notin> bp_live R a s"
  shows "pdt_book R a (exec (commit_bp_finalize R a u) (exec (commit_pdt R a t) s2)) = (pdt_live R a s, pdt_total R a s - 1)
       \<and> bp_book R a (exec (commit_bp_finalize R a u) (exec (commit_pdt R a t) s2)) = (bp_live R a s, bp_total R a s + n)"
    and "pdt_book R a (exec (revert_bp R a u) (exec (revert_pdt R a t) s2)) = (pdt_live R a s, pdt_total R a s)
       \<and> bp_book R a (exec (revert_bp R a u) (exec (revert_pdt R a t) s2)) = (bp_live R a s, bp_total R a s)"
  using assms(2,3)
  by (auto simp: s2_def pdt_book_def bp_book_def pdt_live_def pdt_total_def bp_live_def bp_total_def
      exec_ops redis_laws commit_lua_def revert_pdt_lua_def revert_bp_lua_def Let_def)

end

lemma admit_clean:
  assumes "admit R env skip q w = (Inr tk, w1)" and "faults (w_conn w) = []"
  shows "w_conn w1 = w_conn w \<and> w_db w1 = w_db w"
proof (cases skip)
  case True
  with admit_passed [OF assms(1)] show ?thesis by simp
next
  case False
  with admit_passed [OF assms(1)] have red: "redeem_nonce env q w = (Inr (), w1)" by simp
  from redeem_nonce_paid [OF this] obtain n where
    "w_nonces w (rq_account q, rq_nonce q) = Some n" "pays_for env q n" by blast
  from redeem_nonce_ok [OF assms(2) this] red show ?thesis by simp
qed

text \<open>The row of a fresh id is the last one; an update by that id touches it alone.\<close>

definition last_row :: "order_row list \<Rightarrow> order_row \<Rightarrow> 'r world \<Rightarrow> bool" where
  "last_row rs row w \<longleftrightarrow> orders (w_db w) = rs @ [row] \<and> o_id row \<notin> o_id ` set rs \<and> distinct (broker_ids rs)"

lemma broker_ids_append [simp]: "broker_ids (xs @ ys) = broker_ids xs @ broker_ids ys"
  by (simp add: broker_ids_def)

lemma update_last_row:
  assumes "last_row rs row w" and "o_id (f row) = o_id row"
    and "case o_broker (f row) of Some b \<Rightarrow> (o_account (f row), b) \<notin> set (broker_ids rs) | None \<Rightarrow> True"
  shows "update_by_id (o_id row) f w = (Inr (Some (f row)), w\<lparr>w_db := (w_db w)\<lparr>orders := rs @ [f row]\<rparr>\<rparr>)"
proof -
  have others: "map (\<lambda>r. if o_id r = o_id row then f r else r) rs = rs"
  proof (rule map_idI)
    fix r assume "r \<in> set rs"
    with assms(1) have "o_id r \<noteq> o_id row" unfolding last_row_def by (metis imageI)
    then show "(if o_id r = o_id row then f r else r) = r" by simp
  qed
  have "List.find (\<lambda>r. o_id r = o_id row) rs = None"
    using assms(1) by (auto simp: last_row_def find_None_iff) (metis imageI)
  then have "List.find (\<lambda>r. o_id r = o_id row) (rs @ [f row]) = Some (f row)"
    using assms(2) by (induction rs) (auto split: if_splits)
  moreover have "distinct (broker_ids (rs @ [f row]))"
    using assms(1,3) by (cases "o_broker (f row)") (auto simp: last_row_def broker_ids_Cons broker_ids_def)
  ultimately show ?thesis
    using assms(1) others by (simp add: update_by_id_def last_row_def)
qed

lemma late_kill_switch_keeps:
  assumes "abind (late_kill_switch env ac b) (\<lambda>_. aret x) w = (r, w')"
  shows "w_conn w' = w_conn w \<and> w_db w' = w_db w"
proof -
  have "keeps w_conn (abind (late_kill_switch env ac b) (\<lambda>_. aret x))"
    and "keeps w_db (abind (late_kill_switch env ac b) (\<lambda>_. aret x))"
    by (intro keeps_intro; simp)+
  with assms show ?thesis by (auto dest: keepsD)
qed

definition sent_row :: "exn + string \<Rightarrow> order_row \<Rightarrow> order_row" where
  "sent_row reply row = (case reply of
     Inr b \<Rightarrow> row\<lparr>o_broker := Some b, o_status := Submitted\<rparr>
   | Inl e \<Rightarrow> if e \<in> {SidecarTimeout, SidecarUnavailable, CancelledError} then row else row\<lparr>o_status := Rejected\<rparr>)"

definition settled_store :: "'r redis_srv \<Rightarrow> uuid \<Rightarrow> exn + string \<Rightarrow> uuid \<Rightarrow> uuid \<Rightarrow> 'r \<Rightarrow> 'r" where
  "settled_store R a reply t u s = (case reply of
     Inr b \<Rightarrow> exec (commit_bp_finalize R a u) (exec (commit_pdt R a t) s)
   | Inl e \<Rightarrow> if e \<in> {SidecarTimeout, SidecarUnavailable, CancelledError} then s
             else exec (revert_bp R a u) (exec (revert_pdt R a t) s))"

lemma counters_clean:
  assumes "faults (w_conn w) = []"
  shows "revert_counters R a (Some t, Some u) w
       = (Inr (), put_store (exec (revert_bp R a u) (exec (revert_pdt R a t) (srv (w_conn w)))) w)"
    and "finalize_counters R a (Some t, Some u) w
       = (Inr (), put_store (exec (commit_bp_finalize R a u) (exec (commit_pdt R a t) (srv (w_conn w)))) w)"
  using assms by (simp_all add: revert_counters_def finalize_counters_def aseq_def abind_def settle_clean clean_ops)

lemma dispatch_clean:
  assumes d: "dispatch R env q tk row (Some t, Some u) w = (r, w')"
    and f: "faults (w_conn w) = []" and l: "last_row rs row w" and nb: "o_broker row = None"
    and free: "\<And>b. pe_reply env (wire_of q (tk_qty tk)) = Inr b \<Longrightarrow> (o_account row, b) \<notin> set (broker_ids rs)"
  shows "srv (w_conn w') = settled_store R (rq_account q) (pe_reply env (wire_of q (tk_qty tk))) t u (srv (w_conn w))
       \<and> orders (w_db w') = rs @ [sent_row (pe_reply env (wire_of q (tk_qty tk))) row]"
proof (cases "pe_reply env (wire_of q (tk_qty tk))")
  case (Inr b)
  let ?w1 = "w\<lparr>w_sent := w_sent w @ [PlaceMsg (account_number (tk_account tk)) (wire_of q (tk_qty tk))]\<rparr>"
  let ?f = "\<lambda>r. r\<lparr>o_broker := Some b, o_status := Submitted\<rparr>"
  have l1: "last_row rs row ?w1" using l by (simp add: last_row_def)
  have m: "mark_order_submitted (o_id row) b ?w1 = (Inr (Some (?f row)), ?w1\<lparr>w_db := (w_db ?w1)\<lparr>orders := rs @ [?f row]\<rparr>\<rparr>)"
    unfolding mark_order_submitted_def by (rule update_last_row [OF l1]) (use free [OF Inr] in simp_all)
  let ?w2 = "?w1\<lparr>w_db := (w_db ?w1)\<lparr>orders := rs @ [?f row]\<rparr>\<rparr>"
  let ?s = "exec (commit_bp_finalize R (rq_account q) u) (exec (commit_pdt R (rq_account q) t) (srv (w_conn w)))"
  have fin: "finalize_counters R (rq_account q) (Some t, Some u) ?w2 = (Inr (), put_store ?s ?w2)"
    using counters_clean(2) [of ?w2 R "rq_account q" t u] f by simp
  have sd: "send (PlaceMsg (account_number (tk_account tk)) (wire_of q (tk_qty tk))) w = (Inr (), ?w1)"
    by (simp add: send_def)
  from d Inr have "abind (late_kill_switch env (tk_account tk) b)
      (\<lambda>_. aret (case Some (?f row) of None \<Rightarrow> row | Some r \<Rightarrow> r, Submission_Ok)) (put_store ?s ?w2) = (r, w')"
    unfolding dispatch_def Let_def aseq_def
    by (simp only: abind_step sd m fin sum.case)
  from late_kill_switch_keeps [OF this] Inr show ?thesis by (simp add: settled_store_def sent_row_def)
next
  case (Inl e)
  let ?w1 = "w\<lparr>w_sent := w_sent w @ [PlaceMsg (account_number (tk_account tk)) (wire_of q (tk_qty tk))]\<rparr>"
  let ?s = "exec (revert_bp R (rq_account q) u) (exec (revert_pdt R (rq_account q) t) (srv (w_conn w)))"
  let ?f = "\<lambda>r. r\<lparr>o_status := Rejected\<rparr>"
  have l1: "last_row rs row (put_store ?s ?w1)" using l by (simp add: last_row_def)
  have m: "set_status (o_id row) Rejected (put_store ?s ?w1) =
      (Inr (Some (?f row)), (put_store ?s ?w1)\<lparr>w_db := (w_db ?w1)\<lparr>orders := rs @ [?f row]\<rparr>\<rparr>)"
    unfolding set_status_def by (subst update_last_row [OF l1]) (use nb in simp_all)
  show ?thesis
  proof (cases "e \<in> {SidecarTimeout, SidecarUnavailable, CancelledError}")
    case True
    with d Inl have "w' = ?w1"
      unfolding dispatch_def Let_def aseq_def by (auto simp: abind_def send_def run_simps)
    with True Inl l show ?thesis by (auto simp: settled_store_def sent_row_def last_row_def)
  next
    case False
    with d Inl have "w' = (put_store ?s ?w1)\<lparr>w_db := (w_db ?w1)\<lparr>orders := rs @ [?f row]\<rparr>\<rparr>"
      unfolding dispatch_def Let_def aseq_def
      using counters_clean(1) [of ?w1 R "rq_account q" t u] m f
      by (auto simp: abind_def send_def fail_def of_res_def)
    with False Inl show ?thesis by (simp add: settled_store_def sent_row_def)
  qed
qed


section \<open>Runs of the concrete world\<close>

lemma demo_counters:
  assumes "faults (w_conn w) = []" and "srv (w_conn w) = (\<lambda>_. None)"
  shows "take_counters mem_srv a n t u w = (Inr (Some t, Some u),
     put_store (exec (commit_bp mem_srv a n u) (exec (decrement_pdt mem_srv a None t) (\<lambda>_. None))) w)"
  using redis_service.take_counters_clean [OF mem_redis assms(1), of a 0 n t u]
  by (simp add: assms(2) pdt_total_def mem_srv_def)

lemma demo_submitted:
  assumes "q \<in> {demo_req, demo_ice, demo_bot_req}" and "w \<in> {demo_world, demo_spent}"
  shows "\<exists>r w'. submit mem_srv demo_penv demo_ids q demo_ticket w = (r, w') \<and> w_sent w' \<noteq> w_sent demo_world"
proof -
  let ?row = "new_row ''o1'' ''a1'' ''c1'' 10" and ?cols = "cols_of demo_penv q demo_ticket"
  let ?w1 = "w\<lparr>w_db := (w_db w)\<lparr>orders := [?row]\<rparr>, w_cols := (w_cols w)(''o1'' \<mapsto> ?cols)\<rparr>"
  have q: "rq_account q = ''a1''" "rq_client q = ''c1''" "rq_type q = LIMIT" "rq_limit q = Some 20" "rq_stop q = None"
    using assms(1) by (auto simp: demo_req_def demo_ice_def demo_bot_req_def)
  have ins: "insert_order ?row ?cols w = (Inr (Some ?row), ?w1)"
    using q assms(2) by (auto simp: insert_order_def lookup_order_def demo_spent_def demo_world_def demo_db_def new_row_def
        cols_of_def orders_check_def)
  have w: "srv (w_conn w) = (\<lambda>_. None)" "faults (w_conn w) = []" "w_sent w = w_sent demo_world"
    using assms(2) by (auto simp: demo_spent_def demo_world_def)
  obtain w2 where tc: "take_counters mem_srv ''a1'' 200 ''t1'' ''u1'' ?w1 = (Inr (Some ''t1'', Some ''u1''), w2)"
      "w_sent w2 = w_sent demo_world"
    using demo_counters [of ?w1 "''a1''" 200 "''t1''" "''u1''"] w by auto
  obtain r w' where d: "dispatch mem_srv demo_penv q demo_ticket ?row (Some ''t1'', Some ''u1'') w2 = (r, w')"
    by fastforce
  have n: "tk_qty demo_ticket = 10" "tk_notional demo_ticket = 200" by (simp_all add: demo_ticket_def)
  have "submit mem_srv demo_penv demo_ids q demo_ticket w = (r, w')"
    using ins tc(1) d by (simp add: submit_def demo_ids_def q n abind_def)
  then show ?thesis using dispatch_outbox [OF d] tc(2) by auto
qed

lemma demo_placed_any:
  assumes "q \<in> {demo_req, demo_ice}"
  shows "\<exists>r w'. place_order mem_srv demo_penv demo_ids False q demo_world = (r, w') \<and> w_sent w' \<noteq> w_sent demo_world"
  unfolding place_order_def abind_step [of "admit mem_srv demo_penv False q" demo_world demo_ticket demo_spent, OF demo_admit [OF assms]]
  using demo_submitted [of q demo_spent] assms by blast

lemmas demo_placed = demo_placed_any [of demo_req, simplified]


theorem dispatch_spends_preview_witness:
  "\<exists>n. w_nonces demo_world (''a1'', ''n1'') = Some n \<and> pays_for demo_penv demo_req n"
proof -
  obtain r w' where p: "place_order mem_srv demo_penv demo_ids False demo_req demo_world = (r, w')"
    and s: "w_sent w' \<noteq> w_sent demo_world" using demo_placed by blast
  from dispatch_spends_preview [OF p s refl refl] show ?thesis by (simp add: demo_req_def)
qed



end
