(* ===== verification/Orders_Gaps.thy ===== *)
theory Orders_Gaps
  imports Orders_Guarantees
begin

text \<open>
  The preview's side of the bargain, and where \<open>place_order\<close> does less than its surroundings suggest:
  the per-account switches it never reads, order types its own table refuses, the reservation
  that follows the gate, and the acknowledgement that overwrites a fill.
\<close>

section \<open>Preview and placement\<close>

lemma check_rate_limit_state:
  "\<lbrakk>check_rate_limit user w = (Inr x, w'); faults (w_conn w) = []\<rbrakk> \<Longrightarrow> w_nonces w' = w_nonces w \<and> w_conn w' = w_conn w"
  by (auto simp: check_rate_limit_def rcmd_def returns Let_def split: if_splits)

lemma mint_nonce_minted:
  assumes "mint_nonce k v w = (Inr x, w')" and "faults (w_conn w) = []" and "w_nonces w k = None"
  shows "w' = w\<lparr>w_nonces := (w_nonces w)(k \<mapsto> v)\<rparr>"
  using assms by (auto simp: mint_nonce_def rcmd_def)

lemma preview_order_minted:
  assumes "preview_order R env user nonce q w = (Inr resp, w')" and "faults (w_conn w) = []"
    and "w_nonces w (rq_account q, nonce) = None"
  shows "\<exists>h. request_hash q = Inr h \<and> faults (w_conn w') = []
       \<and> w_nonces w' (rq_account q, nonce) = Some \<lparr>nv_hash = Some h, nv_rth = Some (is_regular_trading_hours (pe_now env))\<rparr>"
proof -
  from assms(1) obtain u t h m t' where rl: "check_rate_limit user w = (Inr u, t)" and h: "request_hash q = Inr h"
    and m: "mint_nonce (rq_account q, nonce)
              \<lparr>nv_hash = Some h, nv_rth = Some (is_regular_trading_hours (pe_now env))\<rparr> t = (Inr m, t')"
    and "w' = t'"
    by (auto simp: preview_order_def returns aread_def)
  with check_rate_limit_state [OF rl assms(2)] assms(2,3) mint_nonce_minted [OF m]
  show ?thesis by (intro exI [of _ h]) simp
qed

text \<open>A preview that answers mints a nonce with which a place request of the same eight fields passes the
  nonce stage, once, as long as the session phase has not changed and the nonce has not expired.\<close>

theorem preview_redeemable:
  assumes "preview_order R env user nonce q w = (Inr resp, w')"
    and "faults (w_conn w) = []" and "w_nonces w (rq_account q, nonce) = None"
    and "rq_account p = rq_account q" and "rq_nonce p = nonce" and "request_hash p = request_hash q"
    and "is_regular_trading_hours (pe_now env2) = is_regular_trading_hours (pe_now env)"
  shows "redeem_nonce env2 p w' = (Inr (), w'\<lparr>w_nonces := (w_nonces w')((rq_account q, nonce) := None)\<rparr>)"
proof -
  from preview_order_minted [OF assms(1-3)] obtain h where h: "request_hash q = Inr h" "faults (w_conn w') = []"
    and n: "w_nonces w' (rq_account p, rq_nonce p) =
              Some \<lparr>nv_hash = Some h, nv_rth = Some (is_regular_trading_hours (pe_now env))\<rparr>"
    using assms(4,5) by auto
  have "pays_for env2 p \<lparr>nv_hash = Some h, nv_rth = Some (is_regular_trading_hours (pe_now env))\<rparr>"
    using assms(6,7) h(1) by (cases h) (simp add: pays_for_def)
  from redeem_nonce_ok [OF h(2) n this] assms(4,5) show ?thesis by simp
qed

definition demo_preview :: order_req where
  "demo_preview = \<lparr>rq_account = ''a1'', rq_conid = ''265598'', rq_side = Buy, rq_type = LIMIT, rq_tif = DAY,
     rq_qty = Some 10, rq_cash = None, rq_limit = Some 20, rq_stop = None, rq_trail = None,
     rq_trail_type = None, rq_trail_limit = None, rq_expiry = None, rq_algo = None, rq_display = None,
     rq_effect = None\<rparr>"

lemma demo_previewed: "\<exists>resp w'. preview_order mem_srv demo_penv ''u'' ''n2'' demo_preview demo_world = (Inr resp, w')"
proof -
  have i: "intake demo_penv demo_preview = Inr 10" and p: "price_request demo_penv True demo_preview 10 = Inr demo_ticket"
    by (simp_all add: place_defs demo_penv_def demo_preview_def demo_ticket_def SESSION_BOUND_ORDER_TYPES_def)
  obtain pol where pol: "get_account_policy (pe_cfg demo_penv) ''ibkr'' ''paper'' = Inr pol"
    by (simp add: demo_penv_def get_account_policy_def cfg_get_bool_def cfg_decimal_def)
  obtain h where h: "request_hash demo_preview = Inr h"
    by (simp add: request_hash_def preview_payload_hash_def demo_preview_def canonicalize_qty_def)
  define w1 where "w1 = demo_world\<lparr>w_rate := (w_rate demo_world)(''u'' := 1)\<rparr>"
  have rl: "check_rate_limit ''u'' demo_world = (Inr (), w1)"
    by (simp add: check_rate_limit_def rcmd_def run_simps demo_world_def w1_def Let_def)
  define v where "v = \<lparr>nv_hash = Some h, nv_rth = Some (is_regular_trading_hours (pe_now demo_penv))\<rparr>"
  define w2 where "w2 = w1\<lparr>w_nonces := (w_nonces w1)((''a1'', ''n2'') \<mapsto> v)\<rparr>"
  have mint: "mint_nonce (rq_account demo_preview, ''n2'') v w1 = (Inr (), w2)"
    by (simp add: mint_nonce_def rcmd_def w1_def w2_def demo_world_def demo_preview_def)
  have ins: "pe_instrument demo_penv b x y = Inr None" for b x y by (simp add: demo_penv_def)
  have s: "srv (w_conn w2) = (\<lambda>_. None)" by (simp add: w2_def w1_def demo_world_def)
  have tk: "gateway_label (tk_account demo_ticket) = ''ibkr''" "ac_mode (tk_account demo_ticket) = ''paper''"
    by (simp_all add: demo_ticket_def)
  have "evaluate (gate_env mem_srv (pe_risk demo_penv) ''a1'' (\<lambda>_. None))
      ((place_ctx demo_penv demo_preview demo_ticket None)\<lparr>multiplier := 1, position_effect := None\<rparr>) Preview
      = Inr \<lparr>final_verdict = Allow, blockers = [], warnings = []\<rparr>"
    by (simp add: gate_defs demo_env_def place_ctx_def demo_preview_def demo_penv_def demo_ticket_def
        gate_env_def parse_effect_def capability_broker_id_def KNOWN_BROKERS_def)
  moreover have "rq_account demo_preview = ''a1''" by (simp add: demo_preview_def)
  ultimately show ?thesis
    using mint [unfolded v_def]
    by (simp add: preview_order_def run_simps i p pol h rl ins s tk)
qed

theorem preview_redeemable_witness:
  "\<exists>w' w2. redeem_nonce demo_penv (demo_req\<lparr>rq_nonce := ''n2''\<rparr>) w' = (Inr (), w2) \<and> w' \<noteq> demo_world"
proof -
  obtain resp w' where p: "preview_order mem_srv demo_penv ''u'' ''n2'' demo_preview demo_world = (Inr resp, w')"
    using demo_previewed by blast
  have h: "request_hash (demo_req\<lparr>rq_nonce := ''n2''\<rparr>) = request_hash demo_preview"
    by (simp add: request_hash_def demo_req_def demo_preview_def)
  have n: "w_nonces demo_world (rq_account demo_preview, ''n2'') = None" by (simp add: demo_world_def demo_preview_def)
  have f: "faults (w_conn demo_world) = []" by (simp add: demo_world_def)
  have "w_nonces w' (rq_account demo_preview, ''n2'') \<noteq> None" using preview_order_minted [OF p f n] by auto
  with n have "w' \<noteq> demo_world" by auto
  moreover have "rq_account (demo_req\<lparr>rq_nonce := ''n2''\<rparr>) = rq_account demo_preview" "rq_nonce (demo_req\<lparr>rq_nonce := ''n2''\<rparr>) = ''n2''"
    by (simp_all add: demo_req_def demo_preview_def)
  ultimately show ?thesis using preview_redeemable [OF p f n _ _ h refl] by blast
qed

section \<open>Switches that are not read\<close>

definition with_switches :: "place_env \<Rightarrow> string \<Rightarrow> bool \<Rightarrow> bool \<Rightarrow> place_env" where
  "with_switches env lab te so = env\<lparr>pe_cfg := (pe_cfg env)
     (lab @ ''.trade_enabled'' \<mapsto> CBool te, lab @ ''.simulator_only'' \<mapsto> CBool so)\<rparr>"

lemma last_neq: "last a \<noteq> last b \<Longrightarrow> a \<noteq> b"
  by auto

lemma kill_key_differs:
  "lab @ ''.trade_enabled'' \<noteq> ''kill_switch_enabled''" "lab @ ''.simulator_only'' \<noteq> ''kill_switch_enabled''"
proof -
  show "lab @ ''.simulator_only'' \<noteq> ''kill_switch_enabled''" by (rule last_neq) simp
  show "lab @ ''.trade_enabled'' \<noteq> ''kill_switch_enabled''"
  proof
    assume e: "lab @ ''.trade_enabled'' = ''kill_switch_enabled''"
    then have "rev (lab @ ''.trade_enabled'') ! 13 = rev ''kill_switch_enabled'' ! 13" by simp
    then show False by (simp add: nth_append)
  qed
qed

lemma switch_keys:
  "l @ ''.max_notional_per_order'' \<noteq> lab @ ''.trade_enabled''" "l @ ''.max_notional_per_order'' \<noteq> lab @ ''.simulator_only''"
  "l @ ''.daily_notional_cap'' \<noteq> lab @ ''.trade_enabled''" "l @ ''.daily_notional_cap'' \<noteq> lab @ ''.simulator_only''"
  "l @ ''.trade_enabled'' \<noteq> lab @ ''.simulator_only''" "l @ ''.simulator_only'' \<noteq> lab @ ''.trade_enabled''"
  by (rule last_neq; simp)+

lemma with_switches_cfg:
  "pe_cfg (with_switches env lab te so) k =
     (if k = lab @ ''.simulator_only'' then Some (CBool so) else if k = lab @ ''.trade_enabled'' then Some (CBool te)
      else pe_cfg env k)"
  by (simp add: with_switches_def)

definition same_caps :: "trade_policy \<Rightarrow> trade_policy \<Rightarrow> bool" where
  "same_caps p p' \<longleftrightarrow> max_notional_per_order p = max_notional_per_order p' \<and> daily_notional_cap p = daily_notional_cap p'"

lemma policy_same_caps:
  "rel_sum (=) same_caps (get_account_policy (pe_cfg (with_switches env lab te so)) l m)
     (get_account_policy (pe_cfg (with_switches env lab te' so')) l m)"
proof -
  let ?c = "pe_cfg (with_switches env lab te so)" and ?c' = "pe_cfg (with_switches env lab te' so')"
  have d: "cfg_decimal ?c (l @ k) x = cfg_decimal ?c' (l @ k) x"
    if "k \<in> {''.max_notional_per_order'', ''.daily_notional_cap''}" for k x
    using that by (auto simp: cfg_decimal_def with_switches_cfg switch_keys)
  have b: "rel_sum (=) (\<lambda>_ _. True) (cfg_get_bool ?c k x) (cfg_get_bool ?c' k x)" for k x
    by (auto simp: cfg_get_bool_def with_switches_cfg split: option.splits cfg_value.splits)
  show ?thesis
    using b [of "l @ ''.trade_enabled''" False] b [of "l @ ''.simulator_only''" "m = ''live''"]
    by (auto simp: get_account_policy_def d same_caps_def elim!: rel_sum.cases split: sum.splits)
       (cases "cfg_decimal ?c' (l @ ''.max_notional_per_order'') 10000";
        cases "cfg_decimal ?c' (l @ ''.daily_notional_cap'') 50000"; simp add: same_caps_def)+
qed

lemma rbind_rel:
  assumes "rel_sum (=) S a b" and "\<And>x y. S x y \<Longrightarrow> f x = g y"
  shows "rbind a f = rbind b g"
  using assms by (cases a; cases b) auto

text \<open>The stations that do not read the configuration.\<close>

lemma cfg_blind:
  "resolve_account (e\<lparr>pe_cfg := c\<rparr>) = resolve_account e" "resolve_contract (e\<lparr>pe_cfg := c\<rparr>) = resolve_contract e"
  "get_market_mid (e\<lparr>pe_cfg := c\<rparr>) = get_market_mid e" "fx_rate (e\<lparr>pe_cfg := c\<rparr>) = fx_rate e"
  "validate_pre_dispatch (e\<lparr>pe_cfg := c\<rparr>) True = validate_pre_dispatch e True"
  "place_ctx (e\<lparr>pe_cfg := c\<rparr>) = place_ctx e" "redeem_nonce (e\<lparr>pe_cfg := c\<rparr>) = redeem_nonce e"
  "late_kill_switch (e\<lparr>pe_cfg := c\<rparr>) = late_kill_switch e" "cols_of (e\<lparr>pe_cfg := c\<rparr>) = cols_of e"
  by (intro ext; simp add: resolve_account_def resolve_contract_def get_market_mid_def fx_rate_def
      validate_pre_dispatch_def place_ctx_def redeem_nonce_def late_kill_switch_def cols_of_def
      cong: option.case_cong if_cong sum.case_cong)+

lemma cfg_blind2:
  "native_notional (e\<lparr>pe_cfg := c\<rparr>) = native_notional e" "dispatch R (e\<lparr>pe_cfg := c\<rparr>) = dispatch R e"
proof -
  show "native_notional (e\<lparr>pe_cfg := c\<rparr>) = native_notional e"
    by (intro ext) (unfold native_notional_def cfg_blind, rule refl)
  show "dispatch R (e\<lparr>pe_cfg := c\<rparr>) = dispatch R e"
    by (intro ext) (unfold dispatch_def cfg_blind, simp)
qed

lemma cfg_blind3:
  "price_request (e\<lparr>pe_cfg := c\<rparr>) = price_request e" "submit R (e\<lparr>pe_cfg := c\<rparr>) = submit R e"
  by (intro ext; unfold price_request_def submit_def cfg_blind cfg_blind2; simp)+

text \<open>The configuration flags \<open>trade_enabled\<close> and \<open>simulator_only\<close> of an account play no part in placing an
  order: with either of them on or off, every run of \<open>place_order\<close> is the same.\<close>

theorem trade_switches_not_enforced:
  "place_order R (with_switches env lab te so) fr skip q w = place_order R (with_switches env lab te' so') fr skip q w"
proof -
  let ?e = "with_switches env lab te so" and ?e' = "with_switches env lab te' so'"
  have k: "is_kill_switch_active (pe_cfg ?e) = is_kill_switch_active (pe_cfg ?e')"
    using kill_key_differs [of lab] by (simp add: is_kill_switch_active_def cfg_get_bool_def with_switches_cfg)
  have p: "prepare ?e q = prepare ?e' q"
    by (simp add: prepare_def intake_def check_kill_switch_def k) (simp add: with_switches_def cfg_blind3)
  have g: "gate_and_caps R ?e q tk v = gate_and_caps R ?e' q tk v" for tk v
  proof -
    have pol: "rbind (get_account_policy (pe_cfg ?e) l m) (check_caps x y)
        = rbind (get_account_policy (pe_cfg ?e') l m) (check_caps x y)" for l m x y
      by (rule rbind_rel [OF policy_same_caps]) (simp add: same_caps_def check_caps_def)
    have f: "pe_instrument ?e = pe_instrument ?e'" "pe_risk ?e = pe_risk ?e'" "pe_now ?e = pe_now ?e'"
      "place_ctx ?e = place_ctx ?e'"
      by (simp_all add: with_switches_def cfg_blind)
    show ?thesis unfolding gate_and_caps_def f pol by (rule refl)
  qed
  have s: "submit R ?e = submit R ?e'" "redeem_nonce ?e = redeem_nonce ?e'"
    by (simp_all add: with_switches_def cfg_blind cfg_blind3)
  show ?thesis by (simp add: place_order_def admit_def p g s)
qed

section \<open>Order types the table refuses\<close>

text \<open>An order of a type other than market, limit and stop is never stored and never dispatched: its insert
  violates the check of the table, after its preview has been spent.\<close>

theorem advanced_types_never_placed:
  assumes "rq_type q \<notin> {MARKET, LIMIT, STOP}"
  shows "\<exists>e. fst (place_order R env fr skip q w) = Inl e
       \<and> w_sent (snd (place_order R env fr skip q w)) = w_sent w
       \<and> w_db (snd (place_order R env fr skip q w)) = w_db w"
proof -
  obtain x w1 where a: "admit R env skip q w = (x, w1)" by fastforce
  have ks: "keeps w_sent (admit R env skip q)" "keeps w_db (admit R env skip q)"
    by (rule keeps_admit; simp)+
  note keep = keepsD [OF ks(1) a] keepsD [OF ks(2) a]
  show ?thesis
  proof (cases x)
    case (Inl e)
    with a keep show ?thesis by (simp add: place_order_def abind_def)
  next
    case (Inr tk)
    have "insert_order (new_row (fr_order fr) (rq_account q) (rq_client q) (tk_qty tk)) (cols_of env q tk) w1
        = (Inl DatabaseError, w1)"
      using assms by (auto simp: insert_order_def orders_check_def cols_of_def)
    then have "place_order R env fr skip q w = (Inl DatabaseError, w1)"
      using a Inr by (simp add: place_order_def abind_def submit_def)
    with keep show ?thesis by simp
  qed
qed

theorem advanced_types_never_placed_witness:
  "w_sent (snd (place_order mem_srv demo_penv demo_ids True (demo_req\<lparr>rq_type := STOP_LIMIT, rq_stop := Some 19\<rparr>) demo_world)) = []"
  using advanced_types_never_placed [of "demo_req\<lparr>rq_type := STOP_LIMIT, rq_stop := Some 19\<rparr>" mem_srv demo_penv demo_ids True demo_world]
  by (auto simp: demo_world_def)

section \<open>Reservation after the gate\<close>

text \<open>Admitting one order reserves nothing: until it is submitted, the risk gate and the caps answer a second
  order exactly as if the first had never come, so two orders that do not fit together can both pass.\<close>

theorem admission_reserves_nothing:
  assumes "admit R env skip q w = (Inr tk, w1)" and "faults (w_conn w) = []"
  shows "gate_and_caps R env2 q2 tk2 w1 = gate_and_caps R env2 q2 tk2 w"
proof -
  from admit_clean [OF assms] have c: "w_conn w1 = w_conn w" "w_db w1 = w_db w" by simp_all
  have "keeps w_cols (admit R env skip q)" by (rule keeps_admit) simp_all
  from keepsD [OF this assms(1)] c have "notional_today w1 = notional_today w"
    by (intro ext) (simp add: notional_today_def)
  then show ?thesis by (simp only: gate_and_caps_def c)
qed

theorem admission_reserves_nothing_witness:
  "gate_and_caps mem_srv demo_penv demo_req demo_ticket demo_spent = Inr ()"
proof -
  have "faults (w_conn demo_world) = []" by (simp add: demo_world_def)
  from admission_reserves_nothing [OF demo_admit this, of demo_req demo_penv demo_req demo_ticket] demo_gate show ?thesis by simp
qed

section \<open>The acknowledgement after the fill\<close>

text \<open>When the broker's fill is processed before the answer of the place call is written, the acknowledgement
  sets the filled order back to \<open>submitted\<close>: unlike an event, it writes its status without regard to the row's.\<close>

theorem late_ack_reopens_fill:
  assumes t: "event_tx acct ev (sdb s, buf s) = (Inr (Recorded n True), st')" "ev_kind ev \<noteq> ''commission_report''"
    and p: "parse_event ev = Inr ps" "ps_client ps = Some c" "ps_status ps = Filled"
    and o: "orders (sdb s) = rs @ [new_row i acct c x]" "i \<notin> o_id ` set rs"
      "\<And>r. r \<in> set rs \<Longrightarrow> (o_account r, o_client r) \<noteq> (acct, c)"
    and u: "distinct (broker_ids rs)" "(acct, b) \<notin> set (broker_ids rs)"
    and w: "w_db w = sdb (snd (process_event acct ev s))"
  shows "\<exists>r. orders (w_db w) = rs @ [r] \<and> o_id r = i \<and> o_status r = Filled
       \<and> (\<exists>w'. mark_order_submitted i b w = (Inr (Some (r\<lparr>o_broker := Some b, o_status := Submitted\<rparr>)), w')
            \<and> orders (w_db w') = rs @ [r\<lparr>o_broker := Some b, o_status := Submitted\<rparr>])"
proof -
  let ?r = "set_order ev ps (new_row i acct c x)"
  from process_event_rows [OF t] p(1) have "orders (w_db w) =
      map (\<lambda>r. if ps_client ps = Some (o_client r) \<and> o_account r = acct
                   \<and> (\<forall>t. o_last_event_at r = Some t \<longrightarrow> t \<le> ps_at ps)
               then set_order ev ps r else r) (rs @ [new_row i acct c x])"
    using w o(1) by auto
  moreover have "map (\<lambda>r. if ps_client ps = Some (o_client r) \<and> o_account r = acct
                   \<and> (\<forall>t. o_last_event_at r = Some t \<longrightarrow> t \<le> ps_at ps)
               then set_order ev ps r else r) rs = rs"
    by (rule map_idI) (use o(3) p(2) in auto)
  ultimately have rows: "orders (w_db w) = rs @ [?r]" using p(2) by (simp add: new_row_def)
  have r: "o_id ?r = i" "o_account ?r = acct" "o_status ?r = Filled"
    using p(3) by (simp_all add: set_order_def next_status_def TERMINAL_STATUSES_def)
  have "last_row rs ?r w" using rows r(1) o(2) u(1) by (simp add: last_row_def)
  from update_last_row [OF this, of "\<lambda>r. r\<lparr>o_broker := Some b, o_status := Submitted\<rparr>"] r u(2)
  have "mark_order_submitted i b w = (Inr (Some (?r\<lparr>o_broker := Some b, o_status := Submitted\<rparr>)),
      w\<lparr>w_db := (w_db w)\<lparr>orders := rs @ [?r\<lparr>o_broker := Some b, o_status := Submitted\<rparr>]\<rparr>\<rparr>)"
    by (simp add: mark_order_submitted_def)
  with rows r show ?thesis by auto
qed

definition demo_placed_row :: order_row where
  "demo_placed_row = new_row ''o1'' ''a1'' ''00000000-0000-0000-0000-000000000001'' 10"

theorem late_ack_reopens_fill_witness:
  "\<exists>w :: mem world. map o_status (orders (w_db w)) = [Filled]
      \<and> map o_status (orders (w_db (snd (mark_order_submitted ''o1'' ''b1'' w)))) = [Submitted]"
proof -
  let ?s = "demo [demo_placed_row]"
  have p: "parse_event demo_fill = Inr \<lparr>ps_at = 9, ps_payload = no_fields, ps_status = Filled,
      ps_filled = Some 10, ps_avg = Some 5, ps_client = Some ''00000000-0000-0000-0000-000000000001''\<rparr>"
    by code_simp
  have ccy: "ccy_ok (ccy3 None)" by code_simp
  have f: "ev_broker demo_fill = ''b1''" "ev_exec demo_fill = ''x1''" "ev_kind demo_fill = ''exec_details''"
    by (simp_all add: demo_fill_def demo_event_def)
  have k: "ev_kind demo_fill \<noteq> ''commission_report''" by (simp add: demo_fill_def)
  obtain n st' where t: "event_tx ''a1'' demo_fill (sdb ?s, buf ?s) = (Inr (Recorded n True), st')"
    by (simp add: event_tx_def p f run_simps is_echo_def apply_event_def follow_ups_def insert_order_event_def
        update_order_def matching_order_id_def demo_def demo_db_def demo_placed_row_def new_row_def
        hits_def set_order_def row_ok_def broker_ids_def next_status_def TERMINAL_STATUSES_def
        combo_fill_def handle_fill_def record_fill_def insert_fill_def ccy no_fields_def or_zero_def
        commission_buffer_pop_def drain_pending_fills_def Let_def)
  let ?w = "demo_world\<lparr>w_db := sdb (snd (process_event ''a1'' demo_fill ?s))\<rparr>"
  have "\<exists>r. orders (w_db ?w) = [] @ [r] \<and> o_id r = ''o1'' \<and> o_status r = Filled
       \<and> (\<exists>w'. mark_order_submitted ''o1'' ''b1'' ?w = (Inr (Some (r\<lparr>o_broker := Some ''b1'', o_status := Submitted\<rparr>)), w')
            \<and> orders (w_db w') = [] @ [r\<lparr>o_broker := Some ''b1'', o_status := Submitted\<rparr>])"
    by (rule late_ack_reopens_fill [OF t k p]) (simp_all add: demo_placed_row_def broker_ids_def)
  then show ?thesis by (intro exI [of _ ?w]) auto
qed

section \<open>What reaches the broker\<close>

lemma place_order_message:
  assumes "place_order R env fr skip q w = (r, w')" and "w_sent w' \<noteq> w_sent w"
  shows "\<exists>tk. prepare env q = Inr tk
       \<and> w_sent w' ! length (w_sent w) = PlaceMsg (account_number (tk_account tk)) (wire_of q (tk_qty tk))"
  using assms(1)
proof (cases rule: place_order_cases)
  case unsent
  with assms(2) show ?thesis by simp
next
  case (sent tk w1 row w2 toks w3)
  have ks: "keeps w_sent (admit R env skip q)" by (rule keeps_admit) simp_all
  have kt: "keeps w_sent (take_counters R (rq_account q) (tk_notional tk) (fr_pdt fr) (fr_bp fr))"
    by (intro keeps_intro) simp
  have "w_sent w3 = w_sent w"
    using keepsD [OF kt sent(3)] keepsD [OF ks sent(1)] insert_order_inserted [OF sent(2)] by simp
  with dispatch_outbox [OF sent(4)] admit_passed [OF sent(1)] show ?thesis by (auto simp: nth_append)
qed

text \<open>The algo strategy, the display size and the position effect of a request never reach the broker: two
  dispatched requests that differ in nothing else hand over the same message.\<close>

theorem algo_not_transmitted:
  assumes "place_order R env fr skip q w = (r, w')" and "w_sent w' \<noteq> w_sent w"
    and "q2 = q\<lparr>rq_algo := al, rq_display := d, rq_effect := ef\<rparr>"
    and "place_order R env fr2 skip2 q2 w = (r2, w2)" and "w_sent w2 \<noteq> w_sent w"
  shows "w_sent w2 ! length (w_sent w) = w_sent w' ! length (w_sent w)"
proof -
  obtain tk where tk: "prepare env q = Inr tk"
    "w_sent w' ! length (w_sent w) = PlaceMsg (account_number (tk_account tk)) (wire_of q (tk_qty tk))"
    using place_order_message [OF assms(1,2)] by blast
  obtain tk2 where tk2: "prepare env q2 = Inr tk2"
    "w_sent w2 ! length (w_sent w) = PlaceMsg (account_number (tk_account tk2)) (wire_of q2 (tk_qty tk2))"
    using place_order_message [OF assms(4,5)] by blast
  have "native_notional env b q2 = native_notional env b q" for b
    by (intro ext) (auto simp: assms(3) native_notional_def split: otype.splits option.splits)
  then have "tk2 = tk" using tk(1) tk2(1)
    by (auto simp: assms(3) prepare_def intake_def price_request_def validate_request_def rbind_Inr_iff split: if_splits)
  with tk(2) tk2(2) show ?thesis by (simp add: assms(3) wire_of_def)
qed

theorem algo_not_transmitted_witness:
  "\<exists>w' w2. w' = snd (place_order mem_srv demo_penv demo_ids False demo_req demo_world)
     \<and> w2 = snd (place_order mem_srv demo_penv demo_ids False demo_ice demo_world) \<and> w_sent w2 ! 0 = w_sent w' ! 0"
proof -
  obtain r w' where p: "place_order mem_srv demo_penv demo_ids False demo_req demo_world = (r, w')"
    and s: "w_sent w' \<noteq> w_sent demo_world" using demo_placed by blast
  obtain r2 w2 where p2: "place_order mem_srv demo_penv demo_ids False demo_ice demo_world = (r2, w2)"
    and s2: "w_sent w2 \<noteq> w_sent demo_world" using demo_placed_any [of demo_ice] by blast
  from algo_not_transmitted [OF p s demo_ice_def p2 s2] p p2 show ?thesis by (simp add: demo_world_def)
qed

end
