(* ===== verification/Orders_Modify.thy ===== *)
theory Orders_Modify
  imports Orders_Guarantees
begin

text \<open>
  \<open>modify_order\<close> and \<open>cancel_order\<close> of \<open>backend/app/services/orders_service.py\<close>: both act on a stored
  order, write the row before the broker is told and correct it when the broker refuses.

  The environment is that of placing an order with the sidecar's answers to the two calls
  added. The audit row is left out, as it is for placing. Rounding of
  \<open>NUMERIC\<close> columns is left out; the checks of the table are kept.
\<close>

section \<open>Modifying an order\<close>

record modify_req =
  mq_nonce :: string
  mq_qty :: decimal
  mq_type :: otype
  mq_tif :: otif
  mq_limit :: "decimal option"
  mq_stop :: "decimal option"
  mq_trail :: "decimal option"
  mq_trail_type :: "trail_type option"
  mq_trail_limit :: "decimal option"
  mq_expiry :: "string option"
  mq_algo :: "string option"

definition validate_modify :: "(string \<Rightarrow> bool) \<Rightarrow> modify_req \<Rightarrow> exn + unit" where
  "validate_modify date_ok q = validate_order_shape date_ok (mq_type q) (mq_tif q) (mq_limit q) (mq_stop q)
     (mq_trail q) (mq_trail_type q) (mq_trail_limit q) (mq_expiry q)"

record modify_env = place_env +
  me_class :: "int option \<Rightarrow> exn + string option"
  me_get_contract :: "string \<Rightarrow> exn + contract_rec"
  me_reply :: "exn + string"

definition replay_lookup :: "uuid \<Rightarrow> string \<Rightarrow> (modify_result option, 'r world) act" where
  "replay_lookup oid nonce = rcmd (\<lambda>w. (w_replay w (oid, nonce), w))"

definition replay_store :: "uuid \<Rightarrow> string \<Rightarrow> modify_result \<Rightarrow> (unit, 'r world) act" where
  "replay_store oid nonce r = rcmd (\<lambda>w. ((), case w_replay w (oid, nonce) of
     Some _ \<Rightarrow> w | None \<Rightarrow> w\<lparr>w_replay := (w_replay w)((oid, nonce) \<mapsto> r)\<rparr>))"

definition live_child :: "uuid \<Rightarrow> 'r world \<Rightarrow> bool" where
  "live_child oid w \<longleftrightarrow> (\<exists>r \<in> set (orders (w_db w)). o_status r \<notin> set TERMINAL_STATUSES
     \<and> (case w_cols w (o_id r) of Some c \<Rightarrow> oc_parent c = Some oid | None \<Rightarrow> False))"

text \<open>The guards before anything is computed.\<close>

definition modify_guards :: "modify_env \<Rightarrow> modify_req \<Rightarrow> order_row \<Rightarrow> order_cols \<Rightarrow> 'r world \<Rightarrow> exn + account_rec" where
  "modify_guards env q row cols w =
     (if o_status row \<in> set TERMINAL_STATUSES then Inl (HttpError 409 ''terminal_status'')
      else if oc_parent cols = None \<and> 0 < o_filled row \<and> live_child (o_id row) w
      then Inl (HttpError 409 ''bracket_parent_partial'')
      else rbind (cfg_get_bool (pe_cfg env) ''kill_switch_enabled'' False) (\<lambda>on.
      if on then Inl (HttpError 503 ''kill_switch'')
      else if pe_maintenance env then Inl (HttpError 503 ''maintenance'')
      else rbind (resolve_account (place_env.truncate env) (o_account row)) (\<lambda>ac.
      rbind (validate_pre_dispatch (place_env.truncate env) True (gateway_label ac) (oc_type cols) (mq_tif q) None False) (\<lambda>_.
      if mq_algo q \<noteq> oc_algo cols then Inl (HttpError 422 ''algo_modify_strategy_change_unsupported'')
      else Inr ac))))"

definition new_limit :: "modify_req \<Rightarrow> order_cols \<Rightarrow> decimal option" where
  "new_limit q cols = (case mq_limit q of Some p \<Rightarrow> Some p | None \<Rightarrow> oc_limit cols)"

definition modify_notional :: "modify_req \<Rightarrow> order_cols \<Rightarrow> decimal" where
  "modify_notional q cols = quantize8 (mq_qty q) * (case new_limit q cols of Some p \<Rightarrow> p | None \<Rightarrow> 0)"

definition modify_ctx :: "account_rec \<Rightarrow> modify_req \<Rightarrow> order_row \<Rightarrow> order_cols \<Rightarrow> int option \<Rightarrow> string option \<Rightarrow> context_rec" where
  "modify_ctx ac q row cols iid cls =
     \<lparr>account_id = o_account row, broker_id = capability_broker_id (gateway_label ac), instrument_id = iid,
      c_side = oc_side cols, qty = quantize8 (mq_qty q), price = new_limit q cols,
      symbol = Some (oc_symbol cols), asset_class = cls, multiplier = 1, first_notice_day = None,
      position_effect = None, algo_strategy = None, display_size = None, account_nlv_base = None, notional = None\<rparr>"

definition check_trade_policy :: "(string \<Rightarrow> cfg_value option) \<Rightarrow> string \<Rightarrow> string \<Rightarrow> decimal \<Rightarrow> exn + unit" where
  "check_trade_policy cfg lab mode n =
     rbind (get_account_policy cfg lab mode) (\<lambda>pol.
     if \<not> trade_enabled pol then Inl (HttpError 422 ''trade_disabled'')
     else if simulator_only pol \<and> mode = ''live'' then Inl (HttpError 422 ''simulator_only'')
     else if cap_status n (max_notional_per_order pol) = Exceeded_Cap
     then Inl (HttpError 422 ''max_notional_exceeded'') else Inr ())"

definition modify_gate ::
  "'r redis_srv \<Rightarrow> modify_env \<Rightarrow> modify_req \<Rightarrow> account_rec \<Rightarrow> order_row \<Rightarrow> order_cols \<Rightarrow> 'r world \<Rightarrow> exn + unit" where
  "modify_gate R env q ac row cols w =
     rbind (pe_client env (gateway_label ac)) (\<lambda>_.
     rbind (pe_instrument env True (capability_broker_id (gateway_label ac)) (oc_conid cols)) (\<lambda>iid.
     rbind (me_class env iid) (\<lambda>cls.
     rbind (evaluate (gate_env R (pe_risk env) (o_account row) (srv (w_conn w))) (modify_ctx ac q row cols iid cls) Modify_Order) (\<lambda>v.
     if final_verdict v = Block then Inl (HttpError 422 ''risk_gate_blocked'')
     else check_trade_policy (pe_cfg env) (gateway_label ac) (ac_mode ac) (modify_notional q cols)))))"

definition modify_hash :: "modify_req \<Rightarrow> order_row \<Rightarrow> order_cols \<Rightarrow> phash" where
  "modify_hash q row cols =
     (o_account row, oc_conid cols, oc_side cols, oc_type cols, mq_tif q, quantize8 (mq_qty q),
      map_option quantize8 (mq_limit q), map_option quantize8 (mq_stop q))"

text \<open>The five mutable columns of a row, and the statement that writes them under the checks of the table.\<close>

record baseline =
  b_qty :: decimal
  b_limit :: "decimal option"
  b_stop :: "decimal option"
  b_tif :: otif
  b_notional :: decimal

definition baseline_of :: "order_row \<Rightarrow> order_cols \<Rightarrow> baseline" where
  "baseline_of row cols = \<lparr>b_qty = o_qty row, b_limit = oc_limit cols, b_stop = oc_stop cols, b_tif = oc_tif cols,
     b_notional = oc_notional cols\<rparr>"

definition write_baseline :: "uuid \<Rightarrow> baseline \<Rightarrow> (unit, 'r world) act" where
  "write_baseline oid b = (\<lambda>w.
     if \<exists>r \<in> set (orders (w_db w)). o_id r = oid \<and>
          \<not> (0 < b_qty b \<and> o_filled r \<le> b_qty b
             \<and> (case w_cols w oid of Some c \<Rightarrow> orders_check (oc_type c) (b_limit b) (b_stop b) | None \<Rightarrow> True))
     then (Inl DatabaseError, w)
     else (Inr (), w\<lparr>
       w_db := (w_db w)\<lparr>orders := map (\<lambda>r. if o_id r = oid then r\<lparr>o_qty := b_qty b\<rparr> else r) (orders (w_db w))\<rparr>,
       w_cols := (w_cols w)(oid := map_option (\<lambda>c. c\<lparr>oc_limit := b_limit b, oc_stop := b_stop b,
                     oc_tif := b_tif b, oc_notional := b_notional b\<rparr>) (w_cols w oid))\<rparr>))"

definition new_baseline :: "modify_req \<Rightarrow> order_cols \<Rightarrow> baseline" where
  "new_baseline q cols = \<lparr>b_qty = quantize8 (mq_qty q), b_limit = new_limit q cols, b_stop = mq_stop q,
     b_tif = mq_tif q, b_notional = modify_notional q cols\<rparr>"

definition modify_status :: "ostatus \<Rightarrow> ostatus" where
  "modify_status s = (if order_status_rank Modified < order_status_rank s then s else Modified)"

definition or_text :: "string \<Rightarrow> string option \<Rightarrow> string" where
  "or_text b old = (if b \<noteq> [] then b else case old of Some x \<Rightarrow> x | None \<Rightarrow> [])"

text \<open>Statements that are committed together: a raise undoes them.\<close>

definition rolled_back :: "('a, 's) act \<Rightarrow> ('a, 's) act" where
  "rolled_back m = (\<lambda>s. case m s of (Inl e, _) \<Rightarrow> (Inl e, s) | r \<Rightarrow> r)"

lemma keeps_rolled_back [keeps_intro]: "keeps f m \<Longrightarrow> keeps f (rolled_back m)"
  unfolding keeps_def rolled_back_def by (auto split: prod.splits sum.splits) (metis snd_conv)

definition record_modified :: "uuid \<Rightarrow> order_row \<Rightarrow> int \<Rightarrow> (unit, 'r world) act" where
  "record_modified oid row t = (\<lambda>w. (Inr (), w\<lparr>w_db := (w_db w)\<lparr>events := events (w_db w) @
     [\<lparr>er_id = length (events (w_db w)), er_order = Some oid, er_account = o_account row, er_broker = o_broker row,
       er_status = Modified, er_filled = None, er_avg = None, er_at = t - 100000\<rparr>]\<rparr>\<rparr>))"

text \<open>The call to the broker, after the row has been rewritten and committed.\<close>

definition modify_dispatch ::
  "modify_env \<Rightarrow> uuid \<Rightarrow> modify_req \<Rightarrow> account_rec \<Rightarrow> order_row \<Rightarrow> order_cols \<Rightarrow> (modify_result, 'r world) act" where
  "modify_dispatch env oid q ac row cols =
     abind (of_res (me_get_contract env (oc_conid cols))) (\<lambda>_.
     aseq (send (ModifyMsg (account_number ac) (or_text [] (o_broker row)) (mq_tif q) (quantize8 (mq_qty q)) (mq_limit q) (mq_stop q)))
     (case me_reply env of
        Inl e \<Rightarrow>
          if e = CancelledError then fail e
          else aseq (write_baseline oid (baseline_of row cols))
                 (fail (if e \<in> {SidecarTimeout, SidecarUnavailable} then HttpError 503 ''sidecar_unavailable'' else e))
      | Inr b \<Rightarrow>
          abind (rolled_back (aseq (record_modified oid row (pe_now env))
            (abind (update_by_id oid (\<lambda>r. r\<lparr>o_status := modify_status (o_status r), o_broker := Some (or_text b (o_broker row))\<rparr>))
              (\<lambda>u. case u of None \<Rightarrow> fail (RuntimeError ''NoResultFound'') | Some r \<Rightarrow> aret r)))) (\<lambda>r.
           let res = \<lparr>mr_client = o_client row, mr_broker = or_text b (o_broker row), mr_status = o_status r,
                      mr_qty = quantize8 (mq_qty q), mr_limit = mq_limit q, mr_stop = mq_stop q, mr_tif = mq_tif q\<rparr>
           in aseq (replay_store oid (mq_nonce q) res) (aret res))))"

text \<open>Up to and including the statement that rewrites the row, which is committed.\<close>

definition modify_write ::
  "'r redis_srv \<Rightarrow> modify_env \<Rightarrow> uuid \<Rightarrow> modify_req \<Rightarrow> (account_rec \<times> order_row \<times> order_cols, 'r world) act" where
  "modify_write R env oid q =
     abind (aread (\<lambda>w. (lookup_order (\<lambda>r. o_id r = oid) w, w_cols w oid))) (\<lambda>rc.
     case rc of
       (Some row, Some cols) \<Rightarrow>
         abind (\<lambda>w. (modify_guards env q row cols w, w)) (\<lambda>ac.
         abind (\<lambda>w. (modify_gate R env q ac row cols w, w)) (\<lambda>_.
         aseq (consume_nonce (o_account row, mq_nonce q) (HttpError 409 ''nonce_mismatch'')
                 (HttpError 409 ''nonce_mismatch'') (Inr (modify_hash q row cols)))
         (aseq (write_baseline oid (new_baseline q cols)) (aret (ac, row, cols)))))
     | _ \<Rightarrow> fail (HttpError 404 ''not_found''))"

definition modify_order ::
  "'r redis_srv \<Rightarrow> modify_env \<Rightarrow> uuid \<Rightarrow> modify_req \<Rightarrow> (modify_result, 'r world) act" where
  "modify_order R env oid q =
     abind (replay_lookup oid (mq_nonce q)) (\<lambda>cached.
     case cached of Some r \<Rightarrow> aret r
     | None \<Rightarrow> abind (modify_write R env oid q) (\<lambda>(ac, row, cols). modify_dispatch env oid q ac row cols))"

section \<open>Cancelling an order\<close>

record cancel_env =
  ce_now :: int
  ce_locked :: bool
  ce_accounts :: "(uuid \<times> account_row) list"
  ce_client :: "string \<Rightarrow> exn + unit"
  ce_reply :: "exn + bool"

datatype cancel_status = Cancel_Requested | Cancel_Already_In_Flight

definition us_second :: int where "us_second = 1000000"

definition cancel_request_in_flight :: "int option \<Rightarrow> int \<Rightarrow> bool" where
  "cancel_request_in_flight at' now = (case at' of None \<Rightarrow> False | Some t \<Rightarrow> now - 5 * us_second \<le> t)"

definition set_cancel_at :: "uuid \<Rightarrow> int option \<Rightarrow> (unit, 'r world) act" where
  "set_cancel_at oid t = (\<lambda>w. (Inr (), w\<lparr>w_cols := (w_cols w)(oid := map_option (\<lambda>c. c\<lparr>oc_cancel_at := t\<rparr>) (w_cols w oid))\<rparr>))"

definition cancel_order :: "cancel_env \<Rightarrow> uuid \<Rightarrow> (cancel_status, 'r world) act" where
  "cancel_order env oid =
     aseq (raise_if (ce_locked env) (HttpError 423 ''locked''))
     (abind (aread (\<lambda>w. case (lookup_order (\<lambda>r. o_id r = oid) w, w_cols w oid) of
          (Some r, Some c) \<Rightarrow> map_option (\<lambda>a. (r, c, a)) (map_of (ce_accounts env) (o_account r)) | _ \<Rightarrow> None)) (\<lambda>found.
      case found of None \<Rightarrow> fail (HttpError 404 ''not_found'')
      | Some (row, cols, acc) \<Rightarrow>
          if o_status row \<in> set TERMINAL_STATUSES then fail (HttpError 409 ''already_finalized'')
          else if cancel_request_in_flight (oc_cancel_at cols) (ce_now env) then aret Cancel_Already_In_Flight
          else (case o_broker row of
              None \<Rightarrow> fail (HttpError 409 ''broker_order_id_unavailable'')
            | Some b \<Rightarrow>
                if b = [] then fail (HttpError 409 ''broker_order_id_unavailable'')
                else
                  aseq (set_cancel_at oid (Some (ce_now env)))
                  (abind (of_res (ce_client env (ar_label acc))) (\<lambda>_.
                   aseq (send (CancelMsg (ar_number acc) b))
                   (case ce_reply env of
                      Inl e \<Rightarrow>
                        if e \<in> {SidecarTimeout, SidecarUnavailable}
                        then aseq (set_cancel_at oid None) (fail (HttpError 503 ''sidecar_unavailable''))
                        else fail e
                    | Inr accepted \<Rightarrow>
                        if accepted then aret Cancel_Requested
                        else aseq (set_cancel_at oid None) (fail (HttpError 422 ''broker_cancel_rejected''))))))))"

end
