(* ===== verification/Orders_Changes.thy ===== *)
theory Orders_Changes
  imports Orders_Modify
begin

text \<open>
  What modifying and cancelling promise: a refused modification restores the row, a cached answer
  repeats nothing, a cancel is forwarded once in five seconds and its flag is released when the
  forward fails; and the calls outside the corrected region that leave the row ahead of the
  broker.
\<close>

section \<open>The write\<close>

lemma keeps_consume_nonce [keeps_intro]:
  "\<lbrakk>\<And>k w. f (w\<lparr>w_conn := k\<rparr>) = f w; \<And>n w. f (w\<lparr>w_nonces := n\<rparr>) = f w\<rbrakk> \<Longrightarrow> keeps f (consume_nonce k m1 m2 h)"
  unfolding consume_nonce_def by (intro keeps_intro)

lemma keeps_write_baseline [keeps_intro]:
  "\<lbrakk>\<And>d w. f (w\<lparr>w_db := d\<rparr>) = f w; \<And>c w. f (w\<lparr>w_cols := c\<rparr>) = f w\<rbrakk> \<Longrightarrow> keeps f (write_baseline oid b)"
  by (simp add: keeps_def write_baseline_def)

lemma keeps_modify_write:
  "\<lbrakk>\<And>k w. f (w\<lparr>w_conn := k\<rparr>) = f w; \<And>n w. f (w\<lparr>w_nonces := n\<rparr>) = f w;
    \<And>d w. f (w\<lparr>w_db := d\<rparr>) = f w; \<And>c w. f (w\<lparr>w_cols := c\<rparr>) = f w\<rbrakk> \<Longrightarrow> keeps f (modify_write R env oid q)"
  unfolding modify_write_def by (intro keeps_intro) (auto intro!: keeps_intro split: prod.split option.split)

text \<open>A table that meets its own checks.\<close>

definition table_ok :: "'r world \<Rightarrow> bool" where
  "table_ok w \<longleftrightarrow> distinct (map o_id (orders (w_db w)))
     \<and> (\<forall>r \<in> set (orders (w_db w)). 0 < o_qty r \<and> o_filled r \<le> o_qty r
          \<and> (case w_cols w (o_id r) of Some c \<Rightarrow> orders_check (oc_type c) (oc_limit c) (oc_stop c) | None \<Rightarrow> True))"

definition set_baseline :: "baseline \<Rightarrow> order_cols \<Rightarrow> order_cols" where
  "set_baseline b c = c\<lparr>oc_limit := b_limit b, oc_stop := b_stop b, oc_tif := b_tif b, oc_notional := b_notional b\<rparr>"

definition with_baseline :: "uuid \<Rightarrow> baseline \<Rightarrow> 'r world \<Rightarrow> 'r world" where
  "with_baseline oid b w = w\<lparr>
     w_db := (w_db w)\<lparr>orders := map (\<lambda>r. if o_id r = oid then r\<lparr>o_qty := b_qty b\<rparr> else r) (orders (w_db w))\<rparr>,
     w_cols := (w_cols w)(oid := map_option (set_baseline b) (w_cols w oid))\<rparr>"

lemma write_baseline_returns:
  "write_baseline oid b w = (Inr (), w') \<Longrightarrow> w' = with_baseline oid b w"
  by (auto simp: write_baseline_def with_baseline_def set_baseline_def [abs_def] split: if_splits)

lemma lookup_by_id:
  assumes "lookup_order (\<lambda>r. o_id r = i) w = Some row"
  shows "row \<in> set (orders (w_db w)) \<and> o_id row = i"
  using assms by (auto simp: lookup_order_def find_Some_iff)

lemma unique_id:
  assumes "table_ok w" and "r \<in> set (orders (w_db w))" and "s \<in> set (orders (w_db w))" and "o_id r = o_id s"
  shows "r = s"
  using assms by (auto simp: table_ok_def distinct_map dest: inj_onD)

lemma modify_write_wrote:
  assumes "modify_write R env oid q w = (Inr (ac, row, cols), w')"
  shows "lookup_order (\<lambda>r. o_id r = oid) w = Some row \<and> w_cols w oid = Some cols
       \<and> modify_guards env q row cols w = Inr ac \<and> modify_gate R env q ac row cols w = Inr ()
       \<and> (\<exists>n. w_nonces w (o_account row, mq_nonce q) = Some n \<and> nv_hash n = Some (modify_hash q row cols))
       \<and> w_nonces w' (o_account row, mq_nonce q) = None
       \<and> w_db w' = w_db (with_baseline oid (new_baseline q cols) w) \<and> w_cols w' = w_cols (with_baseline oid (new_baseline q cols) w)"
proof -
  let ?k = "(o_account row, mq_nonce q)"
  from assms obtain t u where found: "lookup_order (\<lambda>r. o_id r = oid) w = Some row" "w_cols w oid = Some cols"
    and g: "modify_guards env q row cols w = Inr ac" "modify_gate R env q ac row cols w = Inr ()"
    and c: "consume_nonce ?k (HttpError 409 ''nonce_mismatch'') (HttpError 409 ''nonce_mismatch'')
              (Inr (modify_hash q row cols)) w = (Inr u, t)"
    and b: "write_baseline oid (new_baseline q cols) t = (Inr (), w')"
    unfolding modify_write_def by (auto simp: returns aread_def split: option.splits prod.splits)
  from c obtain v where d: "nonce_getdel ?k w = (Inr v, t)" and v: "\<exists>n. v = Some n \<and> nv_hash n = Some (modify_hash q row cols)"
    by (auto simp: consume_nonce_def returns split: option.splits)
  have kd: "keeps w_db (nonce_getdel ?k)" and kc: "keeps w_cols (nonce_getdel ?k)" by (intro keeps_intro; simp)+
  from write_baseline_returns [OF b] have w': "w' = with_baseline oid (new_baseline q cols) t" .
  with keepsD [OF kd d] keepsD [OF kc d] nonce_getdel_result [OF d] v found g
  show ?thesis by (auto simp: with_baseline_def)
qed

section \<open>Modification\<close>

lemma modify_order_cases:
  assumes "modify_order R env oid q w = (r, w')" and "w_sent w' \<noteq> w_sent w"
  obtains ac row cols t u where "replay_lookup oid (mq_nonce q) w = (Inr None, t)"
    "modify_write R env oid q t = (Inr (ac, row, cols), u)" "modify_dispatch env oid q ac row cols u = (r, w')"
    "w_db t = w_db w" "w_cols t = w_cols w" "w_nonces t = w_nonces w" "srv (w_conn t) = srv (w_conn w)" "w_sent u = w_sent w"
proof -
  have kl: "keeps w_sent (replay_lookup oid (mq_nonce q))" "keeps w_db (replay_lookup oid (mq_nonce q))"
    "keeps w_cols (replay_lookup oid (mq_nonce q))" "keeps w_nonces (replay_lookup oid (mq_nonce q))"
    unfolding replay_lookup_def by (intro keeps_rcmd; simp)+
  have ks: "keeps (\<lambda>w. srv (w_conn w)) (replay_lookup oid (mq_nonce q))"
    by (auto simp: replay_lookup_def keeps_def rcmd_def split: list.splits option.splits)
  have kw: "keeps w_sent (modify_write R env oid q)" by (rule keeps_modify_write) simp_all
  from assms(1) show thesis unfolding modify_order_def
  proof (cases rule: abind_cases)
    case (raised e)
    with keepsD [OF kl(1) raised(1)] assms(2) show thesis by simp
  next
    case (went_on cached t)
    note l = keepsD [OF kl(1) went_on(1)] keepsD [OF kl(2) went_on(1)] keepsD [OF kl(3) went_on(1)]
      keepsD [OF kl(4) went_on(1)] keepsD [OF ks went_on(1)]
    show thesis
    proof (cases cached)
      case (Some m)
      with went_on(2) l(1) assms(2) show thesis by (simp add: aret_def)
    next
      case None
      with went_on(2) have "abind (modify_write R env oid q) (\<lambda>(ac, row, cols). modify_dispatch env oid q ac row cols) t = (r, w')"
        by simp
      then show thesis
      proof (cases rule: abind_cases)
        case (raised e)
        with keepsD [OF kw raised(1)] l(1) assms(2) show thesis by simp
      next
        case w: (went_on arc u)
        obtain ac row cols where arc: "arc = (ac, row, cols)" by (cases arc)
        have su: "w_sent u = w_sent w" using keepsD [OF kw w(1)] l(1) by simp
        show thesis
          by (rule that [of t ac row cols u]) (use went_on(1) None w arc l su in auto)
      qed
    qed
  qed
qed

lemma with_baseline_undo:
  assumes "table_ok w" and "lookup_order (\<lambda>r. o_id r = oid) w = Some row" and "w_cols w oid = Some cols"
  shows "orders (w_db (with_baseline oid (baseline_of row cols) (with_baseline oid b w))) = orders (w_db w)
       \<and> w_cols (with_baseline oid (baseline_of row cols) (with_baseline oid b w)) = w_cols w"
proof -
  have "r\<lparr>o_qty := o_qty row\<rparr> = r" if "r \<in> set (orders (w_db w))" "o_id r = oid" for r
    using unique_id [OF assms(1) that(1), of row] lookup_by_id [OF assms(2)] that(2) by simp
  then have "map (\<lambda>r. if o_id r = oid then r\<lparr>o_qty := o_qty row\<rparr> else r) (orders (w_db w)) = orders (w_db w)"
    by (intro map_idI) simp
  then show ?thesis
    using assms(3) by (auto simp: with_baseline_def baseline_of_def set_baseline_def comp_def if_distrib cong: if_cong)
qed

lemma baseline_writable:
  assumes "table_ok w" and "lookup_order (\<lambda>r. o_id r = oid) w = Some row" and "w_cols w oid = Some cols"
    and "w_db v = w_db (with_baseline oid b w)" and "w_cols v = w_cols (with_baseline oid b w)"
  shows "write_baseline oid (baseline_of row cols) v = (Inr (), with_baseline oid (baseline_of row cols) v)"
proof -
  note row = lookup_by_id [OF assms(2)]
  have ok: "0 < o_qty row" "o_filled row \<le> o_qty row" "orders_check (oc_type cols) (oc_limit cols) (oc_stop cols)"
    using assms(1) row assms(3) unfolding table_ok_def by (auto split: option.splits)
  have "o_filled r \<le> o_qty row" if "r \<in> set (orders (w_db v))" "o_id r = oid" for r
  proof -
    have "orders (w_db v) = map (\<lambda>r. if o_id r = oid then r\<lparr>o_qty := b_qty b\<rparr> else r) (orders (w_db w))"
      unfolding assms(4) by (simp add: with_baseline_def)
    with that(1) obtain r0 where r0: "r0 \<in> set (orders (w_db w))" "r = (if o_id r0 = oid then r0\<lparr>o_qty := b_qty b\<rparr> else r0)"
      by auto
    have f: "o_id r = o_id r0" "o_filled r = o_filled r0" by (simp_all add: r0(2))
    then have "r0 = row" using unique_id [OF assms(1) r0(1), of row] row that(2) by simp
    with f(2) ok(2) show ?thesis by simp
  qed
  moreover have "w_cols v oid = Some (set_baseline b cols)"
    using assms(3,5) by (simp add: with_baseline_def)
  ultimately have "\<not> (\<exists>r \<in> set (orders (w_db v)). o_id r = oid \<and>
          \<not> (0 < b_qty (baseline_of row cols) \<and> o_filled r \<le> b_qty (baseline_of row cols)
             \<and> (case w_cols v oid of Some c \<Rightarrow> orders_check (oc_type c) (b_limit (baseline_of row cols)) (b_stop (baseline_of row cols))
                | None \<Rightarrow> True)))"
    using ok by (simp add: baseline_of_def set_baseline_def)
  then show ?thesis
    unfolding write_baseline_def with_baseline_def set_baseline_def [abs_def] by (simp only: if_False)
qed

lemma keeps_replay_store [keeps_intro]: "\<lbrakk>\<And>k w. f (w\<lparr>w_conn := k\<rparr>) = f w; \<And>c w. f (w\<lparr>w_replay := c\<rparr>) = f w\<rbrakk> \<Longrightarrow> keeps f (replay_store oid n r)"
  unfolding replay_store_def by (intro keeps_rcmd) (auto split: option.splits)

lemma keeps_record_modified [keeps_intro]: "(\<And>d w. f (w\<lparr>w_db := d\<rparr>) = f w) \<Longrightarrow> keeps f (record_modified oid row t)"
  by (simp add: keeps_def record_modified_def)

lemma sent_first: "keeps w_sent k \<Longrightarrow> w_sent (snd (aseq (send m) k w)) = w_sent w @ [m]"
  by (simp add: keeps_def aseq_def abind_def send_def)

lemma modify_dispatch_sends:
  assumes "me_get_contract env (oc_conid cols) = Inr c"
  shows "w_sent (snd (modify_dispatch env oid q ac row cols u)) = w_sent u @ [ModifyMsg (account_number ac)
      (or_text [] (o_broker row)) (mq_tif q) (quantize8 (mq_qty q)) (mq_limit q) (mq_stop q)]"
proof -
  have "abind (of_res (me_get_contract env (oc_conid cols))) f u = f c u" for f :: "contract_rec \<Rightarrow> (modify_result, 'a world) act"
    by (simp add: assms abind_def of_res_def)
  then show ?thesis
    unfolding modify_dispatch_def
    by (simp only:) (rule sent_first, auto intro!: keeps_intro split: sum.split option.split simp: Let_def)
qed

text \<open>C13: when the broker refuses a modification or cannot be reached, the call fails and the order row is back to
  what it was: quantity, prices, time in force and notional.\<close>

theorem refused_modify_restores_row:
  assumes "modify_order R env oid q w = (r, w')" and "w_sent w' \<noteq> w_sent w"
    and "me_reply env = Inl e" and "e \<noteq> CancelledError" and "table_ok w"
  shows "(\<exists>e'. r = Inl e') \<and> orders (w_db w') = orders (w_db w) \<and> w_cols w' = w_cols w"
  using assms(1,2)
proof (cases rule: modify_order_cases)
  case (1 ac row cols t u)
  note wrote = modify_write_wrote [OF 1(2)]
  have ok: "table_ok t" using assms(5) 1(4,5) by (simp add: table_ok_def)
  let ?b = "baseline_of row cols"
  from 1(3) 1(8) assms(2) obtain c where c: "me_get_contract env (oc_conid cols) = Inr c"
    by (cases "me_get_contract env (oc_conid cols)") (auto simp: modify_dispatch_def abind_def of_res_def)
  define v where "v = u\<lparr>w_sent := w_sent u @ [ModifyMsg (account_number ac) (or_text [] (o_broker row)) (mq_tif q)
      (quantize8 (mq_qty q)) (mq_limit q) (mq_stop q)]\<rparr>"
  have "write_baseline oid ?b v = (Inr (), with_baseline oid ?b v)"
    by (rule baseline_writable [OF ok]) (use wrote in \<open>simp_all add: v_def\<close>)
  with 1(3) c assms(3,4) have "(\<exists>e'. r = Inl e') \<and> w' = with_baseline oid ?b v"
    by (auto simp: modify_dispatch_def abind_def aseq_def of_res_def send_def v_def fail_def)
  moreover have "orders (w_db (with_baseline oid ?b v)) = orders (w_db (with_baseline oid ?b (with_baseline oid (new_baseline q cols) t)))"
    and "w_cols (with_baseline oid ?b v) = w_cols (with_baseline oid ?b (with_baseline oid (new_baseline q cols) t))"
    using wrote by (simp_all add: v_def with_baseline_def)
  ultimately show ?thesis
    using with_baseline_undo [OF ok, of oid row cols "new_baseline q cols"] wrote 1(4,5) by simp
qed

text \<open>The contract lookup that follows the write is outside the corrected region: when it fails, the call fails,
  the broker is told nothing, and the row keeps the quantity of the request.\<close>

theorem failed_lookup_leaves_row_ahead:
  assumes "modify_write R env oid q w = (Inr (ac, row, cols), w1)"
    and "faults (w_conn w) = []" and "w_replay w (oid, mq_nonce q) = None"
    and "me_get_contract env (oc_conid cols) = Inl e"
  shows "modify_order R env oid q w = (Inl e, w1) \<and> w_sent w1 = w_sent w
       \<and> (\<exists>r \<in> set (orders (w_db w1)). o_id r = oid \<and> o_qty r = quantize8 (mq_qty q))"
proof -
  have "replay_lookup oid (mq_nonce q) w = (Inr None, w)"
    using assms(2,3) by (simp add: replay_lookup_def rcmd_def)
  then have "modify_order R env oid q w = (Inl e, w1)"
    using assms(1,4) by (simp add: modify_order_def abind_def modify_dispatch_def of_res_def)
  moreover have "w_sent w1 = w_sent w"
    by (rule keepsD [OF keeps_modify_write assms(1)]) simp_all
  moreover have "row\<lparr>o_qty := quantize8 (mq_qty q)\<rparr> \<in> set (orders (w_db w1)) \<and> o_id row = oid"
    using modify_write_wrote [OF assms(1)] lookup_by_id [of oid w row]
    by (auto simp: with_baseline_def new_baseline_def intro!: image_eqI [of _ _ row])
  ultimately show ?thesis by (intro conjI bexI [of _ "row\<lparr>o_qty := quantize8 (mq_qty q)\<rparr>"]) simp_all
qed


text \<open>A modification of an order without a limit price, a market or stop order, is measured at a notional of zero:
  whatever the new quantity, the cap per order gives the answer it gives to nothing, and the buying-power check finds
  nothing.\<close>

theorem unpriced_modify_unmeasured:
  assumes "oc_limit cols = None" and "mq_limit q = None"
    and "resolve_limit (gate_env R re (o_account row) s) (o_account row) (capability_broker_id (gateway_label ac)) ''min_buying_power_buffer_pct'' = Inr l"
  shows "check_trade_policy cfg lab mode (modify_notional (q\<lparr>mq_qty := x\<rparr>) cols) = check_trade_policy cfg lab mode 0
       \<and> check_buying_power (gate_env R re (o_account row) s) (modify_ctx ac (q\<lparr>mq_qty := x\<rparr>) row cols iid cls) = no_finding"
proof -
  have "modify_notional (q\<lparr>mq_qty := x\<rparr>) cols = 0"
    using assms(1,2) by (simp add: modify_notional_def new_limit_def)
  moreover have "check_buying_power (gate_env R re (o_account row) s) (modify_ctx ac (q\<lparr>mq_qty := x\<rparr>) row cols iid cls) = no_finding"
    using assms by (cases l) (simp_all add: check_buying_power_def modify_ctx_def new_limit_def)
  ultimately show ?thesis by simp
qed

section \<open>Cancelling\<close>

lemma keeps_set_cancel_at [keeps_intro]: "(\<And>c w. f (w\<lparr>w_cols := c\<rparr>) = f w) \<Longrightarrow> keeps f (set_cancel_at oid t)"
  by (simp add: keeps_def set_cancel_at_def)

lemma keeps_cancel_order:
  "\<lbrakk>\<And>c w. f (w\<lparr>w_cols := c\<rparr>) = f w; \<And>m w. f (w\<lparr>w_sent := m\<rparr>) = f w\<rbrakk> \<Longrightarrow> keeps f (cancel_order env oid)"
  unfolding cancel_order_def by (intro keeps_intro) (auto intro!: keeps_intro split: prod.split option.split sum.split)

text \<open>What a cancel finds: the order with its columns and the row of its account.\<close>

definition cancel_target :: "cancel_env \<Rightarrow> uuid \<Rightarrow> 'r world \<Rightarrow> (order_row \<times> order_cols \<times> account_row) option" where
  "cancel_target env oid w = (case (lookup_order (\<lambda>r. o_id r = oid) w, w_cols w oid) of
     (Some r, Some c) \<Rightarrow> map_option (\<lambda>a. (r, c, a)) (map_of (ce_accounts env) (o_account r)) | _ \<Rightarrow> None)"

text \<open>A cancel that may be forwarded.\<close>

definition forwardable :: "cancel_env \<Rightarrow> order_row \<Rightarrow> order_cols \<Rightarrow> string \<Rightarrow> bool" where
  "forwardable env row cols b \<longleftrightarrow> \<not> ce_locked env \<and> o_status row \<notin> set TERMINAL_STATUSES
     \<and> \<not> cancel_request_in_flight (oc_cancel_at cols) (ce_now env) \<and> o_broker row = Some b \<and> b \<noteq> []"

definition flagged :: "uuid \<Rightarrow> int option \<Rightarrow> 'r world \<Rightarrow> 'r world" where
  "flagged oid t w = w\<lparr>w_cols := (w_cols w)(oid := map_option (\<lambda>c. c\<lparr>oc_cancel_at := t\<rparr>) (w_cols w oid))\<rparr>"

definition noted :: "broker_msg \<Rightarrow> 'r world \<Rightarrow> 'r world" where
  "noted m w = w\<lparr>w_sent := w_sent w @ [m]\<rparr>"

lemma cancel_order_forward:
  assumes "cancel_target env oid w = Some (row, cols, acc)" and "forwardable env row cols b"
  shows "cancel_order env oid w = (case ce_client env (ar_label acc) of
      Inl e \<Rightarrow> (Inl e, flagged oid (Some (ce_now env)) w)
    | Inr _ \<Rightarrow> (let u = noted (CancelMsg (ar_number acc) b) (flagged oid (Some (ce_now env)) w) in
        case ce_reply env of
          Inl e \<Rightarrow> if e \<in> {SidecarTimeout, SidecarUnavailable}
                   then (Inl (HttpError 503 ''sidecar_unavailable''), flagged oid None u) else (Inl e, u)
        | Inr True \<Rightarrow> (Inr Cancel_Requested, u)
        | Inr False \<Rightarrow> (Inl (HttpError 422 ''broker_cancel_rejected''), flagged oid None u)))"
  using assms unfolding cancel_order_def cancel_target_def [symmetric]
  by (auto simp: forwardable_def run_simps set_cancel_at_def send_def flagged_def noted_def Let_def
      split: sum.splits bool.splits)

lemma cancel_order_quiet:
  assumes "\<And>row cols acc b. cancel_target env oid w = Some (row, cols, acc) \<Longrightarrow> \<not> forwardable env row cols b"
  shows "snd (cancel_order env oid w) = w \<and> fst (cancel_order env oid w) \<noteq> Inr Cancel_Requested"
proof (cases "cancel_target env oid w")
  case None
  then show ?thesis
    unfolding cancel_order_def cancel_target_def [symmetric] by (simp add: run_simps)
next
  case (Some t)
  obtain row cols acc where t: "t = (row, cols, acc)" by (cases t)
  from assms [OF Some [unfolded t]] show ?thesis
    using Some t unfolding cancel_order_def cancel_target_def [symmetric]
    by (auto simp: run_simps forwardable_def split: option.splits)
qed

text \<open>A cancel reaches the broker only for an order that is not terminal, has a broker id and was not asked to
  cancel in the last five seconds, as one message; once the broker took it, every further request within five seconds
  answers that a cancel is in flight and sends nothing.\<close>

theorem cancel_forwarded_once:
  assumes "cancel_order env oid w = (r, w')" and "w_sent w' \<noteq> w_sent w"
  shows "\<exists>row cols acc b. cancel_target env oid w = Some (row, cols, acc) \<and> o_status row \<notin> set TERMINAL_STATUSES
       \<and> o_broker row = Some b \<and> \<not> cancel_request_in_flight (oc_cancel_at cols) (ce_now env)
       \<and> w_sent w' = w_sent w @ [CancelMsg (ar_number acc) b]
       \<and> (r = Inr Cancel_Requested \<and> \<not> ce_locked env2 \<and> ce_accounts env2 = ce_accounts env
            \<and> ce_now env \<le> ce_now env2 \<and> ce_now env2 \<le> ce_now env + 5 * us_second
          \<longrightarrow> cancel_order env2 oid w' = (Inr Cancel_Already_In_Flight, w'))"
proof -
  obtain row cols acc b where t: "cancel_target env oid w = Some (row, cols, acc)" and f: "forwardable env row cols b"
    using cancel_order_quiet [of env oid w] assms by fastforce
  have sent: "w_sent w' = w_sent w @ [CancelMsg (ar_number acc) b]"
    using assms cancel_order_forward [OF t f]
    by (auto simp: flagged_def noted_def Let_def split: sum.splits bool.splits if_splits)
  have again: "cancel_order env2 oid w' = (Inr Cancel_Already_In_Flight, w')"
    if "r = Inr Cancel_Requested" "\<not> ce_locked env2" "ce_accounts env2 = ce_accounts env" "ce_now env2 \<le> ce_now env + 5 * us_second"
  proof -
    have "w' = noted (CancelMsg (ar_number acc) b) (flagged oid (Some (ce_now env)) w)"
      using assms(1) cancel_order_forward [OF t f] that(1)
      by (auto simp: Let_def split: sum.splits bool.splits if_splits)
    then have t2: "cancel_target env2 oid w' = Some (row, cols\<lparr>oc_cancel_at := Some (ce_now env)\<rparr>, acc)"
      using t that(3) by (auto simp: cancel_target_def lookup_order_def noted_def flagged_def split: option.splits)
    show ?thesis
      using t2 that(2,4) f unfolding cancel_order_def cancel_target_def [symmetric]
      by (simp add: run_simps forwardable_def cancel_request_in_flight_def)
  qed
  show ?thesis using t f sent again by (auto simp: forwardable_def)
qed

text \<open>A cancel the broker refuses, or that times out, clears the flag so that the next request is forwarded; but a
  failure to reach the broker's client at all leaves the flag set, and for five seconds requests are answered as in
  flight although nothing was ever sent.\<close>

theorem cancel_flag_after_failure:
  assumes "cancel_target env oid w = Some (row, cols, acc)" and "forwardable env row cols b"
  shows "(ce_client env (ar_label acc) = Inr () \<and> ce_reply env \<in> {Inl SidecarTimeout, Inl SidecarUnavailable, Inr False}
            \<longrightarrow> (\<exists>c. w_cols (snd (cancel_order env oid w)) oid = Some c \<and> oc_cancel_at c = None))
       \<and> (ce_client env (ar_label acc) = Inl e
            \<longrightarrow> w_sent (snd (cancel_order env oid w)) = w_sent w
              \<and> cancel_order env oid (snd (cancel_order env oid w)) = (Inr Cancel_Already_In_Flight, snd (cancel_order env oid w)))"
proof -
  have c: "w_cols w oid = Some cols" using assms(1) by (auto simp: cancel_target_def split: option.splits)
  have "cancel_target env oid (flagged oid (Some (ce_now env)) w) = Some (row, cols\<lparr>oc_cancel_at := Some (ce_now env)\<rparr>, acc)"
    using assms(1) by (auto simp: cancel_target_def lookup_order_def flagged_def split: option.splits)
  then have "cancel_order env oid (flagged oid (Some (ce_now env)) w) = (Inr Cancel_Already_In_Flight, flagged oid (Some (ce_now env)) w)"
    using assms(2) unfolding cancel_order_def cancel_target_def [symmetric]
    by (simp add: run_simps forwardable_def cancel_request_in_flight_def us_second_def)
  then show ?thesis
    using c cancel_order_forward [OF assms] by (auto simp: flagged_def noted_def Let_def)
qed

section \<open>Applied to a stored order\<close>

definition stored_cols :: order_cols where
  "stored_cols = \<lparr>oc_conid = ''265598'', oc_symbol = ''AAPL'', oc_side = Buy, oc_type = LIMIT, oc_tif = DAY,
     oc_limit = Some 20, oc_stop = None, oc_notional = 200, oc_cancel_at = None, oc_created = 0,
     oc_parent = None, oc_oca = None, oc_algo = None\<rparr>"

definition stored_row :: order_row where
  "stored_row = (new_row ''o1'' ''a1'' ''c1'' 10)\<lparr>o_broker := Some ''b1'', o_status := Submitted\<rparr>"

definition change_req :: modify_req where
  "change_req = \<lparr>mq_nonce = ''n3'', mq_qty = 12, mq_type = LIMIT, mq_tif = DAY, mq_limit = Some 21, mq_stop = None,
     mq_trail = None, mq_trail_type = None, mq_trail_limit = None, mq_expiry = None, mq_algo = None\<rparr>"

definition stored_world :: "mem world" where
  "stored_world = demo_world\<lparr>w_db := demo_db [stored_row], w_cols := [''o1'' \<mapsto> stored_cols],
     w_nonces := [(''a1'', ''n3'') \<mapsto> \<lparr>nv_hash = Some (modify_hash change_req stored_row stored_cols), nv_rth = None\<rparr>]\<rparr>"

definition change_env :: "exn + contract_rec \<Rightarrow> exn + string \<Rightarrow> modify_env" where
  "change_env c reply = place_env.extend
     (demo_penv\<lparr>pe_cfg := (\<lambda>_. None)(''ibkr.trade_enabled'' := Some (CBool True))\<rparr>)
     \<lparr>me_class = (\<lambda>_. Inr (Some ''STOCK'')), me_get_contract = (\<lambda>_. c), me_reply = reply\<rparr>"

definition stored_account :: account_rec where
  "stored_account = \<lparr>gateway_label = ''ibkr'', ac_mode = ''paper'', currency_base = ''USD'', account_number = ''DU1''\<rparr>"

lemmas stored_defs = stored_cols_def stored_row_def change_req_def change_env_def stored_account_def
  place_env.defs demo_penv_def new_row_def

lemma stored_guards: "modify_guards (change_env c p) change_req stored_row stored_cols stored_world = Inr stored_account"
  by (simp add: modify_guards_def place_defs stored_defs TERMINAL_STATUSES_def place_env.truncate_def)

lemma stored_gate: "modify_gate mem_srv (change_env c p) change_req stored_account stored_row stored_cols stored_world = Inr ()"
proof -
  have "evaluate (gate_env mem_srv (pe_risk demo_penv) ''a1'' (\<lambda>_. None))
      (modify_ctx stored_account change_req stored_row stored_cols None (Some ''STOCK'')) Modify_Order
     = Inr \<lparr>final_verdict = Allow, blockers = [], warnings = []\<rparr>"
    by (simp add: gate_defs demo_env_def modify_ctx_def new_limit_def stored_defs
        capability_broker_id_def KNOWN_BROKERS_def gate_env_def or_zero_def Let_def)
  moreover have "check_trade_policy (pe_cfg (change_env c p)) ''ibkr'' ''paper'' (modify_notional change_req stored_cols) = Inr ()"
    by (simp add: check_trade_policy_def get_account_policy_def cfg_get_bool_def cfg_decimal_def cap_status_def
        modify_notional_def new_limit_def stored_defs)
  moreover have "pe_risk (change_env c p) = pe_risk demo_penv" "o_account stored_row = ''a1''" "srv (w_conn stored_world) = (\<lambda>_. None)"
    "gateway_label stored_account = ''ibkr''" "ac_mode stored_account = ''paper''"
    "pe_client (change_env c p) x = Inr ()" "pe_instrument (change_env c p) y z u = Inr None" "me_class (change_env c p) v = Inr (Some ''STOCK'')"
    for x y z u v
    by (simp_all add: stored_defs stored_world_def demo_world_def)
  ultimately show ?thesis by (simp add: modify_gate_def)
qed

definition changed_world :: "mem world" where
  "changed_world = with_baseline ''o1'' (new_baseline change_req stored_cols) (stored_world\<lparr>w_nonces := (\<lambda>_. None)\<rparr>)"

lemma stored_write:
  "modify_write mem_srv (change_env c p) ''o1'' change_req stored_world = (Inr (stored_account, stored_row, stored_cols), changed_world)"
proof -
  let ?u = "stored_world\<lparr>w_nonces := (\<lambda>_. None)\<rparr>"
  have r: "lookup_order (\<lambda>r. o_id r = ''o1'') stored_world = Some stored_row" "w_cols stored_world ''o1'' = Some stored_cols"
    by (simp_all add: lookup_order_def stored_world_def demo_db_def stored_row_def new_row_def)
  have n: "consume_nonce (o_account stored_row, mq_nonce change_req) m1 m2 (Inr (modify_hash change_req stored_row stored_cols)) stored_world
      = (Inr (), ?u)" for m1 m2
    by (simp add: consume_nonce_def nonce_getdel_def rcmd_def run_simps stored_world_def demo_world_def stored_row_def
        change_req_def new_row_def fun_eq_iff)
  have b: "write_baseline ''o1'' (new_baseline change_req stored_cols) ?u = (Inr (), changed_world)"
    by (simp add: write_baseline_def changed_world_def with_baseline_def set_baseline_def [abs_def] stored_world_def demo_db_def
        new_baseline_def orders_check_def new_limit_def stored_row_def new_row_def stored_cols_def change_req_def)
  show ?thesis
    by (simp add: modify_write_def abind_def aread_def r stored_guards stored_gate n aseq_def b aret_def)
qed

lemma stored_ok: "table_ok stored_world"
  by (simp add: table_ok_def stored_world_def demo_db_def stored_row_def new_row_def stored_cols_def orders_check_def)

lemma stored_change:
  "modify_order mem_srv (change_env c p) ''o1'' change_req stored_world
     = modify_dispatch (change_env c p) ''o1'' change_req stored_account stored_row stored_cols changed_world"
proof -
  have "replay_lookup ''o1'' (mq_nonce change_req) stored_world = (Inr None, stored_world)"
    by (simp add: replay_lookup_def rcmd_def stored_world_def demo_world_def)
  then show ?thesis by (simp add: modify_order_def abind_def stored_write)
qed

lemma stored_sent:
  obtains r w' where "modify_order mem_srv (change_env (Inr x) p) ''o1'' change_req stored_world = (r, w')"
    and "w_sent w' \<noteq> w_sent stored_world"
proof -
  obtain r w' where e: "modify_order mem_srv (change_env (Inr x) p) ''o1'' change_req stored_world = (r, w')" by fastforce
  have "me_get_contract (change_env (Inr x) p) (oc_conid stored_cols) = Inr x" by (simp add: change_env_def place_env.defs)
  from modify_dispatch_sends [OF this] have "length (w_sent w') = Suc (length (w_sent changed_world))"
    using e unfolding stored_change by (metis snd_conv length_append_singleton)
  moreover have "w_sent changed_world = w_sent stored_world" by (simp add: changed_world_def with_baseline_def)
  ultimately have "w_sent w' \<noteq> w_sent stored_world" by auto
  with e that show thesis by blast
qed

theorem refused_modify_restores_row_witness:
  "orders (w_db (snd (modify_order mem_srv (change_env (Inr (tk_contract demo_ticket)) (Inl SidecarTimeout)) ''o1'' change_req stored_world))) = [stored_row]"
proof -
  obtain r w' where e: "modify_order mem_srv (change_env (Inr (tk_contract demo_ticket)) (Inl SidecarTimeout)) ''o1'' change_req stored_world = (r, w')"
    and s: "w_sent w' \<noteq> w_sent stored_world" by (rule stored_sent)
  from refused_modify_restores_row [OF e s _ _ stored_ok, of SidecarTimeout] e show ?thesis
    by (simp add: change_env_def place_env.defs stored_world_def demo_db_def)
qed

theorem failed_lookup_leaves_row_ahead_witness:
  "\<exists>r \<in> set (orders (w_db (snd (modify_order mem_srv (change_env (Inl SidecarTimeout) (Inr ''b1'')) ''o1'' change_req stored_world)))).
      o_id r = ''o1'' \<and> o_qty r = 12"
proof -
  have "faults (w_conn stored_world) = []" "w_replay stored_world (''o1'', mq_nonce change_req) = None"
    "me_get_contract (change_env (Inl SidecarTimeout) (Inr ''b1'')) (oc_conid stored_cols) = Inl SidecarTimeout"
    by (simp_all add: stored_world_def demo_world_def change_env_def place_env.defs)
  from failed_lookup_leaves_row_ahead [OF stored_write this] show ?thesis by (simp add: change_req_def)
qed


definition cancel_demo :: "exn + unit \<Rightarrow> exn + bool \<Rightarrow> cancel_env" where
  "cancel_demo c p = \<lparr>ce_now = 7000000, ce_locked = False,
     ce_accounts = [(''a1'', \<lparr>ar_label = ''ibkr'', ar_mode = ''paper'', ar_base = ''USD'', ar_nlv_currency = [], ar_number = ''DU1''\<rparr>)],
     ce_client = (\<lambda>_. c), ce_reply = p\<rparr>"

lemma cancel_demo_target:
  "\<exists>acc. cancel_target (cancel_demo c p) ''o1'' stored_world = Some (stored_row, stored_cols, acc)"
  by (simp add: cancel_target_def lookup_order_def stored_world_def demo_db_def stored_row_def new_row_def cancel_demo_def)

lemma cancel_demo_forwardable: "forwardable (cancel_demo c p) stored_row stored_cols ''b1''"
  by (simp add: forwardable_def cancel_demo_def stored_row_def new_row_def stored_cols_def TERMINAL_STATUSES_def cancel_request_in_flight_def)

theorem cancel_forwarded_once_witness:
  "cancel_order (cancel_demo (Inr ()) (Inr True)) ''o1'' (snd (cancel_order (cancel_demo (Inr ()) (Inr True)) ''o1'' stored_world))
     = (Inr Cancel_Already_In_Flight, snd (cancel_order (cancel_demo (Inr ()) (Inr True)) ''o1'' stored_world))"
proof -
  let ?e = "cancel_demo (Inr ()) (Inr True)"
  obtain acc where t: "cancel_target ?e ''o1'' stored_world = Some (stored_row, stored_cols, acc)"
    using cancel_demo_target by blast
  obtain w' where c: "cancel_order ?e ''o1'' stored_world = (Inr Cancel_Requested, w')"
    and n: "w' = noted (CancelMsg (ar_number acc) ''b1'') (flagged ''o1'' (Some 7000000) stored_world)"
    using cancel_order_forward [OF t cancel_demo_forwardable] by (simp add: cancel_demo_def Let_def)
  have "w_sent w' \<noteq> w_sent stored_world" by (simp add: n noted_def flagged_def)
  from cancel_forwarded_once [OF c this, of ?e] c show ?thesis by (auto simp: cancel_demo_def us_second_def)
qed

theorem cancel_flag_after_failure_witness:
  "cancel_order (cancel_demo (Inl KeyError) (Inr True)) ''o1'' (snd (cancel_order (cancel_demo (Inl KeyError) (Inr True)) ''o1'' stored_world))
     = (Inr Cancel_Already_In_Flight, snd (cancel_order (cancel_demo (Inl KeyError) (Inr True)) ''o1'' stored_world))"
proof -
  let ?e = "cancel_demo (Inl KeyError) (Inr True)"
  obtain acc where "cancel_target ?e ''o1'' stored_world = Some (stored_row, stored_cols, acc)"
    using cancel_demo_target by blast
  from cancel_flag_after_failure [OF this cancel_demo_forwardable, of KeyError] show ?thesis by (simp add: cancel_demo_def)
qed

end
