(* ===== verification/Cgt_Pool.thy ===== *)
theory Cgt_Pool
  imports Prelude
begin

text \<open>
  UK capital gains: \<open>backend/app/services/cgt/\<close>, the pool engine (same-day, 30-day and section 104
  matching, short obligations), the derivative engine, the corporate actions and the
  dispatcher with its recomputation.

  The tables are lists of rows in a record; the pool is a map from account and instrument to
  quantity and cost, whose \<open>CHECK (qty >= 0)\<close> raises \<open>DatabaseError\<close>. A calendar date is a record
  whose order is that of \<open>date.toordinal()\<close>; the London date of an instant is a column of
  \<open>tax_events\<close> and a field of the event. The rounding of \<open>NUMERIC(28,12)\<close> columns and of
  \<open>Decimal\<close> quotients is left out, and so are locks, metrics, logs and the test lists.
\<close>

section \<open>Dates\<close>

record date =
  d_year :: int
  d_month :: int
  d_day :: int

definition is_leap :: "int \<Rightarrow> bool" where
  "is_leap y \<longleftrightarrow> y mod 4 = 0 \<and> (y mod 100 \<noteq> 0 \<or> y mod 400 = 0)"

definition days_before_month :: "int \<Rightarrow> int \<Rightarrow> int" where
  "days_before_month y m =
     [0, 31, 59, 90, 120, 151, 181, 212, 243, 273, 304, 334] ! nat (m - 1)
       + (if 2 < m \<and> is_leap y then 1 else 0)"

definition toordinal :: "date \<Rightarrow> int" where
  "toordinal d =
     (let y = d_year d - 1 in
      y * 365 + y div 4 - y div 100 + y div 400 + days_before_month (d_year d) (d_month d) + d_day d)"

definition tax_year_of :: "date \<Rightarrow> int" where
  "tax_year_of d =
     (if 4 < d_month d \<or> (d_month d = 4 \<and> 6 \<le> d_day d) then d_year d else d_year d - 1)"

section \<open>Tables\<close>

record tax_event =
  te_id :: uuid
  te_account :: uuid
  te_instrument :: int
  te_track :: string
  te_type :: string
  te_side :: side
  te_qty :: decimal
  te_price :: decimal
  te_commission :: decimal
  te_class :: "string option"
  te_bb :: decimal
  te_at :: int
  te_date :: date
  te_short_open :: bool
  te_short_close :: bool
  te_notes :: string

record disposal =
  dp_event :: uuid
  dp_seq :: nat
  dp_track :: string
  dp_year :: int
  dp_date :: date
  dp_proceeds :: decimal
  dp_cost :: decimal
  dp_gain :: decimal
  dp_match :: string
  dp_account :: uuid
  dp_instrument :: int
  dp_short :: "nat option"
  dp_deriv :: "nat option"

record short_row =
  sh_account :: uuid
  sh_instrument :: int
  sh_event :: uuid
  sh_qty :: decimal
  sh_proceeds :: decimal
  sh_open :: bool
  sh_at :: int
  sh_close :: "(uuid \<times> decimal \<times> decimal \<times> decimal \<times> int) option"

record deriv_row =
  dv_account :: uuid
  dv_instrument :: int
  dv_event :: uuid
  dv_long :: bool
  dv_qty :: decimal
  dv_proceeds :: decimal
  dv_cost :: decimal
  dv_open :: bool
  dv_at :: int
  dv_close :: "(uuid \<times> decimal \<times> int) option"

record pool_event =
  pe_account :: uuid
  pe_instrument :: int
  pe_event :: uuid
  pe_qty :: decimal
  pe_cost :: decimal
  pe_at :: int

type_synonym pool_key = "uuid \<times> int"

record cgt_db =
  tax_events :: "tax_event list"
  pool :: "pool_key \<Rightarrow> (decimal \<times> decimal) option"
  pool_events :: "pool_event list"
  shorts :: "short_row list"
  derivs :: "deriv_row list"
  disposals :: "disposal list"

definition te_key :: "tax_event \<Rightarrow> pool_key" where
  "te_key te = (te_account te, te_instrument te)"

definition pool_avg_cost :: "decimal \<times> decimal \<Rightarrow> decimal" where
  "pool_avg_cost p = (if fst p = 0 then 0 else snd p / fst p)"

section \<open>The pool engine\<close>

definition set_pool :: "pool_key \<Rightarrow> decimal \<times> decimal \<Rightarrow> cgt_db \<Rightarrow> exn + cgt_db" where
  "set_pool k p db = (if fst p < 0 then Inl DatabaseError else Inr (db\<lparr>pool := (pool db)(k \<mapsto> p)\<rparr>))"

definition set_bb :: "uuid \<Rightarrow> (tax_event \<Rightarrow> decimal) \<Rightarrow> cgt_db \<Rightarrow> cgt_db" where
  "set_bb i f db = db\<lparr>tax_events := map (\<lambda>t. if te_id t = i then t\<lparr>te_bb := f t\<rparr> else t) (tax_events db)\<rparr>"

definition write_disposal :: "disposal \<Rightarrow> cgt_db \<Rightarrow> cgt_db" where
  "write_disposal d db =
     (if \<exists>x \<in> set (disposals db). dp_event x = dp_event d \<and> dp_seq x = dp_seq d then db
      else db\<lparr>disposals := disposals db @ [d]\<rparr>)"

definition decrement_bb :: "uuid \<Rightarrow> decimal \<Rightarrow> cgt_db \<Rightarrow> cgt_db" where
  "decrement_bb i q = set_bb i (\<lambda>t. te_bb t - q)"

definition handle_acquisition :: "tax_event \<Rightarrow> cgt_db \<Rightarrow> exn + cgt_db" where
  "handle_acquisition te db =
     (let cost = te_qty te * te_price te + te_commission te;
          old = (case pool db (te_key te) of Some p \<Rightarrow> p | None \<Rightarrow> (0, 0)) in
      rbind (if te_qty te < 0 then Inl DatabaseError
             else set_pool (te_key te) (fst old + te_qty te, snd old + cost) db) (\<lambda>db.
      Inr (set_bb (te_id te) (\<lambda>_. te_qty te)
        (db\<lparr>pool_events := pool_events db @
             [\<lparr>pe_account = te_account te, pe_instrument = te_instrument te, pe_event = te_id te,
               pe_qty = te_qty te, pe_cost = cost, pe_at = te_at te\<rparr>]\<rparr>))))"

definition leg :: "tax_event \<Rightarrow> nat \<Rightarrow> string \<Rightarrow> decimal \<Rightarrow> decimal \<Rightarrow> disposal" where
  "leg te seq mt proceeds cost =
     \<lparr>dp_event = te_id te, dp_seq = seq, dp_track = ''pool'', dp_year = tax_year_of (te_date te),
      dp_date = te_date te, dp_proceeds = proceeds, dp_cost = cost, dp_gain = proceeds - cost,
      dp_match = mt, dp_account = te_account te, dp_instrument = te_instrument te,
      dp_short = None, dp_deriv = None\<rparr>"

definition leg_proceeds :: "tax_event \<Rightarrow> decimal \<Rightarrow> decimal" where
  "leg_proceeds te matched = matched * te_price te - te_commission te * (matched / te_qty te)"

definition matched_cost :: "tax_event \<Rightarrow> decimal \<Rightarrow> decimal" where
  "matched_cost row matched =
     matched * te_price row + te_commission row * (matched / te_bb row)"

text \<open>The loop over the fetched rows, with its \<open>break\<close>.\<close>

fun match_buys ::
  "tax_event \<Rightarrow> string \<Rightarrow> tax_event list \<Rightarrow> decimal \<Rightarrow> nat \<Rightarrow> cgt_db \<Rightarrow> decimal \<times> nat \<times> cgt_db" where
  "match_buys te mt [] remaining seq db = (remaining, seq, db)"
| "match_buys te mt (row # rows) remaining seq db =
     (if remaining \<le> 0 then (remaining, seq, db)
      else
        let matched = min remaining (te_bb row);
            d = leg te seq mt (leg_proceeds te matched) (matched_cost row matched)
        in match_buys te mt rows (remaining - matched) (seq + 1)
             (decrement_bb (te_id row) matched (write_disposal d db)))"

definition candidate :: "tax_event \<Rightarrow> tax_event \<Rightarrow> bool" where
  "candidate te t \<longleftrightarrow> te_account t = te_account te \<and> te_class te \<noteq> None \<and> te_class t = te_class te
     \<and> te_side t = Buy \<and> 0 < te_bb t \<and> te_track t = ''pool''"

definition same_day_rows :: "tax_event \<Rightarrow> cgt_db \<Rightarrow> tax_event list" where
  "same_day_rows te db =
     sort_key te_at (filter (\<lambda>t. candidate te t \<and> toordinal (te_date t) = toordinal (te_date te)) (tax_events db))"

definition bb_rows :: "tax_event \<Rightarrow> cgt_db \<Rightarrow> tax_event list" where
  "bb_rows te db =
     sort_key (\<lambda>t. toordinal (te_date t)) (sort_key te_at
       (filter (\<lambda>t. candidate te t \<and> toordinal (te_date te) + 1 \<le> toordinal (te_date t)
                  \<and> toordinal (te_date t) \<le> toordinal (te_date te) + 30) (tax_events db)))"

definition s104_remainder :: "tax_event \<Rightarrow> decimal \<Rightarrow> nat \<Rightarrow> cgt_db \<Rightarrow> exn + cgt_db" where
  "s104_remainder te remaining seq db =
     (let p = pool db (te_key te);
          avg = (case p of Some x \<Rightarrow> pool_avg_cost x | None \<Rightarrow> 0);
          cost = remaining * avg + te_commission te * (remaining / te_qty te);
          db' = write_disposal (leg te seq ''s104'' (leg_proceeds te remaining) cost) db
      in case p of None \<Rightarrow> Inr db'
         | Some (q, c) \<Rightarrow> set_pool (te_key te) (q - remaining, max 0 (c - avg * remaining)) db')"

definition handle_disposal :: "tax_event \<Rightarrow> cgt_db \<Rightarrow> exn + cgt_db" where
  "handle_disposal te db =
     (let (rem1, seq1, db1) = match_buys te ''same_day'' (same_day_rows te db) (te_qty te) 0 db in
      if rem1 \<le> 0 then Inr db1
      else
        let (rem2, seq2, db2) = match_buys te ''bb_30'' (bb_rows te db1) rem1 seq1 db1 in
        if rem2 \<le> 0 then Inr db2 else s104_remainder te rem2 seq2 db2)"

definition handle_short_open :: "tax_event \<Rightarrow> cgt_db \<Rightarrow> exn + cgt_db" where
  "handle_short_open te db = Inr (db\<lparr>shorts := shorts db @
     [\<lparr>sh_account = te_account te, sh_instrument = te_instrument te, sh_event = te_id te, sh_qty = te_qty te,
       sh_proceeds = te_qty te * te_price te - te_commission te, sh_open = True, sh_at = te_at te,
       sh_close = None\<rparr>]\<rparr>)"

text \<open>The index of the earliest open row: \<open>ORDER BY opened_at LIMIT 1\<close>.\<close>

definition earliest :: "('a \<Rightarrow> bool) \<Rightarrow> ('a \<Rightarrow> int) \<Rightarrow> 'a list \<Rightarrow> nat option" where
  "earliest P time xs =
     (case sort_key (\<lambda>i. time (xs ! i)) (filter (\<lambda>i. P (xs ! i)) [0..<length xs]) of
        [] \<Rightarrow> None | i # _ \<Rightarrow> Some i)"

definition handle_short_close :: "tax_event \<Rightarrow> cgt_db \<Rightarrow> exn + cgt_db" where
  "handle_short_close te db =
     (case earliest (\<lambda>s. sh_account s = te_account te \<and> sh_instrument s = te_instrument te \<and> sh_open s) sh_at (shorts db) of
        None \<Rightarrow> Inr db
      | Some i \<Rightarrow>
          let ob = shorts db ! i;
              close_cost = te_qty te * te_price te + te_commission te;
              gain = sh_proceeds ob - close_cost;
              ob' = ob\<lparr>sh_open := False, sh_close := Some (te_id te, te_qty te, close_cost, gain, te_at te)\<rparr>
          in Inr (write_disposal
                ((leg te 0 ''short'' (sh_proceeds ob) close_cost)\<lparr>dp_short := Some i\<rparr>)
                (db\<lparr>shorts := (shorts db)[i := ob']\<rparr>)))"

definition pool_process :: "tax_event \<Rightarrow> cgt_db \<Rightarrow> exn + cgt_db" where
  "pool_process te db =
     (if te_short_open te then handle_short_open te db
      else if te_short_close te then handle_short_close te db
      else if te_side te = Buy then handle_acquisition te db
      else handle_disposal te db)"

section \<open>The derivative engine\<close>

definition derivative_process :: "tax_event \<Rightarrow> cgt_db \<Rightarrow> exn + cgt_db" where
  "derivative_process te db =
     (case earliest (\<lambda>p. dv_account p = te_account te \<and> dv_instrument p = te_instrument te \<and> dv_open p) dv_at (derivs db) of
        None \<Rightarrow>
          let amount = te_qty te * te_price te; long = (te_side te = Buy) in
          Inr (db\<lparr>derivs := derivs db @
            [\<lparr>dv_account = te_account te, dv_instrument = te_instrument te, dv_event = te_id te,
              dv_long = long, dv_qty = te_qty te,
              dv_proceeds = (if long then 0 else amount), dv_cost = (if long then amount else 0),
              dv_open = True, dv_at = te_at te, dv_close = None\<rparr>]\<rparr>)
      | Some i \<Rightarrow>
          let p = derivs db ! i;
              close_amount = te_qty te * te_price te - te_commission te;
              proceeds = (if dv_long p then dv_proceeds p + close_amount else dv_proceeds p);
              cost = (if dv_long p then dv_cost p else dv_cost p + close_amount);
              gain = proceeds - cost;
              p' = p\<lparr>dv_open := False, dv_proceeds := proceeds, dv_cost := cost,
                      dv_close := Some (te_id te, gain, te_at te)\<rparr>
          in Inr (write_disposal
               ((leg te 0 ''derivative'' proceeds cost)\<lparr>dp_track := ''derivative'', dp_deriv := Some i\<rparr>)
               (db\<lparr>derivs := (derivs db)[i := p']\<rparr>)))"

section \<open>Corporate actions\<close>

text \<open>\<open>num, den = (int(x) for x in notes.split(":"))\<close>, \<open>num / den\<close>; the float is taken as exact.\<close>

definition split_ratio :: "string \<Rightarrow> exn + decimal" where
  "split_ratio notes =
     (case split_on (CHR '':'') notes of
        [a, b] \<Rightarrow> rbind (parse_int a) (\<lambda>num. rbind (parse_int b) (\<lambda>den.
           if den = 0 then Inl ZeroDivisionError else Inr (of_int num / of_int den)))
      | _ \<Rightarrow> Inl (ValueError ''too many values to unpack''))"

definition resize_pool :: "tax_event \<Rightarrow> cgt_db \<Rightarrow> exn + cgt_db" where
  "resize_pool te db =
     (if CHR '':'' \<notin> set (te_notes te) then Inr db
      else rbind (split_ratio (te_notes te)) (\<lambda>r.
        case pool db (te_key te) of None \<Rightarrow> Inr db
        | Some (q, c) \<Rightarrow> set_pool (te_key te) (q * r, c) db))"

definition corporate_process :: "tax_event \<Rightarrow> cgt_db \<Rightarrow> exn + cgt_db" where
  "corporate_process te db =
     (if te_type te = ''corp_action_split'' \<or> te_type te = ''corp_action_consolidation''
      then resize_pool te db else Inr db)"

section \<open>The dispatcher and the recomputation\<close>

definition is_corp_action :: "string \<Rightarrow> bool" where
  "is_corp_action s \<longleftrightarrow> take 11 s = ''corp_action''"

definition engine_process :: "tax_event \<Rightarrow> cgt_db \<Rightarrow> exn + cgt_db" where
  "engine_process te db =
     (if te_track te = ''exempt'' then Inr db
      else if te_track te = ''pool'' then
        (if is_corp_action (te_type te) then corporate_process te db else pool_process te db)
      else if te_track te = ''derivative'' then derivative_process te db
      else Inr db)"

text \<open>A failing event of the replay is logged and its savepoint rolled back.\<close>

definition replay :: "tax_event \<Rightarrow> cgt_db \<Rightarrow> cgt_db" where
  "replay te db = (case engine_process te db of Inr db' \<Rightarrow> db' | Inl _ \<Rightarrow> db)"

definition reset_for :: "pool_key \<Rightarrow> cgt_db \<Rightarrow> cgt_db" where
  "reset_for k db = db\<lparr>
     disposals := filter (\<lambda>d. (dp_account d, dp_instrument d) \<noteq> k) (disposals db),
     pool_events := filter (\<lambda>e. (pe_account e, pe_instrument e) \<noteq> k) (pool_events db),
     shorts := filter (\<lambda>s. \<not> ((sh_account s, sh_instrument s) = k \<and> \<not> sh_open s)) (shorts db),
     pool := (pool db)(k \<mapsto> (0, 0))\<rparr>"

definition recompute :: "pool_key \<Rightarrow> cgt_db \<Rightarrow> cgt_db" where
  "recompute k db =
     (let db0 = reset_for k db
      in fold replay (sort_key te_at (filter (\<lambda>t. te_key t = k) (tax_events db0))) db0)"

section \<open>Laws of the matching\<close>

lemma write_disposal_keeps [simp]:
  "tax_events (write_disposal d db) = tax_events db" "pool (write_disposal d db) = pool db"
  "shorts (write_disposal d db) = shorts db" "derivs (write_disposal d db) = derivs db"
  by (simp_all add: write_disposal_def)

lemma decrement_bb_keeps [simp]:
  "pool (decrement_bb i q db) = pool db" "disposals (decrement_bb i q db) = disposals db"
  by (simp_all add: decrement_bb_def set_bb_def)

lemma match_buys_pool: "match_buys te mt rows r n db = (r', n', db') \<Longrightarrow> pool db' = pool db"
  by (induction rows arbitrary: r n db) (auto simp: Let_def split: if_splits)

text \<open>The legs of an event, as far as they are already written.\<close>

definition legs_of_event :: "uuid \<Rightarrow> cgt_db \<Rightarrow> disposal list" where
  "legs_of_event i db = filter (\<lambda>d. dp_event d = i) (disposals db)"

definition proceeds_of :: "uuid \<Rightarrow> cgt_db \<Rightarrow> decimal" where
  "proceeds_of i db = sum_list (map dp_proceeds (legs_of_event i db))"

definition seqs_below :: "uuid \<Rightarrow> nat \<Rightarrow> cgt_db \<Rightarrow> bool" where
  "seqs_below i n db \<longleftrightarrow> (\<forall>d \<in> set (disposals db). dp_event d = i \<longrightarrow> dp_seq d < n)"

lemma write_new_leg:
  assumes "seqs_below (te_id te) n db"
  shows "proceeds_of (te_id te) (write_disposal (leg te n mt p c) db) = proceeds_of (te_id te) db + p"
    and "seqs_below (te_id te) (n + 1) (write_disposal (leg te n mt p c) db)"
  using assms
  by (auto simp: write_disposal_def seqs_below_def proceeds_of_def legs_of_event_def leg_def less_SucI)

lemma proceeds_decrement [simp]:
  "proceeds_of i (decrement_bb j q db) = proceeds_of i db" "seqs_below i n (decrement_bb j q db) = seqs_below i n db"
  by (simp_all add: proceeds_of_def legs_of_event_def seqs_below_def)

lemma leg_proceeds_add: "leg_proceeds te a + leg_proceeds te b = leg_proceeds te (a + b)"
  by (simp add: leg_proceeds_def algebra_simps add_divide_distrib)

lemma match_buys_proceeds:
  assumes "match_buys te mt rows r n db = (r', n', db')" and "seqs_below (te_id te) n db"
  shows "proceeds_of (te_id te) db' + leg_proceeds te r' = proceeds_of (te_id te) db + leg_proceeds te r
       \<and> seqs_below (te_id te) n' db'"
  using assms
proof (induction rows arbitrary: r n db)
  case Nil
  then show ?case by simp
next
  case (Cons row rows)
  show ?case
  proof (cases "r \<le> 0")
    case True
    with Cons.prems show ?thesis by simp
  next
    case False
    let ?m = "min r (te_bb row)"
    let ?d = "leg te n mt (leg_proceeds te ?m) (matched_cost row ?m)"
    let ?db = "decrement_bb (te_id row) ?m (write_disposal ?d db)"
    from Cons.prems False have rec: "match_buys te mt rows (r - ?m) (n + 1) ?db = (r', n', db')"
      by (simp add: Let_def)
    have "seqs_below (te_id te) (n + 1) ?db"
      using write_new_leg(2) [OF Cons.prems(2)] by simp
    from Cons.IH [OF rec this] write_new_leg(1) [OF Cons.prems(2), of mt "leg_proceeds te ?m"]
      leg_proceeds_add [of te ?m "r - ?m"]
    show ?thesis by (simp add: algebra_simps)
  qed
qed

lemma match_buys_remaining:
  assumes "match_buys te mt rows r n db = (r', n', db')" and "\<forall>t \<in> set rows. 0 < te_bb t" and "0 \<le> r"
  shows "0 \<le> r' \<and> r' \<le> r"
  using assms
proof (induction rows arbitrary: r n db)
  case Nil
  then show ?case by simp
next
  case (Cons row rows)
  show ?case
  proof (cases "r \<le> 0")
    case True
    with Cons.prems show ?thesis by simp
  next
    case False
    let ?m = "min r (te_bb row)"
    from Cons.prems False obtain db1 where
      rec: "match_buys te mt rows (r - ?m) (n + 1) db1 = (r', n', db')"
      by (simp add: Let_def)
    from Cons.IH [OF rec] Cons.prems(2) False show ?thesis by auto
  qed
qed

lemma candidates_positive:
  "\<forall>t \<in> set (same_day_rows te db). 0 < te_bb t" "\<forall>t \<in> set (bb_rows te db). 0 < te_bb t"
  by (simp_all add: same_day_rows_def bb_rows_def candidate_def)

lemma match_buys_enough:
  assumes "match_buys te mt rows r n db = (r', n', db')" and "r \<le> sum_list (map te_bb rows)"
    and "\<forall>t \<in> set rows. 0 < te_bb t"
  shows "r' \<le> 0"
  using assms
proof (induction rows arbitrary: r n db)
  case Nil
  then show ?case by simp
next
  case (Cons row rows)
  have pos: "0 \<le> sum_list (map te_bb rows)"
    using Cons.prems(3) by (intro sum_list_nonneg) auto
  show ?case
  proof (cases "r \<le> 0")
    case True
    with Cons.prems show ?thesis by simp
  next
    case False
    let ?m = "min r (te_bb row)"
    from Cons.prems False obtain db1 where
      rec: "match_buys te mt rows (r - ?m) (n + 1) db1 = (r', n', db')"
      by (simp add: Let_def)
    from Cons.prems(2) pos have "r - ?m \<le> sum_list (map te_bb rows)" by auto
    from Cons.IH [OF rec this] Cons.prems(3) show ?thesis by simp
  qed
qed

section \<open>Laws of the pool\<close>

definition pool_ok :: "cgt_db \<Rightarrow> bool" where
  "pool_ok db \<longleftrightarrow> (\<forall>p \<in> ran (pool db). 0 \<le> fst p)"

lemma pool_ok_cong: "pool db' = pool db \<Longrightarrow> pool_ok db' \<longleftrightarrow> pool_ok db"
  by (simp add: pool_ok_def)

lemma pool_ok_frames [simp]:
  "pool_ok (write_disposal d db) = pool_ok db" "pool_ok (set_bb i f db) = pool_ok db"
  "pool_ok (db\<lparr>pool_events := es\<rparr>) = pool_ok db" "pool_ok (db\<lparr>shorts := ss\<rparr>) = pool_ok db"
  "pool_ok (db\<lparr>derivs := ds\<rparr>) = pool_ok db"
  by (simp_all add: pool_ok_def set_bb_def)

lemma ran_upd_subset: "ran (m(k \<mapsto> p)) \<subseteq> insert p (ran m)"
  by (auto simp: ran_def simp del: split_paired_All split_paired_Ex split: if_splits)

lemma set_pool_ok: "\<lbrakk>set_pool k p db = Inr db'; pool_ok db\<rbrakk> \<Longrightarrow> pool_ok db'"
  using ran_upd_subset [of "pool db" k p]
  unfolding set_pool_def pool_ok_def by (fastforce split: if_splits)

lemma handle_acquisition_ok: "\<lbrakk>handle_acquisition te db = Inr db'; pool_ok db\<rbrakk> \<Longrightarrow> pool_ok db'"
  by (auto simp: handle_acquisition_def Let_def rbind_Inr_iff dest: set_pool_ok split: if_splits)

lemma s104_remainder_ok: "\<lbrakk>s104_remainder te r n db = Inr db'; pool_ok db\<rbrakk> \<Longrightarrow> pool_ok db'"
  by (auto simp: s104_remainder_def Let_def dest: set_pool_ok split: option.splits)

lemma handle_disposal_ok:
  assumes "handle_disposal te db = Inr db'" and "pool_ok db"
  shows "pool_ok db'"
proof -
  obtain r1 n1 db1 where m1: "match_buys te ''same_day'' (same_day_rows te db) (te_qty te) 0 db = (r1, n1, db1)"
    by (metis prod_cases3)
  obtain r2 n2 db2 where m2: "match_buys te ''bb_30'' (bb_rows te db1) r1 n1 db1 = (r2, n2, db2)"
    by (metis prod_cases3)
  have "pool_ok db1" "pool_ok db2"
    using match_buys_pool [OF m1] match_buys_pool [OF m2] assms(2) by (simp_all add: pool_ok_def)
  with assms(1) m1 m2 show ?thesis
    by (auto simp: handle_disposal_def Let_def dest: s104_remainder_ok split: if_splits)
qed

lemma pool_process_ok: "\<lbrakk>pool_process te db = Inr db'; pool_ok db\<rbrakk> \<Longrightarrow> pool_ok db'"
  by (auto simp: pool_process_def handle_short_open_def handle_short_close_def Let_def
      dest: handle_acquisition_ok handle_disposal_ok split: if_splits option.splits)

lemma engine_process_ok: "\<lbrakk>engine_process te db = Inr db'; pool_ok db\<rbrakk> \<Longrightarrow> pool_ok db'"
  by (auto simp: engine_process_def corporate_process_def resize_pool_def rbind_Inr_iff derivative_process_def Let_def
      dest: pool_process_ok set_pool_ok split: if_splits option.splits)

interpretation replaying: invariant_machine replay pool_ok
  by unfold_locales (auto simp: replay_def dest: engine_process_ok split: sum.splits)

section \<open>Properties\<close>

text \<open>C14: the legs of a disposal together carry exactly the net proceeds of the sale, its price times its quantity
  less its commission, however the quantity is split over same-day, 30-day and pool matches.\<close>

theorem disposal_proceeds_conserved:
  assumes "handle_disposal te db = Inr db'" and "0 < te_qty te"
    and "\<forall>d \<in> set (disposals db). dp_event d \<noteq> te_id te"
  shows "proceeds_of (te_id te) db' = te_qty te * te_price te - te_commission te"
proof -
  obtain r1 n1 db1 where m1: "match_buys te ''same_day'' (same_day_rows te db) (te_qty te) 0 db = (r1, n1, db1)"
    by (metis prod_cases3)
  obtain r2 n2 db2 where m2: "match_buys te ''bb_30'' (bb_rows te db1) r1 n1 db1 = (r2, n2, db2)"
    by (metis prod_cases3)
  have s0: "seqs_below (te_id te) 0 db" and p0: "proceeds_of (te_id te) db = 0"
    using assms(3) by (auto simp: seqs_below_def proceeds_of_def legs_of_event_def filter_empty_conv)
  note A = match_buys_proceeds [OF m1 s0]
  note B = match_buys_proceeds [OF m2 conjunct2 [OF A]]
  have r1: "0 \<le> r1" and r2: "0 \<le> r1 \<Longrightarrow> 0 \<le> r2"
    using match_buys_remaining [OF m1 candidates_positive(1)] match_buys_remaining [OF m2 candidates_positive(2)]
      assms(2) by auto
  have all: "leg_proceeds te (te_qty te) = te_qty te * te_price te - te_commission te"
    using assms(2) by (simp add: leg_proceeds_def)
  have zero: "leg_proceeds te 0 = 0" by (simp add: leg_proceeds_def)
  show ?thesis
  proof (cases "r1 \<le> 0")
    case True
    with assms(1) m1 have "db' = db1" by (simp add: handle_disposal_def)
    with True r1 A p0 all zero show ?thesis by simp
  next
    case False
    show ?thesis
    proof (cases "r2 \<le> 0")
      case True
      with assms(1) m1 m2 False have "db' = db2" by (simp add: handle_disposal_def)
      with True r1 r2 A B p0 all zero show ?thesis by simp
    next
      case r2': False
      with assms(1) m1 m2 False have s: "s104_remainder te r2 n2 db2 = Inr db'" by (simp add: handle_disposal_def)
      then obtain c where "disposals db' = disposals (write_disposal (leg te n2 ''s104'' (leg_proceeds te r2) c) db2)"
        by (auto simp: s104_remainder_def Let_def set_pool_def split: option.splits if_splits)
      with write_new_leg(1) [OF conjunct2 [OF B]] have "proceeds_of (te_id te) db' = proceeds_of (te_id te) db2 + leg_proceeds te r2"
        by (simp add: proceeds_of_def legs_of_event_def)
      with A B p0 all show ?thesis by simp
    qed
  qed
qed

definition demo_te :: "uuid \<Rightarrow> side \<Rightarrow> decimal \<Rightarrow> decimal \<Rightarrow> tax_event" where
  "demo_te i s q p = \<lparr>te_id = i, te_account = ''a1'', te_instrument = 7, te_track = ''pool'', te_type = ''trade'',
     te_side = s, te_qty = q, te_price = p, te_commission = 2, te_class = Some ''k'', te_bb = 0, te_at = 100,
     te_date = \<lparr>d_year = 2025, d_month = 4, d_day = 6\<rparr>, te_short_open = False, te_short_close = False, te_notes = []\<rparr>"

definition demo_cgt :: "tax_event list \<Rightarrow> (decimal \<times> decimal) option \<Rightarrow> cgt_db" where
  "demo_cgt ts p = \<lparr>tax_events = ts, pool = (\<lambda>k. if k = (''a1'', 7) then p else None), pool_events = [],
     shorts = [], derivs = [], disposals = []\<rparr>"

lemmas demo_cgt_defs = demo_te_def demo_cgt_def te_key_def

theorem disposal_proceeds_conserved_witness:
  "\<exists>db'. handle_disposal (demo_te ''s'' Sell 4 10) (demo_cgt [] (Some (10, 50))) = Inr db' \<and> proceeds_of ''s'' db' = 38"
proof -
  have "same_day_rows (demo_te ''s'' Sell 4 10) (demo_cgt [] (Some (10, 50))) = []"
    "bb_rows (demo_te ''s'' Sell 4 10) (demo_cgt [] (Some (10, 50))) = []"
    by (simp_all add: same_day_rows_def bb_rows_def demo_cgt_defs)
  then obtain db' where h: "handle_disposal (demo_te ''s'' Sell 4 10) (demo_cgt [] (Some (10, 50))) = Inr db'"
    by (simp add: handle_disposal_def s104_remainder_def demo_cgt_defs set_pool_def Let_def)
  from disposal_proceeds_conserved [OF h] h show ?thesis by (simp add: demo_cgt_defs)
qed



text \<open>Shares matched on the same day are never taken out of the section 104 pool: a sale that is covered by the
  buys of its day leaves every pool, those buys included, as it was.\<close>

theorem same_day_match_stays_in_pool:
  assumes "handle_disposal te db = Inr db'" and "te_qty te \<le> sum_list (map te_bb (same_day_rows te db))"
  shows "pool db' = pool db"
proof -
  obtain r n db1 where m: "match_buys te ''same_day'' (same_day_rows te db) (te_qty te) 0 db = (r, n, db1)"
    by (metis prod_cases3)
  from match_buys_enough [OF m assms(2) candidates_positive(1)] have "r \<le> 0" .
  with assms(1) m match_buys_pool [OF m] show ?thesis by (simp add: handle_disposal_def)
qed

theorem same_day_match_stays_in_pool_witness:
  "\<exists>db'. handle_disposal (demo_te ''s'' Sell 4 10) (demo_cgt [(demo_te ''b'' Buy 4 9)\<lparr>te_bb := 4\<rparr>] (Some (4, 38))) = Inr db'
       \<and> pool db' (''a1'', 7) = Some (4, 38)"
proof -
  let ?te = "demo_te ''s'' Sell 4 10" and ?b = "(demo_te ''b'' Buy 4 9)\<lparr>te_bb := 4\<rparr>"
  let ?db = "demo_cgt [?b] (Some (4, 38))"
  have rows: "same_day_rows ?te ?db = [?b]"
    by (simp add: same_day_rows_def candidate_def demo_cgt_defs)
  then obtain db' where h: "handle_disposal ?te ?db = Inr db'"
    by (simp add: handle_disposal_def Let_def demo_cgt_defs)
  from same_day_match_stays_in_pool [OF h] rows h show ?thesis
    by (simp add: demo_te_def) (simp add: demo_cgt_def)
qed

text \<open>A sale matched against the pool alone is charged its commission twice, once against the proceeds and once
  as allowable cost.\<close>

theorem pool_sale_commission_twice:
  assumes "same_day_rows te db = []" and "bb_rows te db = []" and "0 < te_qty te"
    and "pool db (te_key te) = Some (q, c)" and "te_qty te \<le> q"
    and "\<forall>d \<in> set (disposals db). dp_event d \<noteq> te_id te"
  shows "\<exists>db' d. handle_disposal te db = Inr db' \<and> legs_of_event (te_id te) db' = [d]
    \<and> dp_gain d = te_qty te * (te_price te - c / q) - 2 * te_commission te"
proof -
  let ?d = "leg te 0 ''s104'' (leg_proceeds te (te_qty te)) (te_qty te * (c / q) + te_commission te)"
  let ?db = "write_disposal ?d db"
  have w: "legs_of_event (te_id te) ?db = [?d]"
    using assms(6) by (auto simp: legs_of_event_def write_disposal_def leg_def filter_empty_conv)
  have h: "handle_disposal te db =
      Inr (?db\<lparr>pool := (pool ?db)(te_key te \<mapsto> (q - te_qty te, max 0 (c - c / q * te_qty te)))\<rparr>)"
    using assms(1-5)
    by (simp add: handle_disposal_def s104_remainder_def Let_def pool_avg_cost_def set_pool_def)
  have g: "dp_gain ?d = te_qty te * (te_price te - c / q) - 2 * te_commission te"
    using assms(3) by (simp add: leg_def leg_proceeds_def algebra_simps)
  show ?thesis
    by (intro exI [of _ "?db\<lparr>pool := (pool ?db)(te_key te \<mapsto> (q - te_qty te, max 0 (c - c / q * te_qty te)))\<rparr>"]
        exI [of _ ?d] conjI h g) (use w in \<open>simp add: legs_of_event_def\<close>)
qed

theorem pool_sale_commission_twice_witness:
  "\<exists>db' d. handle_disposal (demo_te ''s'' Sell 4 10) (demo_cgt [] (Some (10, 50))) = Inr db'
     \<and> legs_of_event ''s'' db' = [d] \<and> dp_gain d = 16"
  using pool_sale_commission_twice [of "demo_te ''s'' Sell 4 10" "demo_cgt [] (Some (10, 50))" 10 50]
  by (simp add: same_day_rows_def bb_rows_def demo_cgt_defs)

text \<open>The derivative engine treats every event that finds an open position as its close, in full: a second buy of
  a long position, of whatever quantity, closes it and books its value as proceeds.\<close>

theorem derivative_event_closes:
  assumes "earliest (\<lambda>p. dv_account p = te_account te \<and> dv_instrument p = te_instrument te \<and> dv_open p) dv_at (derivs db)
             = Some i"
    and "i < length (derivs db)" and "dv_long (derivs db ! i)"
  shows "\<exists>db'. derivative_process te db = Inr db' \<and> \<not> dv_open (derivs db' ! i)
    \<and> dv_proceeds (derivs db' ! i) = dv_proceeds (derivs db ! i) + te_qty te * te_price te - te_commission te"
  using assms by (simp add: derivative_process_def Let_def)

definition demo_deriv :: deriv_row where
  "demo_deriv = \<lparr>dv_account = ''a1'', dv_instrument = 7, dv_event = ''b'', dv_long = True, dv_qty = 4,
     dv_proceeds = 0, dv_cost = 40, dv_open = True, dv_at = 5, dv_close = None\<rparr>"

theorem derivative_event_closes_witness:
  "\<exists>db'. derivative_process (demo_te ''b2'' Buy 1 10) ((demo_cgt [] None)\<lparr>derivs := [demo_deriv]\<rparr>) = Inr db'
     \<and> \<not> dv_open (derivs db' ! 0)"
  using derivative_event_closes [of "demo_te ''b2'' Buy 1 10" "(demo_cgt [] None)\<lparr>derivs := [demo_deriv]\<rparr>" 0]
  by (simp add: earliest_def demo_te_def demo_deriv_def) blast

end
