(* ===== verification/Oco.thy ===== *)
theory Oco
  imports Prelude
begin

text \<open>
  \<open>backend/app/services/oco_orchestrator.py\<close>: one fill of a one-cancels-other link marks the link
  and cancels the sibling leg; a Redis key elects the instance that may do so.

  First one instance: its table of active links, the rows of \<open>oco_links\<close>, the cancels it sends,
  with the broker's answer to a cancel as an argument. Then the election, as a transition system
  over the lock key, the clock and the set of instances that believe they lead. Streams, logs and
  the native OCO dispatch of the brokers are left out.
\<close>

section \<open>Links\<close>

datatype link_status =
    Pending_Both | Leg_A_Working | Leg_B_Working | Leg_A_Filled | Leg_B_Filled
  | Canceled | Cancel_Failed | Errored | Completed

definition TERMINAL :: "link_status list" where
  "TERMINAL = [Completed, Canceled, Errored, Cancel_Failed]"

record oco_link =
  k_id :: uuid
  k_broker :: string
  k_account :: uuid
  k_a :: string
  k_b :: string
  k_status :: link_status
  k_failure :: "string option"

record orch =
  active :: "oco_link list"
  rows :: "(uuid \<times> link_status) list"
  leader :: bool
  cancels :: "(string \<times> uuid \<times> string) list"

definition find_link :: "orch \<Rightarrow> string \<Rightarrow> string \<Rightarrow> oco_link option" where
  "find_link s broker oid = List.find (\<lambda>k. k_broker k = broker \<and> (oid = k_a k \<or> oid = k_b k)) (active s)"

text \<open>
  The in-memory status changes first; the guarded \<open>UPDATE\<close> changes the row unless it is already
  terminal.
\<close>

definition transition :: "uuid \<Rightarrow> link_status \<Rightarrow> string option \<Rightarrow> orch \<Rightarrow> exn + orch" where
  "transition i new reason s =
     (case List.find (\<lambda>k. k_id k = i) (active s) of
        None \<Rightarrow> Inr s
      | Some k \<Rightarrow>
          if k_status k \<in> set TERMINAL then Inl (ValueError ''invalid transition from terminal'')
          else Inr (s\<lparr>
            active := map (\<lambda>k. if k_id k = i then k\<lparr>k_status := new, k_failure := reason\<rparr> else k) (active s),
            rows := map (\<lambda>(j, st). if j = i \<and> st \<notin> set TERMINAL then (j, new) else (j, st)) (rows s)\<rparr>))"

definition process_fill_event ::
  "(string \<Rightarrow> uuid \<Rightarrow> string \<Rightarrow> bool) \<Rightarrow> string \<Rightarrow> string \<Rightarrow> orch \<Rightarrow> exn + orch" where
  "process_fill_event cancel broker oid s =
     (if \<not> leader s then Inr s
      else case find_link s broker oid of
        None \<Rightarrow> Inr s
      | Some k \<Rightarrow>
          if k_status k \<in> set TERMINAL then Inr s
          else
            let survivor = (if oid = k_a k then k_b k else k_a k);
                st = (if oid = k_a k then Leg_A_Filled else Leg_B_Filled)
            in rbind (transition (k_id k) st None s) (\<lambda>s1.
               let ok = cancel (k_broker k) (k_account k) survivor;
                   s2 = s1\<lparr>cancels := cancels s1 @ [(k_broker k, k_account k, survivor)]\<rparr>
               in transition (k_id k) (if ok then Completed else Cancel_Failed)
                    (if ok then None else Some ''cancel_rejected: broker rejected sibling cancel'') s2))"

definition hydrate :: "oco_link list \<Rightarrow> orch \<Rightarrow> orch" where
  "hydrate db s = s\<lparr>active := filter (\<lambda>k. k_status k \<notin> set TERMINAL) db\<rparr>"

text \<open>A fill as the state after it, whatever the handler returned.\<close>

definition on_fill :: "(string \<Rightarrow> uuid \<Rightarrow> string \<Rightarrow> bool) \<Rightarrow> string \<times> string \<Rightarrow> orch \<Rightarrow> orch" where
  "on_fill cancel = (\<lambda>(broker, oid) s. case process_fill_event cancel broker oid s of Inr s' \<Rightarrow> s' | Inl _ \<Rightarrow> s)"

section \<open>Election\<close>

definition LOCK_TTL_SECONDS :: int where "LOCK_TTL_SECONDS = 60"
definition RENEW_SECONDS :: int where "RENEW_SECONDS = 30"
definition LOCK_TOKEN :: string where "LOCK_TOKEN = ''oco:leader''"

text \<open>
  What \<open>redis.get\<close> returns: a client built with \<open>decode_responses=False\<close> hands out bytes, which
  never equal a \<open>str\<close>. Every instance writes the same token into the key.
\<close>

datatype reply = RNone | RStr string | RBytes string

record election =
  now_s :: int
  lock_until :: "int option"
  leaders :: "nat set"

definition lock_held :: "election \<Rightarrow> bool" where
  "lock_held e \<longleftrightarrow> (case lock_until e of Some t \<Rightarrow> now_s e < t | None \<Rightarrow> False)"

definition redis_get :: "bool \<Rightarrow> election \<Rightarrow> reply" where
  "redis_get decode e =
     (if lock_held e then (if decode then RStr LOCK_TOKEN else RBytes LOCK_TOKEN) else RNone)"

definition set_expiry :: "election \<Rightarrow> election" where
  "set_expiry e = e\<lparr>lock_until := Some (now_s e + LOCK_TTL_SECONDS)\<rparr>"

definition start_instance :: "nat \<Rightarrow> election \<Rightarrow> election" where
  "start_instance i e =
     (if lock_held e then e else (set_expiry e)\<lparr>leaders := insert i (leaders e)\<rparr>)"

definition renew_lock :: "bool \<Rightarrow> nat \<Rightarrow> election \<Rightarrow> election" where
  "renew_lock decode i e =
     (if redis_get decode e \<noteq> RStr LOCK_TOKEN then e\<lparr>leaders := leaders e - {i}\<rparr> else set_expiry e)"

definition stop_instance :: "nat \<Rightarrow> election \<Rightarrow> election" where
  "stop_instance i e =
     (if i \<in> leaders e then e\<lparr>lock_until := None, leaders := leaders e - {i}\<rparr> else e)"

inductive elect :: "bool \<Rightarrow> election \<Rightarrow> election \<Rightarrow> bool" for decode where
  elect_refl: "elect decode e e"
| elect_start: "elect decode e e' \<Longrightarrow> elect decode e (start_instance i e')"
| elect_renew: "\<lbrakk>elect decode e e'; i \<in> leaders e'\<rbrakk> \<Longrightarrow> elect decode e (renew_lock decode i e')"
| elect_stop: "elect decode e e' \<Longrightarrow> elect decode e (stop_instance i e')"
| elect_tick: "\<lbrakk>elect decode e e'; 0 \<le> d\<rbrakk> \<Longrightarrow> elect decode e (e'\<lparr>now_s := now_s e' + d\<rparr>)"

definition election_start :: election where
  "election_start = \<lparr>now_s = 0, lock_until = None, leaders = {}\<rparr>"

section \<open>Laws of the links\<close>

definition ids_distinct :: "orch \<Rightarrow> bool" where
  "ids_distinct s \<longleftrightarrow> distinct (map k_id (active s))"

lemma find_by_id: "\<lbrakk>distinct (map k_id ks); k \<in> set ks\<rbrakk> \<Longrightarrow> List.find (\<lambda>x. k_id x = k_id k) ks = Some k"
  by (induction ks) auto

lemma find_link_mem:
  "find_link s broker oid = Some k \<Longrightarrow> k \<in> set (active s) \<and> k_broker k = broker \<and> (oid = k_a k \<or> oid = k_b k)"
  unfolding find_link_def by (drule find_Some_iff') auto

lemma transition_known:
  assumes "ids_distinct s" and "k \<in> set (active s)" and "k_status k \<notin> set TERMINAL"
  shows "transition (k_id k) new reason s = Inr (s\<lparr>
     active := map (\<lambda>x. if k_id x = k_id k then x\<lparr>k_status := new, k_failure := reason\<rparr> else x) (active s),
     rows := map (\<lambda>(j, st). if j = k_id k \<and> st \<notin> set TERMINAL then (j, new) else (j, st)) (rows s)\<rparr>)"
  using find_by_id [of "active s" k] assms by (simp add: transition_def ids_distinct_def)

abbreviation settle :: "oco_link \<Rightarrow> link_status \<Rightarrow> string option \<Rightarrow> oco_link \<Rightarrow> oco_link" where
  "settle k st reason x \<equiv> (if k_id x = k_id k then x\<lparr>k_status := st, k_failure := reason\<rparr> else x)"

text \<open>One fill of a live link: one cancel, and the link is settled for good.\<close>

lemma process_fill_live:
  fixes cancel :: "string \<Rightarrow> uuid \<Rightarrow> string \<Rightarrow> bool"
  assumes "ids_distinct s" and "leader s" and k: "find_link s broker oid = Some k"
    and live: "k_status k \<notin> set TERMINAL"
  defines "survivor \<equiv> if oid = k_a k then k_b k else k_a k"
  defines "ok \<equiv> cancel (k_broker k) (k_account k) survivor"
  obtains s' where "process_fill_event cancel broker oid s = Inr s'"
    and "cancels s' = cancels s @ [(k_broker k, k_account k, survivor)]"
    and "active s' = map (settle k (if ok then Completed else Cancel_Failed)
           (if ok then None else Some ''cancel_rejected: broker rejected sibling cancel'')) (active s)"
    and "leader s'"
proof -
  let ?st = "if oid = k_a k then Leg_A_Filled else Leg_B_Filled"
  let ?fin = "if ok then Completed else Cancel_Failed"
  let ?why = "if ok then None else Some ''cancel_rejected: broker rejected sibling cancel''"
  let ?k1 = "k\<lparr>k_status := ?st, k_failure := None\<rparr>"
  from find_link_mem [OF k] have mem: "k \<in> set (active s)" by simp
  from transition_known [OF assms(1) mem live, of ?st None]
  obtain s1 where s1: "transition (k_id k) ?st None s = Inr s1"
      and a1: "active s1 = map (settle k ?st None) (active s)" and c1: "cancels s1 = cancels s" "leader s1 = leader s"
    by simp
  let ?s2 = "s1\<lparr>cancels := cancels s1 @ [(k_broker k, k_account k, survivor)]\<rparr>"
  have ids: "map k_id (map (settle k ?st None) (active s)) = map k_id (active s)" by (induction "active s") auto
  have "ids_distinct ?s2" using assms(1) ids by (simp add: ids_distinct_def a1 del: map_map)
  moreover have "?k1 \<in> set (active ?s2)" using mem by (auto simp: a1)
  moreover have "k_status ?k1 \<notin> set TERMINAL" by (simp add: TERMINAL_def)
  ultimately obtain s3 where s3: "transition (k_id ?k1) ?fin ?why ?s2 = Inr s3"
      and a3: "active s3 = map (settle ?k1 ?fin ?why) (active ?s2)" and c3: "cancels s3 = cancels ?s2" "leader s3 = leader s1"
    using transition_known [of ?s2 ?k1 ?fin ?why] by simp
  have "process_fill_event cancel broker oid s = Inr s3"
    using assms(2) k live s1 s3 by (simp add: process_fill_event_def survivor_def ok_def Let_def)
  moreover have "active s3 = map (settle k ?fin ?why) (active s)"
    by (auto simp: a3 a1)
  ultimately show thesis using that c1 c3 assms(2) by simp
qed

definition live_links :: "orch \<Rightarrow> nat" where
  "live_links s = length (filter (\<lambda>k. k_status k \<notin> set TERMINAL) (active s))"

lemma settle_ids: "map k_id (map (settle k st why) ks) = map k_id ks"
  by (induction ks) auto

lemma settle_live:
  assumes "distinct (map k_id ks)" and "k \<in> set ks" and "k_status k \<notin> set TERMINAL" and "st \<in> set TERMINAL"
  shows "length (filter (\<lambda>k. k_status k \<notin> set TERMINAL) ks)
       = Suc (length (filter (\<lambda>k. k_status k \<notin> set TERMINAL) (map (settle k st why) ks)))"
  using assms
proof (induction ks)
  case Nil
  then show ?case by simp
next
  case (Cons x ks)
  show ?case
  proof (cases "x = k")
    case True
    with Cons.prems have "map (settle k st why) ks = ks" by (intro map_idI) (auto simp: image_iff)
    with True Cons.prems show ?thesis by simp
  next
    case False
    with Cons.prems have "k \<in> set ks" and "k_id x \<noteq> k_id k" by auto
    with Cons show ?thesis by simp
  qed
qed

definition oco_ok :: "nat \<Rightarrow> orch \<Rightarrow> bool" where
  "oco_ok n s \<longleftrightarrow> ids_distinct s \<and> length (cancels s) + live_links s = n"

lemma on_fill_ok:
  assumes "oco_ok n s"
  shows "oco_ok n (on_fill cancel ev s)"
proof -
  obtain broker oid where ev: "ev = (broker, oid)" by (cases ev)
  show ?thesis
  proof (cases "leader s \<and> (\<exists>k. find_link s broker oid = Some k \<and> k_status k \<notin> set TERMINAL)")
    case False
    then have "process_fill_event cancel broker oid s = Inr s"
      by (auto simp: process_fill_event_def split: option.splits)
    with assms ev show ?thesis by (simp add: on_fill_def)
  next
    case True
    then obtain k where l: "leader s" and k: "find_link s broker oid = Some k" "k_status k \<notin> set TERMINAL" by blast
    have d: "ids_distinct s" using assms by (simp add: oco_ok_def)
    let ?sib = "if oid = k_a k then k_b k else k_a k"
    let ?ok = "cancel (k_broker k) (k_account k) ?sib"
    define st where "st = (if ?ok then Completed else Cancel_Failed)"
    define why where "why = (if ?ok then None else Some ''cancel_rejected: broker rejected sibling cancel'')"
    obtain s' where s': "process_fill_event cancel broker oid s = Inr s'"
        "cancels s' = cancels s @ [(k_broker k, k_account k, ?sib)]" "active s' = map (settle k st why) (active s)"
      unfolding st_def why_def by (rule process_fill_live [OF d l k, of cancel])
    have st: "st \<in> set TERMINAL" by (simp add: st_def TERMINAL_def)
    have mem: "k \<in> set (active s)" using find_link_mem [OF k(1)] by simp
    have "live_links s = Suc (live_links s')"
      unfolding live_links_def s'(3) using settle_live [OF d [unfolded ids_distinct_def] mem k(2) st] .
    moreover have "ids_distinct s'"
      using d settle_ids [where k = k and st = st and why = why and ks = "active s"] by (simp add: ids_distinct_def s'(3) del: map_map)
    ultimately show ?thesis using assms s'(1,2) ev by (simp add: oco_ok_def on_fill_def)
  qed
qed

interpretation fills: invariant_machine "on_fill cancel" "oco_ok n" for cancel n
  by unfold_locales (rule on_fill_ok)

section \<open>Properties\<close>

text \<open>A fill of either leg of a live link, seen by the leader, sends exactly one cancel, for the other leg, and
  settles the link: completed when the broker accepts the cancel, failed otherwise.\<close>

theorem fill_cancels_sibling:
  fixes cancel :: "string \<Rightarrow> uuid \<Rightarrow> string \<Rightarrow> bool"
  assumes "ids_distinct s" and "leader s" and "find_link s broker oid = Some k"
    and "k_status k \<notin> set TERMINAL"
  shows "\<exists>s'. process_fill_event cancel broker oid s = Inr s'
    \<and> cancels s' = cancels s @ [(k_broker k, k_account k, if oid = k_a k then k_b k else k_a k)]
    \<and> (\<forall>x \<in> set (active s'). k_id x = k_id k \<longrightarrow> k_status x \<in> {Completed, Cancel_Failed})"
proof -
  let ?ok = "cancel (k_broker k) (k_account k) (if oid = k_a k then k_b k else k_a k)"
  obtain s' where s': "process_fill_event cancel broker oid s = Inr s'"
      "cancels s' = cancels s @ [(k_broker k, k_account k, if oid = k_a k then k_b k else k_a k)]"
      "active s' = map (settle k (if ?ok then Completed else Cancel_Failed)
           (if ?ok then None else Some ''cancel_rejected: broker rejected sibling cancel'')) (active s)"
    by (rule process_fill_live [OF assms, of cancel])
  have "\<forall>x \<in> set (active s'). k_id x = k_id k \<longrightarrow> k_status x \<in> {Completed, Cancel_Failed}"
    unfolding s'(3) by auto
  with s'(1,2) show ?thesis by blast
qed

definition demo_link :: oco_link where
  "demo_link = \<lparr>k_id = ''k'', k_broker = ''alpaca'', k_account = ''a1'', k_a = ''x'', k_b = ''y'',
     k_status = Pending_Both, k_failure = None\<rparr>"

definition demo_orch :: orch where
  "demo_orch = \<lparr>active = [demo_link], rows = [(''k'', Pending_Both)], leader = True, cancels = []\<rparr>"

theorem fill_cancels_sibling_witness:
  "\<exists>s'. process_fill_event (\<lambda>_ _ _. True) ''alpaca'' ''x'' demo_orch = Inr s' \<and> cancels s' = [(''alpaca'', ''a1'', ''y'')]"
  using fill_cancels_sibling [of demo_orch "''alpaca''" "''x''" demo_link "\<lambda>_ _ _. True"]
  by (auto simp: demo_orch_def demo_link_def ids_distinct_def find_link_def TERMINAL_def)



text \<open>Over a client that returns bytes, as the one the application builds does, the first renewal demotes the
  leader although it holds the lock, and a demoted instance ignores every fill.\<close>

theorem bytes_reply_demotes_leader:
  assumes "\<not> leader s"
  shows "i \<notin> leaders (renew_lock False i e) \<and> process_fill_event cancel broker oid s = Inr s"
  using assms by (simp add: renew_lock_def redis_get_def process_fill_event_def)

theorem bytes_reply_demotes_leader_witness:
  "0 \<notin> leaders (renew_lock False 0 (start_instance 0 election_start))
   \<and> process_fill_event (\<lambda>_ _ _. True) ''alpaca'' ''x'' (demo_orch\<lparr>leader := False\<rparr>) = Inr (demo_orch\<lparr>leader := False\<rparr>)"
  by (rule bytes_reply_demotes_leader) (simp add: demo_orch_def)

text \<open>The lock does not keep two instances from leading at once: the token does not name its owner, so an
  instance that was held up past the expiry renews the lock another one has taken since.\<close>

theorem two_leaders_reachable:
  "\<exists>e. elect True election_start e \<and> {0, 1} \<subseteq> leaders e \<and> lock_held e"
proof -
  let ?e1 = "start_instance 0 election_start"
  let ?e2 = "?e1\<lparr>now_s := now_s ?e1 + 61\<rparr>"
  let ?e3 = "start_instance 1 ?e2"
  let ?e4 = "renew_lock True 0 ?e3"
  have "elect True election_start ?e3"
    by (intro elect_start elect_tick elect_refl) simp
  moreover have "0 \<in> leaders ?e3"
    by (simp add: start_instance_def set_expiry_def election_start_def lock_held_def LOCK_TTL_SECONDS_def)
  ultimately have "elect True election_start ?e4" by (rule elect_renew)
  moreover have "{0, 1} \<subseteq> leaders ?e4 \<and> lock_held ?e4"
    by (simp add: renew_lock_def redis_get_def start_instance_def set_expiry_def election_start_def
        lock_held_def LOCK_TTL_SECONDS_def LOCK_TOKEN_def)
  ultimately show ?thesis by blast
qed

end
