(* ===== verification/Canonical_Ids.thy ===== *)
theory Canonical_Ids
  imports Prelude
begin

text \<open>
  The helpers of \<open>backend/app/services/quotes/base.py\<close>: canonical instrument ids
  \<open><asset_class>:<symbol>:<country>[:<exchange>]\<close>, the pence guard for London listings and the
  exchange-to-country table. Case folding is that of ASCII text.
\<close>

definition canonical_key :: "string \<Rightarrow> string \<Rightarrow> string \<Rightarrow> string option \<Rightarrow> string" where
  "canonical_key asset_class symbol country exchange =
     (let base = lower asset_class @ CHR '':'' # upper symbol @ CHR '':'' # upper country in
      case exchange of
        Some (c # cs) \<Rightarrow> base @ CHR '':'' # upper (c # cs)
      | _ \<Rightarrow> base)"

definition parse_canonical_id :: "string \<Rightarrow> exn + (string \<times> string \<times> string \<times> string option)" where
  "parse_canonical_id s =
     (let parts = split_on (CHR '':'') s in
      if length parts < 3 \<or> 4 < length parts \<or> [] \<in> set parts
      then Inl (ValueError ''malformed canonical_id'')
      else Inr (parts ! 0, parts ! 1, parts ! 2, if length parts = 4 then Some (parts ! 3) else None))"

definition canonical_id_components :: "string \<Rightarrow> exn + (string \<times> string \<times> string)" where
  "canonical_id_components s = rbind (parse_canonical_id s) (\<lambda>(a, y, c, _). Inr (a, y, c))"

definition canonical_id_with_exchange :: "string \<Rightarrow> exn + (string \<times> string \<times> string \<times> string option)" where
  "canonical_id_with_exchange s = parse_canonical_id s"

definition UK_PENCE_EXCHANGES :: "string list" where
  "UK_PENCE_EXCHANGES = [''LSE'', ''LSEETF'']"

definition PENCE_CURRENCIES :: "string list" where
  "PENCE_CURRENCIES = [''GBP'', ''GBX'']"

text \<open>Prices are finite \<open>Decimal\<close>s here; the check for non-finite floats has no counterpart.\<close>

definition scale_gbx_if_needed :: "decimal option \<Rightarrow> string \<Rightarrow> string \<Rightarrow> decimal option" where
  "scale_gbx_if_needed value currency exchange =
     (case value of None \<Rightarrow> None | Some v \<Rightarrow>
      if upper currency \<notin> set PENCE_CURRENCIES then Some v
      else if upper exchange \<notin> set UK_PENCE_EXCHANGES then Some v
      else Some (v / 100))"

definition EXCHANGE_TO_COUNTRY :: "(string \<times> string) list" where
  "EXCHANGE_TO_COUNTRY =
     [(''NASDAQ'', ''US''), (''NYSE'', ''US''), (''ARCA'', ''US''), (''AMEX'', ''US''), (''BATS'', ''US''),
      (''IEX'', ''US''), (''CBOE'', ''US''), (''SMART'', ''US''), (''LSE'', ''UK''), (''LSEETF'', ''UK''),
      (''SEHK'', ''HK''), (''HKEX'', ''HK''), (''TSE'', ''JP''), (''TSEJ'', ''JP''), (''XETRA'', ''DE''),
      (''IBIS'', ''DE''), (''AEB'', ''NL''), (''SBF'', ''FR''), (''SSE'', ''CN''), (''SZSE'', ''CN''),
      (''PAXOS'', ''CRYPTO''), (''CRYPTO'', ''CRYPTO'')]"

definition country_for_exchange :: "string option \<Rightarrow> string option" where
  "country_for_exchange exchange =
     (case exchange of None \<Rightarrow> None | Some [] \<Rightarrow> None
      | Some (c # cs) \<Rightarrow> map_of EXCHANGE_TO_COUNTRY (upper (c # cs)))"

section \<open>Properties\<close>

abbreviation seg :: "string \<Rightarrow> bool" where
  "seg s \<equiv> s \<noteq> [] \<and> CHR '':'' \<notin> set s"

lemma canonical_key_join:
  "canonical_key a y c e = join_with (CHR '':'')
     ([lower a, upper y, upper c] @ (case e of Some (x # xs) \<Rightarrow> [upper (x # xs)] | _ \<Rightarrow> []))"
  by (auto simp: canonical_key_def Let_def split: option.splits list.splits)

text \<open>Parsing a canonical id built from non-empty segments without colons gives back its segments, the asset
  class in lower case and the others in upper case, and an empty exchange counts as none.\<close>

theorem canonical_id_roundtrip:
  assumes "seg a" and "seg y" and "seg c" and "\<forall>x. e = Some x \<longrightarrow> CHR '':'' \<notin> set x"
  shows "canonical_id_with_exchange (canonical_key a y c e) =
    Inr (lower a, upper y, upper c, if e = Some [] then None else map_option upper e)"
proof -
  let ?parts = "[lower a, upper y, upper c] @ (case e of Some (x # xs) \<Rightarrow> [upper (x # xs)] | _ \<Rightarrow> [])"
  have "\<forall>p \<in> set ?parts. CHR '':'' \<notin> set p"
    using assms by (auto split: option.splits list.splits simp del: upper_eq_Nil)
  then have "split_on (CHR '':'') (canonical_key a y c e) = ?parts"
    unfolding canonical_key_join by (intro split_join) auto
  then show ?thesis
    using assms by (cases e; cases "the e")
      (auto simp: canonical_id_with_exchange_def parse_canonical_id_def Let_def)
qed

theorem canonical_id_roundtrip_witness:
  "canonical_id_with_exchange (canonical_key ''Stock'' ''aapl'' ''us'' (Some ''nyse'')) =
     Inr (''stock'', ''AAPL'', ''US'', Some ''NYSE'')"
proof -
  have "lower ''Stock'' = ''stock''" "upper ''aapl'' = ''AAPL''" "upper ''us'' = ''US''" "upper ''nyse'' = ''NYSE''"
    by code_simp+
  then show ?thesis using canonical_id_roundtrip [of "''Stock''" "''aapl''" "''us''" "Some ''nyse''"] by simp
qed

end
