(* ===== verification/Quote_Registry.thy ===== *)
theory Quote_Registry
  imports Prelude
begin

text \<open>
  \<open>backend/app/services/quotes/registry.py\<close>: which WebSocket is subscribed to which instrument, the
  global reference count of each instrument, the caps, the rate window and the count per
  upstream source.

  Dictionaries are association lists, since their sizes matter; the set of a WebSocket is a list
  without duplicates in insertion order. Every operation runs under one lock, so it is a function
  of the state. Metrics are left out. \<open>reg_step\<close> is one operation of a run.
\<close>

section \<open>State\<close>

datatype ws_conn = WsUuid uuid | WsStr string

record registry =
  per_ws :: "(ws_conn \<times> string list) list"
  global_refs :: "(string \<times> nat) list"
  routes :: "(string \<times> string) list"
  rate_buckets :: "(ws_conn \<times> decimal list) list"
  per_source :: "(string \<times> nat) list"

record reg_config =
  cap_per_ws :: nat
  cap_global :: nat
  rate_limit :: nat
  cap_override :: "(string \<times> nat) list"

record sub_diff =
  added :: "string list"
  rej_rate :: "string list"
  rej_ws :: "string list"
  rej_global :: "string list"
  rej_source :: "string list"

definition RATE_WINDOW_SECONDS :: decimal where "RATE_WINDOW_SECONDS = 60"
definition CAP_PER_SOURCE :: nat where "CAP_PER_SOURCE = 25"
definition MAX_SOURCES :: nat where "MAX_SOURCES = 32"

definition no_diff :: sub_diff where
  "no_diff = \<lparr>added = [], rej_rate = [], rej_ws = [], rej_global = [], rej_source = []\<rparr>"

definition empty_registry :: registry where
  "empty_registry = \<lparr>per_ws = [], global_refs = [], routes = [], rate_buckets = [], per_source = []\<rparr>"

fun is_internal :: "ws_conn \<Rightarrow> bool" where
  "is_internal (WsUuid _) = False"
| "is_internal (WsStr s) = (take 11 s = ''__internal:'')"

fun ws_cap :: "reg_config \<Rightarrow> ws_conn \<Rightarrow> nat" where
  "ws_cap cfg (WsUuid u) = cap_per_ws cfg"
| "ws_cap cfg (WsStr s) =
     (if is_internal (WsStr s)
      then (case map_of (cap_override cfg) s of Some n \<Rightarrow> n | None \<Rightarrow> cap_per_ws cfg)
      else cap_per_ws cfg)"

definition subs_of :: "registry \<Rightarrow> ws_conn \<Rightarrow> string list" where
  "subs_of r ws = (case map_of (per_ws r) ws of Some l \<Rightarrow> l | None \<Rightarrow> [])"

definition source_count :: "registry \<Rightarrow> string \<Rightarrow> nat" where
  "source_count r src = (case map_of (per_source r) src of Some n \<Rightarrow> n | None \<Rightarrow> 0)"

section \<open>Subscribing\<close>

definition evict_rate_window :: "decimal \<Rightarrow> decimal list \<Rightarrow> decimal list" where
  "evict_rate_window now b = dropWhile (\<lambda>t. t < now - RATE_WINDOW_SECONDS) b"

definition bump_source :: "string option \<Rightarrow> registry \<Rightarrow> registry" where
  "bump_source src r = (case src of None \<Rightarrow> r | Some s \<Rightarrow>
     if length (per_source r) < MAX_SOURCES \<or> map_of (per_source r) s \<noteq> None
     then r\<lparr>per_source := AList.update s (source_count r s + 1) (per_source r)\<rparr> else r)"

definition accept :: "ws_conn \<Rightarrow> string \<Rightarrow> registry \<Rightarrow> registry" where
  "accept ws cid r =
     (let prev = (case map_of (global_refs r) cid of Some n \<Rightarrow> n | None \<Rightarrow> 0);
          r1 = r\<lparr>per_ws := AList.update ws (subs_of r ws @ [cid]) (per_ws r),
                 global_refs := AList.update cid (prev + 1) (global_refs r)\<rparr>
      in if prev = 0 then bump_source (map_of (routes r) cid) r1 else r1)"

text \<open>One symbol of the batch; the rate bucket is a local of the call.\<close>

fun add_sym ::
  "reg_config \<Rightarrow> ws_conn \<Rightarrow> decimal \<Rightarrow> string \<Rightarrow> registry \<times> decimal list \<times> sub_diff \<Rightarrow> registry \<times> decimal list \<times> sub_diff" where
  "add_sym cfg ws now cid (r, bucket, d) =
     (if cid \<in> set (subs_of r ws) then (r, bucket, d)
      else
        let bucket' = (if is_internal ws then bucket else bucket @ [now]) in
        if \<not> is_internal ws \<and> rate_limit cfg < length bucket' then (r, bucket', d\<lparr>rej_rate := rej_rate d @ [cid]\<rparr>)
        else if ws_cap cfg ws \<le> length (subs_of r ws) then (r, bucket', d\<lparr>rej_ws := rej_ws d @ [cid]\<rparr>)
        else if cap_global cfg \<le> length (global_refs r) \<and> map_of (global_refs r) cid = None
          then (r, bucket', d\<lparr>rej_global := rej_global d @ [cid]\<rparr>)
        else if (case map_of (routes r) cid of Some s \<Rightarrow> CAP_PER_SOURCE \<le> source_count r s | None \<Rightarrow> False)
          then (r, bucket', d\<lparr>rej_source := rej_source d @ [cid]\<rparr>)
        else (accept ws cid r, bucket',
              if map_of (global_refs r) cid = None then d\<lparr>added := added d @ [cid]\<rparr> else d))"

definition add_ws :: "reg_config \<Rightarrow> ws_conn \<Rightarrow> string list \<Rightarrow> decimal \<Rightarrow> registry \<Rightarrow> registry \<times> sub_diff" where
  "add_ws cfg ws syms now r =
     (if syms = [] then (r, no_diff)
      else
        let old = map_of (rate_buckets r) ws;
            b0 = (case old of Some b \<Rightarrow> evict_rate_window now b | None \<Rightarrow> []);
            (r', b, d) = fold (add_sym cfg ws now) syms (r, b0, no_diff)
        in (if old = None \<and> b = [] then r' else r'\<lparr>rate_buckets := AList.update ws b (rate_buckets r')\<rparr>, d))"

section \<open>Unsubscribing\<close>

definition drop_source :: "string option \<Rightarrow> registry \<Rightarrow> registry" where
  "drop_source src r = (case src of None \<Rightarrow> r | Some s \<Rightarrow>
     if source_count r s \<le> 1 then r\<lparr>per_source := AList.delete s (per_source r)\<rparr>
     else r\<lparr>per_source := AList.update s (source_count r s - 1) (per_source r)\<rparr>)"

definition decrement_locked :: "string \<Rightarrow> registry \<times> string list \<Rightarrow> registry \<times> string list" where
  "decrement_locked cid = (\<lambda>(r, removed).
     let prev = (case map_of (global_refs r) cid of Some n \<Rightarrow> n | None \<Rightarrow> 0) in
     if prev \<le> 1 then
       (drop_source (map_of (routes r) cid)
          (r\<lparr>routes := AList.delete cid (routes r), global_refs := AList.delete cid (global_refs r)\<rparr>),
        removed @ [cid])
     else (r\<lparr>global_refs := AList.update cid (prev - 1) (global_refs r)\<rparr>, removed))"

definition remove_sym :: "ws_conn \<Rightarrow> string \<Rightarrow> registry \<times> string list \<Rightarrow> registry \<times> string list" where
  "remove_sym ws cid = (\<lambda>(r, removed).
     if cid \<notin> set (subs_of r ws) then (r, removed)
     else decrement_locked cid
            (r\<lparr>per_ws := AList.update ws (removeAll cid (subs_of r ws)) (per_ws r)\<rparr>, removed))"

definition drop_ws :: "ws_conn \<Rightarrow> registry \<Rightarrow> registry" where
  "drop_ws ws r = r\<lparr>per_ws := AList.delete ws (per_ws r), rate_buckets := AList.delete ws (rate_buckets r)\<rparr>"

definition remove_subs :: "ws_conn \<Rightarrow> string list \<Rightarrow> registry \<Rightarrow> registry \<times> string list" where
  "remove_subs ws syms r =
     (if subs_of r ws = [] then (r, [])
      else let (r', removed) = fold (remove_sym ws) syms (r, [])
           in (if subs_of r' ws = [] then drop_ws ws r' else r', removed))"

definition remove_ws :: "ws_conn \<Rightarrow> registry \<Rightarrow> registry \<times> string list" where
  "remove_ws ws r = fold decrement_locked (subs_of r ws) (drop_ws ws r, [])"

definition decrement_for_source :: "string \<Rightarrow> nat \<Rightarrow> registry \<Rightarrow> registry" where
  "decrement_for_source src n r =
     (let v = source_count r src - n in
      if v = 0 then r\<lparr>per_source := AList.delete src (per_source r)\<rparr>
      else r\<lparr>per_source := AList.update src v (per_source r)\<rparr>)"

definition set_route :: "string \<Rightarrow> string \<Rightarrow> registry \<Rightarrow> registry" where
  "set_route cid src r = r\<lparr>routes := AList.update cid src (routes r)\<rparr>"

definition get_active_for :: "string \<Rightarrow> registry \<Rightarrow> string list" where
  "get_active_for src r = map fst (filter (\<lambda>(_, s). s = src) (routes r))"

datatype reg_op =
    AddOp ws_conn "string list" decimal | RemoveOp ws_conn "string list" | RemoveWsOp ws_conn
  | DecSourceOp string nat | RouteOp string string

fun reg_step :: "reg_config \<Rightarrow> reg_op \<Rightarrow> registry \<Rightarrow> registry" where
  "reg_step cfg (AddOp ws syms now) r = fst (add_ws cfg ws syms now r)"
| "reg_step cfg (RemoveOp ws syms) r = fst (remove_subs ws syms r)"
| "reg_step cfg (RemoveWsOp ws) r = fst (remove_ws ws r)"
| "reg_step cfg (DecSourceOp src n) r = decrement_for_source src n r"
| "reg_step cfg (RouteOp cid src) r = set_route cid src r"

section \<open>Reference counts\<close>

definition subscribers :: "registry \<Rightarrow> string \<Rightarrow> ws_conn set" where
  "subscribers r cid = {ws. cid \<in> set (subs_of r ws)}"

text \<open>
  The counts, when the symbols of \<open>E\<close> are still counted once more than they have subscribers:
  the state between taking a symbol from a WebSocket and decrementing it.
\<close>

definition counted :: "string set \<Rightarrow> registry \<Rightarrow> bool" where
  "counted E r \<longleftrightarrow> (\<forall>cid. map_of (global_refs r) cid =
     (let n = card (subscribers r cid) + (if cid \<in> E then 1 else 0) in if n = 0 then None else Some n))"

definition capped :: "reg_config \<Rightarrow> registry \<Rightarrow> bool" where
  "capped cfg r \<longleftrightarrow> length (global_refs r) \<le> cap_global cfg
     \<and> (\<forall>ws. distinct (subs_of r ws) \<and> length (subs_of r ws) \<le> ws_cap cfg ws)"

definition reg_ok :: "reg_config \<Rightarrow> registry \<Rightarrow> bool" where
  "reg_ok cfg r \<longleftrightarrow> counted {} r \<and> capped cfg r"

lemma finite_subscribers: "finite (subscribers r cid)"
proof (rule finite_subset)
  show "subscribers r cid \<subseteq> fst ` set (per_ws r)"
    by (auto simp: subscribers_def subs_of_def split: option.splits) (metis domI dom_map_of_conv_image_fst)
qed simp

lemma subs_of_update [simp]: "subs_of (r\<lparr>per_ws := AList.update ws l (per_ws r)\<rparr>) = (subs_of r)(ws := l)"
  by (auto simp: subs_of_def fun_eq_iff)

lemma subs_of_frames [simp]:
  "subs_of (r\<lparr>global_refs := g\<rparr>) = subs_of r" "subs_of (r\<lparr>routes := t\<rparr>) = subs_of r"
  "subs_of (r\<lparr>rate_buckets := b\<rparr>) = subs_of r" "subs_of (r\<lparr>per_source := p\<rparr>) = subs_of r"
  by (simp_all add: subs_of_def fun_eq_iff)

lemma subs_of_drop_ws [simp]: "subs_of (drop_ws ws r) = (subs_of r)(ws := [])"
  by (auto simp: subs_of_def drop_ws_def fun_eq_iff)

lemma source_frames [simp]:
  "subs_of (bump_source s r) = subs_of r" "global_refs (bump_source s r) = global_refs r"
  "subs_of (drop_source s r) = subs_of r" "global_refs (drop_source s r) = global_refs r"
  by (auto simp: bump_source_def drop_source_def split: option.splits)

lemma counted_cong:
  "\<lbrakk>subs_of r' = subs_of r; global_refs r' = global_refs r\<rbrakk> \<Longrightarrow> counted E r' = counted E r"
  by (simp add: counted_def subscribers_def)

lemma capped_cong:
  "\<lbrakk>subs_of r' = subs_of r; global_refs r' = global_refs r\<rbrakk> \<Longrightarrow> capped cfg r' = capped cfg r"
  by (simp add: capped_def)

lemma reg_ok_frames [simp]:
  "reg_ok cfg (r\<lparr>rate_buckets := b\<rparr>) = reg_ok cfg r" "reg_ok cfg (r\<lparr>routes := t\<rparr>) = reg_ok cfg r"
  "reg_ok cfg (r\<lparr>per_source := p\<rparr>) = reg_ok cfg r"
  by (simp_all add: reg_ok_def counted_def capped_def subscribers_def)

lemma accept_subs: "subs_of (accept ws cid r) = (subs_of r)(ws := subs_of r ws @ [cid])"
  by (simp add: accept_def Let_def)

lemma accept_refs: "global_refs (accept ws cid r) =
    AList.update cid ((case map_of (global_refs r) cid of Some n \<Rightarrow> n | None \<Rightarrow> 0) + 1) (global_refs r)"
  by (simp add: accept_def Let_def)

lemma accept_counted:
  assumes "counted {} r" and "cid \<notin> set (subs_of r ws)"
  shows "counted {} (accept ws cid r)"
proof -
  have same: "subscribers (accept ws cid r) c = (if c = cid then insert ws (subscribers r c) else subscribers r c)" for c
    using assms(2) by (auto simp: subscribers_def accept_subs)
  have new: "ws \<notin> subscribers r cid" using assms(2) by (simp add: subscribers_def)
  have "map_of (global_refs (accept ws cid r)) c =
      (if c = cid then Some (card (subscribers r cid) + 1) else map_of (global_refs r) c)" for c
    using assms(1) by (auto simp: accept_refs counted_def Let_def split: option.splits)
  with assms(1) same new finite_subscribers show ?thesis
    by (auto simp: counted_def Let_def)
qed

lemma accept_capped:
  assumes "capped cfg r" and "cid \<notin> set (subs_of r ws)" and "length (subs_of r ws) < ws_cap cfg ws"
    and "length (global_refs r) < cap_global cfg \<or> map_of (global_refs r) cid \<noteq> None"
  shows "capped cfg (accept ws cid r)"
proof -
  have "map_of (global_refs r) cid \<noteq> None \<longleftrightarrow> cid \<in> fst ` set (global_refs r)"
    by (metis map_of_eq_None_iff)
  with assms show ?thesis
    by (auto simp: capped_def accept_subs accept_refs length_AList_update)
qed

lemma decrement_locked_step:
  assumes "counted E r" and "cid \<in> E" and "decrement_locked cid (r, rm) = (r', rm')"
  shows "counted (E - {cid}) r'" and "subs_of r' = subs_of r"
    and "length (global_refs r') \<le> length (global_refs r)"
proof -
  have refs: "map_of (global_refs r) cid = Some (card (subscribers r cid) + 1)"
    using assms(1,2) by (simp add: counted_def)
  have del: "map_of (global_refs r') cid = (if subscribers r cid = {} then None else Some (card (subscribers r cid)))"
    and oth: "c \<noteq> cid \<Longrightarrow> map_of (global_refs r') c = map_of (global_refs r) c" for c
    using assms(3) refs finite_subscribers [of r cid]
    by (auto simp: decrement_locked_def Let_def card_eq_0_iff split: if_splits)
  show subs: "subs_of r' = subs_of r"
    using assms(3) by (auto simp: decrement_locked_def Let_def split: if_splits)
  have mem: "cid \<in> fst ` set (global_refs r)" using refs by (metis map_of_eq_None_iff option.distinct(1))
  show "length (global_refs r') \<le> length (global_refs r)"
    using assms(3) by (force simp: decrement_locked_def Let_def length_AList_update mem length_AList_delete_le
        split: if_splits)
  show "counted (E - {cid}) r'"
    unfolding counted_def
  proof
    fix c
    have "subscribers r' c = subscribers r c" by (simp add: subscribers_def subs)
    with del oth [of c] assms(1) finite_subscribers [of r c] show "map_of (global_refs r') c =
        (let n = card (subscribers r' c) + (if c \<in> E - {cid} then 1 else 0) in if n = 0 then None else Some n)"
      by (cases "c = cid") (auto simp: counted_def Let_def)
  qed
qed

lemma decrement_all:
  assumes "counted (E \<union> set cs) r" and "distinct cs" and "E \<inter> set cs = {}"
    and "fold decrement_locked cs (r, rm) = (r', rm')"
  shows "counted E r' \<and> subs_of r' = subs_of r \<and> length (global_refs r') \<le> length (global_refs r)"
  using assms
proof (induction cs arbitrary: r rm)
  case Nil
  then show ?case by simp
next
  case (Cons c cs)
  obtain r1 rm1 where d: "decrement_locked c (r, rm) = (r1, rm1)" by (cases "decrement_locked c (r, rm)")
  note st = decrement_locked_step [OF Cons.prems(1) _ d]
  have "(E \<union> set (c # cs)) - {c} = E \<union> set cs" using Cons.prems(2,3) by auto
  with st(1) have "counted (E \<union> set cs) r1" by simp
  with Cons.IH [of r1 rm1] Cons.prems d have
    "counted E r' \<and> subs_of r' = subs_of r1 \<and> length (global_refs r') \<le> length (global_refs r1)" by simp
  with st(2,3) show ?case by simp
qed

section \<open>Every operation keeps the counts and the caps\<close>

lemma add_sym_ok:
  assumes "reg_ok cfg r" and "add_sym cfg ws now cid (r, b, d) = (r', b', d')"
  shows "reg_ok cfg r'"
  using assms accept_counted accept_capped
  by (auto simp: reg_ok_def Let_def not_le split: if_splits)

lemma fold_add_sym_ok:
  "\<lbrakk>reg_ok cfg r; fold (add_sym cfg ws now) cs (r, b, d) = (r', b', d')\<rbrakk> \<Longrightarrow> reg_ok cfg r'"
proof (induction cs arbitrary: r b d)
  case Nil
  then show ?case by simp
next
  case (Cons c cs)
  obtain r1 b1 d1 where a: "add_sym cfg ws now c (r, b, d) = (r1, b1, d1)" by (metis prod_cases3)
  from Cons.IH [OF add_sym_ok [OF Cons.prems(1) a]] Cons.prems(2) a show ?case by (simp del: add_sym.simps)
qed

lemma add_ws_ok: "reg_ok cfg r \<Longrightarrow> reg_ok cfg (fst (add_ws cfg ws syms now r))"
proof -
  assume ok: "reg_ok cfg r"
  obtain r' b d where f: "fold (add_sym cfg ws now) syms
      (r, (case map_of (rate_buckets r) ws of Some b \<Rightarrow> evict_rate_window now b | None \<Rightarrow> []), no_diff) = (r', b, d)"
    by (metis prod_cases3)
  from fold_add_sym_ok [OF ok f] ok f show ?thesis
    by (auto simp: add_ws_def Let_def simp del: add_sym.simps)
qed

lemma take_from_ws:
  assumes "counted {} r" and "cid \<in> set (subs_of r ws)"
  shows "counted {cid} (r\<lparr>per_ws := AList.update ws (removeAll cid (subs_of r ws)) (per_ws r)\<rparr>)"
    (is "counted _ ?r")
  unfolding counted_def
proof
  fix c
  have s: "subscribers ?r c = (if c = cid then subscribers r c - {ws} else subscribers r c)"
    by (auto simp: subscribers_def)
  have w: "ws \<in> subscribers r cid" using assms(2) by (simp add: subscribers_def)
  have "card (subscribers r cid) = Suc (card (subscribers r cid - {ws}))"
    using card.remove [OF finite_subscribers w] .
  with s assms(1) show "map_of (global_refs ?r) c =
      (let n = card (subscribers ?r c) + (if c \<in> {cid} then 1 else 0) in if n = 0 then None else Some n)"
    by (auto simp: counted_def Let_def)
qed

lemma remove_sym_ok:
  assumes "reg_ok cfg r" and "remove_sym ws cid (r, rm) = (r', rm')"
  shows "reg_ok cfg r'"
proof (cases "cid \<in> set (subs_of r ws)")
  case False
  with assms show ?thesis by (simp add: remove_sym_def)
next
  case True
  let ?r = "r\<lparr>per_ws := AList.update ws (removeAll cid (subs_of r ws)) (per_ws r)\<rparr>"
  from True assms(2) have d: "decrement_locked cid (?r, rm) = (r', rm')" by (simp add: remove_sym_def)
  have c: "counted {cid} ?r" using assms(1) True by (simp add: reg_ok_def take_from_ws)
  note st = decrement_locked_step [OF c _ d]
  have "length (removeAll cid (subs_of r ws)) \<le> ws_cap cfg ws"
  proof (rule order_trans)
    show "length (subs_of r ws) \<le> ws_cap cfg ws" using assms(1) by (simp add: reg_ok_def capped_def)
  qed (rule length_removeAll_less_eq)
  with st assms(1) show ?thesis
    by (auto simp: reg_ok_def capped_def distinct_removeAll intro: order_trans)
qed

lemma fold_remove_sym_ok:
  "\<lbrakk>reg_ok cfg r; fold (remove_sym ws) cs (r, rm) = (r', rm')\<rbrakk> \<Longrightarrow> reg_ok cfg r'"
proof (induction cs arbitrary: r rm)
  case Nil
  then show ?case by simp
next
  case (Cons c cs)
  obtain r1 rm1 where a: "remove_sym ws c (r, rm) = (r1, rm1)" by (cases "remove_sym ws c (r, rm)")
  from Cons.IH [OF remove_sym_ok [OF Cons.prems(1) a]] Cons.prems(2) a show ?case by simp
qed

lemma drop_empty_ws_ok: "\<lbrakk>reg_ok cfg r; subs_of r ws = []\<rbrakk> \<Longrightarrow> reg_ok cfg (drop_ws ws r)"
proof -
  assume "reg_ok cfg r" "subs_of r ws = []"
  moreover have "(subs_of r)(ws := []) = subs_of r" using calculation(2) by (simp add: fun_upd_idem)
  moreover have "global_refs (drop_ws ws r) = global_refs r" by (simp add: drop_ws_def)
  ultimately show ?thesis by (simp add: reg_ok_def counted_def capped_def subscribers_def)
qed

lemma remove_subs_ok: "reg_ok cfg r \<Longrightarrow> reg_ok cfg (fst (remove_subs ws syms r))"
proof -
  assume ok: "reg_ok cfg r"
  obtain r' rm where f: "fold (remove_sym ws) syms (r, []) = (r', rm)" by (cases "fold (remove_sym ws) syms (r, [])")
  from fold_remove_sym_ok [OF ok f] ok f show ?thesis
    by (auto simp: remove_subs_def drop_empty_ws_ok)
qed

lemma remove_ws_ok:
  assumes "reg_ok cfg r"
  shows "reg_ok cfg (fst (remove_ws ws r))"
proof -
  let ?l = "subs_of r ws" and ?r = "drop_ws ws r"
  obtain r' rm where f: "fold decrement_locked ?l (?r, []) = (r', rm)" by (cases "fold decrement_locked ?l (?r, [])")
  have g: "global_refs ?r = global_refs r" by (simp add: drop_ws_def)
  have "counted (set ?l) ?r"
    unfolding counted_def
  proof
    fix c
    have s: "subscribers ?r c = subscribers r c - {ws}" by (auto simp: subscribers_def)
    show "map_of (global_refs ?r) c =
        (let n = card (subscribers ?r c) + (if c \<in> set ?l then 1 else 0) in if n = 0 then None else Some n)"
    proof (cases "c \<in> set ?l")
      case True
      then have "ws \<in> subscribers r c" by (simp add: subscribers_def)
      from card.remove [OF finite_subscribers this] True assms s g show ?thesis
        by (auto simp: reg_ok_def counted_def Let_def)
    next
      case False
      then have "subscribers r c - {ws} = subscribers r c" by (auto simp: subscribers_def)
      with False assms s g show ?thesis by (auto simp: reg_ok_def counted_def Let_def)
    qed
  qed
  moreover have "distinct ?l" using assms by (simp add: reg_ok_def capped_def)
  ultimately have "counted {} r' \<and> subs_of r' = subs_of ?r \<and> length (global_refs r') \<le> length (global_refs ?r)"
    using decrement_all [of "{}" ?l ?r "[]" r' rm] f by simp
  with assms g f show ?thesis by (auto simp: remove_ws_def reg_ok_def capped_def)
qed

lemma reg_step_ok: "reg_ok cfg r \<Longrightarrow> reg_ok cfg (reg_step cfg e r)"
proof (cases e)
  case (AddOp ws syms now)
  assume "reg_ok cfg r" with AddOp show ?thesis by (simp add: add_ws_ok)
next
  case (RemoveOp ws syms)
  assume "reg_ok cfg r" with RemoveOp show ?thesis by (simp add: remove_subs_ok)
next
  case (RemoveWsOp ws)
  assume "reg_ok cfg r" with RemoveWsOp show ?thesis by (simp add: remove_ws_ok)
next
  case (DecSourceOp src n)
  assume "reg_ok cfg r" with DecSourceOp show ?thesis
    by (simp add: decrement_for_source_def Let_def)
next
  case (RouteOp cid src)
  assume "reg_ok cfg r" with RouteOp show ?thesis
    by (simp add: set_route_def)
qed

interpretation registry_run: invariant_machine "reg_step cfg" "reg_ok cfg" for cfg
  by unfold_locales (rule reg_step_ok)

lemma empty_registry_ok: "reg_ok cfg empty_registry"
  by (simp add: reg_ok_def counted_def capped_def subscribers_def subs_of_def empty_registry_def)

section \<open>Properties\<close>

text \<open>C17: after any sequence of subscriptions, unsubscriptions, disconnects and route changes, an instrument has a
  reference count exactly when some WebSocket is subscribed to it, and the count is the number of those; the
  number of instruments stays within the global cap and every WebSocket within its own.\<close>

theorem reference_counts_exact:
  "(let r = fold (reg_step cfg) ops empty_registry in
     map_of (global_refs r) cid = (if subscribers r cid = {} then None else Some (card (subscribers r cid)))
     \<and> length (global_refs r) \<le> cap_global cfg \<and> length (subs_of r ws) \<le> ws_cap cfg ws)"
proof -
  have "reg_ok cfg (fold (reg_step cfg) ops empty_registry)"
    using registry_run.run_inv [OF empty_registry_ok] .
  then show ?thesis
    using finite_subscribers by (auto simp: reg_ok_def counted_def capped_def Let_def card_eq_0_iff)
qed

definition drift_ops :: "reg_op list" where
  "drift_ops = [RouteOp ''a'' ''alpaca'', AddOp (WsUuid ''w'') [''a''] 0, AddOp (WsUuid ''w'') [''b''] 1,
     RouteOp ''b'' ''alpaca'', RemoveOp (WsUuid ''w'') [''b'']]"

definition demo_cfg :: reg_config where
  "demo_cfg = \<lparr>cap_per_ws = 10, cap_global = 10, rate_limit = 10, cap_override = []\<rparr>"

text \<open>The count per source drifts: an instrument that is routed after it was subscribed is never counted for
  its source, but its last unsubscription is charged to it, so a source serving two instruments ends up with
  a count of zero and its cap no longer holds back new ones.\<close>

theorem source_count_drifts:
  "(let r = fold (reg_step demo_cfg) drift_ops empty_registry in
     get_active_for ''alpaca'' r = [''a''] \<and> subs_of r (WsUuid ''w'') = [''a''] \<and> source_count r ''alpaca'' = 0)"
  by (simp add: drift_ops_def demo_cfg_def empty_registry_def set_route_def add_ws_def no_diff_def subs_of_def accept_def
      bump_source_def source_count_def remove_subs_def remove_sym_def decrement_locked_def drop_source_def
      get_active_for_def CAP_PER_SOURCE_def MAX_SOURCES_def evict_rate_window_def RATE_WINDOW_SECONDS_def Let_def)

end
