(* ===== verification/Alert_Predicates.thy ===== *)
theory Alert_Predicates
  imports Prelude
begin

text \<open>
  The alert predicates of \<open>backend/app/services/alerts/predicates.py\<close> with the schema
  \<open>predicates.schema.json\<close> they are validated against.

  A predicate is the JSON value the code holds: a number keeps the difference between an integer
  and a float literal, which \<open>json\<close> decodes to different types. Floats are exact
  rationals. The JSON Schema type \<open>integer\<close> admits a float without a fraction, as draft 7 says.
  Evaluation does what Python does on any value, also one that was never validated: a missing key,
  a wrong type or a division by zero is a raised exception.
\<close>

section \<open>JSON values\<close>

datatype json =
  JNull | JBool bool | JInt int | JFloat rat | JStr string | JArr "json list" | JObj "(string \<times> json) list"

fun num_of :: "json \<Rightarrow> rat option" where
  "num_of (JInt i) = Some (of_int i)"
| "num_of (JFloat x) = Some x"
| "num_of (JBool b) = Some (if b then 1 else 0)"
| "num_of _ = None"

definition as_num :: "json \<Rightarrow> exn + rat" where
  "as_num v = (case num_of v of Some x \<Rightarrow> Inr x | None \<Rightarrow> Inl TypeError)"

text \<open>What a slice bound accepts: integers and booleans.\<close>

fun as_index :: "json \<Rightarrow> exn + int" where
  "as_index (JInt i) = Inr i"
| "as_index (JBool b) = Inr (if b then 1 else 0)"
| "as_index _ = Inl TypeError"

definition item :: "(string \<times> json) list \<Rightarrow> string \<Rightarrow> exn + json" where
  "item m k = (case map_of m k of Some v \<Rightarrow> Inr v | None \<Rightarrow> Inl KeyError)"

text \<open>\<open>d.get(k)\<close>: an absent key reads as \<open>None\<close>.\<close>

definition jget :: "(string \<times> json) list \<Rightarrow> string \<Rightarrow> json" where
  "jget m k = (case map_of m k of Some v \<Rightarrow> v | None \<Rightarrow> JNull)"

definition jeq :: "json \<Rightarrow> json \<Rightarrow> bool" where
  "jeq a b = (case (num_of a, num_of b) of (Some x, Some y) \<Rightarrow> x = y | _ \<Rightarrow> a = b)"

text \<open>A \<open>dict\<close> with text keys asked for a JSON value: a list or an object is not hashable.\<close>

fun dict_find :: "(string \<Rightarrow> 'a option) \<Rightarrow> json \<Rightarrow> exn + 'a option" where
  "dict_find d (JStr s) = Inr (d s)"
| "dict_find d (JArr _) = Inl TypeError"
| "dict_find d (JObj _) = Inl TypeError"
| "dict_find d _ = Inr None"

text \<open>\<open>xs[i:j]\<close> with bounds counted from the end when negative.\<close>

definition slice_pos :: "nat \<Rightarrow> int \<Rightarrow> nat" where
  "slice_pos n i = nat (if i < 0 then max 0 (int n + i) else min (int n) i)"

definition pyslice :: "'a list \<Rightarrow> int \<Rightarrow> int \<Rightarrow> 'a list" where
  "pyslice xs i j = drop (slice_pos (length xs) i) (take (slice_pos (length xs) j) xs)"

text \<open>Conversions: \<open>str(n)\<close> of an integer, \<open>Decimal(str(v))\<close> with the constructor's reading of text as a parameter, \<open>int(v)\<close>.\<close>

fun print_nat :: "nat \<Rightarrow> string" where
  "print_nat n = (if n < 10 then [''0123456789'' ! n] else print_nat (n div 10) @ [''0123456789'' ! (n mod 10)])"

declare print_nat.simps [simp del]

definition print_int :: "int \<Rightarrow> string" where
  "print_int i = (if i < 0 then CHR ''-'' # print_nat (nat (- i)) else print_nat (nat i))"

fun dec_of_json :: "(string \<Rightarrow> dec_text) \<Rightarrow> json \<Rightarrow> exn + decimal" where
  "dec_of_json p (JInt i) = Inr (of_int i)"
| "dec_of_json p (JFloat x) = Inr x"
| "dec_of_json p (JStr s) = to_decimal (p s)"
| "dec_of_json p _ = Inl InvalidOperation"

definition int_of_json :: "json \<Rightarrow> exn + int" where
  "int_of_json v = (case v of JInt i \<Rightarrow> Inr i | JBool b \<Rightarrow> Inr (if b then 1 else 0)
     | JFloat x \<Rightarrow> Inr (if 0 \<le> x then \<lfloor>x\<rfloor> else \<lceil>x\<rceil>) | JStr t \<Rightarrow> parse_int t | _ \<Rightarrow> Inl TypeError)"

section \<open>Evaluation\<close>

record bar =
  close :: rat
  volume :: rat

record alert_state =
  st_prices :: "string \<Rightarrow> rat option"
  st_bars :: "string \<Rightarrow> bar list option"
  st_event :: "(string \<times> json) list option"
  st_signals :: "string \<Rightarrow> rat option"
  st_news_feed :: bool
  st_news :: "(string \<times> json) list list"

datatype cmp_op = GT | LT | GTE | LTE | EQ

fun op_of :: "json \<Rightarrow> exn + cmp_op" where
  "op_of (JStr s) = (case map_of [(''gt'', GT), (''lt'', LT), (''gte'', GTE), (''lte'', LTE), (''eq'', EQ)] s of
     Some c \<Rightarrow> Inr c | None \<Rightarrow> Inl KeyError)"
| "op_of (JArr _) = Inl TypeError"
| "op_of (JObj _) = Inl TypeError"
| "op_of _ = Inl KeyError"

definition apply_op :: "cmp_op \<Rightarrow> rat \<Rightarrow> json \<Rightarrow> exn + bool" where
  "apply_op c x v = (case num_of v of
     None \<Rightarrow> if c = EQ then Inr False else Inl TypeError
   | Some y \<Rightarrow> Inr (case c of GT \<Rightarrow> y < x | LT \<Rightarrow> x < y | GTE \<Rightarrow> y \<le> x | LTE \<Rightarrow> x \<le> y | EQ \<Rightarrow> x = y))"

definition eval_price_threshold :: "alert_state \<Rightarrow> (string \<times> json) list \<Rightarrow> exn + bool" where
  "eval_price_threshold st m =
     rbind (item m ''symbol'') (\<lambda>sym.
     rbind (dict_find (st_prices st) sym) (\<lambda>found.
     case found of None \<Rightarrow> Inr False
     | Some price \<Rightarrow>
         rbind (item m ''op'') (\<lambda>oj.
         rbind (op_of oj) (\<lambda>c.
         rbind (item m ''value'') (apply_op c price)))))"

definition eval_pct_change_window :: "alert_state \<Rightarrow> (string \<times> json) list \<Rightarrow> exn + bool" where
  "eval_pct_change_window st m =
     rbind (item m ''symbol'') (\<lambda>sym.
     rbind (dict_find (st_bars st) sym) (\<lambda>found.
     case found of None \<Rightarrow> Inr False
     | Some series \<Rightarrow>
         if length series < 2 then Inr False
         else
           let first = close (series ! 0); last = close (series ! (length series - 1)) in
           if first = 0 then Inr False
           else
             let pct = (last - first) / first * 100 in
             rbind (item m ''pct'') (\<lambda>tj.
             rbind (as_num tj) (\<lambda>target.
             Inr (if 0 \<le> target then target \<le> pct else pct \<le> target)))))"

text \<open>\<open>sum(xs) / k\<close> for the slice of the last \<open>k\<close> values, and of the \<open>k\<close> before the last.\<close>

definition mean_last :: "rat list \<Rightarrow> int \<Rightarrow> exn + rat" where
  "mean_last xs k = (if k = 0 then Inl ZeroDivisionError
     else Inr (sum_list (pyslice xs (- k) (int (length xs))) / of_int k))"

definition mean_before :: "rat list \<Rightarrow> int \<Rightarrow> exn + rat" where
  "mean_before xs k = (if k = 0 then Inl ZeroDivisionError
     else Inr (sum_list (pyslice xs (- k - 1) (- 1)) / of_int k))"

definition eval_ma_cross :: "alert_state \<Rightarrow> (string \<times> json) list \<Rightarrow> exn + bool" where
  "eval_ma_cross st m =
     rbind (item m ''symbol'') (\<lambda>sym.
     rbind (dict_find (st_bars st) sym) (\<lambda>found.
     case found of None \<Rightarrow> Inr False
     | Some series \<Rightarrow>
         rbind (item m ''fast_period'') (\<lambda>fj.
         rbind (item m ''slow_period'') (\<lambda>sj.
         rbind (as_num sj) (\<lambda>need.
         if of_nat (length series) < need + 1 then Inr False
         else
           let closes = map close series in
           rbind (as_index fj) (\<lambda>fast.
           rbind (mean_last closes fast) (\<lambda>fast_now.
           rbind (as_index sj) (\<lambda>slow.
           rbind (mean_last closes slow) (\<lambda>slow_now.
           rbind (mean_before closes fast) (\<lambda>fast_prev.
           rbind (mean_before closes slow) (\<lambda>slow_prev.
           rbind (item m ''direction'') (\<lambda>dir.
           Inr (if dir = JStr ''golden'' then fast_prev \<le> slow_prev \<and> slow_now < fast_now
                else if dir = JStr ''death'' then slow_prev \<le> fast_prev \<and> fast_now < slow_now
                else False)))))))))))))"

definition eval_volume_spike :: "alert_state \<Rightarrow> (string \<times> json) list \<Rightarrow> exn + bool" where
  "eval_volume_spike st m =
     rbind (item m ''symbol'') (\<lambda>sym.
     rbind (dict_find (st_bars st) sym) (\<lambda>found.
     case found of None \<Rightarrow> Inr False
     | Some series \<Rightarrow>
         rbind (item m ''vs_window_minutes'') (\<lambda>vj.
         rbind (as_num vj) (\<lambda>need.
         if of_nat (length series) < need + 1 then Inr False
         else
           rbind (as_index vj) (\<lambda>vs.
           let window = pyslice series (- vs - 1) (- 1) in
           if window = [] then Inl ZeroDivisionError
           else
             let avg = sum_list (map volume window) / of_nat (length window) in
             if avg = 0 then Inr False
             else
               rbind (item m ''multiple'') (\<lambda>mj.
               rbind (as_num mj) (\<lambda>multiple.
               Inr (avg * multiple \<le> volume (last series)))))))))"

definition eval_order_event :: "alert_state \<Rightarrow> (string \<times> json) list \<Rightarrow> exn + bool" where
  "eval_order_event st m =
     (case st_event st of None \<Rightarrow> Inr False
     | Some event \<Rightarrow>
         rbind (item m ''event_type'') (\<lambda>et.
         Inr (jeq (jget event ''event_type'') et
              \<and> list_all (\<lambda>k. jget m k = JNull \<or> jeq (jget event k) (jget m k)) [''account_id'', ''broker_id'', ''symbol''])))"

definition eval_ai_signal :: "alert_state \<Rightarrow> (string \<times> json) list \<Rightarrow> exn + bool" where
  "eval_ai_signal st m =
     rbind (item m ''prompt_template'') (\<lambda>key.
     rbind (dict_find (st_signals st) key) (\<lambda>found.
     case found of None \<Rightarrow> Inr False
     | Some score \<Rightarrow> rbind (item m ''threshold'') (\<lambda>tj. rbind (as_num tj) (\<lambda>t. Inr (t \<le> score)))))"

definition eval_news_event :: "alert_state \<Rightarrow> (string \<times> json) list \<Rightarrow> exn + bool" where
  "eval_news_event st m =
     Inr (st_news_feed st \<and> list_ex (\<lambda>n.
        list_all (\<lambda>k. jget m k = JNull \<or> jeq (jget n k) (jget m k)) [''symbol'', ''source'', ''sentiment'']) (st_news st))"

text \<open>\<open>kind = predicate.get("kind", "")\<close> and the dispatch on it.\<close>

definition kind_of :: "(string \<times> json) list \<Rightarrow> json" where
  "kind_of m = (case map_of m ''kind'' of Some k \<Rightarrow> k | None \<Rightarrow> JStr [])"

definition eval_leaf :: "alert_state \<Rightarrow> (string \<times> json) list \<Rightarrow> exn + bool" where
  "eval_leaf st m =
     rbind (dict_find (map_of
        [(''price_threshold'', eval_price_threshold), (''pct_change_window'', eval_pct_change_window),
         (''ma_cross'', eval_ma_cross), (''volume_spike'', eval_volume_spike), (''order_event'', eval_order_event),
         (''ai_signal'', eval_ai_signal), (''news_event'', eval_news_event), (''unknown'', \<lambda>_ _. Inr False)]) (kind_of m))
     (\<lambda>f. case f of Some g \<Rightarrow> g st m | None \<Rightarrow> Inl PredicateValidationError)"

text \<open>\<open>all\<close> and \<open>any\<close> over results that may raise: they stop at the first that decides.\<close>

fun all_res :: "(exn + bool) list \<Rightarrow> exn + bool" where
  "all_res [] = Inr True"
| "all_res (r # rs) = rbind r (\<lambda>b. if b then all_res rs else Inr False)"

fun any_res :: "(exn + bool) list \<Rightarrow> exn + bool" where
  "any_res [] = Inr False"
| "any_res (r # rs) = rbind r (\<lambda>b. if b then Inr True else any_res rs)"

text \<open>Children that are no list: text and objects iterate over text, which has no \<open>get\<close>.\<close>

fun odd_children :: "'a \<Rightarrow> json \<Rightarrow> exn + 'a" where
  "odd_children z (JStr s) = (if s = [] then Inr z else Inl AttributeError)"
| "odd_children z (JObj m) = (if m = [] then Inr z else Inl AttributeError)"
| "odd_children z _ = Inl TypeError"

lemma json_child_size:
  assumes "map_of m k = Some (JArr cs)" and "c \<in> set cs"
  shows "size c < Suc (size_list (size_prod (\<lambda>_. 0) size) m)"
proof -
  have "size c < size (JArr cs)" using assms(2) by (induction cs) auto
  moreover have "size (JArr cs) \<le> size_list (size_prod (\<lambda>_. 0) size) m"
    using assms(1) by (induction m) (auto split: if_splits)
  ultimately show ?thesis by linarith
qed

function evaluate_predicate :: "alert_state \<Rightarrow> json \<Rightarrow> exn + bool" where
  "evaluate_predicate st (JObj m) =
     (if kind_of m = JStr ''composite_and'' then
        (case map_of m ''children'' of None \<Rightarrow> Inl KeyError
         | Some (JArr cs) \<Rightarrow> all_res (map (evaluate_predicate st) cs) | Some v \<Rightarrow> odd_children True v)
      else if kind_of m = JStr ''composite_or'' then
        (case map_of m ''children'' of None \<Rightarrow> Inl KeyError
         | Some (JArr cs) \<Rightarrow> any_res (map (evaluate_predicate st) cs) | Some v \<Rightarrow> odd_children False v)
      else eval_leaf st m)"
| "evaluate_predicate st JNull = Inl AttributeError"
| "evaluate_predicate st (JBool b) = Inl AttributeError"
| "evaluate_predicate st (JInt i) = Inl AttributeError"
| "evaluate_predicate st (JFloat x) = Inl AttributeError"
| "evaluate_predicate st (JStr s) = Inl AttributeError"
| "evaluate_predicate st (JArr js) = Inl AttributeError"
  by pat_completeness auto
termination
  by (relation "measure (size \<circ> snd)") (auto dest: json_child_size)

section \<open>The schema\<close>

definition is_number :: "json \<Rightarrow> bool" where
  "is_number v = (case v of JInt _ \<Rightarrow> True | JFloat _ \<Rightarrow> True | _ \<Rightarrow> False)"

definition is_integer :: "json \<Rightarrow> bool" where
  "is_integer v = (case v of JInt _ \<Rightarrow> True | JFloat x \<Rightarrow> x = of_int \<lfloor>x\<rfloor> | _ \<Rightarrow> False)"

definition num_ok :: "(rat \<Rightarrow> bool) \<Rightarrow> json \<Rightarrow> bool" where
  "num_ok P v = (case num_of v of Some x \<Rightarrow> P x | None \<Rightarrow> False)"

definition integer_in :: "rat \<Rightarrow> rat option \<Rightarrow> json \<Rightarrow> bool" where
  "integer_in lo hi v \<longleftrightarrow> is_integer v \<and> num_ok (\<lambda>x. lo \<le> x \<and> (case hi of Some h \<Rightarrow> x \<le> h | None \<Rightarrow> True)) v"

fun text_of_length :: "nat \<Rightarrow> nat \<Rightarrow> json \<Rightarrow> bool" where
  "text_of_length lo hi (JStr s) = (lo \<le> length s \<and> length s \<le> hi)"
| "text_of_length lo hi _ = False"

fun text_or_null :: "json \<Rightarrow> bool" where
  "text_or_null (JStr _) = True"
| "text_or_null JNull = True"
| "text_or_null _ = False"

fun text_list :: "json \<Rightarrow> bool" where
  "text_list (JArr js) = list_all (\<lambda>j. case j of JStr _ \<Rightarrow> True | _ \<Rightarrow> False) js"
| "text_list _ = False"

definition one_of :: "string list \<Rightarrow> json \<Rightarrow> bool" where
  "one_of vs v \<longleftrightarrow> v \<in> JStr ` set vs"

text \<open>An object schema: the required properties, the optional ones, and no others.\<close>

definition object_ok ::
  "(string \<times> (json \<Rightarrow> bool)) list \<Rightarrow> (string \<times> (json \<Rightarrow> bool)) list \<Rightarrow> (string \<times> json) list \<Rightarrow> bool" where
  "object_ok req opt m \<longleftrightarrow>
     list_all (\<lambda>(f, chk). case map_of m f of Some v \<Rightarrow> chk v | None \<Rightarrow> False) req
   \<and> list_all (\<lambda>(f, chk). case map_of m f of Some v \<Rightarrow> chk v | None \<Rightarrow> True) opt
   \<and> list_all (\<lambda>(f, v). f = ''kind'' \<or> f \<in> fst ` set req \<or> f \<in> fst ` set opt) m"

definition symbol_ok :: "json \<Rightarrow> bool" where
  "symbol_ok = text_of_length 1 32"

definition leaf_schemas :: "(string \<times> ((string \<times> json) list \<Rightarrow> bool)) list" where
  "leaf_schemas =
    [(''price_threshold'', object_ok
        [(''symbol'', symbol_ok), (''op'', one_of [''gt'', ''lt'', ''gte'', ''lte'', ''eq'']), (''value'', is_number)]
        [(''lookback_seconds'', integer_in 0 None)]),
     (''pct_change_window'', object_ok
        [(''symbol'', symbol_ok), (''pct'', is_number), (''window_seconds'', integer_in 60 None)] []),
     (''ma_cross'', object_ok
        [(''symbol'', symbol_ok), (''fast_period'', integer_in 1 (Some 500)), (''slow_period'', integer_in 1 (Some 500)),
         (''direction'', one_of [''golden'', ''death''])] []),
     (''volume_spike'', object_ok
        [(''symbol'', symbol_ok), (''multiple'', \<lambda>v. is_number v \<and> num_ok (\<lambda>x. 1 < x) v),
         (''vs_window_minutes'', integer_in 1 None)] []),
     (''order_event'', object_ok
        [(''event_type'', one_of [''filled'', ''cancelled'', ''rejected'', ''modified''])]
        [(''account_id'', text_or_null), (''broker_id'', text_or_null), (''symbol'', text_or_null)]),
     (''ai_signal'', object_ok
        [(''prompt_template'', text_of_length 1 2000), (''capability'', one_of [''STRUCTURED_OUTPUT'', ''REASONING'', ''NUMERICAL'']),
         (''threshold'', \<lambda>v. is_number v \<and> num_ok (\<lambda>x. 0 \<le> x \<and> x \<le> 1) v)] []),
     (''news_event'', object_ok []
        [(''symbol'', text_or_null), (''source'', text_or_null),
         (''sentiment'', \<lambda>v. v = JNull \<or> one_of [''positive'', ''negative'', ''neutral''] v)]),
     (''unknown'', object_ok
        [(''raw_text'', \<lambda>v. case v of JStr _ \<Rightarrow> True | _ \<Rightarrow> False), (''suggestions'', text_list)] [])]"

definition is_composite :: "(string \<times> json) list \<Rightarrow> bool" where
  "is_composite m \<longleftrightarrow> kind_of m \<in> {JStr ''composite_and'', JStr ''composite_or''}"

definition leaf_ok :: "(string \<times> json) list \<Rightarrow> bool" where
  "leaf_ok m = (case kind_of m of
     JStr k \<Rightarrow> (case map_of leaf_schemas k of Some chk \<Rightarrow> chk m | None \<Rightarrow> False) | _ \<Rightarrow> False)"

text \<open>\<open>validate_schema\<close> accepts. The kinds differ, so at most one alternative of \<open>oneOf\<close> can.\<close>

function valid :: "json \<Rightarrow> bool" where
  "valid (JObj m) =
     (if is_composite m then
        list_all (\<lambda>(f, v). f \<in> {''kind'', ''children''}) m
        \<and> (case map_of m ''children'' of
             Some (JArr cs) \<Rightarrow> 1 \<le> length cs \<and> length cs \<le> 10 \<and> list_all valid cs | _ \<Rightarrow> False)
      else leaf_ok m)"
| "valid JNull = False"
| "valid (JBool b) = False"
| "valid (JInt i) = False"
| "valid (JFloat x) = False"
| "valid (JStr s) = False"
| "valid (JArr js) = False"
  by pat_completeness auto
termination
  by (relation "measure size") (auto dest: json_child_size)

definition validate_schema :: "json \<Rightarrow> exn + unit" where
  "validate_schema p = (if valid p then Inr () else Inl PredicateValidationError)"

section \<open>What a predicate refers to\<close>

definition SYMBOL_KINDS :: "string list" where
  "SYMBOL_KINDS = [''price_threshold'', ''pct_change_window'', ''ma_cross'', ''volume_spike'']"

text \<open>The member of a set must be hashable; a union over the children raises what the first child to raise raises.\<close>

fun union_res :: "(exn + 'a set) list \<Rightarrow> exn + 'a set" where
  "union_res [] = Inr {}"
| "union_res (r # rs) = rbind r (\<lambda>S. rbind (union_res rs) (\<lambda>T. Inr (S \<union> T)))"

definition as_member :: "json \<Rightarrow> exn + json set" where
  "as_member v = (case v of JArr _ \<Rightarrow> Inl TypeError | JObj _ \<Rightarrow> Inl TypeError | _ \<Rightarrow> Inr {v})"

function referenced_symbols :: "json \<Rightarrow> exn + json set" where
  "referenced_symbols (JObj m) =
     (if kind_of m \<in> JStr ` set SYMBOL_KINDS then rbind (item m ''symbol'') as_member
      else if kind_of m \<in> {JStr ''order_event'', JStr ''news_event''}
      then (if jget m ''symbol'' = JNull then Inr {} else as_member (jget m ''symbol''))
      else if is_composite m then
        (case map_of m ''children'' of None \<Rightarrow> Inr {}
         | Some (JArr cs) \<Rightarrow> union_res (map referenced_symbols cs) | Some v \<Rightarrow> odd_children {} v)
      else Inr {})"
| "referenced_symbols JNull = Inl AttributeError"
| "referenced_symbols (JBool b) = Inl AttributeError"
| "referenced_symbols (JInt i) = Inl AttributeError"
| "referenced_symbols (JFloat x) = Inl AttributeError"
| "referenced_symbols (JStr s) = Inl AttributeError"
| "referenced_symbols (JArr js) = Inl AttributeError"
  by pat_completeness auto
termination
  by (relation "measure size") (auto dest: json_child_size)

text \<open>The entries of \<open>requires_capabilities\<close>: the capability and, for a signal, the AI capability asked for.\<close>

datatype capability = News_Feed | Ai_Router json

fun concat_res :: "(exn + 'a list) list \<Rightarrow> exn + 'a list" where
  "concat_res [] = Inr []"
| "concat_res (r # rs) = rbind r (\<lambda>xs. rbind (concat_res rs) (\<lambda>ys. Inr (xs @ ys)))"

function referenced_capabilities :: "json \<Rightarrow> exn + capability list" where
  "referenced_capabilities (JObj m) =
     (if kind_of m = JStr ''news_event'' then Inr [News_Feed]
      else if kind_of m = JStr ''ai_signal'' then rbind (item m ''capability'') (\<lambda>c. Inr [Ai_Router c])
      else if is_composite m then
        (case map_of m ''children'' of None \<Rightarrow> Inr []
         | Some (JArr cs) \<Rightarrow> concat_res (map referenced_capabilities cs) | Some v \<Rightarrow> odd_children [] v)
      else Inr [])"
| "referenced_capabilities JNull = Inl AttributeError"
| "referenced_capabilities (JBool b) = Inl AttributeError"
| "referenced_capabilities (JInt i) = Inl AttributeError"
| "referenced_capabilities (JFloat x) = Inl AttributeError"
| "referenced_capabilities (JStr s) = Inl AttributeError"
| "referenced_capabilities (JArr js) = Inl AttributeError"
  by pat_completeness auto
termination
  by (relation "measure size") (auto dest: json_child_size)

section \<open>Induction over predicates\<close>

text \<open>A valid predicate is a valid leaf or a composite of valid predicates.\<close>

lemma valid_cases:
  assumes "valid p"
  obtains (leaf) m where "p = JObj m" "\<not> is_composite m" "leaf_ok m"
    | (composite) m cs where "p = JObj m" "is_composite m" "map_of m ''children'' = Some (JArr cs)"
        "\<And>c. c \<in> set cs \<Longrightarrow> valid c" "cs \<noteq> []" "length cs \<le> 10"
proof (cases p)
  case (JObj m)
  show thesis
  proof (cases "is_composite m")
    case True
    then obtain cs where "map_of m ''children'' = Some (JArr cs)" "1 \<le> length cs" "length cs \<le> 10" "list_all valid cs"
      using assms JObj by (auto split: option.splits json.splits)
    then show thesis by (intro composite [OF JObj True, of cs]) (auto simp: list_all_iff)
  next
    case False
    then show thesis using leaf [OF JObj False] assms JObj by simp
  qed
qed (use assms in simp_all)

lemma valid_induct [consumes 1, case_names leaf composite]:
  assumes "valid p"
    and "\<And>m. \<lbrakk>\<not> is_composite m; leaf_ok m\<rbrakk> \<Longrightarrow> P (JObj m)"
    and "\<And>m cs. \<lbrakk>is_composite m; map_of m ''children'' = Some (JArr cs); \<And>c. c \<in> set cs \<Longrightarrow> valid c;
          \<And>c. c \<in> set cs \<Longrightarrow> P c; cs \<noteq> []\<rbrakk> \<Longrightarrow> P (JObj m)"
  shows "P p"
  using assms(1)
proof (induction "size p" arbitrary: p rule: less_induct)
  case less
  from less.prems show ?case
  proof (cases rule: valid_cases)
    case (leaf m)
    then show ?thesis using assms(2) by simp
  next
    case (composite m cs)
    then show ?thesis using assms(3) [of m cs] less.hyps json_child_size [OF composite(3)] by simp
  qed
qed

lemma leaf_kinds:
  assumes "leaf_ok m"
  obtains k chk where "kind_of m = JStr k" "(k, chk) \<in> set leaf_schemas" "chk m"
  using assms by (auto simp: leaf_ok_def split: json.splits option.splits dest: map_of_SomeD)

section \<open>A valid predicate evaluates\<close>

text \<open>The periods are written as integers, not as floats without a fraction.\<close>

definition int_field :: "(string \<times> json) list \<Rightarrow> string \<Rightarrow> bool" where
  "int_field m f = (case map_of m f of Some (JFloat _) \<Rightarrow> False | _ \<Rightarrow> True)"

function int_periods :: "json \<Rightarrow> bool" where
  "int_periods (JObj m) =
     (list_all (int_field m) [''fast_period'', ''slow_period'', ''vs_window_minutes'']
      \<and> (case map_of m ''children'' of Some (JArr cs) \<Rightarrow> list_all int_periods cs | _ \<Rightarrow> True))"
| "int_periods JNull = True"
| "int_periods (JBool b) = True"
| "int_periods (JInt i) = True"
| "int_periods (JFloat x) = True"
| "int_periods (JStr s) = True"
| "int_periods (JArr js) = True"
  by pat_completeness auto
termination
  by (relation "measure size") (auto dest: json_child_size)

definition returns :: "exn + 'a \<Rightarrow> bool" where
  "returns r \<longleftrightarrow> (\<exists>x. r = Inr x)"

named_theorems returns_intro \<open>when an evaluation returns\<close>

lemma returns_Inr [returns_intro, simp]: "returns (Inr x)"
  by (simp add: returns_def)

lemma returns_rbind: "\<lbrakk>returns m; \<And>x. m = Inr x \<Longrightarrow> returns (f x)\<rbrakk> \<Longrightarrow> returns (rbind m f)"
  by (cases m) (auto simp: returns_def)

lemma returns_all_res [returns_intro]: "(\<And>r. r \<in> set rs \<Longrightarrow> returns r) \<Longrightarrow> returns (all_res rs)"
  by (induction rs) (auto intro!: returns_rbind)

lemma returns_any_res [returns_intro]: "(\<And>r. r \<in> set rs \<Longrightarrow> returns r) \<Longrightarrow> returns (any_res rs)"
  by (induction rs) (auto intro!: returns_rbind)

lemma object_field:
  assumes "object_ok req opt m" and "(f, chk) \<in> set req"
  obtains v where "map_of m f = Some v" "chk v"
  using assms by (fastforce simp: object_ok_def list_all_iff split: option.splits)

lemma symbol_text: "symbol_ok v \<Longrightarrow> \<exists>s. v = JStr s"
  by (cases v) (simp_all add: symbol_ok_def)

lemma number_value: "is_number v \<Longrightarrow> \<exists>x. num_of v = Some x"
  by (cases v) (simp_all add: is_number_def)

lemma integer_value:
  assumes "integer_in lo hi v" and "\<And>x. v \<noteq> JFloat x"
  shows "\<exists>i. v = JInt i \<and> lo \<le> of_int i"
  using assms by (cases v) (auto simp: integer_in_def is_integer_def num_ok_def)

lemma integer_num: "integer_in lo hi v \<Longrightarrow> \<exists>x. num_of v = Some x \<and> lo \<le> x"
  by (cases v) (auto simp: integer_in_def is_integer_def num_ok_def)

lemma period_window: "0 < k \<Longrightarrow> k < int (length xs) \<Longrightarrow> pyslice xs (- k - 1) (- 1) \<noteq> []"
  by (simp add: pyslice_def slice_pos_def)

text \<open>What each kind needs of its fields.\<close>

lemma leaf_fields:
  assumes "leaf_ok m"
  obtains
    (price) s c v where "kind_of m = JStr ''price_threshold''" "map_of m ''symbol'' = Some (JStr s)"
      "map_of m ''op'' = Some c" "returns (op_of c)" "map_of m ''value'' = Some v" "is_number v"
  | (pct) s v where "kind_of m = JStr ''pct_change_window''" "map_of m ''symbol'' = Some (JStr s)"
      "map_of m ''pct'' = Some v" "is_number v"
  | (cross) s f w d where "kind_of m = JStr ''ma_cross''" "map_of m ''symbol'' = Some (JStr s)"
      "map_of m ''fast_period'' = Some f" "integer_in 1 (Some 500) f" "map_of m ''slow_period'' = Some w"
      "integer_in 1 (Some 500) w" "map_of m ''direction'' = Some d"
  | (spike) s x w where "kind_of m = JStr ''volume_spike''" "map_of m ''symbol'' = Some (JStr s)"
      "map_of m ''multiple'' = Some x" "is_number x" "map_of m ''vs_window_minutes'' = Some w" "integer_in 1 None w"
  | (event) e where "kind_of m = JStr ''order_event''" "map_of m ''event_type'' = Some e"
  | (signal) s c t where "kind_of m = JStr ''ai_signal''" "map_of m ''prompt_template'' = Some (JStr s)"
      "map_of m ''capability'' = Some c" "map_of m ''threshold'' = Some t" "is_number t"
  | (news) "kind_of m = JStr ''news_event''"
  | (unknown) "kind_of m = JStr ''unknown''"
proof -
  from assms obtain k chk where k: "kind_of m = JStr k" "(k, chk) \<in> set leaf_schemas" "chk m" by (rule leaf_kinds)
  have str: "\<exists>s. v = JStr s" if "text_of_length lo hi v" for lo hi v using that by (cases v) simp_all
  have ops: "returns (op_of v)" if "one_of [''gt'', ''lt'', ''gte'', ''lte'', ''eq''] v" for v
    using that by (auto simp: one_of_def)
  have "k \<in> fst ` set leaf_schemas" using k(2) by force
  then have kinds: "k = ''price_threshold'' \<or> k = ''pct_change_window'' \<or> k = ''ma_cross'' \<or> k = ''volume_spike''
    \<or> k = ''order_event'' \<or> k = ''ai_signal'' \<or> k = ''news_event'' \<or> k = ''unknown''"
    unfolding leaf_schemas_def by (simp only: list.set image_insert image_empty fst_conv insert_iff empty_iff simp_thms)
  from kinds show thesis
  proof (elim disjE)
    assume "k = ''price_threshold''"
    with k have "\<exists>s c v. map_of m ''symbol'' = Some (JStr s) \<and> map_of m ''op'' = Some c \<and> returns (op_of c) \<and> map_of m ''value'' = Some v \<and> is_number v"
      by (auto simp: leaf_schemas_def object_ok_def split: option.splits dest!: symbol_text ops)
    with k \<open>k = ''price_threshold''\<close> show thesis using price by blast
  next
    assume "k = ''pct_change_window''"
    with k have "\<exists>s v. map_of m ''symbol'' = Some (JStr s) \<and> map_of m ''pct'' = Some v \<and> is_number v"
      by (auto simp: leaf_schemas_def object_ok_def split: option.splits dest!: symbol_text)
    with k \<open>k = ''pct_change_window''\<close> show thesis using pct by blast
  next
    assume "k = ''ma_cross''"
    with k have "\<exists>s f w d. map_of m ''symbol'' = Some (JStr s) \<and> map_of m ''fast_period'' = Some f \<and> integer_in 1 (Some 500) f \<and> map_of m ''slow_period'' = Some w \<and> integer_in 1 (Some 500) w \<and> map_of m ''direction'' = Some d"
      by (auto simp: leaf_schemas_def object_ok_def split: option.splits dest!: symbol_text)
    with k \<open>k = ''ma_cross''\<close> show thesis using cross by blast
  next
    assume "k = ''volume_spike''"
    with k have "\<exists>s x w. map_of m ''symbol'' = Some (JStr s) \<and> map_of m ''multiple'' = Some x \<and> is_number x \<and> map_of m ''vs_window_minutes'' = Some w \<and> integer_in 1 None w"
      by (auto simp: leaf_schemas_def object_ok_def split: option.splits dest!: symbol_text)
    with k \<open>k = ''volume_spike''\<close> show thesis using spike by blast
  next
    assume "k = ''order_event''"
    with k have "\<exists>e. map_of m ''event_type'' = Some e"
      by (auto simp: leaf_schemas_def object_ok_def split: option.splits dest!: symbol_text)
    with k \<open>k = ''order_event''\<close> show thesis using event by blast
  next
    assume "k = ''ai_signal''"
    with k have "\<exists>s c t. map_of m ''prompt_template'' = Some (JStr s) \<and> map_of m ''capability'' = Some c \<and> map_of m ''threshold'' = Some t \<and> is_number t"
      by (auto simp: leaf_schemas_def object_ok_def split: option.splits dest!: str)
    with k \<open>k = ''ai_signal''\<close> show thesis using signal by blast
  qed (use k news unknown in simp_all)
qed

lemma item_Some: "map_of m k = Some v \<Longrightarrow> item m k = Inr v"
  by (simp add: item_def)

lemma as_num_Some: "num_of v = Some x \<Longrightarrow> as_num v = Inr x"
  by (simp add: as_num_def)

lemma mean_returns: "0 < k \<Longrightarrow> returns (mean_last xs k)" "0 < k \<Longrightarrow> returns (mean_before xs k)"
  by (simp_all add: mean_last_def mean_before_def)

lemma eval_leaf_kind:
  "kind_of m = JStr ''price_threshold'' \<Longrightarrow> eval_leaf st m = eval_price_threshold st m"
  "kind_of m = JStr ''pct_change_window'' \<Longrightarrow> eval_leaf st m = eval_pct_change_window st m"
  "kind_of m = JStr ''ma_cross'' \<Longrightarrow> eval_leaf st m = eval_ma_cross st m"
  "kind_of m = JStr ''volume_spike'' \<Longrightarrow> eval_leaf st m = eval_volume_spike st m"
  "kind_of m = JStr ''order_event'' \<Longrightarrow> eval_leaf st m = eval_order_event st m"
  "kind_of m = JStr ''ai_signal'' \<Longrightarrow> eval_leaf st m = eval_ai_signal st m"
  "kind_of m = JStr ''news_event'' \<Longrightarrow> eval_leaf st m = eval_news_event st m"
  "kind_of m = JStr ''unknown'' \<Longrightarrow> eval_leaf st m = Inr False"
  by (simp_all add: eval_leaf_def)

lemma period_int:
  assumes "list_all (int_field m) fs" and "f \<in> set fs" and "map_of m f = Some v" and "integer_in 1 hi v"
  obtains i where "v = JInt i" and "1 \<le> i"
proof -
  have "\<And>x. v \<noteq> JFloat x" using assms by (auto simp: list_all_iff int_field_def)
  from integer_value [OF assms(4) this] that show thesis by auto
qed

lemma leaf_returns:
  assumes "leaf_ok m" and "list_all (int_field m) [''fast_period'', ''slow_period'', ''vs_window_minutes'']"
  shows "returns (eval_leaf st m)"
  using assms(1)
proof (cases rule: leaf_fields)
  case (price s c v)
  then show ?thesis
    by (auto simp: eval_leaf_kind eval_price_threshold_def item_Some apply_op_def returns_def dest!: number_value split: option.split)
next
  case (pct s v)
  then show ?thesis
    by (auto simp: eval_leaf_kind eval_pct_change_window_def item_Some as_num_Some Let_def dest!: number_value split: option.split)
next
  case (cross s f w d)
  obtain i where i: "f = JInt i" "1 \<le> i" by (rule period_int [OF assms(2) _ cross(3,4)]) simp
  obtain j where j: "w = JInt j" "1 \<le> j" by (rule period_int [OF assms(2) _ cross(5,6)]) simp
  show ?thesis
    using cross i j
    by (auto simp: eval_leaf_kind eval_ma_cross_def item_Some as_num_Some mean_last_def mean_before_def Let_def split: option.split)
next
  case (spike s x w)
  obtain j where j: "w = JInt j" "1 \<le> j" by (rule period_int [OF assms(2) _ spike(5,6)]) simp
  have "pyslice xs (- j - 1) (- 1) \<noteq> []" if "\<not> of_nat (length xs) < rat_of_int j + 1" for xs :: "bar list"
  proof (rule period_window)
    have "rat_of_int j < rat_of_int (int (length xs))" using that by linarith
    then show "j < int (length xs)" by (simp only: of_int_less_iff)
  qed (use j in simp)
  then show ?thesis
    using spike j
    by (auto simp: eval_leaf_kind eval_volume_spike_def item_Some as_num_Some Let_def dest!: number_value split: option.split)
next
  case (event e)
  then show ?thesis by (auto simp: eval_leaf_kind eval_order_event_def item_Some split: option.split)
next
  case (signal s c t)
  then show ?thesis
    by (auto simp: eval_leaf_kind eval_ai_signal_def item_Some as_num_Some dest!: number_value split: option.split)
next
  case news
  then show ?thesis by (simp add: eval_leaf_kind eval_news_event_def)
next
  case unknown
  then show ?thesis by (simp add: eval_leaf_kind)
qed

text \<open>C19: a predicate that passes the schema, with its periods written as integers, evaluates to true or false on every
  state: none of the evaluators raises, whatever is missing from the state.\<close>

theorem valid_predicate_evaluates:
  assumes "validate_schema p = Inr ()" and "int_periods p"
  shows "\<exists>b. evaluate_predicate st p = Inr b"
proof -
  have "valid p" using assms(1) by (simp add: validate_schema_def split: if_splits)
  then have "int_periods p \<longrightarrow> returns (evaluate_predicate st p)"
  proof (induction rule: valid_induct)
    case (leaf m)
    then show ?case using leaf_returns [of m st] by (simp add: is_composite_def)
  next
    case (composite m cs)
    then show ?case
      by (auto simp: is_composite_def list_all_iff intro!: returns_intro)
  qed
  with assms(2) show ?thesis by (simp add: returns_def)
qed

definition float_cross :: "string \<Rightarrow> json" where
  "float_cross s = JObj [(''kind'', JStr ''ma_cross''), (''symbol'', JStr s), (''fast_period'', JFloat 5),
     (''slow_period'', JInt 20), (''direction'', JStr ''golden'')]"

text \<open>A moving-average predicate with the period 5.0 passes the schema, since a float without a fraction is an
  integer there, but as soon as the symbol has enough bars its evaluation raises.\<close>

theorem float_period_raises:
  assumes "s \<noteq> []" and "length s \<le> 32" and "st_bars st s = Some series" and "20 < length series"
  shows "validate_schema (float_cross s) = Inr () \<and> evaluate_predicate st (float_cross s) = Inl TypeError"
proof
  have "1 \<le> length s" using assms(1) by (cases s) simp_all
  then have "leaf_ok [(''kind'', JStr ''ma_cross''), (''symbol'', JStr s), (''fast_period'', JFloat 5),
     (''slow_period'', JInt 20), (''direction'', JStr ''golden'')]"
    using assms(2)
    by (simp add: leaf_ok_def kind_of_def leaf_schemas_def object_ok_def symbol_ok_def integer_in_def is_integer_def num_ok_def one_of_def)
  then show "validate_schema (float_cross s) = Inr ()"
    by (simp add: validate_schema_def float_cross_def is_composite_def kind_of_def)
  have "\<not> of_nat (length series) < (20::rat) + 1"
  proof -
    have "rat_of_nat 21 \<le> of_nat (length series)" using assms(4) by (simp only: of_nat_le_iff)
    then show ?thesis by simp
  qed
  then show "evaluate_predicate st (float_cross s) = Inl TypeError"
    using assms(3) by (simp add: float_cross_def kind_of_def eval_leaf_def eval_ma_cross_def item_def as_num_def)
qed

section \<open>What an evaluation can see\<close>

lemma all_res_True: "all_res rs = Inr True \<longleftrightarrow> (\<forall>r \<in> set rs. r = Inr True)"
  by (induction rs) (auto simp: rbind_Inr_iff split: if_splits)

lemma any_res_True: "any_res rs = Inr True \<Longrightarrow> \<exists>r \<in> set rs. r = Inr True"
  by (induction rs) (auto simp: rbind_Inr_iff split: if_splits)

lemma union_res_Inr: "union_res rs = Inr S \<Longrightarrow> r \<in> set rs \<Longrightarrow> \<exists>T. r = Inr T \<and> T \<subseteq> S"
  by (induction rs arbitrary: S) (fastforce simp: rbind_Inr_iff)+

lemma kind_not_symbol:
  "kind_of m = JStr ''composite_and'' \<Longrightarrow> kind_of m \<notin> JStr ` set SYMBOL_KINDS"
  "kind_of m = JStr ''composite_or'' \<Longrightarrow> kind_of m \<notin> JStr ` set SYMBOL_KINDS"
  by (auto simp: SYMBOL_KINDS_def)

lemma leaf_frame:
  assumes "leaf_ok m" and "referenced_symbols (JObj m) = Inr S"
    and p: "\<And>s. JStr s \<in> S \<Longrightarrow> st_prices t s = st_prices st s"
    and b: "\<And>s. JStr s \<in> S \<Longrightarrow> st_bars t s = st_bars st s"
    and r: "st_event t = st_event st" "st_signals t = st_signals st" "st_news_feed t = st_news_feed st" "st_news t = st_news st"
  shows "eval_leaf t m = eval_leaf st m"
proof -
  have sym: "JStr s \<in> S" if "map_of m ''symbol'' = Some (JStr s)" "kind_of m \<in> JStr ` set SYMBOL_KINDS" for s
    using assms(2) that by (auto simp: item_Some as_member_def)
  have k: "kind_of m \<in> JStr ` set SYMBOL_KINDS" if "kind_of m \<in> {JStr ''price_threshold'', JStr ''pct_change_window'',
      JStr ''ma_cross'', JStr ''volume_spike''}"
    using that by (auto simp: SYMBOL_KINDS_def)
  from assms(1) show ?thesis
  proof (cases rule: leaf_fields)
    case (price s c v)
    then show ?thesis using p [OF sym [OF price(2) k]] by (simp add: eval_leaf_kind eval_price_threshold_def item_Some)
  next
    case (pct s v)
    then show ?thesis using b [OF sym [OF pct(2) k]] by (simp add: eval_leaf_kind eval_pct_change_window_def item_Some)
  next
    case (cross s f w d)
    then show ?thesis using b [OF sym [OF cross(2) k]] by (simp add: eval_leaf_kind eval_ma_cross_def item_Some)
  next
    case (spike s x w)
    then show ?thesis using b [OF sym [OF spike(2) k]] by (simp add: eval_leaf_kind eval_volume_spike_def item_Some)
  qed (simp_all add: eval_leaf_kind r eval_order_event_def eval_ai_signal_def eval_news_event_def)
qed

text \<open>The verdict of a valid predicate depends only on the prices and bars of the symbols it references: a tick of any
  other symbol cannot change it, so indexing a rule under its referenced symbols loses no alert.\<close>

theorem only_referenced_symbols_matter:
  assumes "validate_schema p = Inr ()" and "referenced_symbols p = Inr S"
    and "\<And>s. JStr s \<in> S \<Longrightarrow> st_prices t s = st_prices st s \<and> st_bars t s = st_bars st s"
    and "st_event t = st_event st" "st_signals t = st_signals st" "st_news_feed t = st_news_feed st" "st_news t = st_news st"
  shows "evaluate_predicate t p = evaluate_predicate st p"
proof -
  have "valid p" using assms(1) by (simp add: validate_schema_def split: if_splits)
  then have "\<forall>S' \<subseteq> S. referenced_symbols p = Inr S' \<longrightarrow> evaluate_predicate t p = evaluate_predicate st p"
  proof (induction rule: valid_induct)
    case (leaf m)
    have "eval_leaf t m = eval_leaf st m" if "S' \<subseteq> S" "referenced_symbols (JObj m) = Inr S'" for S'
      by (rule leaf_frame [OF leaf(2) that(2)]) (use that(1) assms(3-) in auto)
    with leaf(1) show ?case by (auto simp: is_composite_def simp del: referenced_symbols.simps)
  next
    case (composite m cs)
    have kids: "map (evaluate_predicate t) cs = map (evaluate_predicate st) cs" if S': "S' \<subseteq> S" "referenced_symbols (JObj m) = Inr S'" for S'
    proof (rule map_cong [OF refl])
      fix c assume c: "c \<in> set cs"
      have "union_res (map referenced_symbols cs) = Inr S'"
        using S'(2) composite(1,2) kind_not_symbol [of m] by (auto simp: is_composite_def)
      from union_res_Inr [OF this, of "referenced_symbols c"] c(1) obtain T where "referenced_symbols c = Inr T" "T \<subseteq> S'"
        by auto
      with composite.IH [OF c] S'(1) show "evaluate_predicate t c = evaluate_predicate st c" by blast
    qed
    have "evaluate_predicate t (JObj m) = evaluate_predicate st (JObj m)" if "S' \<subseteq> S" "referenced_symbols (JObj m) = Inr S'" for S'
      using composite(1,2) kids [OF that] by (auto simp: is_composite_def simp del: referenced_symbols.simps cong: map_cong)
    then show ?case by blast
  qed
  with assms(2) show ?thesis by blast
qed

text \<open>The state the runner builds for one symbol: the last fifty bars of that symbol and nothing else.\<close>

definition build_evaluator_state :: "string \<Rightarrow> bar list \<Rightarrow> alert_state" where
  "build_evaluator_state s rows =
     (let bars = drop (length rows - 50) rows in
      \<lparr>st_prices = [s \<mapsto> if bars = [] then 0 else close (last bars)], st_bars = [s \<mapsto> bars], st_event = None,
        st_signals = (\<lambda>_. None), st_news_feed = False, st_news = []\<rparr>)"

definition leaf_symbol :: "json \<Rightarrow> string option" where
  "leaf_symbol p = (case p of JObj m \<Rightarrow>
      (if kind_of m \<in> JStr ` set SYMBOL_KINDS then (case jget m ''symbol'' of JStr s \<Rightarrow> Some s | _ \<Rightarrow> None) else None) | _ \<Rightarrow> None)"

text \<open>Predicates that need what that state never holds.\<close>

definition at_least_50 :: "(string \<times> json) list \<Rightarrow> string \<Rightarrow> bool" where
  "at_least_50 m f = num_ok (\<lambda>x. 50 \<le> x) (jget m f)"

function blind :: "json \<Rightarrow> bool" where
  "blind (JObj m) =
     (if kind_of m = JStr ''composite_and'' then
        (case map_of m ''children'' of Some (JArr cs) \<Rightarrow>
           list_ex blind cs \<or> (\<exists>c \<in> set cs. \<exists>d \<in> set cs. leaf_symbol c \<noteq> None \<and> leaf_symbol d \<noteq> None \<and> leaf_symbol c \<noteq> leaf_symbol d)
         | _ \<Rightarrow> False)
      else if kind_of m = JStr ''composite_or'' then
        (case map_of m ''children'' of Some (JArr cs) \<Rightarrow> list_all blind cs | _ \<Rightarrow> False)
      else kind_of m \<in> {JStr ''order_event'', JStr ''ai_signal'', JStr ''news_event'', JStr ''unknown''}
        \<or> kind_of m = JStr ''ma_cross'' \<and> at_least_50 m ''slow_period''
        \<or> kind_of m = JStr ''volume_spike'' \<and> at_least_50 m ''vs_window_minutes'')"
| "blind JNull = False"
| "blind (JBool b) = False"
| "blind (JInt i) = False"
| "blind (JFloat x) = False"
| "blind (JStr s) = False"
| "blind (JArr js) = False"
  by pat_completeness auto
termination
  by (relation "measure size") (auto dest: json_child_size)

lemma other_symbol_False:
  assumes "valid c" and "leaf_symbol c = Some s'" and "s' \<noteq> s"
  shows "evaluate_predicate (build_evaluator_state s rows) c = Inr False"
proof -
  obtain m where m: "c = JObj m" "kind_of m \<in> JStr ` set SYMBOL_KINDS" "map_of m ''symbol'' = Some (JStr s')"
    using assms(2) by (auto simp: leaf_symbol_def jget_def split: json.splits if_splits option.splits)
  then have "item m ''symbol'' = Inr (JStr s')" by (simp add: item_def)
  moreover have "st_prices (build_evaluator_state s rows) s' = None" "st_bars (build_evaluator_state s rows) s' = None"
    using assms(3) by (simp_all add: build_evaluator_state_def Let_def)
  ultimately show ?thesis
    using m(2) by (auto simp: m(1) SYMBOL_KINDS_def eval_leaf_kind eval_price_threshold_def eval_pct_change_window_def
        eval_ma_cross_def eval_volume_spike_def)
qed

lemma few_bars:
  assumes "num_of v = Some x" and "50 \<le> x"
  shows "rat_of_nat (length (drop (length rows - 50) rows)) < x + 1"
proof -
  have "rat_of_nat (length (drop (length rows - 50) rows)) \<le> rat_of_nat 50" by (simp only: of_nat_le_iff) simp
  with assms(2) show ?thesis by simp
qed

lemma long_leaf_False:
  assumes "leaf_ok m" and "kind_of m \<in> {JStr ''order_event'', JStr ''ai_signal'', JStr ''news_event'', JStr ''unknown''}
        \<or> kind_of m = JStr ''ma_cross'' \<and> at_least_50 m ''slow_period''
        \<or> kind_of m = JStr ''volume_spike'' \<and> at_least_50 m ''vs_window_minutes''"
  shows "eval_leaf (build_evaluator_state s rows) m = Inr False"
  using assms(1)
proof (cases rule: leaf_fields)
  case (cross s' f w d)
  moreover obtain x where x: "num_of w = Some x" "50 \<le> x"
    using assms(2) cross by (auto simp: at_least_50_def num_ok_def jget_def split: option.splits)
  ultimately show ?thesis using few_bars [OF x, of rows]
    by (auto simp: eval_leaf_kind eval_ma_cross_def item_Some as_num_Some build_evaluator_state_def Let_def)
next
  case (spike s' y w)
  moreover obtain x where x: "num_of w = Some x" "50 \<le> x"
    using assms(2) spike by (auto simp: at_least_50_def num_ok_def jget_def split: option.splits)
  ultimately show ?thesis using few_bars [OF x, of rows]
    by (auto simp: eval_leaf_kind eval_volume_spike_def item_Some as_num_Some build_evaluator_state_def Let_def)
qed (use assms(2) in \<open>auto simp: eval_leaf_kind eval_order_event_def eval_ai_signal_def eval_news_event_def item_Some
  build_evaluator_state_def Let_def\<close>)

lemma blind_never_fires:
  assumes "valid p" and "blind p"
  shows "evaluate_predicate (build_evaluator_state s rows) p \<noteq> Inr True"
proof -
  from assms(1) have "blind p \<longrightarrow> evaluate_predicate (build_evaluator_state s rows) p \<noteq> Inr True"
  proof (induction rule: valid_induct)
    case (leaf m)
    then show ?case using long_leaf_False [OF leaf(2)] by (auto simp: is_composite_def)
  next
    case (composite m cs)
    have other: "evaluate_predicate (build_evaluator_state s rows) c \<noteq> Inr True \<or> evaluate_predicate (build_evaluator_state s rows) d \<noteq> Inr True"
      if "c \<in> set cs" "d \<in> set cs" "leaf_symbol c = Some x" "leaf_symbol d = Some y" "x \<noteq> y" for c d x y
      using other_symbol_False [OF composite(3) [OF that(1)] that(3), of s] other_symbol_False [OF composite(3) [OF that(2)] that(4), of s] that(5)
      by (cases "x = s") auto
    consider "kind_of m = JStr ''composite_and''" | "kind_of m = JStr ''composite_or''"
      using composite(1) by (auto simp: is_composite_def)
    then show ?case
    proof cases
      case 1
      then show ?thesis
        using composite(2) composite.IH other by (auto simp: all_res_True list_ex_iff) blast+
    next
      case 2
      have "any_res (map (evaluate_predicate (build_evaluator_state s rows)) cs) \<noteq> Inr True" if "list_all blind cs"
        using that composite.IH by (metis (no_types, lifting) any_res_True imageE list.set_map list_all_iff)
      with 2 composite(2) show ?thesis by simp
    qed
  qed
  with assms(2) show ?thesis by blast
qed

text \<open>A rule never fires, whatever the market does, when it joins conditions on two symbols, crosses an average over
  fifty bars or more, compares with a volume window of fifty minutes or more, or waits for an order, signal or
  news event: the state the runner evaluates on holds the last fifty bars of one symbol and nothing else.\<close>

theorem blind_rules_never_fire:
  assumes "validate_schema p = Inr ()" and "blind p"
  shows "evaluate_predicate (build_evaluator_state s rows) p \<noteq> Inr True"
  using assms blind_never_fires by (simp add: validate_schema_def split: if_splits)

section \<open>The dry run\<close>

text \<open>\<open>backend/app/services/alerts/dry_run.py\<close>: the bars a predicate is replayed on and the replay itself.\<close>

datatype resolution = Insufficient | Minutes | Days

fun falsy :: "json \<Rightarrow> bool" where
  "falsy JNull = True"
| "falsy (JBool b) = (\<not> b)"
| "falsy (JInt i) = (i = 0)"
| "falsy (JFloat x) = (x = 0)"
| "falsy (JStr s) = (s = [])"
| "falsy (JArr js) = (js = [])"
| "falsy (JObj m) = (m = [])"

fun seq_res :: "(exn + 'a) list \<Rightarrow> exn + 'a list" where
  "seq_res [] = Inr []"
| "seq_res (r # rs) = rbind r (\<lambda>x. rbind (seq_res rs) (\<lambda>xs. Inr (x # xs)))"

definition resolution_of_window :: "(string \<times> json) list \<Rightarrow> exn + resolution" where
  "resolution_of_window m =
     rbind (if jget m ''window_seconds'' \<noteq> JNull then as_num (jget m ''window_seconds'')
            else if jget m ''vs_window_minutes'' \<noteq> JNull then rbind (as_num (jget m ''vs_window_minutes'')) (\<lambda>x. Inr (x * 60))
            else Inr 0) (\<lambda>w.
     Inr (if 0 < w \<and> w < 60 then Insufficient else if 86400 \<le> w then Days else Minutes))"

function pick_resolution :: "json \<Rightarrow> exn + resolution" where
  "pick_resolution (JObj m) =
     (if is_composite m then
        (case map_of m ''children'' of None \<Rightarrow> Inr Insufficient
         | Some (JArr cs) \<Rightarrow>
             if cs = [] then Inr Insufficient
             else rbind (seq_res (map pick_resolution cs)) (\<lambda>rs.
               Inr (if Insufficient \<in> set rs then Insufficient else if set rs = {Days} then Days else Minutes))
         | Some v \<Rightarrow> if falsy v then Inr Insufficient else odd_children Insufficient v)
      else resolution_of_window m)"
| "pick_resolution JNull = Inl AttributeError"
| "pick_resolution (JBool b) = Inl AttributeError"
| "pick_resolution (JInt i) = Inl AttributeError"
| "pick_resolution (JFloat x) = Inl AttributeError"
| "pick_resolution (JStr s) = Inl AttributeError"
| "pick_resolution (JArr js) = Inl AttributeError"
  by pat_completeness auto
termination
  by (relation "measure size") (auto dest: json_child_size)

record dated_bar = bar +
  ts :: int

record dry_run_result =
  replay_resolution :: resolution
  fire_count :: nat
  sample_fires :: "(int \<times> rat) list"
  truncated :: bool

definition replay_state :: "json set \<Rightarrow> dated_bar list \<Rightarrow> alert_state" where
  "replay_state S window =
     \<lparr>st_prices = (\<lambda>s. if JStr s \<in> S then Some (close (last window)) else None),
      st_bars = (\<lambda>s. if JStr s \<in> S then Some (map bar.truncate window) else None),
      st_event = None, st_signals = (\<lambda>_. None), st_news_feed = False, st_news = []\<rparr>"

text \<open>The bars at which the predicate fires; a bar whose evaluation raises is skipped.\<close>

definition fires :: "json \<Rightarrow> json set \<Rightarrow> dated_bar list \<Rightarrow> dated_bar list" where
  "fires p S series =
     map (\<lambda>i. series ! i) (filter (\<lambda>i. evaluate_predicate (replay_state S (take (Suc i) series)) p = Inr True) [0..<length series])"

definition replay :: "json \<Rightarrow> dated_bar list \<Rightarrow> dated_bar list \<Rightarrow> nat \<Rightarrow> exn + dry_run_result" where
  "replay p bars_1m bars_1d max_samples =
     rbind (pick_resolution p) (\<lambda>res.
     if res = Insufficient then Inr \<lparr>replay_resolution = Insufficient, fire_count = 0, sample_fires = [], truncated = False\<rparr>
     else rbind (referenced_symbols p) (\<lambda>S0.
       let S = (if S0 \<noteq> {} then S0
                else case p of JObj m \<Rightarrow> {if falsy (jget m ''symbol'') then JStr ''X'' else jget m ''symbol''} | _ \<Rightarrow> {});
           fs = fires p S (if res = Minutes then bars_1m else bars_1d)
       in Inr \<lparr>replay_resolution = res, fire_count = length fs,
               sample_fires = map (\<lambda>b. (ts b, close b)) (take max_samples fs), truncated = max_samples < length fs\<rparr>))"

text \<open>Both symbols above their thresholds.\<close>

definition both_above :: "string \<Rightarrow> int \<Rightarrow> string \<Rightarrow> int \<Rightarrow> json" where
  "both_above s x t y =
     (let above = \<lambda>s x. JObj [(''kind'', JStr ''price_threshold''), (''symbol'', JStr s), (''op'', JStr ''gt''), (''value'', JInt x)]
      in JObj [(''kind'', JStr ''composite_and''), (''children'', JArr [above s x, above t y])])"

lemma both_above_valid: "\<lbrakk>symbol_ok (JStr s); symbol_ok (JStr t)\<rbrakk> \<Longrightarrow> valid (both_above s x t y)"
  by (simp add: both_above_def is_composite_def kind_of_def leaf_ok_def leaf_schemas_def object_ok_def one_of_def is_number_def)

text \<open>The dry run replays every symbol of a predicate on the same series of bars, the runner evaluates it on the bars of
  one symbol only: a rule that wants two symbols above their thresholds is shown to fire at every bar of a series above
  both, and never fires once it is active.\<close>

theorem dry_run_overstates:
  assumes "symbol_ok (JStr s)" and "symbol_ok (JStr t)" and "s \<noteq> t"
    and "\<And>b. b \<in> set series \<Longrightarrow> of_int x < close b \<and> of_int y < close b"
  shows "(\<exists>r. replay (both_above s x t y) series bars_1d n = Inr r \<and> fire_count r = length series)
       \<and> evaluate_predicate (build_evaluator_state u rows) (both_above s x t y) \<noteq> Inr True"
proof -
  let ?p = "both_above s x t y" and ?S = "{JStr s, JStr t}"
  have "referenced_symbols ?p = Inr ?S"
    by (simp add: both_above_def is_composite_def kind_of_def SYMBOL_KINDS_def item_def as_member_def insert_commute)
  moreover have "pick_resolution ?p = Inr Minutes"
    by (simp add: both_above_def is_composite_def kind_of_def resolution_of_window_def jget_def)
  moreover have "evaluate_predicate (replay_state ?S (take (Suc i) series)) ?p = Inr True" if "i < length series" for i
  proof -
    have "last (take (Suc i) series) \<in> set series"
      using that by (simp add: take_Suc_conv_app_nth)
    with assms(4) have "of_int x < close (last (take (Suc i) series))" "of_int y < close (last (take (Suc i) series))" by auto
    then show ?thesis
      by (simp add: both_above_def kind_of_def eval_leaf_def eval_price_threshold_def item_def apply_op_def replay_state_def)
  qed
  then have "length (fires ?p ?S series) = length series"
    by (simp add: fires_def)
  ultimately have "\<exists>r. replay ?p series bars_1d n = Inr r \<and> fire_count r = length series"
    by (simp add: replay_def Let_def)
  moreover have "blind ?p"
    using assms(3) by (simp add: both_above_def kind_of_def leaf_symbol_def jget_def SYMBOL_KINDS_def)
  ultimately show ?thesis using blind_never_fires [OF both_above_valid [OF assms(1,2)]] by blast
qed

section \<open>Applied\<close>

definition price_rule :: json where
  "price_rule = JObj [(''kind'', JStr ''price_threshold''), (''symbol'', JStr ''AAPL''), (''op'', JStr ''gt''), (''value'', JInt 200)]"

lemma price_rule_valid: "validate_schema price_rule = Inr ()"
  by (simp add: validate_schema_def price_rule_def is_composite_def kind_of_def leaf_ok_def leaf_schemas_def object_ok_def
      one_of_def is_number_def symbol_ok_def)

theorem valid_predicate_evaluates_witness: "\<exists>b. evaluate_predicate (build_evaluator_state ''AAPL'' []) price_rule = Inr b"
  by (rule valid_predicate_evaluates [OF price_rule_valid]) (simp add: price_rule_def int_field_def)

definition flat_bars :: "bar list" where
  "flat_bars = replicate 21 \<lparr>close = 10, volume = 1\<rparr>"

theorem float_period_raises_witness:
  "evaluate_predicate (build_evaluator_state ''AAPL'' flat_bars) (float_cross ''AAPL'') = Inl TypeError"
  using float_period_raises [of "''AAPL''" "build_evaluator_state ''AAPL'' flat_bars" flat_bars]
  by (simp add: build_evaluator_state_def flat_bars_def Let_def)

theorem only_referenced_symbols_matter_witness:
  "evaluate_predicate (build_evaluator_state ''MSFT'' flat_bars) price_rule = evaluate_predicate (build_evaluator_state ''MSFT'' []) price_rule"
proof (rule only_referenced_symbols_matter [OF price_rule_valid])
  show "referenced_symbols price_rule = Inr {JStr ''AAPL''}"
    by (simp add: price_rule_def kind_of_def SYMBOL_KINDS_def item_def as_member_def)
qed (simp_all add: build_evaluator_state_def Let_def)

theorem blind_rules_never_fire_witness:
  "evaluate_predicate (build_evaluator_state ''AAPL'' flat_bars) (both_above ''AAPL'' 1 ''MSFT'' 1) \<noteq> Inr True"
proof (rule blind_rules_never_fire)
  show "validate_schema (both_above ''AAPL'' 1 ''MSFT'' 1) = Inr ()"
    using both_above_valid [of "''AAPL''" "''MSFT''" 1 1] by (simp add: validate_schema_def symbol_ok_def)
  show "blind (both_above ''AAPL'' 1 ''MSFT'' 1)"
    by (simp add: both_above_def kind_of_def leaf_symbol_def jget_def SYMBOL_KINDS_def)
qed

theorem dry_run_overstates_witness:
  "\<exists>r. replay (both_above ''AAPL'' 1 ''MSFT'' 2) [\<lparr>close = 10, volume = 1, ts = 0\<rparr>] [] 10 = Inr r \<and> fire_count r = 1"
  using dry_run_overstates [of "''AAPL''" "''MSFT''" "[\<lparr>close = 10, volume = 1, ts = 0\<rparr>]" 1 2 "[]" 10]
  by (simp add: symbol_ok_def)

end
