(* ===== verification/Alert_Engine.thy ===== *)
theory Alert_Engine
  imports Alert_Predicates
begin

text \<open>
  The alerts evaluator (\<open>backend/app/services/alerts/evaluator.py\<close>), the rules table
  (\<open>alerts/rules.py\<close>) and the glue that runs rules (\<open>alerts/runner.py\<close>): the inverted
  index from symbols to rules, the producer's debounce, the bounded queue, the rebuild of the index,
  the processing of one queued request and the operations of the API.

  Rule ids are integers, instants and ages are rationals. The order in which Python iterates
  over a set is a parameter. Deliveries, the history of fires and the tasks themselves are left out.
\<close>

section \<open>The inverted index\<close>

record rule_index =
  ix_symbol :: "string \<Rightarrow> int set option"
  ix_rule :: "int \<Rightarrow> string set option"

definition empty_index :: rule_index where
  "empty_index = \<lparr>ix_symbol = (\<lambda>_. None), ix_rule = (\<lambda>_. None)\<rparr>"

definition the_or :: "'a set option \<Rightarrow> 'a set" where
  "the_or v = (case v of Some S \<Rightarrow> S | None \<Rightarrow> {})"

lemma the_or_simps [simp]: "the_or None = {}" "the_or (Some S) = S"
  by (simp_all add: the_or_def)

definition index_remove :: "int \<Rightarrow> rule_index \<Rightarrow> rule_index" where
  "index_remove r ix =
     \<lparr>ix_symbol = (\<lambda>s. if s \<in> the_or (ix_rule ix r) then
         (case ix_symbol ix s of None \<Rightarrow> None | Some b \<Rightarrow> if b - {r} = {} then None else Some (b - {r}))
        else ix_symbol ix s),
      ix_rule = (ix_rule ix)(r := None)\<rparr>"

definition index_add :: "int \<Rightarrow> string set \<Rightarrow> rule_index \<Rightarrow> rule_index" where
  "index_add r S ix0 =
     (let ix = index_remove r ix0 in
      \<lparr>ix_symbol = (\<lambda>s. if s \<in> S then Some (insert r (the_or (ix_symbol ix s))) else ix_symbol ix s),
       ix_rule = (ix_rule ix)(r \<mapsto> S)\<rparr>)"

definition rules_for :: "rule_index \<Rightarrow> string \<Rightarrow> int set" where
  "rules_for ix s = the_or (ix_symbol ix s)"

datatype index_op = Index_Add int "string set" | Index_Remove int

fun index_step :: "index_op \<Rightarrow> rule_index \<Rightarrow> rule_index" where
  "index_step (Index_Add r S) ix = index_add r S ix"
| "index_step (Index_Remove r) ix = index_remove r ix"

text \<open>What the index stands for: the symbols of each rule.\<close>

fun spec_step :: "index_op \<Rightarrow> (int \<Rightarrow> string set option) \<Rightarrow> int \<Rightarrow> string set option" where
  "spec_step (Index_Add r S) f = f(r \<mapsto> S)"
| "spec_step (Index_Remove r) f = f(r := None)"

definition index_ok :: "rule_index \<Rightarrow> bool" where
  "index_ok ix \<longleftrightarrow> (\<forall>s. rules_for ix s = {r. \<exists>S. ix_rule ix r = Some S \<and> s \<in> S} \<and> ix_symbol ix s \<noteq> Some {})"

lemma index_okD: "index_ok ix \<Longrightarrow> r \<in> the_or (ix_symbol ix s) \<longleftrightarrow> s \<in> the_or (ix_rule ix r)"
  by (auto simp: index_ok_def rules_for_def the_or_def split: option.splits)

lemma index_okI:
  assumes "\<And>r s. r \<in> the_or (ix_symbol ix s) \<longleftrightarrow> s \<in> the_or (ix_rule ix r)" and "\<And>s. ix_symbol ix s \<noteq> Some {}"
  shows "index_ok ix"
proof -
  have "s \<in> the_or v \<longleftrightarrow> (\<exists>S. v = Some S \<and> s \<in> S)" for v and s :: string by (cases v) simp_all
  then show ?thesis unfolding index_ok_def rules_for_def using assms by (auto simp: set_eq_iff)
qed

lemma index_remove_member:
  "q \<in> the_or (ix_symbol (index_remove r ix) s)
     \<longleftrightarrow> q \<in> the_or (ix_symbol ix s) \<and> (s \<in> the_or (ix_rule ix r) \<longrightarrow> q \<noteq> r)"
  by (auto simp: index_remove_def the_or_def split: option.splits if_splits)

lemma index_remove_ok:
  assumes "index_ok ix"
  shows "index_ok (index_remove r ix)"
proof (rule index_okI)
  fix q s
  show "q \<in> the_or (ix_symbol (index_remove r ix) s) \<longleftrightarrow> s \<in> the_or (ix_rule (index_remove r ix) q)"
    unfolding index_remove_member index_okD [OF assms] by (auto simp: index_remove_def)
next
  fix s
  show "ix_symbol (index_remove r ix) s \<noteq> Some {}"
    using assms by (auto simp: index_remove_def index_ok_def split: option.splits)
qed

lemma index_add_ok:
  assumes "index_ok ix"
  shows "index_ok (index_add r S ix)"
proof (rule index_okI)
  note ok = index_remove_ok [OF assms, of r]
  have gone: "the_or (ix_rule (index_remove r ix) r) = {}" by (simp add: index_remove_def)
  fix q s
  show "q \<in> the_or (ix_symbol (index_add r S ix) s) \<longleftrightarrow> s \<in> the_or (ix_rule (index_add r S ix) q)"
    using index_okD [OF ok, of q s] index_okD [OF ok, of r s] gone
    by (cases "q = r") (auto simp: index_add_def Let_def)
next
  fix s
  show "ix_symbol (index_add r S ix) s \<noteq> Some {}"
    using index_remove_ok [OF assms, of r] by (auto simp: index_add_def Let_def index_ok_def)
qed

lemma index_step_ok: "index_ok ix \<Longrightarrow> index_ok (index_step op ix)"
  by (cases op) (simp_all add: index_add_ok index_remove_ok)

interpretation alert_index: invariant_machine index_step index_ok
  by unfold_locales (rule index_step_ok)

lemma index_step_rules: "ix_rule (index_step op ix) = spec_step op (ix_rule ix)"
  by (cases op) (simp_all add: index_add_def index_remove_def Let_def)

lemma index_run_rules: "ix_rule (fold index_step ops ix) = fold spec_step ops (ix_rule ix)"
  by (induction ops arbitrary: ix) (simp_all add: index_step_rules)

lemma empty_index_ok: "index_ok empty_index"
  by (simp add: index_ok_def empty_index_def rules_for_def)

text \<open>C20: after any sequence of additions and removals the index answers a symbol with exactly the rules whose latest
  set of symbols has it, and holds no empty bucket.\<close>

theorem index_refines_rules:
  "rules_for (fold index_step ops empty_index) s = {r. \<exists>S. fold spec_step ops (\<lambda>_. None) r = Some S \<and> s \<in> S}
   \<and> ix_symbol (fold index_step ops empty_index) s \<noteq> Some {}"
  using alert_index.run_inv [OF empty_index_ok, of ops] index_run_rules [of ops empty_index]
  by (simp add: index_ok_def empty_index_def)

section \<open>Debounce and queue\<close>

record queued =
  qi_rule :: int
  qi_symbol :: string
  qi_ts :: json

record evaluator =
  ev_debounce :: rat
  ev_max_age :: rat
  ev_age_fn :: "(int \<Rightarrow> string \<Rightarrow> rat) option"
  ev_last :: "int \<times> string \<Rightarrow> rat option"
  ev_maxsize :: nat
  ev_queue :: "queued list"
  ev_dropped :: nat
  ev_debounced :: nat
  ev_index :: rule_index
  ev_cache :: "int \<Rightarrow> string option"

definition producer_debounce_check :: "int \<Rightarrow> string \<Rightarrow> rat \<Rightarrow> evaluator \<Rightarrow> bool \<times> evaluator" where
  "producer_debounce_check r s now e =
     (case ev_last e (r, s) of
        Some prev \<Rightarrow>
          if now - prev < ev_debounce e then (False, e\<lparr>ev_debounced := Suc (ev_debounced e)\<rparr>)
          else (True, e\<lparr>ev_last := (ev_last e)((r, s) \<mapsto> now)\<rparr>)
      | None \<Rightarrow> (True, e\<lparr>ev_last := (ev_last e)((r, s) \<mapsto> now)\<rparr>))"

definition sweep_debounce :: "rat \<Rightarrow> rat option \<Rightarrow> evaluator \<Rightarrow> evaluator" where
  "sweep_debounce now max_age e =
     (let age = (\<lambda>(r, s). case (max_age, ev_age_fn e) of
          (Some a, _) \<Rightarrow> a | (None, None) \<Rightarrow> ev_max_age e | (None, Some f) \<Rightarrow> max (f r s) (ev_max_age e))
      in e\<lparr>ev_last := (\<lambda>k. case ev_last e k of Some t \<Rightarrow> if age k < now - t then None else Some t | None \<Rightarrow> None)\<rparr>)"

text \<open>\<open>asyncio.Queue.put_nowait\<close> on a full queue raises, and the oldest element is dropped; size 0 is no bound.\<close>

definition enqueue :: "queued \<Rightarrow> evaluator \<Rightarrow> evaluator" where
  "enqueue x e =
     (if 0 < ev_maxsize e \<and> ev_maxsize e \<le> length (ev_queue e)
      then e\<lparr>ev_queue := tl (ev_queue e) @ [x], ev_dropped := Suc (ev_dropped e)\<rparr>
      else e\<lparr>ev_queue := ev_queue e @ [x]\<rparr>)"

lemma enqueue_frames [simp]:
  "ev_maxsize (enqueue x e) = ev_maxsize e" "ev_last (enqueue x e) = ev_last e" "ev_debounce (enqueue x e) = ev_debounce e"
  "ev_index (enqueue x e) = ev_index e" "ev_cache (enqueue x e) = ev_cache e"
  by (simp_all add: enqueue_def)

text \<open>The queue never grows beyond its size, and what it drops is the oldest: after any burst it holds the latest
  requests, and the counter of dropped ones is what is missing.\<close>

theorem queue_keeps_the_latest:
  assumes "0 < ev_maxsize e" and "length (ev_queue e) \<le> ev_maxsize e"
  shows "ev_queue (fold enqueue xs e) = drop (length (ev_queue e @ xs) - ev_maxsize e) (ev_queue e @ xs)
       \<and> ev_dropped (fold enqueue xs e) = ev_dropped e + (length (ev_queue e @ xs) - ev_maxsize e)
       \<and> length (ev_queue (fold enqueue xs e)) \<le> ev_maxsize e"
  using assms
proof (induction xs arbitrary: e)
  case Nil
  then show ?case by simp
next
  case (Cons x xs)
  show ?case
  proof (cases "ev_maxsize e \<le> length (ev_queue e)")
    case True
    then have full: "length (ev_queue e) = ev_maxsize e" "ev_queue e \<noteq> []" using Cons.prems by auto
    have step: "enqueue x e = e\<lparr>ev_queue := tl (ev_queue e) @ [x], ev_dropped := Suc (ev_dropped e)\<rparr>"
      using True Cons.prems(1) by (simp add: enqueue_def)
    have "length (ev_queue (enqueue x e)) \<le> ev_maxsize (enqueue x e)" using full Cons.prems(1) by (simp add: step)
    note ih = Cons.IH [OF _ this]
    obtain a q where q: "ev_queue e = a # q" "ev_maxsize e = Suc (length q)" using full by (cases "ev_queue e") auto
    from ih show ?thesis by (simp add: step q)
  next
    case False
    then have step: "enqueue x e = e\<lparr>ev_queue := ev_queue e @ [x]\<rparr>" by (simp add: enqueue_def)
    have "length (ev_queue (enqueue x e)) \<le> ev_maxsize (enqueue x e)" using False by (simp add: step)
    from Cons.IH [OF _ this] Cons.prems(1) show ?thesis by (simp add: step)
  qed
qed

text \<open>A run of the producer side: requests and sweeps at their instants, and the requests it let through.\<close>

datatype producer_event = Request int string rat | Sweep rat

fun instant :: "producer_event \<Rightarrow> rat" where
  "instant (Request r s t) = t"
| "instant (Sweep t) = t"

fun produce :: "producer_event list \<Rightarrow> evaluator \<Rightarrow> (int \<times> string \<times> rat) list" where
  "produce [] e = []"
| "produce (Request r s t # es) e =
     (let (ok, e') = producer_debounce_check r s t e in (if ok then [(r, s, t)] else []) @ produce es e')"
| "produce (Sweep t # es) e = produce es (sweep_debounce t None e)"

definition patient :: "evaluator \<Rightarrow> bool" where
  "patient e \<longleftrightarrow> ev_debounce e \<le> ev_max_age e"

lemma check_frames [simp]:
  "ev_debounce (snd (producer_debounce_check r s t e)) = ev_debounce e"
  "ev_max_age (snd (producer_debounce_check r s t e)) = ev_max_age e"
  "ev_index (snd (producer_debounce_check r s t e)) = ev_index e"
  "ev_queue (snd (producer_debounce_check r s t e)) = ev_queue e"
  "ev_maxsize (snd (producer_debounce_check r s t e)) = ev_maxsize e"
  by (simp_all add: producer_debounce_check_def split: option.split)

lemma sweep_frames [simp]:
  "ev_debounce (sweep_debounce t a e) = ev_debounce e" "ev_max_age (sweep_debounce t a e) = ev_max_age e"
  by (simp_all add: sweep_debounce_def Let_def)

lemma produced_later:
  "\<lbrakk>sorted (map instant es); \<forall>x \<in> set es. t0 \<le> instant x; (r, s, t) \<in> set (produce es e)\<rbrakk> \<Longrightarrow> t0 \<le> t"
  by (induction es e rule: produce.induct) (auto split: prod.splits if_splits)

text \<open>Within the window of an accepted request its key stays blocked, sweeps included.\<close>

lemma blocked_until:
  assumes "patient e" and "\<exists>l. ev_last e (r, s) = Some l \<and> a \<le> l" and "(r, s, t) \<in> set (produce es e)"
    and "sorted (map instant es)" and "\<forall>x \<in> set es. a \<le> instant x"
  shows "a + ev_debounce e \<le> t"
  using assms
proof (induction es e rule: produce.induct)
  case (1 e)
  then show ?case by simp
next
  case (2 r' s' t' es e)
  obtain ok e' where c: "producer_debounce_check r' s' t' e = (ok, e')" by fastforce
  have f: "ev_debounce e' = ev_debounce e" "ev_max_age e' = ev_max_age e"
    using check_frames(1,2) [of r' s' t' e] c by simp_all
  obtain l where l: "ev_last e (r, s) = Some l" "a \<le> l" using 2(3) by blast
  have kept: "\<exists>l. ev_last e' (r, s) = Some l \<and> a \<le> l"
    using c l 2(6) by (auto simp: producer_debounce_check_def split: option.splits if_splits)
  consider "ok" "(r, s, t) = (r', s', t')" | "(r, s, t) \<in> set (produce es e')"
    using 2(4) c by (auto split: if_splits)
  then show ?case
  proof cases
    case 1
    then have "\<not> t - l < ev_debounce e" using c l by (auto simp: producer_debounce_check_def split: if_splits)
    with l(2) show ?thesis by simp
  next
    case 2
    have "a + ev_debounce e' \<le> t"
      by (rule "2.IH" [OF c [symmetric] refl])
        (use 2 f kept "2.prems" in \<open>auto simp: patient_def\<close>)
    with f show ?thesis by simp
  qed
next
  case (3 t' es e)
  obtain l where l: "ev_last e (r, s) = Some l" "a \<le> l" using 3(3) by blast
  show ?case
  proof (cases "ev_last (sweep_debounce t' None e) (r, s)")
    case (Some l')
    then have "l' = l" using l by (auto simp: sweep_debounce_def Let_def split: if_splits option.splits)
    then have "a + ev_debounce (sweep_debounce t' None e) \<le> t"
      using 3 Some l by (intro 3(1)) (auto simp: patient_def)
    then show ?thesis by simp
  next
    case None
    then have "ev_max_age e < t' - l"
      using l by (auto simp: sweep_debounce_def Let_def split: if_splits option.splits)
    moreover have "t' \<le> t" using produced_later [of es t' r s t "sweep_debounce t' None e"] 3 by simp
    ultimately show ?thesis using 3(2) l(2) by (simp add: patient_def)
  qed
qed

lemma accepted_state:
  assumes "produce es e = xs @ (r, s, t) # rest" and "patient e" and "sorted (map instant es)"
  obtains es' e' where "rest = produce es' e'" "patient e'" "ev_last e' (r, s) = Some t" "ev_debounce e' = ev_debounce e"
    "sorted (map instant es')" "\<forall>x \<in> set es'. t \<le> instant x"
  using assms
proof (induction es e arbitrary: xs thesis rule: produce.induct)
  case (1 e)
  then show ?case by simp
next
  case (2 r' s' t' es e)
  obtain ok e' where c: "producer_debounce_check r' s' t' e = (ok, e')" by fastforce
  have f: "ev_debounce e' = ev_debounce e" "patient e'"
    using check_frames(1,2) [of r' s' t' e] c 2(4) by (simp_all add: patient_def)
  have ih: thesis if "produce es e' = ys @ (r, s, t) # rest" for ys
    by (rule "2.IH" [OF c [symmetric] refl _ that f(2)]) (use "2.prems" f in auto)
  show ?case
  proof (cases "ok \<and> xs = []")
    case True
    then have "(r, s, t) = (r', s', t')" "rest = produce es e'" using 2(3) c by simp_all
    moreover have "ev_last e' (r', s') = Some t'"
      using c True by (auto simp: producer_debounce_check_def split: option.splits if_splits)
    ultimately show ?thesis using 2(2,5) f by simp
  next
    case False
    then show ?thesis using 2(3) c ih by (cases xs) (auto split: if_splits)
  qed
next
  case (3 t' es e)
  have p: "patient (sweep_debounce t' None e)" using 3(4) by (simp add: patient_def)
  show ?case
    by (rule "3.IH" [OF _ _ p]) (use "3.prems" in \<open>auto simp: patient_def\<close>)
qed

text \<open>Two requests of one rule and symbol that pass the debounce are at least its window apart, whatever else
  happens between them, sweeps of old entries included, provided an entry is not swept before the window is over.\<close>

theorem debounce_spacing:
  assumes "produce es e = xs @ (r, s, t1) # ys @ (r, s, t2) # zs"
    and "ev_debounce e \<le> ev_max_age e" and "sorted (map instant es)"
  shows "t1 + ev_debounce e \<le> t2"
proof -
  have "patient e" using assms(2) by (simp add: patient_def)
  from accepted_state [OF assms(1) this assms(3)] obtain es' e' where st: "ys @ (r, s, t2) # zs = produce es' e'" "patient e'"
    "ev_last e' (r, s) = Some t1" "ev_debounce e' = ev_debounce e" "sorted (map instant es')" "\<forall>x \<in> set es'. t1 \<le> instant x"
    by metis
  have "(r, s, t2) \<in> set (produce es' e')" unfolding st(1) [symmetric] by simp
  from blocked_until [OF st(2) _ this st(5,6)] st(3,4) show ?thesis by auto
qed

section \<open>The rules table\<close>

datatype rule_status = Pending | Active | Dormant | Disabled | Deleted

record alert_rule =
  al_id :: int
  al_subject :: string
  al_predicate :: json
  al_caps :: "capability list"
  al_parse :: string
  al_status :: rule_status
  al_reason :: "string option"
  al_errors :: nat
  al_confirmed :: bool
  al_deleted :: bool
  al_muted :: "int option"

datatype rule_error = RuleNotFound | RuleCrossSubject | AlreadyActive | PredicateInvalid | NoResult | Raised exn

type_synonym 'a rules_op = "alert_rule list \<Rightarrow> (rule_error + 'a) \<times> alert_rule list"

definition get_rule :: "int \<Rightarrow> string \<Rightarrow> alert_rule list \<Rightarrow> rule_error + alert_rule" where
  "get_rule i subj tbl =
     (case List.find (\<lambda>a. al_id a = i \<and> al_status a \<noteq> Deleted) tbl of
        None \<Rightarrow> Inl RuleNotFound
      | Some a \<Rightarrow> if al_subject a \<noteq> subj then Inl RuleCrossSubject else Inr a)"

text \<open>\<open>ORDER BY created_at DESC\<close>: the table keeps the order of creation.\<close>

definition list_rules :: "string \<Rightarrow> alert_rule list \<Rightarrow> alert_rule list" where
  "list_rules subj tbl = rev (filter (\<lambda>a. al_subject a = subj \<and> al_status a \<noteq> Deleted) tbl)"

text \<open>\<open>UPDATE ... RETURNING\<close> read with \<open>.one()\<close>.\<close>

definition update_one :: "(alert_rule \<Rightarrow> bool) \<Rightarrow> (alert_rule \<Rightarrow> alert_rule) \<Rightarrow> alert_rule rules_op" where
  "update_one P f tbl =
     (case filter P tbl of
        [a] \<Rightarrow> (Inr (f a), map (\<lambda>a. if P a then f a else a) tbl)
      | _ \<Rightarrow> (Inl NoResult, tbl))"

definition create_rule :: "int \<Rightarrow> string \<Rightarrow> json \<Rightarrow> string \<Rightarrow> alert_rule rules_op" where
  "create_rule i subj p parse tbl =
     (case validate_schema p of Inl _ \<Rightarrow> (Inl PredicateInvalid, tbl)
      | Inr _ \<Rightarrow>
        (case referenced_capabilities p of Inl e \<Rightarrow> (Inl (Raised e), tbl)
         | Inr caps \<Rightarrow>
             (let a = \<lparr>al_id = i, al_subject = subj, al_predicate = p, al_caps = caps, al_parse = parse, al_status = Pending,
                       al_reason = None, al_errors = 0, al_confirmed = False, al_deleted = False, al_muted = None\<rparr>
              in (Inr a, tbl @ [a]))))"

definition erased :: "int \<Rightarrow> string \<Rightarrow> alert_rule \<Rightarrow> alert_rule" where
  "erased i subj a = (if al_id a = i \<and> al_subject a = subj \<and> al_status a \<noteq> Deleted
     then a\<lparr>al_status := Deleted, al_deleted := True\<rparr> else a)"

definition delete_rule :: "int \<Rightarrow> string \<Rightarrow> unit rules_op" where
  "delete_rule i subj tbl =
     (case get_rule i subj tbl of Inl e \<Rightarrow> (Inl e, tbl)
      | Inr _ \<Rightarrow> (Inr (), map (erased i subj) tbl))"

definition update_predicate :: "int \<Rightarrow> string \<Rightarrow> json \<Rightarrow> alert_rule rules_op" where
  "update_predicate i subj p tbl =
     (case validate_schema p of Inl _ \<Rightarrow> (Inl PredicateInvalid, tbl)
      | Inr _ \<Rightarrow>
        (case get_rule i subj tbl of Inl e \<Rightarrow> (Inl e, tbl)
         | Inr _ \<Rightarrow>
           (case referenced_capabilities p of Inl e \<Rightarrow> (Inl (Raised e), tbl)
            | Inr caps \<Rightarrow> update_one (\<lambda>a. al_id a = i \<and> al_subject a = subj \<and> al_status a \<noteq> Deleted)
                (\<lambda>a. a\<lparr>al_predicate := p, al_caps := caps, al_parse := ''manual''\<rparr>) tbl)))"

definition confirm_rule :: "int \<Rightarrow> string \<Rightarrow> alert_rule rules_op" where
  "confirm_rule i subj tbl =
     (case get_rule i subj tbl of Inl e \<Rightarrow> (Inl e, tbl)
      | Inr a \<Rightarrow>
          if al_status a = Active then (Inl AlreadyActive, tbl)
          else if al_status a \<noteq> Pending then (Inl RuleNotFound, tbl)
          else update_one (\<lambda>a. al_id a = i \<and> al_subject a = subj \<and> al_status a = Pending)
                 (\<lambda>a. a\<lparr>al_status := Active, al_confirmed := True\<rparr>) tbl)"

text \<open>\<open>PUT /alerts/{id}/status\<close> of \<open>backend/app/api/alerts.py\<close>: 400, 404 and 409 are the errors.\<close>

definition allowed_transitions :: "rule_status \<Rightarrow> rule_status set" where
  "allowed_transitions st = (case st of Active \<Rightarrow> {Disabled} | Disabled \<Rightarrow> {Active} | Pending \<Rightarrow> {Active, Disabled}
     | Dormant \<Rightarrow> {Active, Disabled} | Deleted \<Rightarrow> {})"

definition put_alert_status :: "int \<Rightarrow> string \<Rightarrow> rule_status \<Rightarrow> unit rules_op" where
  "put_alert_status i subj st tbl =
     (if st \<notin> {Active, Disabled} then (Inl (Raised (HttpError 400 ''invalid_status'')), tbl)
      else (case get_rule i subj tbl of Inl e \<Rightarrow> (Inl RuleNotFound, tbl)
      | Inr a \<Rightarrow>
          if al_status a = st then (Inr (), tbl)
          else if st \<notin> allowed_transitions (al_status a) then (Inl (Raised (HttpError 409 ''invalid_status_transition'')), tbl)
          else (Inr (), map (\<lambda>a. if al_id a = i \<and> al_subject a = subj
                       then a\<lparr>al_status := st, al_reason := None, al_errors := 0\<rparr> else a) tbl)))"

text \<open>\<open>/mute\<close> and \<open>/unmute\<close> of \<open>backend/app/services/telegram/commands.py\<close>; \<open>until = None\<close> mutes for good.\<close>

definition handle_mute :: "int \<Rightarrow> string \<Rightarrow> int option \<Rightarrow> alert_rule list \<Rightarrow> alert_rule list" where
  "handle_mute i subj until = map (\<lambda>a. if al_id a = i \<and> al_subject a = subj
     then a\<lparr>al_status := Disabled, al_muted := until\<rparr> else a)"

definition unmuted :: "int \<Rightarrow> string \<Rightarrow> alert_rule \<Rightarrow> alert_rule" where
  "unmuted i subj a = (if al_id a = i \<and> al_subject a = subj then a\<lparr>al_status := Active, al_muted := None\<rparr> else a)"

definition handle_unmute :: "int \<Rightarrow> string \<Rightarrow> alert_rule list \<Rightarrow> alert_rule list" where
  "handle_unmute i subj = map (unmuted i subj)"

definition mute_expiry_restore :: "int \<Rightarrow> alert_rule list \<Rightarrow> alert_rule list" where
  "mute_expiry_restore now = map (\<lambda>a. case al_muted a of
       Some t \<Rightarrow> if al_status a = Disabled \<and> t \<le> now then a\<lparr>al_status := Active, al_muted := None\<rparr> else a
     | None \<Rightarrow> a)"

section \<open>Running the rules\<close>

definition DORMANCY_THRESHOLD :: nat where "DORMANCY_THRESHOLD = 10"

definition mark_eval_error :: "int \<Rightarrow> alert_rule list \<Rightarrow> alert_rule list" where
  "mark_eval_error i = map (\<lambda>a. if al_id a = i then
     a\<lparr>al_errors := Suc (al_errors a),
       al_status := (if DORMANCY_THRESHOLD \<le> Suc (al_errors a) then Dormant else al_status a),
       al_reason := (if DORMANCY_THRESHOLD \<le> Suc (al_errors a) then Some ''eval_errors'' else al_reason a)\<rparr> else a)"

datatype outcome = Skipped | Errored | Quiet | Fired

text \<open>\<open>process\<close>: \<open>rows\<close> are the bars of the symbol in the database.\<close>

definition process :: "int \<Rightarrow> string \<Rightarrow> bar list \<Rightarrow> alert_rule list \<Rightarrow> outcome \<times> alert_rule list" where
  "process i s rows tbl =
     (case List.find (\<lambda>a. al_id a = i \<and> \<not> al_deleted a) tbl of
        None \<Rightarrow> (Skipped, tbl)
      | Some a \<Rightarrow>
          if al_status a \<noteq> Active \<or> rows = [] then (Skipped, tbl)
          else (case evaluate_predicate (build_evaluator_state s rows) (al_predicate a) of
              Inl _ \<Rightarrow> (Errored, mark_eval_error i tbl)
            | Inr False \<Rightarrow> (Quiet, map (\<lambda>a. if al_id a = i \<and> 0 < al_errors a then a\<lparr>al_errors := 0\<rparr> else a) tbl)
            | Inr True \<Rightarrow> (Fired, tbl)))"

text \<open>The rebuild of the index and of the cache from instruments to symbols; the aliases are the rows of \<open>symbol_aliases\<close>.\<close>

definition rule_symbols :: "alert_rule \<Rightarrow> string set" where
  "rule_symbols a = (case referenced_symbols (al_predicate a) of Inl _ \<Rightarrow> {} | Inr S \<Rightarrow> {s. JStr s \<in> S})"

definition load_active_rules :: "alert_rule list \<Rightarrow> alert_rule list" where
  "load_active_rules = filter (\<lambda>a. al_status a = Active \<and> \<not> al_deleted a)"

definition rebuild :: "alert_rule list \<Rightarrow> (int \<times> string) list \<Rightarrow> evaluator \<Rightarrow> evaluator" where
  "rebuild tbl aliases e =
     (let rules = filter (\<lambda>a. rule_symbols a \<noteq> {}) (load_active_rules tbl);
          syms = (\<Union>a \<in> set rules. rule_symbols a) in
      e\<lparr>ev_index := fold (\<lambda>a. index_add (al_id a) (rule_symbols a)) rules empty_index,
        ev_cache := map_of (rev (filter (\<lambda>(i, s). s \<in> syms) aliases))\<rparr>)"

fun to_int :: "json \<Rightarrow> exn + int" where
  "to_int (JInt i) = Inr i"
| "to_int (JFloat x) = Inr (if 0 \<le> x then \<lfloor>x\<rfloor> else \<lceil>x\<rceil>)"
| "to_int (JBool b) = Inr (if b then 1 else 0)"
| "to_int (JStr s) = parse_int s"
| "to_int _ = Inl TypeError"

definition request :: "string \<Rightarrow> json \<Rightarrow> rat \<Rightarrow> int \<Rightarrow> evaluator \<Rightarrow> evaluator" where
  "request s stamp now r e =
     (let (ok, e') = producer_debounce_check r s now e in
      if ok then enqueue \<lparr>qi_rule = r, qi_symbol = s, qi_ts = stamp\<rparr> e' else e')"

text \<open>\<open>payload = None\<close>: the text is no JSON.\<close>

definition on_bars_1m_notify :: "(int set \<Rightarrow> int list) \<Rightarrow> json option \<Rightarrow> rat \<Rightarrow> evaluator \<Rightarrow> evaluator" where
  "on_bars_1m_notify order payload now e =
     (case payload of
        Some (JObj m) \<Rightarrow>
          if jget m ''inst_id'' = JNull then e
          else (case to_int (jget m ''inst_id'') of Inl _ \<Rightarrow> e
            | Inr i \<Rightarrow>
               (case ev_cache e i of None \<Rightarrow> e
                | Some s \<Rightarrow> fold (request s (jget m ''ts'') now) (order (rules_for (ev_index e) s)) e))
      | _ \<Rightarrow> e)"

lemma find_by_key:
  assumes "a \<in> set tbl" and "al_id a = i" and "distinct (map al_id tbl)" and "Q a"
  shows "List.find (\<lambda>a. al_id a = i \<and> Q a) tbl = Some a"
proof -
  have "List.find (\<lambda>a. al_id a = i \<and> Q a) tbl \<noteq> None" unfolding find_None_iff using assms by blast
  then obtain b where "List.find (\<lambda>a. al_id a = i \<and> Q a) tbl = Some b" by blast
  moreover have "b = a"
    using find_Some_iff' [OF calculation] assms(1-3) inj_onD [of al_id "set tbl" b a] by (simp add: distinct_map)
  ultimately show ?thesis by simp
qed

section \<open>Subjects\<close>

datatype api_call = Create int json string | Update_Predicate int json | Confirm int | Delete int | Put_Status int rule_status

fun api_step :: "string \<Rightarrow> api_call \<Rightarrow> alert_rule list \<Rightarrow> alert_rule list" where
  "api_step subj (Create i p parse) tbl = snd (create_rule i subj p parse tbl)"
| "api_step subj (Update_Predicate i p) tbl = snd (update_predicate i subj p tbl)"
| "api_step subj (Confirm i) tbl = snd (confirm_rule i subj tbl)"
| "api_step subj (Delete i) tbl = snd (delete_rule i subj tbl)"
| "api_step subj (Put_Status i st) tbl = snd (put_alert_status i subj st tbl)"

definition rules_of :: "string \<Rightarrow> alert_rule list \<Rightarrow> alert_rule list" where
  "rules_of subj = filter (\<lambda>a. al_subject a = subj)"

lemma rules_of_map:
  "\<lbrakk>\<And>a. al_subject (f a) = al_subject a; \<And>a. al_subject a = other \<Longrightarrow> f a = a\<rbrakk> \<Longrightarrow> rules_of other (map f tbl) = rules_of other tbl"
  by (induction tbl) (simp_all add: rules_of_def)

lemma update_one_snd:
  "snd (update_one P f tbl) \<in> {tbl, map (\<lambda>a. if P a then f a else a) tbl}"
  by (simp add: update_one_def split: list.split)

lemma rules_of_update_one:
  assumes "\<And>a. al_subject (f a) = al_subject a" and "\<And>a. P a \<Longrightarrow> al_subject a \<noteq> other"
  shows "rules_of other (snd (update_one P f tbl)) = rules_of other tbl"
proof -
  have "rules_of other (map (\<lambda>a. if P a then f a else a) tbl) = rules_of other tbl"
    by (rule rules_of_map) (use assms in auto)
  then show ?thesis using update_one_snd [of P f tbl] by auto
qed

lemma api_step_others:
  assumes "other \<noteq> subj"
  shows "rules_of other (api_step subj c tbl) = rules_of other tbl"
proof (cases c)
  case (Create i p parse)
  then show ?thesis using assms
    by (auto simp: create_rule_def rules_of_def Let_def split: sum.split)
next
  case (Update_Predicate i p)
  then show ?thesis using assms
    by (auto simp: update_predicate_def intro!: rules_of_update_one split: sum.split)
next
  case (Confirm i)
  then show ?thesis using assms
    by (auto simp: confirm_rule_def intro!: rules_of_update_one split: sum.split)
next
  case (Delete i)
  then show ?thesis using assms
    by (auto simp: delete_rule_def erased_def intro!: rules_of_map split: sum.split)
next
  case (Put_Status i st)
  then show ?thesis using assms
    by (auto simp: put_alert_status_def intro!: rules_of_map split: sum.split)
qed

text \<open>Whatever calls of the API one subject makes, valid or not, the rules of every other subject stay exactly as
  they were, and a rule of another subject is answered like one that does not exist.\<close>

theorem subjects_isolated:
  assumes "other \<noteq> subj"
  shows "rules_of other (fold (api_step subj) cs tbl) = rules_of other tbl
       \<and> (\<forall>i a. get_rule i subj tbl = Inr a \<longrightarrow> al_subject a \<noteq> other)"
proof
  show "rules_of other (fold (api_step subj) cs tbl) = rules_of other tbl"
    by (induction cs arbitrary: tbl) (simp_all add: api_step_others [OF assms])
  show "\<forall>i a. get_rule i subj tbl = Inr a \<longrightarrow> al_subject a \<noteq> other"
    using assms by (auto simp: get_rule_def split: option.splits if_splits)
qed

text \<open>Through the API a deleted rule stays deleted.\<close>

definition deleted_row :: "int \<Rightarrow> alert_rule list \<Rightarrow> bool" where
  "deleted_row i tbl \<longleftrightarrow> (\<forall>a \<in> set tbl. al_id a = i \<longrightarrow> al_status a = Deleted \<and> al_deleted a)"

lemma deleted_not_found: "deleted_row i tbl \<Longrightarrow> get_rule i subj tbl = Inl RuleNotFound"
  by (auto simp: deleted_row_def get_rule_def find_None_iff split: option.split dest!: find_Some_iff')

text \<open>A rule that its subject deleted cannot be read or changed through the API any more; but the chat command
  \<open>/unmute\<close>, which does not look at the status, makes it active again: the API shows it once more, while the evaluator
  never runs it, since its deletion time is still set.\<close>

theorem unmute_resurrects_deleted:
  assumes "a \<in> set tbl" and "al_id a = i" and "al_subject a = subj" and "distinct (map al_id tbl)"
    and "al_status a \<noteq> Deleted"
  shows "(\<forall>s. get_rule i s (snd (delete_rule i subj tbl)) = Inl RuleNotFound)
       \<and> (\<exists>b. get_rule i subj (handle_unmute i subj (snd (delete_rule i subj tbl))) = Inr b \<and> al_status b = Active
           \<and> b \<notin> set (load_active_rules (handle_unmute i subj (snd (delete_rule i subj tbl)))))"
proof -
  have uniq: "b = a" if "b \<in> set tbl" "al_id b = i" for b
    using assms(1,2,4) that by (metis distinct_map inj_onD)
  have "get_rule i subj tbl = Inr a"
    using find_by_key [OF assms(1,2,4), of "\<lambda>a. al_status a \<noteq> Deleted"] assms(3,5) by (simp add: get_rule_def)
  then have del: "snd (delete_rule i subj tbl) = map (erased i subj) tbl" by (simp add: delete_rule_def)
  have "deleted_row i (map (erased i subj) tbl)"
    using uniq assms(2,3,5) by (auto simp: deleted_row_def erased_def)
  then have gone: "get_rule i s (map (erased i subj) tbl) = Inl RuleNotFound" for s
    by (simp add: deleted_not_found)
  let ?u = "handle_unmute i subj (map (erased i subj) tbl)" and ?a = "a\<lparr>al_status := Active, al_deleted := True, al_muted := None\<rparr>"
  have a: "unmuted i subj (erased i subj a) = ?a" using assms(2,3,5) by (simp add: unmuted_def erased_def)
  have rows: "b = ?a" if b: "b \<in> set ?u" "al_id b = i" for b
  proof -
    obtain c where c: "c \<in> set tbl" "b = unmuted i subj (erased i subj c)" using b(1) by (auto simp: handle_unmute_def)
    moreover have "al_id c = i" using b(2) by (simp add: c(2) unmuted_def erased_def split: if_splits)
    ultimately show ?thesis using uniq a by auto
  qed
  have "?a \<in> set ?u" using assms(1) a by (auto simp: handle_unmute_def intro!: image_eqI [of _ _ a])
  moreover have "al_id ?a = i \<and> al_status ?a \<noteq> Deleted" using assms(2) by simp
  ultimately have "List.find (\<lambda>a. al_id a = i \<and> al_status a \<noteq> Deleted) ?u \<noteq> None" unfolding find_None_iff by blast
  then obtain b where f: "List.find (\<lambda>a. al_id a = i \<and> al_status a \<noteq> Deleted) ?u = Some b" by blast
  from find_Some_iff' [OF f] rows have "b = ?a" by blast
  with f assms(3) have "get_rule i subj ?u = Inr ?a" by (simp add: get_rule_def)
  then show ?thesis unfolding del using gone by (auto simp: load_active_rules_def)
qed

section \<open>From a bar to a request\<close>

text \<open>Whether the debounce lets a request through.\<close>

definition ready :: "string \<Rightarrow> rat \<Rightarrow> evaluator \<Rightarrow> int \<Rightarrow> bool" where
  "ready s now e r \<longleftrightarrow> (case ev_last e (r, s) of None \<Rightarrow> True | Some t \<Rightarrow> ev_debounce e \<le> now - t)"

lemma request_effect:
  "ev_debounce (request s stamp now r e) = ev_debounce e \<and> ev_maxsize (request s stamp now r e) = ev_maxsize e
   \<and> ev_last (request s stamp now r e) = (if ready s now e r then (ev_last e)((r, s) \<mapsto> now) else ev_last e)
   \<and> (ev_maxsize e = 0 \<or> length (ev_queue e) < ev_maxsize e \<longrightarrow>
       ev_queue (request s stamp now r e)
         = ev_queue e @ (if ready s now e r then [\<lparr>qi_rule = r, qi_symbol = s, qi_ts = stamp\<rparr>] else []))"
  by (auto simp: request_def producer_debounce_check_def ready_def enqueue_def split: option.split)

lemma ready_request: "x \<noteq> r \<Longrightarrow> ready s now (request s stamp now r e) x = ready s now e x"
  using request_effect [of s stamp now r e] by (simp add: ready_def [of _ _ _ x] cong: option.case_cong)

lemma requests_queue:
  assumes "distinct rs" and "ev_maxsize e = 0 \<or> length (ev_queue e) + length rs \<le> ev_maxsize e"
  shows "ev_queue (fold (request s stamp now) rs e)
    = ev_queue e @ map (\<lambda>r. \<lparr>qi_rule = r, qi_symbol = s, qi_ts = stamp\<rparr>) (filter (ready s now e) rs)"
  using assms
proof (induction rs arbitrary: e)
  case Nil
  then show ?case by simp
next
  case (Cons r rs)
  let ?e = "request s stamp now r e"
  note eff = request_effect [of s stamp now r e]
  have room: "ev_maxsize e = 0 \<or> length (ev_queue e) < ev_maxsize e" using Cons.prems(2) by auto
  have same: "filter (ready s now ?e) rs = filter (ready s now e) rs"
    using Cons.prems(1) by (intro filter_cong refl ready_request) auto
  have "ev_maxsize ?e = 0 \<or> length (ev_queue ?e) + length rs \<le> ev_maxsize ?e"
    using Cons.prems(2) eff room by (auto split: if_splits)
  from Cons.IH [OF _ this] Cons.prems(1) eff room show ?case by (auto simp: same)
qed

text \<open>A bar of an instrument puts one request on the queue for each rule indexed under its symbol that was not
  requested within the window, and nothing else; a payload that is no JSON object, lacks the instrument or
  names an unknown one changes nothing.\<close>

theorem notify_requests:
  assumes "set (order (rules_for (ev_index e) s)) = rules_for (ev_index e) s" and "distinct (order (rules_for (ev_index e) s))"
    and "ev_maxsize e = 0 \<or> length (ev_queue e) + length (order (rules_for (ev_index e) s)) \<le> ev_maxsize e"
    and "jget m ''inst_id'' = JInt i" and "ev_cache e i = Some s"
  shows "set (ev_queue (on_bars_1m_notify order (Some (JObj m)) now e))
       = set (ev_queue e) \<union> {\<lparr>qi_rule = r, qi_symbol = s, qi_ts = jget m ''ts''\<rparr> |r. r \<in> rules_for (ev_index e) s \<and> ready s now e r}"
  using requests_queue [OF assms(2,3), of s "jget m ''ts''" now] assms(1,4,5)
  by (auto simp: on_bars_1m_notify_def)

lemma rebuild_rules_aux:
  assumes "distinct (map al_id rules)" and "index_ok ix" and "\<And>a. a \<in> set rules \<Longrightarrow> ix_rule ix (al_id a) = None"
  shows "index_ok (fold (\<lambda>a. index_add (al_id a) (f a)) rules ix)
       \<and> (\<forall>a \<in> set rules. ix_rule (fold (\<lambda>a. index_add (al_id a) (f a)) rules ix) (al_id a) = Some (f a))
       \<and> (\<forall>i. i \<notin> al_id ` set rules \<longrightarrow> ix_rule (fold (\<lambda>a. index_add (al_id a) (f a)) rules ix) i = ix_rule ix i)"
  using assms
proof (induction rules arbitrary: ix)
  case Nil
  then show ?case by simp
next
  case (Cons a rules)
  let ?ix = "index_add (al_id a) (f a) ix"
  have upd: "ix_rule ?ix = (ix_rule ix)(al_id a \<mapsto> f a)"
    using index_step_rules [of "Index_Add (al_id a) (f a)" ix] by simp
  have "index_ok ?ix" using Cons.prems(2) by (rule index_add_ok)
  moreover have "ix_rule ?ix (al_id b) = None" if "b \<in> set rules" for b
  proof -
    have "al_id b \<noteq> al_id a" using Cons.prems(1) that by (metis imageI list.set_map distinct.simps(2) list.simps(9))
    then show ?thesis using Cons.prems(3) that by (simp add: upd)
  qed
  ultimately have ih: "index_ok (fold (\<lambda>a. index_add (al_id a) (f a)) rules ?ix)
       \<and> (\<forall>a \<in> set rules. ix_rule (fold (\<lambda>a. index_add (al_id a) (f a)) rules ?ix) (al_id a) = Some (f a))
       \<and> (\<forall>i. i \<notin> al_id ` set rules \<longrightarrow> ix_rule (fold (\<lambda>a. index_add (al_id a) (f a)) rules ?ix) i = ix_rule ?ix i)"
    using Cons.IH [of ?ix] Cons.prems(1) by simp
  moreover have "al_id a \<notin> al_id ` set rules" using Cons.prems(1) by simp
  ultimately show ?case by (simp add: upd)
qed

lemma rebuild_index:
  assumes "distinct (map al_id tbl)" and "a \<in> set (load_active_rules tbl)" and "s \<in> rule_symbols a"
  shows "al_id a \<in> rules_for (ev_index (rebuild tbl aliases e)) s"
proof -
  let ?rules = "filter (\<lambda>a. rule_symbols a \<noteq> {}) (load_active_rules tbl)"
  have "distinct (map al_id ?rules)"
    using assms(1) by (simp add: load_active_rules_def distinct_map inj_on_def)
  from rebuild_rules_aux [OF this empty_index_ok, of rule_symbols]
  have "index_ok (ev_index (rebuild tbl aliases e))" "\<forall>a \<in> set ?rules. ix_rule (ev_index (rebuild tbl aliases e)) (al_id a) = Some (rule_symbols a)"
    by (simp_all add: rebuild_def empty_index_def Let_def)
  moreover have "a \<in> set ?rules" using assms(2,3) by auto
  ultimately show ?thesis using assms(3) by (auto simp: index_ok_def)
qed


lemma requests_from:
  "\<forall>x \<in> set (ev_queue (fold (request s stamp now) rs e)). x \<in> set (ev_queue e) \<or> qi_rule x \<in> set rs"
proof (induction rs arbitrary: e)
  case Nil
  then show ?case by simp
next
  case (Cons r rs)
  have "\<forall>x \<in> set (ev_queue (request s stamp now r e)). x \<in> set (ev_queue e) \<or> qi_rule x = r"
  proof -
    have "set (tl q) \<subseteq> set q" for q :: "queued list" by (cases q) auto
    then show ?thesis
      by (auto simp: request_def producer_debounce_check_def enqueue_def split: option.splits if_splits)
  qed
  with Cons.IH [of "request s stamp now r e"] show ?case by auto
qed

lemma request_index [simp]:
  "ev_index (request s stamp now r e) = ev_index e" "ev_cache (request s stamp now r e) = ev_cache e"
  by (simp_all add: request_def producer_debounce_check_def enqueue_def split: option.split)

lemma requests_index [simp]:
  "ev_index (fold (request s stamp now) rs e) = ev_index e" "ev_cache (fold (request s stamp now) rs e) = ev_cache e"
  by (induction rs arbitrary: e) simp_all

lemma notify_index [simp]:
  "ev_index (on_bars_1m_notify order pl now e) = ev_index e" "ev_cache (on_bars_1m_notify order pl now e) = ev_cache e"
  by (simp_all add: on_bars_1m_notify_def split: option.split json.split sum.split)

lemma notify_from:
  assumes "\<And>S. set (order S) \<subseteq> S" and "x \<in> set (ev_queue (on_bars_1m_notify order pl now e))" and "x \<notin> set (ev_queue e)"
  obtains i s where "ev_cache e i = Some s" "qi_rule x \<in> rules_for (ev_index e) s"
proof -
  from assms(2,3) obtain m i s where "ev_cache e i = Some s"
    "x \<in> set (ev_queue (fold (request s (jget m ''ts'') now) (order (rules_for (ev_index e) s)) e))"
    by (auto simp: on_bars_1m_notify_def split: option.splits json.splits sum.splits if_splits)
  with requests_from [of s "jget m ''ts''" now "order (rules_for (ev_index e) s)" e] assms(1,3) that show thesis by blast
qed

definition bar_run :: "(int set \<Rightarrow> int list) \<Rightarrow> (json option \<times> rat) list \<Rightarrow> evaluator \<Rightarrow> evaluator" where
  "bar_run order = fold (\<lambda>(pl, now). on_bars_1m_notify order pl now)"

lemma bar_run_from:
  assumes "\<And>S. set (order S) \<subseteq> S"
  shows "\<forall>x \<in> set (ev_queue (bar_run order es e)). x \<in> set (ev_queue e)
     \<or> (\<exists>i s. ev_cache e i = Some s \<and> qi_rule x \<in> rules_for (ev_index e) s)"
proof (induction es arbitrary: e)
  case Nil
  then show ?case by (simp add: bar_run_def)
next
  case (Cons p es)
  obtain pl now where p: "p = (pl, now)" by (cases p)
  have "\<forall>x \<in> set (ev_queue (on_bars_1m_notify order pl now e)). x \<in> set (ev_queue e)
      \<or> (\<exists>i s. ev_cache e i = Some s \<and> qi_rule x \<in> rules_for (ev_index e) s)"
    using notify_from [OF assms] by metis
  with Cons.IH [of "on_bars_1m_notify order pl now e"] show ?case by (auto simp: bar_run_def p)
qed

lemma rebuild_index_only:
  assumes "distinct (map al_id tbl)" and "\<And>a. a \<in> set tbl \<Longrightarrow> al_id a = i \<Longrightarrow> al_status a \<noteq> Active"
  shows "i \<notin> rules_for (ev_index (rebuild tbl aliases e)) s"
proof -
  let ?rules = "filter (\<lambda>a. rule_symbols a \<noteq> {}) (load_active_rules tbl)"
  have "distinct (map al_id ?rules)"
    using assms(1) by (simp add: load_active_rules_def distinct_map inj_on_def)
  from rebuild_rules_aux [OF this empty_index_ok, of rule_symbols]
  have "index_ok (ev_index (rebuild tbl aliases e))"
    "\<forall>i. i \<notin> al_id ` set ?rules \<longrightarrow> ix_rule (ev_index (rebuild tbl aliases e)) i = None"
    by (simp_all add: rebuild_def empty_index_def Let_def)
  moreover have "i \<notin> al_id ` set ?rules" using assms(2) by (auto simp: load_active_rules_def)
  ultimately show ?thesis by (auto simp: index_ok_def)
qed

text \<open>Confirming a rule makes it active in the table but, unlike the change of its status, does not ask for a rebuild:
  no sequence of bars ever requests it on the index built while it was pending.\<close>

theorem confirmed_rule_not_requested:
  assumes "confirm_rule i subj tbl = (Inr a, tbl')" and "distinct (map al_id tbl)" and "\<And>S. set (order S) \<subseteq> S"
    and "\<And>x. x \<in> set (ev_queue e) \<Longrightarrow> qi_rule x \<noteq> i"
  shows "al_status a = Active \<and> a \<in> set tbl'
       \<and> (\<forall>x \<in> set (ev_queue (bar_run order es (rebuild tbl aliases e))). qi_rule x \<noteq> i)"
proof -
  let ?P = "\<lambda>a. al_id a = i \<and> al_subject a = subj \<and> al_status a = Pending"
  from assms(1) obtain b where b: "filter ?P tbl = [b]" "a = b\<lparr>al_status := Active, al_confirmed := True\<rparr>"
    "tbl' = map (\<lambda>a. if ?P a then a\<lparr>al_status := Active, al_confirmed := True\<rparr> else a) tbl"
    by (auto simp: confirm_rule_def update_one_def split: sum.splits if_splits list.splits)
  then have mem: "b \<in> set tbl" "?P b" by (auto dest!: arg_cong [of _ _ set])
  have "al_status c \<noteq> Active" if "c \<in> set tbl" "al_id c = i" for c
    using assms(2) mem that by (metis distinct_map inj_onD rule_status.distinct(1))
  from rebuild_index_only [OF assms(2) this] have "i \<notin> rules_for (ev_index (rebuild tbl aliases e)) s" for s by blast
  moreover have "ev_queue (rebuild tbl aliases e) = ev_queue e" by (simp add: rebuild_def Let_def)
  ultimately have "\<forall>x \<in> set (ev_queue (bar_run order es (rebuild tbl aliases e))). qi_rule x \<noteq> i"
    using bar_run_from [OF assms(3), of es "rebuild tbl aliases e"] assms(4) by auto
  then show ?thesis using mem by (auto simp: b(2,3) intro!: image_eqI [of _ _ b])
qed

text \<open>An instrument with two aliases that rules reference resolves to the one read last, so bars of the instrument
  never request a rule written with the other alias only.\<close>

theorem shadowed_alias_not_requested:
  assumes "aliases = as1 @ (i, s1) # as2 @ (i, s2) # as3" and "s1 \<noteq> s2" and "i \<notin> fst ` set as3"
    and "b \<in> set (load_active_rules tbl)" and "s2 \<in> rule_symbols b"
    and "r \<notin> rules_for (ev_index (rebuild tbl aliases e)) s2" and "\<And>S. set (order S) \<subseteq> S"
    and "jget m ''inst_id'' = JInt i"
  shows "\<forall>x \<in> set (ev_queue (on_bars_1m_notify order (Some (JObj m)) now (rebuild tbl aliases e))).
      x \<in> set (ev_queue e) \<or> qi_rule x \<noteq> r"
proof -
  let ?e = "rebuild tbl aliases e"
  let ?syms = "\<Union>a \<in> set (filter (\<lambda>a. rule_symbols a \<noteq> {}) (load_active_rules tbl)). rule_symbols a"
  let ?f = "filter (\<lambda>(i, s). s \<in> ?syms)"
  have "s2 \<in> ?syms" using assms(4,5) by auto
  then have "rev (?f aliases) = rev (?f as3) @ (i, s2) # rev (?f (as1 @ (i, s1) # as2))" by (simp add: assms(1))
  moreover have "map_of (rev (?f as3)) i = None" using assms(3) by (auto simp: map_of_eq_None_iff)
  ultimately have "ev_cache ?e i = Some s2" by (simp add: rebuild_def Let_def map_add_def)
  then have q: "ev_queue (on_bars_1m_notify order (Some (JObj m)) now ?e)
      = ev_queue (fold (request s2 (jget m ''ts'') now) (order (rules_for (ev_index ?e) s2)) ?e)"
    using assms(8) by (simp add: on_bars_1m_notify_def)
  have "ev_queue ?e = ev_queue e" by (simp add: rebuild_def Let_def)
  with requests_from [of s2 "jget m ''ts''" now "order (rules_for (ev_index ?e) s2)" ?e] assms(6,7)
  show ?thesis unfolding q by (metis subsetD)
qed

section \<open>Dormancy\<close>

lemma process_row:
  assumes "a \<in> set tbl" and "al_id a = i" and "distinct (map al_id tbl)" and "al_status a = Active" and "\<not> al_deleted a" and "rows \<noteq> []"
  shows "process i s rows tbl = (case evaluate_predicate (build_evaluator_state s rows) (al_predicate a) of
              Inl _ \<Rightarrow> (Errored, mark_eval_error i tbl)
            | Inr False \<Rightarrow> (Quiet, map (\<lambda>a. if al_id a = i \<and> 0 < al_errors a then a\<lparr>al_errors := 0\<rparr> else a) tbl)
            | Inr True \<Rightarrow> (Fired, tbl))"
proof -
  have "List.find (\<lambda>a. al_id a = i \<and> \<not> al_deleted a) tbl = Some a"
    using assms(1-3,5) by (rule find_by_key)
  then show ?thesis using assms(4,6) by (simp add: process_def)
qed

definition raises_on :: "string \<Rightarrow> json \<Rightarrow> bar list \<Rightarrow> bool" where
  "raises_on s p rows = (case evaluate_predicate (build_evaluator_state s rows) p of Inl _ \<Rightarrow> True | Inr _ \<Rightarrow> False)"

lemma dormant_stays:
  assumes "a \<in> set tbl" and "al_id a = i" and "distinct (map al_id tbl)" and "al_status a \<noteq> Active"
  shows "snd (process i s rows tbl) = tbl"
proof -
  have "al_status b \<noteq> Active" if "List.find (\<lambda>a. al_id a = i \<and> \<not> al_deleted a) tbl = Some b" for b
    using find_Some_iff' [OF that] assms by (metis distinct_map inj_onD)
  then show ?thesis by (auto simp: process_def split: option.split)
qed

text \<open>An evaluation that fires does not reset the count of errors, only one that is quiet does: a rule whose
  evaluations raise or fire goes dormant at its tenth error, however many times it fired between them, and is not
  evaluated any more.\<close>

theorem errors_counted_across_fires:
  assumes "a \<in> set tbl" and "al_id a = i" and "distinct (map al_id tbl)" and "al_status a = Active" and "\<not> al_deleted a"
    and "al_errors a < 10"
    and "\<And>rows. rows \<in> set runs \<Longrightarrow> rows \<noteq> [] \<and> evaluate_predicate (build_evaluator_state s rows) (al_predicate a) \<noteq> Inr False"
  shows "\<exists>b \<in> set (fold (\<lambda>rows t. snd (process i s rows t)) runs tbl). al_id b = i
      \<and> al_errors b = min 10 (al_errors a + length (filter (raises_on s (al_predicate a)) runs))
      \<and> al_status b = (if 10 \<le> al_errors a + length (filter (raises_on s (al_predicate a)) runs) then Dormant else Active)"
  using assms
proof (induction runs arbitrary: a tbl)
  case Nil
  then show ?case by (auto intro!: bexI [of _ a])
next
  case (Cons rows runs)
  note row = process_row [OF Cons.prems(1-5), of rows s]
  have rows: "rows \<noteq> []" "evaluate_predicate (build_evaluator_state s rows) (al_predicate a) \<noteq> Inr False"
    using Cons.prems(7) [of rows] by simp_all
  show ?case
  proof (cases "raises_on s (al_predicate a) rows")
    case False
    then have "evaluate_predicate (build_evaluator_state s rows) (al_predicate a) = Inr True"
      using rows(2) by (auto simp: raises_on_def split: sum.splits)
    then have "snd (process i s rows tbl) = tbl" using row rows(1) by simp
    with Cons.IH [OF Cons.prems(1-6)] Cons.prems(7) False show ?thesis by simp
  next
    case True
    let ?b = "a\<lparr>al_errors := Suc (al_errors a),
       al_status := (if DORMANCY_THRESHOLD \<le> Suc (al_errors a) then Dormant else al_status a),
       al_reason := (if DORMANCY_THRESHOLD \<le> Suc (al_errors a) then Some ''eval_errors'' else al_reason a)\<rparr>"
    have next_tbl: "snd (process i s rows tbl) = mark_eval_error i tbl"
      using row rows(1) True by (auto simp: raises_on_def split: sum.splits)
    have mem: "?b \<in> set (mark_eval_error i tbl)" "distinct (map al_id (mark_eval_error i tbl))"
      using Cons.prems(1-3) by (auto simp: mark_eval_error_def comp_def if_distrib cong: if_cong intro!: image_eqI [of _ _ a])
    show ?thesis
    proof (cases "DORMANCY_THRESHOLD \<le> Suc (al_errors a)")
      case True
      have stay: "fold (\<lambda>rows t. snd (process i s rows t)) runs (mark_eval_error i tbl) = mark_eval_error i tbl"
        by (induction runs) (use dormant_stays [OF mem(1) _ mem(2)] True Cons.prems(2) in auto)
      show ?thesis
        using mem True Cons.prems(2,6) \<open>raises_on s (al_predicate a) rows\<close>
        by (intro bexI [of _ ?b]) (auto simp: next_tbl stay DORMANCY_THRESHOLD_def)
    next
      case False
      have "\<exists>b \<in> set (fold (\<lambda>rows t. snd (process i s rows t)) runs (mark_eval_error i tbl)). al_id b = i
          \<and> al_errors b = min 10 (al_errors ?b + length (filter (raises_on s (al_predicate ?b)) runs))
          \<and> al_status b = (if 10 \<le> al_errors ?b + length (filter (raises_on s (al_predicate ?b)) runs) then Dormant else Active)"
        by (rule Cons.IH [OF mem(1) _ mem(2)]) (use Cons.prems False in \<open>auto simp: DORMANCY_THRESHOLD_def\<close>)
      with \<open>raises_on s (al_predicate a) rows\<close> show ?thesis by (simp add: next_tbl)
    qed
  qed
qed

section \<open>Applied\<close>

definition new_evaluator :: "nat \<Rightarrow> evaluator" where
  "new_evaluator n = \<lparr>ev_debounce = 1 / 2, ev_max_age = 60, ev_age_fn = None, ev_last = (\<lambda>_. None), ev_maxsize = n,
     ev_queue = [], ev_dropped = 0, ev_debounced = 0, ev_index = empty_index, ev_cache = (\<lambda>_. None)\<rparr>"

definition queued_bar :: "int \<Rightarrow> queued" where
  "queued_bar r = \<lparr>qi_rule = r, qi_symbol = ''AAPL'', qi_ts = JInt 0\<rparr>"

theorem queue_keeps_the_latest_witness:
  "ev_queue (fold enqueue [queued_bar 1, queued_bar 2, queued_bar 3] (new_evaluator 2)) = [queued_bar 2, queued_bar 3]"
  using queue_keeps_the_latest [of "new_evaluator 2" "[queued_bar 1, queued_bar 2, queued_bar 3]"]
  by (simp add: new_evaluator_def)

theorem debounce_spacing_witness:
  "produce [Request 1 ''AAPL'' 0, Request 1 ''AAPL'' (1 / 4), Sweep (1 / 3), Request 1 ''AAPL'' (3 / 4)] (new_evaluator 0)
     = [(1, ''AAPL'', 0), (1, ''AAPL'', 3 / 4)] \<and> (0 :: rat) + 1 / 2 \<le> 3 / 4"
proof
  let ?es = "[Request 1 ''AAPL'' 0, Request 1 ''AAPL'' (1 / 4), Sweep (1 / 3), Request 1 ''AAPL'' (3 / 4)]"
  show p: "produce ?es (new_evaluator 0) = [(1, ''AAPL'', 0), (1, ''AAPL'', 3 / 4)]"
    by (simp add: new_evaluator_def producer_debounce_check_def sweep_debounce_def Let_def)
  show "(0 :: rat) + 1 / 2 \<le> 3 / 4"
    using debounce_spacing [of ?es "new_evaluator 0" "[]" 1 "''AAPL''" 0 "[]" "3 / 4" "[]"] p
    by (simp add: new_evaluator_def)
qed

definition stored_rule :: "string \<Rightarrow> rule_status \<Rightarrow> alert_rule" where
  "stored_rule subj st = \<lparr>al_id = 7, al_subject = subj, al_predicate = price_rule, al_caps = [], al_parse = ''ok'',
     al_status = st, al_reason = None, al_errors = 0, al_confirmed = False, al_deleted = False, al_muted = None\<rparr>"

theorem subjects_isolated_witness:
  "rules_of ''ann'' (fold (api_step ''bob'') [Delete 7, Confirm 7, Put_Status 7 Active] [stored_rule ''ann'' Pending])
     = [stored_rule ''ann'' Pending]"
  using subjects_isolated [of "''ann''" "''bob''" "[Delete 7, Confirm 7, Put_Status 7 Active]" "[stored_rule ''ann'' Pending]"]
  by (simp add: rules_of_def stored_rule_def)

theorem unmute_resurrects_deleted_witness:
  "\<exists>b. get_rule 7 ''ann'' (handle_unmute 7 ''ann'' (snd (delete_rule 7 ''ann'' [stored_rule ''ann'' Active]))) = Inr b \<and> al_status b = Active"
  using unmute_resurrects_deleted [of "stored_rule ''ann'' Active" "[stored_rule ''ann'' Active]" 7 "''ann''"]
  by (auto simp: stored_rule_def)

lemma price_rule_symbols: "rule_symbols (stored_rule subj st) = {''AAPL''}"
  by (simp add: rule_symbols_def stored_rule_def price_rule_def kind_of_def SYMBOL_KINDS_def item_def as_member_def)

definition bar_payload :: json where
  "bar_payload = JObj [(''inst_id'', JInt 3), (''ts'', JInt 0)]"

lemma served_rules:
  "rules_for (ev_index (rebuild [stored_rule ''ann'' Active] [(3, ''AAPL'')] (new_evaluator 0))) ''AAPL'' = {7}"
proof -
  have "al_id (stored_rule ''ann'' Active) = 7" "load_active_rules [stored_rule ''ann'' Active] = [stored_rule ''ann'' Active]"
    by (simp_all add: stored_rule_def load_active_rules_def)
  then show ?thesis
    by (simp add: rebuild_def price_rule_symbols index_add_def index_remove_def empty_index_def rules_for_def Let_def)
qed


theorem confirmed_rule_not_requested_witness:
  "\<forall>x \<in> set (ev_queue (bar_run (\<lambda>S. sorted_list_of_set S) [(Some bar_payload, 0), (Some bar_payload, 60)]
      (rebuild [stored_rule ''ann'' Pending] [(3, ''AAPL'')] (new_evaluator 0)))). qi_rule x \<noteq> 7"
proof -
  have "confirm_rule 7 ''ann'' [stored_rule ''ann'' Pending]
      = (Inr ((stored_rule ''ann'' Active)\<lparr>al_confirmed := True\<rparr>), [(stored_rule ''ann'' Active)\<lparr>al_confirmed := True\<rparr>])"
    by (simp add: confirm_rule_def get_rule_def update_one_def stored_rule_def)
  moreover have "set (sorted_list_of_set S) \<subseteq> S" for S :: "int set" by (cases "finite S") simp_all
  moreover have "ev_queue (new_evaluator 0) = []" by (simp add: new_evaluator_def)
  ultimately show ?thesis
    using confirmed_rule_not_requested [of 7 "''ann''" "[stored_rule ''ann'' Pending]" _ _ "\<lambda>S. sorted_list_of_set S" "new_evaluator 0"]
    by simp
qed

definition broken_rule :: alert_rule where
  "broken_rule = (stored_rule ''ann'' Active)\<lparr>al_predicate := float_cross ''AAPL''\<rparr>"

theorem errors_counted_across_fires_witness:
  "\<exists>b \<in> set (fold (\<lambda>rows t. snd (process 7 ''AAPL'' rows t)) (replicate 12 flat_bars) [broken_rule]).
      al_id b = 7 \<and> al_errors b = 10 \<and> al_status b = Dormant"
proof -
  have e: "evaluate_predicate (build_evaluator_state ''AAPL'' flat_bars) (float_cross ''AAPL'') = Inl TypeError"
    by (simp add: float_cross_def kind_of_def eval_leaf_def eval_ma_cross_def item_def as_num_def build_evaluator_state_def
        flat_bars_def)
  have p: "al_predicate broken_rule = float_cross ''AAPL''" "al_id broken_rule = 7" "al_errors broken_rule = 0"
    "al_status broken_rule = Active" "\<not> al_deleted broken_rule"
    by (simp_all add: broken_rule_def stored_rule_def)
  have f: "length (filter (raises_on ''AAPL'' (float_cross ''AAPL'')) (replicate 12 flat_bars)) = 12"
    by (simp add: raises_on_def e)
  have n: "flat_bars \<noteq> []" by (simp add: flat_bars_def)
  from errors_counted_across_fires [of broken_rule "[broken_rule]" 7 "replicate 12 flat_bars" "''AAPL''"] p e f n
  show ?thesis by simp
qed

end
