(* ===== verification/Exposure_Gate.thy ===== *)
theory Exposure_Gate
  imports Alert_Predicates "HOL-Library.Multiset"
begin

text \<open>
  The portfolio exposure gate of \<open>backend/app/services/orchestrator/exposure_gate.py\<close>: the check of
  an order against the limits of its account, the exposure it reads from a Redis hash or rebuilds
  from the bot orders, and the update of the hash on a fill.

  A field of the hash is a constructor instead of its text, which determines it. Decimals and
  floats are exact; the square root of the marginal-variance factor makes its notional a real.
  What Redis and PostgreSQL answer is the environment, with an exception where they fail.
\<close>

datatype xkey = Total | Instr int | Sector string

datatype limit_type = Total_Notional | Per_Instrument | Per_Sector

record exposure_limit =
  xl_type :: limit_type
  xl_instrument :: "int option"
  xl_max :: rat
  xl_enabled :: bool
  xl_sector :: "string option"

text \<open>A configuration row as read: absent, a decoded flag, or text with what \<open>json.loads\<close> makes of it.\<close>

datatype cfg_row = No_Row | Flag bool | Text "exn + json" | Other_Value

datatype exposure_outcome = Allow_Exposure | Warn_Exposure | Block_Exposure

instantiation exposure_outcome :: linorder
begin

fun severity :: "exposure_outcome \<Rightarrow> nat" where
  "severity Allow_Exposure = 0"
| "severity Warn_Exposure = 1"
| "severity Block_Exposure = 2"

definition less_eq_exposure_outcome :: "exposure_outcome \<Rightarrow> exposure_outcome \<Rightarrow> bool" where
  "a \<le> b \<longleftrightarrow> severity a \<le> severity b"

definition less_exposure_outcome :: "exposure_outcome \<Rightarrow> exposure_outcome \<Rightarrow> bool" where
  "a < b \<longleftrightarrow> severity a < severity b"

lemma severity_inj: "severity a = severity b \<Longrightarrow> a = b"
  by (cases a; cases b) simp_all

instance
  by standard (auto simp: less_eq_exposure_outcome_def less_exposure_outcome_def dest: severity_inj)

end

lemma outcome_bounds [simp]: "Allow_Exposure \<le> a" "a \<le> Block_Exposure"
  by (cases a; simp add: less_eq_exposure_outcome_def)+

lemma max_outcome [simp]:
  "max Allow_Exposure a = a" "max a Allow_Exposure = a" "max Block_Exposure a = Block_Exposure" "max a Block_Exposure = Block_Exposure"
  by (simp_all add: max_def antisym)

record exposure_env =
  xe_enabled :: "exn + cfg_row"
  xe_mv_enabled :: "exn + cfg_row"
  xe_fx :: "string \<Rightarrow> exn + dec_text option"
  xe_hash :: "exn + (xkey \<times> dec_text) list"
  xe_orders :: "exn + (int option \<times> rat option) list"
  xe_limits :: "exn + exposure_limit list"
  xe_matrix :: "exn + (exn + (int \<times> (int \<times> rat) list) list) option"

definition loads_not_False :: "exn + json \<Rightarrow> exn + bool" where
  "loads_not_False r = rbind r (\<lambda>v. Inr (v \<noteq> JBool False))"

definition gate_enabled :: "exposure_env \<Rightarrow> exn + bool" where
  "gate_enabled env = rbind (xe_enabled env) (\<lambda>row.
     case row of No_Row \<Rightarrow> Inr True | Flag b \<Rightarrow> Inr b | Text t \<Rightarrow> loads_not_False t | Other_Value \<Rightarrow> Inr True)"

text \<open>Here the value is turned to text first: \<open>str(True)\<close> is no JSON.\<close>

definition mv_enabled :: "exposure_env \<Rightarrow> exn + bool" where
  "mv_enabled env = rbind (xe_mv_enabled env) (\<lambda>row.
     case row of No_Row \<Rightarrow> Inr False | Text t \<Rightarrow> loads_not_False t
     | Flag _ \<Rightarrow> Inl (ValueError ''Expecting value'') | Other_Value \<Rightarrow> Inl (ValueError ''Expecting value''))"

definition get_fx_rate :: "exposure_env \<Rightarrow> string \<Rightarrow> exn + rat" where
  "get_fx_rate env cur =
     (if cur = ''USD'' then Inr 1
      else rbind (xe_fx env cur) (\<lambda>cached. case cached of None \<Rightarrow> Inr 1 | Some t \<Rightarrow> to_decimal t))"

fun decode_hash :: "(xkey \<times> dec_text) list \<Rightarrow> exn + (xkey \<times> rat) list" where
  "decode_hash [] = Inr []"
| "decode_hash ((k, t) # h) = rbind (to_decimal t) (\<lambda>v. rbind (decode_hash h) (\<lambda>r. Inr ((k, v) # r)))"

definition of_orders :: "(int option \<times> rat option) list \<Rightarrow> (xkey \<times> rat) list" where
  "of_orders rows =
     (Total, sum_list (map (\<lambda>(_, v). case v of Some x \<Rightarrow> x | None \<Rightarrow> 0) rows))
     # rev (map (\<lambda>(i, v). (Instr (the i), case v of Some x \<Rightarrow> x | None \<Rightarrow> 0)) (filter (\<lambda>(i, _). i \<noteq> None) rows))"

definition read_exposure :: "exposure_env \<Rightarrow> exn + (xkey \<times> rat) list" where
  "read_exposure env = rbind (xe_hash env) (\<lambda>h.
     if h \<noteq> [] then decode_hash h else rbind (xe_orders env) (\<lambda>rows. Inr (of_orders rows)))"

text \<open>\<open>w_i / w_new * rho\<close> summed over the instruments of the exposure.\<close>

definition corr_sum :: "rat \<Rightarrow> (xkey \<times> rat) list \<Rightarrow> (int \<times> rat) list \<Rightarrow> rat" where
  "corr_sum n ex col =
     sum_list (map (\<lambda>(k, w). case k of
        Instr i \<Rightarrow> if n \<noteq> 0 then w / n * (case map_of col i of Some r \<Rightarrow> r | None \<Rightarrow> 0) else 0 | _ \<Rightarrow> 0) ex)"

definition compute_mv_notional :: "exposure_env \<Rightarrow> int \<Rightarrow> rat \<Rightarrow> (xkey \<times> rat) list \<Rightarrow> exn + real option" where
  "compute_mv_notional env i n ex = rbind (xe_matrix env) (\<lambda>raw.
     case raw of
       Some (Inr matrix) \<Rightarrow>
         (case map_of matrix i of None \<Rightarrow> Inr None
          | Some col \<Rightarrow> Inr (Some (of_rat n * sqrt (max (1 + 2 * of_rat (corr_sum n ex col)) 0))))
     | _ \<Rightarrow> Inr None)"

text \<open>The exposure a limit is compared with, or None when the limit does not apply.\<close>

definition projected ::
  "(xkey \<times> rat) list \<Rightarrow> int \<Rightarrow> string option \<Rightarrow> rat \<Rightarrow> real \<Rightarrow> exposure_limit \<Rightarrow> exn + real option" where
  "projected ex i sec n eff l =
     (let at_key = (\<lambda>k. case map_of ex k of Some x \<Rightarrow> of_rat x | None \<Rightarrow> 0) in
      case xl_type l of
        Total_Notional \<Rightarrow> (case map_of ex Total of None \<Rightarrow> Inl KeyError | Some t \<Rightarrow> Inr (Some (of_rat t + eff)))
      | Per_Instrument \<Rightarrow> Inr (if xl_instrument l = Some i then Some (at_key (Instr i) + eff) else None)
      | Per_Sector \<Rightarrow> Inr (case (xl_sector l, sec) of
            (Some s, Some s') \<Rightarrow> if s = s' then Some (at_key (Sector s) + of_rat n) else None
          | _ \<Rightarrow> None))"

fun scan_limits ::
  "(exposure_limit \<Rightarrow> exn + real option) \<Rightarrow> exposure_limit list \<Rightarrow> exposure_outcome \<Rightarrow> exn + exposure_outcome" where
  "scan_limits p [] acc = Inr acc"
| "scan_limits p (l # ls) acc =
     (if \<not> xl_enabled l then scan_limits p ls acc
      else rbind (p l) (\<lambda>v. case v of
        None \<Rightarrow> scan_limits p ls acc
      | Some x \<Rightarrow>
          if of_rat (xl_max l) < x then Inr Block_Exposure
          else scan_limits p ls (if of_rat (xl_max l) * 0.8 < x \<and> acc = Allow_Exposure then Warn_Exposure else acc)))"

definition order_notional :: "rat \<Rightarrow> rat \<Rightarrow> rat \<Rightarrow> rat \<Rightarrow> rat" where
  "order_notional qty price mul fx = qty * price * mul * fx"

definition check_body ::
  "exposure_env \<Rightarrow> int \<Rightarrow> rat \<Rightarrow> rat \<Rightarrow> string \<Rightarrow> rat \<Rightarrow> string option \<Rightarrow> exn + exposure_outcome" where
  "check_body env i qty price cur mul sec =
     rbind (gate_enabled env) (\<lambda>on.
     if \<not> on then Inr Allow_Exposure
     else rbind (get_fx_rate env cur) (\<lambda>fx.
       let n = order_notional qty price mul fx in
       rbind (read_exposure env) (\<lambda>ex.
       rbind (mv_enabled env) (\<lambda>use_mv.
       rbind (xe_limits env) (\<lambda>limits.
       rbind (if use_mv then compute_mv_notional env i n ex else Inr None) (\<lambda>mv.
       scan_limits (projected ex i sec n (case mv of Some x \<Rightarrow> x | None \<Rightarrow> of_rat n)) limits Allow_Exposure))))))"

text \<open>\<open>except SQLAlchemyError\<close>: the gate fails closed on the database, and lets other errors through.\<close>

definition exposure_check ::
  "exposure_env \<Rightarrow> int \<Rightarrow> rat \<Rightarrow> rat \<Rightarrow> string \<Rightarrow> rat \<Rightarrow> string option \<Rightarrow> exn + exposure_outcome" where
  "exposure_check env i qty price cur mul sec =
     (case check_body env i qty price cur mul sec of
        Inl DatabaseError \<Rightarrow> Inr Block_Exposure | r \<Rightarrow> r)"

section \<open>The verdict is the worst of the limits\<close>

text \<open>What one limit says of a projected exposure.\<close>

definition limit_level :: "exposure_limit \<Rightarrow> real option \<Rightarrow> exposure_outcome" where
  "limit_level l v =
     (case v of None \<Rightarrow> Allow_Exposure
      | Some x \<Rightarrow> if \<not> xl_enabled l then Allow_Exposure
          else if of_rat (xl_max l) < x then Block_Exposure
          else if of_rat (xl_max l) * 0.8 < x then Warn_Exposure else Allow_Exposure)"

lemma scan_is_worst:
  assumes "\<And>l. l \<in> set ls \<Longrightarrow> p l = Inr (v l)"
  shows "scan_limits p ls acc = Inr (fold max (map (\<lambda>l. limit_level l (v l)) ls) acc)"
  using assms
proof (induction ls arbitrary: acc)
  case Nil
  then show ?case by simp
next
  case (Cons l ls)
  have block: "fold max xs Block_Exposure = Block_Exposure" for xs :: "exposure_outcome list"
    by (induction xs) simp_all
  show ?case
  proof (cases "limit_level l (v l)")
    case Allow_Exposure
    then show ?thesis using Cons by (auto simp: limit_level_def split: option.splits if_splits)
  next
    case Warn_Exposure
    then have "scan_limits p (l # ls) acc = scan_limits p ls (max Warn_Exposure acc)"
      using Cons.prems [of l]
      by (cases acc) (auto simp: limit_level_def max_def less_eq_exposure_outcome_def split: option.splits if_splits)
    with Cons Warn_Exposure show ?thesis by simp
  next
    case Block_Exposure
    then show ?thesis using Cons.prems [of l] block by (auto simp: limit_level_def split: option.splits if_splits)
  qed
qed

lemma fold_max_mset: "mset xs = mset ys \<Longrightarrow> fold max xs a = fold max ys (a :: exposure_outcome)"
  by (subst fold_multiset_equiv [of xs max ys]) (simp_all add: fun_eq_iff max.left_commute)


section \<open>The hash of exposures\<close>

type_synonym exposures = "xkey \<Rightarrow> rat option"

definition hincr :: "xkey \<Rightarrow> rat \<Rightarrow> exposures \<Rightarrow> exposures" where
  "hincr k d h = h(k \<mapsto> (case h k of Some x \<Rightarrow> x + d | None \<Rightarrow> d))"

text \<open>\<open>EXPOSURE_UPDATE_SCRIPT\<close> of \<open>exposure_gate_lua.py\<close>; an empty sector key is no sector.\<close>

definition exposure_update_script :: "rat \<Rightarrow> int \<Rightarrow> string option \<Rightarrow> exposures \<Rightarrow> exposures" where
  "exposure_update_script d i sec h =
     (let h1 = hincr (Instr i) d (hincr Total d h) in
      case sec of None \<Rightarrow> h1 | Some s \<Rightarrow> if s = [] then h1 else hincr (Sector s) d h1)"

text \<open>How a call to Redis ends: run and answered, run with the answer lost, not run. All but the first raise.\<close>

datatype call_end = Answered | Answer_Lost | Not_Run

definition run_script :: "call_end \<Rightarrow> rat \<Rightarrow> int \<Rightarrow> string option \<Rightarrow> exposures \<Rightarrow> exposures" where
  "run_script c d i sec h = (if c = Not_Run then h else exposure_update_script d i sec h)"

definition update_on_fill ::
  "call_end \<Rightarrow> call_end \<Rightarrow> int \<Rightarrow> rat \<Rightarrow> string option \<Rightarrow> exposures \<Rightarrow> (exn + unit) \<times> exposures" where
  "update_on_fill evalsha eval' i d sec h =
     (let h1 = run_script evalsha d i sec h in
      if evalsha = Answered then (Inr (), h1)
      else (if eval' = Answered then Inr () else Inl ConnectionError, run_script eval' d i sec h1))"

text \<open>The total is the sum over the instruments.\<close>

definition instruments :: "exposures \<Rightarrow> int set" where
  "instruments h = {i. h (Instr i) \<noteq> None}"

definition sums_up :: "exposures \<Rightarrow> bool" where
  "sums_up h \<longleftrightarrow> finite (instruments h) \<and> h Total = Some (\<Sum>i \<in> instruments h. the (h (Instr i)))"

lemma sums_up_hincr_sector: "sums_up (hincr (Sector s) d h) = sums_up h"
  by (simp add: sums_up_def instruments_def hincr_def)

lemma sums_up_hincr:
  assumes "sums_up h"
  shows "sums_up (hincr (Instr i) d (hincr Total d h))"
proof -
  let ?h = "hincr (Instr i) d (hincr Total d h)"
  have same: "the (?h (Instr j)) = the (h (Instr j))" if "j \<noteq> i" for j using that by (simp add: hincr_def)
  have ins: "instruments ?h = insert i (instruments h)" by (auto simp: instruments_def hincr_def)
  have fin: "finite (instruments h)" using assms by (simp add: sums_up_def)
  have "(\<Sum>j \<in> insert i (instruments h). the (?h (Instr j))) = (\<Sum>j \<in> instruments h. the (h (Instr j))) + d"
  proof (cases "i \<in> instruments h")
    case True
    have "(\<Sum>j \<in> instruments h. the (?h (Instr j)))
        = the (?h (Instr i)) + (\<Sum>j \<in> instruments h - {i}. the (?h (Instr j)))"
      using True fin by (simp add: sum.remove)
    also have "(\<Sum>j \<in> instruments h - {i}. the (?h (Instr j))) = (\<Sum>j \<in> instruments h - {i}. the (h (Instr j)))"
      by (rule sum.cong) (simp_all add: same)
    also have "the (?h (Instr i)) = the (h (Instr i)) + d"
      using True by (auto simp: hincr_def instruments_def)
    finally show ?thesis using True fin by (simp add: insert_absorb sum.remove)
  next
    case False
    have "(\<Sum>j \<in> instruments h. the (?h (Instr j))) = (\<Sum>j \<in> instruments h. the (h (Instr j)))"
      using False by (intro sum.cong refl same) auto
    moreover have "the (?h (Instr i)) = d" using False by (auto simp: hincr_def instruments_def)
    ultimately show ?thesis using False fin by simp
  qed
  moreover have "?h Total = Some ((\<Sum>j \<in> instruments h. the (h (Instr j))) + d)"
    using assms by (simp add: hincr_def sums_up_def)
  ultimately show ?thesis using fin by (simp add: sums_up_def ins)
qed

lemma run_script_sums_up: "sums_up h \<Longrightarrow> sums_up (run_script c d i sec h)"
  by (simp add: run_script_def exposure_update_script_def Let_def sums_up_hincr sums_up_hincr_sector split: option.split)

lemma update_on_fill_sums_up: "sums_up h \<Longrightarrow> sums_up (snd (update_on_fill a b i d sec h))"
  by (simp add: update_on_fill_def Let_def run_script_sums_up)

type_synonym fill = "call_end \<times> call_end \<times> int \<times> rat \<times> string option"

fun fill_step :: "fill \<Rightarrow> exposures \<Rightarrow> exposures" where
  "fill_step (a, b, i, d, sec) h = snd (update_on_fill a b i d sec h)"

interpretation exposure_fills: invariant_machine fill_step sums_up
  by unfold_locales (auto simp: update_on_fill_sums_up)

lemma of_orders_sums_up:
  assumes "\<And>i v. (i, v) \<in> set rows \<Longrightarrow> i \<noteq> None" and "distinct (map fst rows)"
  shows "sums_up (map_of (of_orders rows))"
  using assms
proof (induction rows)
  case Nil
  then show ?case by (simp add: sums_up_def of_orders_def instruments_def)
next
  case (Cons r rows)
  obtain i v where r: "r = (Some i, v)" using Cons.prems(1) by (cases r) fastforce
  let ?x = "case v of Some x \<Rightarrow> x | None \<Rightarrow> 0"
  have fresh: "(Instr i, w) \<notin> set (of_orders rows)" for w
  proof
    assume "(Instr i, w) \<in> set (of_orders rows)"
    then obtain j u where "(j, u) \<in> set rows" "j \<noteq> None" "the j = i" by (auto simp: of_orders_def)
    then have "Some i \<in> fst ` set rows" by force
    then show False using Cons.prems(2) r by auto
  qed
  have old: "map_of (of_orders rows) (Instr i) = None"
  proof (rule ccontr)
    assume "map_of (of_orders rows) (Instr i) \<noteq> None"
    then obtain w where "map_of (of_orders rows) (Instr i) = Some w" by auto
    from map_of_SomeD [OF this] fresh show False by simp
  qed
  have "map_of (of_orders (r # rows)) k = hincr (Instr i) ?x (hincr Total ?x (map_of (of_orders rows))) k" for k
    using old
    by (cases k) (auto simp: of_orders_def r hincr_def map_add_def algebra_simps split: option.split)
  then have "map_of (of_orders (r # rows)) = hincr (Instr i) ?x (hincr Total ?x (map_of (of_orders rows)))" by blast
  moreover have "sums_up (map_of (of_orders rows))" using Cons by auto
  ultimately show ?case by (simp add: sums_up_hincr)
qed

text \<open>The exposure rebuilt from the orders, and the hash after any sequence of fills on it, have the sum over the
  instruments as their total, also when calls fail or answers are lost.\<close>

theorem exposure_total_is_sum:
  assumes "\<And>i v. (i, v) \<in> set rows \<Longrightarrow> i \<noteq> None" and "distinct (map fst rows)"
  shows "sums_up (fold fill_step fs (map_of (of_orders rows)))"
  by (rule exposure_fills.run_inv [OF of_orders_sums_up [OF assms]])

text \<open>The script is not idempotent and a failed call is repeated: when the answer of the first call is lost, the fill
  is counted twice in the total and in its instrument.\<close>

theorem lost_answer_counts_twice:
  assumes "h Total = Some t" and "h (Instr i) = Some x"
  shows "fst (update_on_fill Answer_Lost Answered i d sec h) = Inr ()
       \<and> snd (update_on_fill Answer_Lost Answered i d sec h) Total = Some (t + 2 * d)
       \<and> snd (update_on_fill Answer_Lost Answered i d sec h) (Instr i) = Some (x + 2 * d)"
  using assms
  by (auto simp: update_on_fill_def run_script_def exposure_update_script_def hincr_def Let_def split: option.split)

text \<open>A buy the gate does not block leaves the total within every enabled limit on it once it is filled at the
  price it was checked at.\<close>

theorem filled_order_within_limit:
  assumes "exposure_check env i qty price cur mul sec = Inr out" and "out \<noteq> Block_Exposure"
    and "gate_enabled env = Inr True" and "get_fx_rate env cur = Inr fx" and "read_exposure env = Inr ex" and "map_of ex Total = Some t"
    and "mv_enabled env = Inr False" and "xe_limits env = Inr ls"
    and "l \<in> set ls" and "xl_type l = Total_Notional" and "xl_enabled l"
  shows "\<exists>t'. snd (update_on_fill Answered b i (order_notional qty price mul fx) sec (map_of ex)) Total = Some t' \<and> t' \<le> xl_max l"
proof -
  let ?n = "order_notional qty price mul fx"
  let ?p = "projected ex i sec ?n (of_rat ?n)"
  let ?v = "\<lambda>l. case ?p l of Inr v \<Rightarrow> v | Inl _ \<Rightarrow> None"
  have p: "?p l = Inr (?v l)" for l
    using assms(6) by (simp add: projected_def Let_def split: limit_type.split option.split)
  have "out = fold max (map (\<lambda>l. limit_level l (?v l)) ls) Allow_Exposure"
    using scan_is_worst [of ls ?p ?v Allow_Exposure] p assms(1,3-5,7,8)
    by (simp add: exposure_check_def check_body_def Let_def)
  moreover have "x \<le> fold max xs a" if "x \<in> set xs" for x xs and a :: exposure_outcome
  proof -
    have "fold max xs a = Max (set (a # xs))" by (simp only: Max.set_eq_fold)
    moreover have "x \<le> Max (set (a # xs))" using that by (intro Max_ge) auto
    ultimately show ?thesis by simp
  qed
  ultimately have "limit_level l (?v l) \<le> out" using assms(9) by auto
  with assms(2) have "limit_level l (?v l) \<noteq> Block_Exposure"
    by (cases out) (auto simp: less_eq_exposure_outcome_def)
  then have "(of_rat (t + ?n) :: real) \<le> of_rat (xl_max l)"
    using assms(6,10,11) by (auto simp: limit_level_def projected_def of_rat_add split: if_splits)
  then have "t + ?n \<le> xl_max l" by (simp add: of_rat_less_eq)
  then show ?thesis
    using assms(6) by (auto simp: update_on_fill_def run_script_def exposure_update_script_def hincr_def Let_def split: option.split)
qed


section \<open>Concrete inputs\<close>

definition total_limit :: "rat \<Rightarrow> exposure_limit" where
  "total_limit m = \<lparr>xl_type = Total_Notional, xl_instrument = None, xl_max = m, xl_enabled = True, xl_sector = None\<rparr>"

definition instrument_limit :: "int \<Rightarrow> rat \<Rightarrow> exposure_limit" where
  "instrument_limit i m = (total_limit m)\<lparr>xl_type := Per_Instrument, xl_instrument := Some i\<rparr>"

text \<open>An account that holds 600 dollars of instrument 7 by its orders, with an empty hash.\<close>

definition sample_exposure :: "exposure_limit list \<Rightarrow> exposure_env" where
  "sample_exposure ls = \<lparr>xe_enabled = Inr No_Row, xe_mv_enabled = Inr No_Row, xe_fx = (\<lambda>_. Inr None), xe_hash = Inr [],
     xe_orders = Inr [(Some 7, Some 600)], xe_limits = Inr ls, xe_matrix = Inr None\<rparr>"

lemmas sample_exposure_simps =
  sample_exposure_def gate_enabled_def mv_enabled_def get_fx_rate_def read_exposure_def of_orders_def


theorem exposure_total_is_sum_witness:
  "sums_up (fold fill_step [(Answer_Lost, Answered, 7, 100, None), (Answered, Answered, 8, 50, Some ''Tech'')]
     (map_of (of_orders [(Some 7, Some 600), (Some 8, None)])))"
  by (rule exposure_total_is_sum) auto

theorem filled_order_within_limit_witness:
  "\<exists>t'. snd (update_on_fill Answered Answered 7 200 None (map_of [(Total, 600), (Instr 7, 600)])) Total = Some t' \<and> t' \<le> 1000"
  using filled_order_within_limit [of "sample_exposure [total_limit 1000]" 7 1 200 "''USD''" 1 None Allow_Exposure 1
      "[(Total, 600), (Instr 7, 600)]" 600 "[total_limit 1000]" "total_limit 1000" Answered]
  by (simp add: sample_exposure_simps total_limit_def exposure_check_def check_body_def order_notional_def projected_def
      of_rat_add [symmetric] del: of_rat_add)

end
