(* ===== verification/Bot_Advisor.thy ===== *)
theory Bot_Advisor
  imports Alert_Predicates
begin

text \<open>
  The advisor of \<open>backend/app/services/advisor/\<close>: the review of an order intent by a language
  model (\<open>service.py\<close>, \<open>types.py\<close>, \<open>prompts.py\<close>) and the pause after repeated vetoes
  (\<open>auto_pause.py\<close>).

  The state holds the semaphores, the Redis counter of reserved cents, the table
  \<open>bot_advisor_decisions\<close> with the CHECK constraints of its migration, and the dead-letter stream.
  What the context query and the model answer is the environment, as an exception or a value;
  \<open>float\<close> of text and the system prompt, which is not ASCII, are parameters. Publications, metrics
  and the resizing of a semaphore are left out.
\<close>

datatype advisor_mode = OFF | OBSERVE | VETO | SHADOW

datatype advisor_action = Approve | Veto | Fail_Open

record advisor_config =
  av_mode :: advisor_mode
  av_budget :: decimal
  av_threshold :: int
  av_window :: int
  av_min_confidence :: rat
  av_max_concurrent :: int

record advisor_verdict =
  vd_action :: advisor_action
  vd_reasoning :: string
  vd_confidence :: "rat option"
  vd_tags :: "string list"

definition ALLOWED_ADVICE_TAGS :: "string list" where
  "ALLOWED_ADVICE_TAGS = [''earnings_window'', ''concentration_risk'', ''liquidity_risk'', ''regime_mismatch'',
     ''stop_too_wide'', ''stop_too_tight'', ''size_too_large'', ''correlated_exposure'', ''low_quality_signal'',
     ''overtrading'', ''drawdown_breach'', ''other'']"

section \<open>The answer of the model\<close>

text \<open>\<open>AdvisorVerdict.model_validate\<close>: absent keys take their defaults, others are ignored.\<close>

definition field_or :: "(string \<times> json) list \<Rightarrow> string \<Rightarrow> json \<Rightarrow> json" where
  "field_or m k d = (case map_of m k of Some v \<Rightarrow> v | None \<Rightarrow> d)"

definition action_of :: "json \<Rightarrow> advisor_action option" where
  "action_of v = (if v = JStr ''approve'' then Some Approve else if v = JStr ''veto'' then Some Veto
     else if v = JStr ''fail_open'' then Some Fail_Open else None)"

definition confidence_of :: "(string \<Rightarrow> rat option) \<Rightarrow> json \<Rightarrow> rat option option" where
  "confidence_of float v =
     (if v = JNull then Some None
      else case (case v of JStr s \<Rightarrow> float s | _ \<Rightarrow> num_of v) of
        None \<Rightarrow> None | Some x \<Rightarrow> if 0 \<le> x \<and> x \<le> 1 then Some (Some x) else None)"

fun text_of :: "json \<Rightarrow> string option" where
  "text_of (JStr s) = Some s"
| "text_of _ = None"

definition tags_of :: "json \<Rightarrow> string list option" where
  "tags_of v = (case v of JArr xs \<Rightarrow> if list_all (\<lambda>x. text_of x \<noteq> None) xs then Some (map (the \<circ> text_of) xs) else None
     | _ \<Rightarrow> None)"

definition validate_verdict :: "(string \<Rightarrow> rat option) \<Rightarrow> json \<Rightarrow> exn + advisor_verdict" where
  "validate_verdict float v =
     (case v of
        JObj m \<Rightarrow>
          (case (action_of (jget m ''action''), text_of (field_or m ''reasoning'' (JStr [])),
                 confidence_of float (jget m ''confidence''), tags_of (field_or m ''advice_tags'' (JArr []))) of
             (Some a, Some r, Some c, Some tags) \<Rightarrow> Inr \<lparr>vd_action = a, vd_reasoning = r, vd_confidence = c, vd_tags = tags\<rparr>
           | _ \<Rightarrow> Inl (ValueError ''validation error''))
      | _ \<Rightarrow> Inl (ValueError ''validation error''))"

text \<open>\<open>range(0, max(len(prompt) - 50, 0))\<close> over windows of 51 characters.\<close>

definition occurs_in :: "string \<Rightarrow> string \<Rightarrow> bool" where
  "occurs_in p s \<longleftrightarrow> (\<exists>i < Suc (length s - length p). take (length p) (drop i s) = p)"

definition contains_prompt_echo :: "string \<Rightarrow> string \<Rightarrow> bool" where
  "contains_prompt_echo prompt reasoning =
     (if length reasoning \<le> 50 then False
      else list_ex (\<lambda>i. occurs_in (take 51 (drop i prompt)) reasoning) [0..<length prompt - 50])"

definition clean_tag :: "string \<Rightarrow> string" where
  "clean_tag t = (if t \<in> set ALLOWED_ADVICE_TAGS then t else ''other'')"

definition apply_safety_rules :: "string \<Rightarrow> advisor_config \<Rightarrow> advisor_verdict \<Rightarrow> advisor_verdict" where
  "apply_safety_rules prompt cfg v =
     (if vd_action v = Veto \<and> strip (vd_reasoning v) = []
      then \<lparr>vd_action = Fail_Open, vd_reasoning = ''veto_without_reasoning'', vd_confidence = None, vd_tags = []\<rparr>
      else if vd_action v = Veto \<and> 0 < av_min_confidence cfg
        \<and> (case vd_confidence v of Some c \<Rightarrow> c < av_min_confidence cfg | None \<Rightarrow> False)
      then v\<lparr>vd_action := Fail_Open, vd_reasoning := ''low_confidence''\<rparr>
      else if contains_prompt_echo prompt (vd_reasoning v)
      then \<lparr>vd_action = Fail_Open, vd_reasoning = ''prompt_echo_detected'', vd_confidence = None, vd_tags = []\<rparr>
      else v\<lparr>vd_tags := map clean_tag (vd_tags v)\<rparr>)"

text \<open>The downgrade of a veto in observe mode.\<close>

definition observe :: "advisor_config \<Rightarrow> advisor_verdict \<Rightarrow> advisor_verdict" where
  "observe cfg v = (if av_mode cfg = OBSERVE \<and> vd_action v = Veto then v\<lparr>vd_action := Approve\<rparr> else v)"

section \<open>State and environment\<close>

record decision =
  dc_id :: int
  dc_bot :: uuid
  dc_account :: uuid
  dc_verdict :: advisor_verdict
  dc_mode :: advisor_mode

record advisor_state =
  ad_sem :: "uuid \<Rightarrow> int option"
  ad_count :: "uuid \<Rightarrow> int"
  ad_spend :: "uuid \<times> string \<Rightarrow> int"
  ad_rows :: "decision list"
  ad_next :: int
  ad_dlq :: "decision list"

text \<open>How the reservation of the budget ends: both commands answered, \<open>INCRBY\<close> failed, \<open>EXPIRE\<close> failed after it.\<close>

datatype reserve_end = Reserved | Incr_Failed | Expire_Failed

record advisor_env =
  ae_today :: string
  ae_reserve :: reserve_end
  ae_bars_columns :: "string list"
  ae_context :: "exn + unit"
  ae_completion :: "exn + (exn + json)"
  ae_float :: "string \<Rightarrow> rat option"
  ae_prompt :: string
  ae_name :: "exn \<Rightarrow> string"
  ae_insert_ok :: bool
  ae_dlq_ok :: bool

text \<open>The first query of \<open>ContextBuilder.build\<close> names its columns; what the queries after it give is the environment.\<close>

definition BARS_QUERY_COLUMNS :: "string list" where
  "BARS_QUERY_COLUMNS = [''ts'', ''open'', ''high'', ''low'', ''close'', ''volume'', ''canonical_id'']"

definition build_context :: "advisor_env \<Rightarrow> exn + unit" where
  "build_context env = (if set BARS_QUERY_COLUMNS \<subseteq> set (ae_bars_columns env) then ae_context env else Inl DatabaseError)"

text \<open>\<open>CREATE TABLE bars_1m\<close> of migration 0024.\<close>

definition BARS_1M_COLUMNS :: "string list" where
  "BARS_1M_COLUMNS = [''instrument_id'', ''bucket_start'', ''source'', ''source_priority'', ''open'', ''high'', ''low'',
     ''close'', ''volume'', ''volume_source'', ''trade_count'']"

section \<open>The review\<close>

text \<open>\<open>_budget_ok_and_reserve\<close>: a dollar per review, reserved also when the budget is exceeded.\<close>

definition budget_ok_and_reserve :: "advisor_env \<Rightarrow> uuid \<Rightarrow> advisor_config \<Rightarrow> (bool, advisor_state) act" where
  "budget_ok_and_reserve env bid cfg = (\<lambda>s.
     let k = (bid, ae_today env); n = ad_spend s k + 100;
         s' = s\<lparr>ad_spend := (ad_spend s)(k := n)\<rparr> in
     case ae_reserve env of
       Incr_Failed \<Rightarrow> (Inr True, s)
     | Expire_Failed \<Rightarrow> (Inr True, s')
     | Reserved \<Rightarrow> (Inr (n \<le> \<lfloor>av_budget cfg * 100\<rfloor>), s'))"

text \<open>The CHECK constraint on \<open>effective_mode\<close> of migration 0063, which 0064 does not widen.\<close>

definition effective_mode_check :: "advisor_mode \<Rightarrow> bool" where
  "effective_mode_check m \<longleftrightarrow> m \<in> {OFF, OBSERVE, VETO}"

definition persist :: "advisor_env \<Rightarrow> uuid \<Rightarrow> uuid \<Rightarrow> advisor_config \<Rightarrow> advisor_verdict \<Rightarrow> (int option, advisor_state) act" where
  "persist env bid acct cfg v = (\<lambda>s.
     let row = \<lparr>dc_id = ad_next s, dc_bot = bid, dc_account = acct, dc_verdict = v, dc_mode = av_mode cfg\<rparr> in
     if ae_insert_ok env \<and> effective_mode_check (av_mode cfg)
     then (Inr (Some (ad_next s)), s\<lparr>ad_rows := ad_rows s @ [row], ad_next := ad_next s + 1\<rparr>)
     else (Inr None, if ae_dlq_ok env then s\<lparr>ad_dlq := ad_dlq s @ [row]\<rparr> else s))"

definition fail_open :: "advisor_env \<Rightarrow> uuid \<Rightarrow> uuid \<Rightarrow> advisor_config \<Rightarrow> string \<Rightarrow> (advisor_verdict \<times> int option, advisor_state) act" where
  "fail_open env bid acct cfg reason =
     (let v = \<lparr>vd_action = Fail_Open, vd_reasoning = reason, vd_confidence = None, vd_tags = [''other'']\<rparr> in
      abind (persist env bid acct cfg v) (\<lambda>i. aret (v, i)))"

definition record_verdict :: "advisor_env \<Rightarrow> uuid \<Rightarrow> uuid \<Rightarrow> advisor_config \<Rightarrow> advisor_verdict \<Rightarrow> (advisor_verdict \<times> int option, advisor_state) act" where
  "record_verdict env bid acct cfg v = abind (persist env bid acct cfg v) (\<lambda>i. aret (v, i))"

definition do_review :: "advisor_env \<Rightarrow> uuid \<Rightarrow> uuid \<Rightarrow> advisor_config \<Rightarrow> (advisor_verdict \<times> int option, advisor_state) act" where
  "do_review env bid acct cfg =
     abind (budget_ok_and_reserve env bid cfg) (\<lambda>ok.
     if \<not> ok then fail_open env bid acct cfg ''daily_budget_exceeded''
     else if av_mode cfg = SHADOW then
       abind (of_res (build_context env)) (\<lambda>_.
         record_verdict env bid acct cfg \<lparr>vd_action = Approve, vd_reasoning = ''shadow_mode'', vd_confidence = None, vd_tags = []\<rparr>)
     else
       (case rbind (build_context env) (\<lambda>_. ae_completion env) of
          Inl e \<Rightarrow>
            if e = CancelledError then of_res (Inl e)
            else if e = TimeoutError then fail_open env bid acct cfg ''timeout''
            else fail_open env bid acct cfg (''unexpected:'' @ ae_name env e)
        | Inr answer \<Rightarrow>
            (case rbind answer (validate_verdict (ae_float env)) of
               Inl e \<Rightarrow> fail_open env bid acct cfg
                 ((case e of ValueError _ \<Rightarrow> ''schema_error:'' | _ \<Rightarrow> ''unexpected:'') @ ae_name env e)
             | Inr v \<Rightarrow> record_verdict env bid acct cfg (observe cfg (apply_safety_rules (ae_prompt env) cfg v)))))"

definition ensure_semaphore :: "uuid \<Rightarrow> advisor_config \<Rightarrow> advisor_state \<Rightarrow> advisor_state" where
  "ensure_semaphore bid cfg s =
     (case ad_sem s bid of Some _ \<Rightarrow> s
      | None \<Rightarrow> s\<lparr>ad_sem := (ad_sem s)(bid \<mapsto> av_max_concurrent cfg), ad_count := (ad_count s)(bid := 0)\<rparr>)"

definition acquire :: "uuid \<Rightarrow> advisor_state \<Rightarrow> advisor_state" where
  "acquire bid s = s\<lparr>ad_sem := (ad_sem s)(bid := map_option (\<lambda>v. v - 1) (ad_sem s bid)),
     ad_count := (ad_count s)(bid := ad_count s bid + 1)\<rparr>"

definition release :: "uuid \<Rightarrow> advisor_state \<Rightarrow> advisor_state" where
  "release bid s = s\<lparr>ad_sem := (ad_sem s)(bid := map_option (\<lambda>v. v + 1) (ad_sem s bid)),
     ad_count := (ad_count s)(bid := ad_count s bid - 1)\<rparr>"

definition review :: "advisor_env \<Rightarrow> uuid \<Rightarrow> uuid \<Rightarrow> advisor_config \<Rightarrow> (advisor_verdict \<times> int option, advisor_state) act" where
  "review env bid acct cfg = (\<lambda>s.
     if av_mode cfg = OFF
     then (Inr (\<lparr>vd_action = Approve, vd_reasoning = [], vd_confidence = None, vd_tags = []\<rparr>, None), s)
     else let s1 = ensure_semaphore bid cfg s in
       if ad_sem s1 bid = Some 0 then fail_open env bid acct cfg ''advisor_in_flight'' s1
       else let (r, s2) = do_review env bid acct cfg (acquire bid s1) in (r, release bid s2))"


section \<open>Vetoes\<close>

lemma abind_of_res: "abind (of_res (Inr x)) f = f x"
  by (simp add: abind_def of_res_def)

lemma stepped:
  "budget_ok_and_reserve env bid cfg s = (Inr ok, t) \<Longrightarrow> abind (budget_ok_and_reserve env bid cfg) f s = f ok t"
  by (simp add: abind_def)

text \<open>What a review leaves behind: the recorded or dead-lettered decision of its verdict.\<close>

lemma persist_result:
  "persist env bid acct cfg v s = (r, s') \<Longrightarrow> \<exists>i. r = Inr i"
  by (auto simp: persist_def Let_def split: if_splits)

lemma fail_open_result:
  "fail_open env bid acct cfg why s = (r, s') \<Longrightarrow> \<exists>v i. r = Inr (v, i) \<and> vd_action v = Fail_Open"
  by (auto simp: fail_open_def run_simps Let_def split: prod.splits sum.splits dest: persist_result)

lemma record_verdict_result:
  "record_verdict env bid acct cfg v s = (r, s') \<Longrightarrow> \<exists>i. r = Inr (v, i)"
  by (auto simp: record_verdict_def run_simps split: prod.splits sum.splits dest: persist_result)

definition reasoned_veto :: "string \<Rightarrow> advisor_config \<Rightarrow> advisor_verdict \<Rightarrow> bool" where
  "reasoned_veto prompt cfg v \<longleftrightarrow>
     vd_action v = Veto \<and> strip (vd_reasoning v) \<noteq> [] \<and> \<not> contains_prompt_echo prompt (vd_reasoning v)
     \<and> (\<forall>c. vd_confidence v = Some c \<longrightarrow> 0 < av_min_confidence cfg \<longrightarrow> av_min_confidence cfg \<le> c)"

lemma apply_safety_rules_veto:
  "vd_action (apply_safety_rules prompt cfg v) = Veto \<Longrightarrow>
     reasoned_veto prompt cfg v \<and> apply_safety_rules prompt cfg v = v\<lparr>vd_tags := map clean_tag (vd_tags v)\<rparr>"
  by (auto simp: apply_safety_rules_def reasoned_veto_def split: if_splits option.splits)

lemma clean_tag_allowed: "clean_tag t \<in> set ALLOWED_ADVICE_TAGS"
  by (simp add: clean_tag_def ALLOWED_ADVICE_TAGS_def)

lemma do_review_veto:
  assumes "do_review env bid acct cfg s = (Inr (v, i), s')" and "vd_action v = Veto"
  shows "av_mode cfg \<noteq> SHADOW \<and> (\<exists>j m. build_context env = Inr () \<and> ae_completion env = Inr (Inr j) \<and> validate_verdict (ae_float env) j = Inr m
       \<and> v = observe cfg (apply_safety_rules (ae_prompt env) cfg m))"
proof -
  obtain ok s1 where b: "budget_ok_and_reserve env bid cfg s = (Inr ok, s1)"
    by (cases "ae_reserve env") (auto simp: budget_ok_and_reserve_def Let_def)
  show ?thesis
  proof (cases "ok \<and> av_mode cfg \<noteq> SHADOW")
    case False
    have "record_verdict env bid acct cfg \<lparr>vd_action = Approve, vd_reasoning = ''shadow_mode'', vd_confidence = None, vd_tags = []\<rparr> s1
        \<noteq> (Inr (v, i), s')"
      using assms(2) by (auto dest: record_verdict_result)
    moreover have "fail_open env bid acct cfg ''daily_budget_exceeded'' s1 \<noteq> (Inr (v, i), s')"
      using assms(2) by (auto dest: fail_open_result)
    ultimately show ?thesis
      using assms(1) False b by (cases "build_context env") (auto simp: do_review_def run_simps split: if_splits)
  next
    case True
    have no: "fail_open env bid acct cfg why s1 \<noteq> (Inr (v, i), s')" for why
      using assms(2) by (auto dest: fail_open_result)
    show ?thesis
    proof (cases "rbind (build_context env) (\<lambda>_. ae_completion env)")
      case (Inl e)
      with assms(1) True b no show ?thesis
        by (auto simp: do_review_def stepped [OF b] of_res_def split: if_splits)
    next
      case (Inr answer)
      show ?thesis
      proof (cases "rbind answer (validate_verdict (ae_float env))")
        case (Inl e)
        with assms(1) True b no Inr show ?thesis by (auto simp: do_review_def stepped [OF b])
      next
        case m: (Inr m)
        with assms(1) True b Inr
        have "record_verdict env bid acct cfg (observe cfg (apply_safety_rules (ae_prompt env) cfg m)) s1 = (Inr (v, i), s')"
          by (simp add: do_review_def stepped [OF b])
        from record_verdict_result [OF this] True Inr m show ?thesis
          by (auto simp: rbind_Inr_iff)
      qed
    qed
  qed
qed


section \<open>Failures\<close>

text \<open>In observe and veto mode no failure of the context queries, the model, its answer or the tables reaches the bot:
  the review returns a verdict unless its task is cancelled.\<close>

theorem advisor_fails_open:
  assumes "av_mode cfg \<noteq> SHADOW" and "ae_context env \<noteq> Inl CancelledError" and "ae_completion env \<noteq> Inl CancelledError"
  shows "\<exists>v i. fst (review env bid acct cfg s) = Inr (v, i)"
proof -
  have fo: "\<exists>v i. fst (fail_open env bid acct cfg why t) = Inr (v, i)" for why t
    by (cases "fail_open env bid acct cfg why t") (auto dest: fail_open_result)
  have rv: "\<exists>v i. fst (record_verdict env bid acct cfg m t) = Inr (v, i)" for m t
    by (cases "record_verdict env bid acct cfg m t") (auto dest: record_verdict_result)
  have "\<exists>v i. fst (do_review env bid acct cfg t) = Inr (v, i)" for t
  proof -
    obtain ok t1 where b: "budget_ok_and_reserve env bid cfg t = (Inr ok, t1)"
      by (cases "ae_reserve env") (auto simp: budget_ok_and_reserve_def Let_def)
    have "rbind (build_context env) (\<lambda>_. ae_completion env) \<noteq> Inl CancelledError"
      using assms(2,3) by (auto simp: rbind_Inl_iff build_context_def)
    then show ?thesis
      using assms(1) fo rv by (auto simp: do_review_def stepped [OF b] split: sum.split)
  qed
  then show ?thesis using fo by (auto simp: review_def Let_def split: prod.split) (metis fst_conv)+
qed

text \<open>In shadow mode they do reach the bot: the exception of the context queries leaves the review.\<close>

theorem shadow_failure_escapes:
  assumes "av_mode cfg = SHADOW" and "ad_sem s bid = None" and "0 < av_max_concurrent cfg"
    and "build_context env = Inl e" and "ae_reserve env = Incr_Failed"
  shows "fst (review env bid acct cfg s) = Inl e"
  using assms
  by (simp add: review_def Let_def ensure_semaphore_def acquire_def do_review_def budget_ok_and_reserve_def run_simps split: prod.split)

text \<open>In shadow mode, whose purpose is to record decisions, no decision is ever recorded: the constraint on
  \<open>effective_mode\<close> refuses the row.\<close>

theorem shadow_decisions_unrecorded:
  assumes "av_mode cfg = SHADOW"
  shows "ad_rows (snd (review env bid acct cfg s)) = ad_rows s
       \<and> (\<forall>v i. fst (review env bid acct cfg s) = Inr (v, i) \<longrightarrow> i = None)"
proof -
  have p: "\<exists>q. persist env bid acct cfg v t = (Inr None, q) \<and> ad_rows q = ad_rows t" for v t
    using assms by (simp add: persist_def effective_mode_check_def Let_def)
  have fo: "\<exists>v q. fail_open env bid acct cfg why t = (Inr (v, None), q) \<and> ad_rows q = ad_rows t" for why t
    unfolding fail_open_def Let_def abind_def aret_def using p by (metis (no_types, lifting) case_prod_conv old.sum.simps(6))
  have rv: "\<exists>q. record_verdict env bid acct cfg v t = (Inr (v, None), q) \<and> ad_rows q = ad_rows t" for v t
    unfolding record_verdict_def abind_def aret_def using p [of v t] by auto
  have kept: "ad_rows (release bid t) = ad_rows t" "ad_rows (acquire bid t) = ad_rows t" "ad_rows (ensure_semaphore bid cfg t) = ad_rows t" for t
    by (auto simp: release_def acquire_def ensure_semaphore_def split: option.split)
  have dr: "ad_rows (snd (do_review env bid acct cfg t)) = ad_rows t
      \<and> (\<forall>v i. fst (do_review env bid acct cfg t) = Inr (v, i) \<longrightarrow> i = None)" for t
  proof -
    obtain ok t1 where b: "budget_ok_and_reserve env bid cfg t = (Inr ok, t1)" and t1: "ad_rows t1 = ad_rows t"
      by (cases "ae_reserve env") (auto simp: budget_ok_and_reserve_def Let_def)
    show ?thesis
    proof (cases ok)
      case False
      with b t1 fo [of "''daily_budget_exceeded''" t1] show ?thesis by (auto simp: do_review_def stepped [OF b])
    next
      case True
      show ?thesis
      proof (cases "build_context env")
        case (Inl e)
        with True b t1 assms show ?thesis by (simp add: do_review_def stepped [OF b] run_simps)
      next
        case (Inr u)
        let ?v = "\<lparr>vd_action = Approve, vd_reasoning = ''shadow_mode'', vd_confidence = None, vd_tags = []\<rparr>"
        have "do_review env bid acct cfg t = record_verdict env bid acct cfg ?v t1"
          using True assms Inr by (simp add: do_review_def stepped [OF b] abind_of_res)
        with rv [of ?v t1] t1 show ?thesis by auto
      qed
    qed
  qed
  show ?thesis
  proof (cases "ad_sem (ensure_semaphore bid cfg s) bid = Some 0")
    case True
    with assms kept fo [of "''advisor_in_flight''" "ensure_semaphore bid cfg s"] show ?thesis by (auto simp: review_def Let_def)
  next
    case False
    with assms kept dr [of "acquire bid (ensure_semaphore bid cfg s)"] show ?thesis
      by (auto simp: review_def Let_def split: prod.splits)
  qed
qed


text \<open>With the columns that \<open>bars_1m\<close> has, the context query always fails, so the model is never consulted: in observe and
  veto mode every review fails open, and no review of any mode vetoes.\<close>

theorem advisor_never_consulted:
  assumes "ae_bars_columns env = BARS_1M_COLUMNS" and "fst (review env bid acct cfg s) = Inr (v, i)"
  shows "vd_action v \<noteq> Veto \<and> (av_mode cfg \<in> {OBSERVE, VETO} \<longrightarrow> vd_action v = Fail_Open)"
proof -
  have c: "build_context env = Inl DatabaseError"
    using assms(1) by (simp add: build_context_def BARS_QUERY_COLUMNS_def BARS_1M_COLUMNS_def)
  have fo: "fst (fail_open env bid acct cfg why t) = Inr (v, i) \<Longrightarrow> vd_action v = Fail_Open" for why t
    by (cases "fail_open env bid acct cfg why t") (auto dest: fail_open_result)
  have dr: "fst (do_review env bid acct cfg t) = Inr (v, i) \<Longrightarrow> vd_action v = Fail_Open" for t
  proof -
    assume r: "fst (do_review env bid acct cfg t) = Inr (v, i)"
    obtain ok t1 where b: "budget_ok_and_reserve env bid cfg t = (Inr ok, t1)"
      by (cases "ae_reserve env") (auto simp: budget_ok_and_reserve_def Let_def)
    have "abind (of_res (Inl DatabaseError)) f = of_res (Inl DatabaseError)" for f :: "unit \<Rightarrow> (advisor_verdict \<times> int option, advisor_state) act"
      by (simp add: abind_def of_res_def)
    with r show ?thesis
      by (auto simp: do_review_def stepped [OF b] c of_res_def dest!: fo split: if_splits)
  qed
  show ?thesis
  proof (cases "av_mode cfg = OFF")
    case True
    with assms(2) show ?thesis by (auto simp: review_def)
  next
    case False
    with assms(2) have "vd_action v = Fail_Open"
      by (auto simp: review_def Let_def split: if_splits prod.splits intro: fo dr) (metis dr fst_conv)
    then show ?thesis by simp
  qed
qed

section \<open>Budget and concurrency\<close>

fun reservations :: "advisor_env \<Rightarrow> uuid \<Rightarrow> advisor_config \<Rightarrow> nat \<Rightarrow> advisor_state \<Rightarrow> (exn + bool) list" where
  "reservations env bid cfg 0 s = []"
| "reservations env bid cfg (Suc n) s =
     (let (r, s') = budget_ok_and_reserve env bid cfg s in r # reservations env bid cfg n s')"

lemma reservations_from:
  assumes "ae_reserve env = Reserved"
  shows "length (filter (\<lambda>r. r = Inr True) (reservations env bid cfg n s))
       = min n (nat ((\<lfloor>av_budget cfg * 100\<rfloor> - ad_spend s (bid, ae_today env)) div 100))"
  using assms
proof (induction n arbitrary: s)
  case 0
  then show ?case by simp
next
  case (Suc n)
  let ?L = "\<lfloor>av_budget cfg * 100\<rfloor>" and ?k = "(bid, ae_today env)"
  let ?s = "s\<lparr>ad_spend := (ad_spend s)(?k := ad_spend s ?k + 100)\<rparr>"
  have b: "budget_ok_and_reserve env bid cfg s = (Inr (ad_spend s ?k + 100 \<le> ?L), ?s)"
    using Suc.prems by (simp add: budget_ok_and_reserve_def Let_def)
  have d: "(?L - (ad_spend s ?k + 100)) div 100 = (?L - ad_spend s ?k) div 100 - 1" by linarith
  have IH: "length (filter (\<lambda>r. r = Inr True) (reservations env bid cfg n ?s)) = min n (nat ((?L - ad_spend s ?k) div 100 - 1))"
    using Suc.IH [OF Suc.prems, of ?s] d by (simp add: algebra_simps)
  show ?case
  proof (cases "ad_spend s ?k + 100 \<le> ?L")
    case True
    then have "1 \<le> (?L - ad_spend s ?k) div 100" by linarith
    with True IH show ?thesis by (simp add: b) linarith
  next
    case False
    then have "(?L - ad_spend s ?k) div 100 \<le> 0" by linarith
    with False IH show ?thesis by (simp add: b)
  qed
qed

text \<open>Each review reserves a dollar, so on a day a bot gets as many consultations as its budget has whole dollars, and
  every later review fails open without asking the model.\<close>

theorem budget_buys_whole_dollars:
  assumes "ae_reserve env = Reserved" and "ad_spend s (bid, ae_today env) = 0"
  shows "length (filter (\<lambda>r. r = Inr True) (reservations env bid cfg n s)) = min n (nat (\<lfloor>av_budget cfg * 100\<rfloor> div 100))"
  using reservations_from [OF assms(1)] assms(2) by simp

text \<open>Reviews that overlap: a review enters, unless the semaphore is exhausted, and leaves when it ends.\<close>

datatype slot_event = Enter advisor_config | Leave

fun slot_step :: "uuid \<Rightarrow> slot_event \<Rightarrow> advisor_state \<Rightarrow> advisor_state" where
  "slot_step bid (Enter cfg) s =
     (let s1 = ensure_semaphore bid cfg s in if ad_sem s1 bid = Some 0 then s1 else acquire bid s1)"
| "slot_step bid Leave s = (if 0 < ad_count s bid then release bid s else s)"

definition slots_ok :: "(advisor_config \<Rightarrow> bool) \<Rightarrow> int \<Rightarrow> uuid \<Rightarrow> advisor_state \<Rightarrow> bool" where
  "slots_ok C m bid s \<longleftrightarrow> 0 \<le> m \<and> (\<forall>cfg. C cfg \<longrightarrow> av_max_concurrent cfg = m) \<and>
     (case ad_sem s bid of None \<Rightarrow> ad_count s bid = 0 | Some v \<Rightarrow> 0 \<le> v \<and> 0 \<le> ad_count s bid \<and> v + ad_count s bid = m)"

fun admissible :: "(advisor_config \<Rightarrow> bool) \<Rightarrow> slot_event \<Rightarrow> bool" where
  "admissible C (Enter cfg) = C cfg"
| "admissible C Leave = True"

lemma slot_step_ok: "\<lbrakk>slots_ok C m bid s; admissible C e\<rbrakk> \<Longrightarrow> slots_ok C m bid (slot_step bid e s)"
  by (cases e) (auto simp: slots_ok_def ensure_semaphore_def acquire_def release_def Let_def split: option.splits)

text \<open>Never more reviews of a bot are in flight than its configuration allows.\<close>

theorem reviews_bounded:
  assumes "ad_sem s bid = None" and "ad_count s bid = 0" and "0 \<le> m"
    and "\<And>e. e \<in> set es \<Longrightarrow> admissible (\<lambda>cfg. av_max_concurrent cfg = m) e"
  shows "ad_count (fold (slot_step bid) es s) bid \<le> m"
proof -
  let ?C = "\<lambda>cfg. av_max_concurrent cfg = m"
  have "slots_ok ?C m bid s" using assms(1-3) by (simp add: slots_ok_def)
  then have "slots_ok ?C m bid (fold (slot_step bid) es s)"
    using assms(4) by (induction es arbitrary: s) (auto intro: slot_step_ok)
  then show ?thesis using assms(3) by (auto simp: slots_ok_def split: option.splits)
qed

section \<open>The pause after repeated vetoes\<close>

text \<open>
  \<open>AutoPauseService.record_reject\<close>: the sorted set of the instants of vetoes, and the commands put on
  the control stream. The exception that a lost connection raises is swallowed: \<open>k\<close> is the number of
  commands that Redis answers before.
\<close>

definition record_reject :: "nat \<Rightarrow> advisor_config \<Rightarrow> rat \<Rightarrow> rat list \<times> nat \<Rightarrow> rat list \<times> nat" where
  "record_reject k cfg now st =
     (let (rejects, pauses) = st;
          added = (if 1 \<le> k then now # rejects else rejects);
          trimmed = (if 2 \<le> k then filter (\<lambda>t. now - of_int (av_window cfg) < t) added else added);
          pause = (4 \<le> k \<and> 0 < av_threshold cfg \<and> av_threshold cfg \<le> int (length trimmed))
      in (trimmed, if pause then Suc pauses else pauses))"

text \<open>How many vetoes lie in the window that ends with the \<open>i\<close>-th.\<close>

definition in_window :: "int \<Rightarrow> rat list \<Rightarrow> nat \<Rightarrow> nat" where
  "in_window w us i = length (filter (\<lambda>t. us ! i - of_int w < t) (take (Suc i) us))"

definition reaches_threshold :: "advisor_config \<Rightarrow> rat list \<Rightarrow> nat \<Rightarrow> bool" where
  "reaches_threshold cfg us i \<longleftrightarrow> 0 < av_threshold cfg \<and> av_threshold cfg \<le> int (in_window (av_window cfg) us i)"

lemma reaches_threshold_prefix:
  assumes "i < length us"
  shows "reaches_threshold cfg (us @ [x]) i = reaches_threshold cfg us i"
  using assms by (simp add: reaches_threshold_def in_window_def nth_append)

lemma length_filter_rev: "length (filter P (rev xs)) = length (filter P xs)"
  by (simp add: rev_filter [symmetric])

lemma reject_run:
  assumes "sorted us"
  shows "fold (record_reject 4 cfg) us ([], 0)
       = (filter (\<lambda>t. last us - of_int (av_window cfg) < t) (rev us),
          length (filter (reaches_threshold cfg us) [0..<length us]))"
  using assms
proof (induction us rule: rev_induct)
  case Nil
  then show ?case by simp
next
  case (snoc x us)
  let ?w = "of_int (av_window cfg) :: rat"
  have le: "t \<le> x" if "t \<in> set us" for t using snoc.prems that by (simp add: sorted_append)
  have trim: "filter (\<lambda>t. x - ?w < t) (x # filter (\<lambda>t. last us - ?w < t) (rev us)) = filter (\<lambda>t. x - ?w < t) (rev (us @ [x]))"
  proof (cases "us = []")
    case False
    then have "last us \<le> x" by (simp add: le)
    then show ?thesis by (auto intro!: filter_cong)
  qed simp
  have "length (filter (\<lambda>t. x - ?w < t) (rev (us @ [x]))) = in_window (av_window cfg) (us @ [x]) (length us)"
    unfolding in_window_def length_filter_rev by simp
  then have hit: "0 < av_threshold cfg \<and> av_threshold cfg \<le> int (length (filter (\<lambda>t. x - ?w < t) (rev (us @ [x]))))
      \<longleftrightarrow> reaches_threshold cfg (us @ [x]) (length us)"
    by (simp add: reaches_threshold_def)
  have old: "filter (reaches_threshold cfg (us @ [x])) [0..<length us] = filter (reaches_threshold cfg us) [0..<length us]"
    by (rule filter_cong) (auto simp: reaches_threshold_prefix)
  have "fold (record_reject 4 cfg) (us @ [x]) ([], 0)
      = record_reject 4 cfg x (filter (\<lambda>t. last us - ?w < t) (rev us), length (filter (reaches_threshold cfg us) [0..<length us]))"
    using snoc by (simp add: sorted_append)
  also have "\<dots> = (filter (\<lambda>t. x - ?w < t) (rev (us @ [x])),
      length (filter (reaches_threshold cfg (us @ [x])) [0..<length us]) + (if reaches_threshold cfg (us @ [x]) (length us) then 1 else 0))"
    unfolding record_reject_def Let_def old hit [symmetric] using trim by simp
  finally show ?case by simp
qed

text \<open>With Redis up, a pause is commanded at exactly those vetoes at which the vetoes of the window reach the
  threshold of the bot.\<close>

theorem pauses_at_threshold:
  assumes "sorted us"
  shows "snd (fold (record_reject 4 cfg) us ([], 0)) = length (filter (reaches_threshold cfg us) [0..<length us])"
  by (simp add: reject_run [OF assms])


section \<open>Concrete inputs\<close>

definition veto_answer :: json where
  "veto_answer = JObj [(''action'', JStr ''veto''), (''reasoning'', JStr ''earnings tomorrow''), (''confidence'', JFloat (9 / 10)),
     (''advice_tags'', JArr [JStr ''earnings_window'', JStr ''vibes''])]"

definition demo_advisor :: "string list \<Rightarrow> advisor_env" where
  "demo_advisor cols = \<lparr>ae_today = ''2025-01-06'', ae_reserve = Reserved, ae_bars_columns = cols, ae_context = Inr (),
     ae_completion = Inr (Inr veto_answer), ae_float = (\<lambda>_. None), ae_prompt = ''You are an analyst.'', ae_name = (\<lambda>_. ''Error''),
     ae_insert_ok = True, ae_dlq_ok = True\<rparr>"

definition demo_config :: "advisor_mode \<Rightarrow> advisor_config" where
  "demo_config md = \<lparr>av_mode = md, av_budget = 5, av_threshold = 2, av_window = 300, av_min_confidence = 1 / 2, av_max_concurrent = 1\<rparr>"

definition idle_advisor :: advisor_state where
  "idle_advisor = \<lparr>ad_sem = (\<lambda>_. None), ad_count = (\<lambda>_. 0), ad_spend = (\<lambda>_. 0), ad_rows = [], ad_next = 1, ad_dlq = []\<rparr>"

lemmas review_run = review_def ensure_semaphore_def acquire_def release_def do_review_def budget_ok_and_reserve_def
  build_context_def BARS_QUERY_COLUMNS_def record_verdict_def fail_open_def persist_def effective_mode_check_def

definition demo_veto :: advisor_verdict where
  "demo_veto = \<lparr>vd_action = Veto, vd_reasoning = ''earnings tomorrow'', vd_confidence = Some (9 / 10), vd_tags = [''earnings_window'', ''other'']\<rparr>"

lemma demo_validated:
  "validate_verdict f veto_answer = Inr (demo_veto\<lparr>vd_tags := [''earnings_window'', ''vibes'']\<rparr>)"
  by (simp add: validate_verdict_def veto_answer_def demo_veto_def jget_def field_or_def action_of_def confidence_of_def tags_of_def)

lemma demo_safe:
  "apply_safety_rules p (demo_config VETO) (demo_veto\<lparr>vd_tags := [''earnings_window'', ''vibes'']\<rparr>) = demo_veto"
  by (simp add: apply_safety_rules_def demo_veto_def demo_config_def strip_def contains_prompt_echo_def clean_tag_def ALLOWED_ADVICE_TAGS_def)

lemma demo_reviewed: "fst (review (demo_advisor BARS_QUERY_COLUMNS) ''b1'' ''a1'' (demo_config VETO) idle_advisor) = Inr (demo_veto, Some 1)"
proof -
  have "av_mode (demo_config VETO) = VETO" "av_budget (demo_config VETO) = 5" "av_max_concurrent (demo_config VETO) = 1"
    by (simp_all add: demo_config_def)
  then show ?thesis
    using demo_safe by (simp add: review_run run_simps demo_advisor_def idle_advisor_def demo_validated observe_def Let_def)
qed


theorem advisor_never_consulted_witness:
  "\<exists>v i. fst (review (demo_advisor BARS_1M_COLUMNS) ''b1'' ''a1'' (demo_config VETO) idle_advisor) = Inr (v, i) \<and> vd_action v = Fail_Open"
proof -
  have "ae_context (demo_advisor BARS_1M_COLUMNS) \<noteq> Inl CancelledError" "ae_completion (demo_advisor BARS_1M_COLUMNS) \<noteq> Inl CancelledError"
    "build_context (demo_advisor BARS_1M_COLUMNS) = Inl DatabaseError"
    by (simp_all add: demo_advisor_def build_context_def BARS_QUERY_COLUMNS_def BARS_1M_COLUMNS_def)
  then obtain v i where r: "fst (review (demo_advisor BARS_1M_COLUMNS) ''b1'' ''a1'' (demo_config VETO) idle_advisor) = Inr (v, i)"
    by (simp add: review_run run_simps demo_config_def idle_advisor_def demo_advisor_def BARS_1M_COLUMNS_def Let_def)
  have "ae_bars_columns (demo_advisor BARS_1M_COLUMNS) = BARS_1M_COLUMNS" by (simp add: demo_advisor_def)
  from advisor_never_consulted [OF this r] r show ?thesis by (simp add: demo_config_def)
qed

theorem pauses_at_threshold_witness: "snd (fold (record_reject 4 (demo_config VETO)) [0, 400, 500, 600] ([], 0)) = 2"
proof -
  have "[0 ..< 4] = [0, 1, 2, 3 :: nat]" by (simp add: upt_rec)
  then show ?thesis
    using pauses_at_threshold [of "[0, 400, 500, 600]" "demo_config VETO"]
    by (simp add: reaches_threshold_def in_window_def demo_config_def numeral_3_eq_3)
qed

end
