(* ===== verification/Bot_Orders.thy ===== *)
theory Bot_Orders
  imports Orders_Guarantees Bot_Advisor Exposure_Gate
begin

text \<open>
  The order path of the bot engine, \<open>backend/app/bot/\<close>: the risk caps (\<open>risk_caps.py\<close>), the context a
  strategy places orders through (\<open>context.py\<close>), the resolution of contracts (\<open>conid_resolver.py\<close>,
  \<open>orders_facade.py\<close>), \<open>place_order_for_bot\<close> of the order service and the routing of fills
  (\<open>fill_router.py\<close>), composed with \<open>place_order\<close>, the exposure gate and the advisor.

  The state is the order service's \<open>world\<close>, the advisor's state and the Redis keys and table rows that
  belong to bots; a command on those keys takes its fault from the schedule of the world's
  connection. Rows of other tables, the sidecar and the clock are the environment. The hook that
  tells the strategy of a veto is left out: its exceptions are swallowed.
\<close>

section \<open>State\<close>

record bot_row =
  br_order :: uuid
  br_bot :: uuid
  br_account :: uuid
  br_decision :: "int option"

record 'r bot_world =
  bw_orders :: "'r world"
  bw_advisor :: advisor_state
  bw_caps :: "uuid \<Rightarrow> (exn + json) option"
  bw_caps_table :: "uuid \<Rightarrow> json option"
  bw_loss :: "uuid \<times> uuid \<times> string \<Rightarrow> dec_text option"
  bw_modes :: "uuid \<Rightarrow> string option"
  bw_conids :: "string \<times> int \<Rightarrow> string option"
  bw_rejects :: "uuid \<Rightarrow> rat list \<times> nat"
  bw_rows :: "bot_row list"
  bw_fills :: "(uuid \<times> json) list"
  bw_exposure :: "uuid \<Rightarrow> exposures"

definition on_orders :: "('a, 'r world) act \<Rightarrow> ('a, 'r bot_world) act" where
  "on_orders m = (\<lambda>s. let (r, w) = m (bw_orders s) in (r, s\<lparr>bw_orders := w\<rparr>))"

definition on_advisor :: "('a, advisor_state) act \<Rightarrow> ('a, 'r bot_world) act" where
  "on_advisor m = (\<lambda>s. let (r, a) = m (bw_advisor s) in (r, s\<lparr>bw_advisor := a\<rparr>))"

text \<open>A Redis command on the bots' keys.\<close>

definition bcmd :: "('r bot_world \<Rightarrow> 'a \<times> 'r bot_world) \<Rightarrow> ('a, 'r bot_world) act" where
  "bcmd c = abind (on_orders (rcmd (\<lambda>w. ((), w)))) (\<lambda>_ s. let (x, s') = c s in (Inr x, s'))"

record bot_env =
  be_bot :: uuid
  be_accounts :: "uuid list"
  be_mode :: string
  be_mode_row :: "uuid \<Rightarrow> exn + string option"
  be_instrument :: "string \<Rightarrow> exn + (int \<times> string \<times> string option) option"
  be_decimal :: "string \<Rightarrow> dec_text"
  be_bytes :: bool
  be_today :: "string \<Rightarrow> string"
  be_open_orders :: "exn + int"
  be_position_value :: "uuid \<Rightarrow> int \<Rightarrow> exn + decimal"
  be_gate :: "exposure_env option"
  be_advisor :: "(advisor_env \<times> advisor_config \<times> (uuid \<Rightarrow> advisor_config option)) option"
  be_clock :: rat
  be_reject_answers :: nat
  be_position_conid :: "uuid \<Rightarrow> int \<Rightarrow> exn + string option"
  be_sidecar_conid :: "string \<Rightarrow> int \<Rightarrow> exn + int"
  be_client_id :: uuid
  be_place :: place_env
  be_fresh :: fresh_ids

section \<open>Risk caps\<close>

definition BROKER_TZ :: "string \<Rightarrow> string" where
  "BROKER_TZ b = (case map_of [(''ibkr'', ''US/Eastern''), (''schwab'', ''US/Eastern''), (''alpaca'', ''US/Eastern''),
     (''futu'', ''Asia/Hong_Kong'')] b of Some z \<Rightarrow> z | None \<Rightarrow> ''UTC'')"

text \<open>\<open>_get_caps\<close>: every exception, of Redis or of the parser, is swallowed.\<close>

definition get_caps :: "uuid \<Rightarrow> (json option, 'r bot_world) act" where
  "get_caps bid = (\<lambda>s.
     case bcmd (\<lambda>s. (bw_caps s bid, s)) s of
       (Inr (Some (Inr v)), s') \<Rightarrow> (Inr (if v = JNull then None else Some v), s')
     | (_, s') \<Rightarrow> (Inr None, s'))"

text \<open>A reply of Redis handed to \<open>str()\<close>: bytes print as \<open>b'...'\<close>, which is no number.\<close>

definition str_of_reply :: "bool \<Rightarrow> dec_text \<Rightarrow> dec_text" where
  "str_of_reply bytes t = (if bytes then DBad else t)"

fun member_of :: "string \<Rightarrow> json \<Rightarrow> exn + bool" where
  "member_of c (JArr xs) = Inr (JStr c \<in> set xs)"
| "member_of c (JStr t) = Inr (occurs_in c t)"
| "member_of c (JObj m) = Inr (c \<in> fst ` set m)"
| "member_of c _ = Inl TypeError"

definition order_size_cap :: "bot_env \<Rightarrow> (string \<times> json) list \<Rightarrow> decimal \<Rightarrow> exn + unit" where
  "order_size_cap env m n =
     (if jget m ''max_order_size'' = JNull then Inr ()
      else rbind (dec_of_json (be_decimal env) (jget m ''max_order_size'')) (\<lambda>c.
        if c < n then Inl (BotRiskCapError ''max_order_size'') else Inr ()))"

text \<open>Fails open.\<close>

definition open_orders_cap :: "bot_env \<Rightarrow> (string \<times> json) list \<Rightarrow> exn + unit" where
  "open_orders_cap env m =
     (if jget m ''max_open_orders'' = JNull then Inr ()
      else (case rbind (be_open_orders env) (\<lambda>k. rbind (as_num (jget m ''max_open_orders'')) (\<lambda>c. Inr (c \<le> of_int k))) of
              Inr True \<Rightarrow> Inl (BotRiskCapError ''max_open_orders'')
            | Inr False \<Rightarrow> Inr ()
            | Inl e \<Rightarrow> if e = CancelledError then Inl e else Inr ()))"

text \<open>Fails closed.\<close>

definition daily_loss_cap :: "bot_env \<Rightarrow> (string \<times> json) list \<Rightarrow> uuid \<Rightarrow> string \<Rightarrow> (unit, 'r bot_world) act" where
  "daily_loss_cap env m acct broker =
     (if jget m ''max_daily_loss'' = JNull then aret ()
      else (\<lambda>s.
        let (raw, s') = bcmd (\<lambda>s. (bw_loss s (be_bot env, acct, be_today env (BROKER_TZ broker)), s)) s in
        (case rbind raw (\<lambda>t.
                rbind (case t of None \<Rightarrow> Inr 0 | Some x \<Rightarrow> to_decimal (str_of_reply (be_bytes env) x)) (\<lambda>loss.
                rbind (dec_of_json (be_decimal env) (jget m ''max_daily_loss'')) (\<lambda>c. Inr (loss \<le> - c)))) of
           Inl e \<Rightarrow> Inl (if e = CancelledError then e else BotRiskCapError ''max_daily_loss'')
         | Inr hit \<Rightarrow> if hit then Inl (BotRiskCapError ''max_daily_loss'') else Inr (), s')))"

definition asset_class_cap :: "(string \<times> json) list \<Rightarrow> string \<Rightarrow> exn + unit" where
  "asset_class_cap m cls =
     (if jget m ''allowed_asset_classes'' = JNull then Inr ()
      else rbind (member_of cls (jget m ''allowed_asset_classes'')) (\<lambda>b.
        if b then Inr () else Inl (BotRiskCapError ''asset_class'')))"

definition position_cap :: "bot_env \<Rightarrow> (string \<times> json) list \<Rightarrow> uuid \<Rightarrow> int \<Rightarrow> decimal \<Rightarrow> exn + unit" where
  "position_cap env m acct iid n =
     (if jget m ''max_position_size'' = JNull then Inr ()
      else (case rbind (be_position_value env acct iid) (\<lambda>x.
                 rbind (dec_of_json (be_decimal env) (jget m ''max_position_size'')) (\<lambda>c. Inr (c < x + n))) of
              Inl e \<Rightarrow> Inl (if e = CancelledError then e else BotRiskCapError ''max_position_size'')
            | Inr b \<Rightarrow> if b then Inl (BotRiskCapError ''max_position_size'') else Inr ()))"

definition risk_cap_check ::
  "bot_env \<Rightarrow> uuid \<Rightarrow> string \<Rightarrow> string \<Rightarrow> decimal \<Rightarrow> decimal \<Rightarrow> int \<Rightarrow> (unit, 'r bot_world) act" where
  "risk_cap_check env acct broker cls q p iid =
     abind (get_caps (be_bot env)) (\<lambda>caps.
     case caps of
       None \<Rightarrow> aret ()
     | Some (JObj m) \<Rightarrow>
         aseq (of_res (order_size_cap env m (q * p)))
         (aseq (of_res (open_orders_cap env m))
         (aseq (daily_loss_cap env m acct broker)
         (aseq (of_res (asset_class_cap m cls))
               (of_res (position_cap env m acct iid (q * p))))))
     | Some _ \<Rightarrow> of_res (Inl AttributeError))"


section \<open>Placing an order\<close>

definition verify_account_mode :: "bot_env \<Rightarrow> uuid \<Rightarrow> (unit, 'r bot_world) act" where
  "verify_account_mode env acct =
     abind (bcmd (\<lambda>s. (bw_modes s acct, s))) (\<lambda>cached.
     abind (case cached of
              Some md \<Rightarrow> aret md
            | None \<Rightarrow>
                abind (of_res (be_mode_row env acct)) (\<lambda>row.
                let md = (case row of Some t \<Rightarrow> if t = [] then ''paper'' else t | None \<Rightarrow> ''paper'') in
                aseq (bcmd (\<lambda>s. ((), s\<lparr>bw_modes := (bw_modes s)(acct \<mapsto> md)\<rparr>))) (aret md))) (\<lambda>md.
     raise_if (md \<noteq> be_mode env) BotModeMismatchError))"

text \<open>Every exception of the call to the sidecar or of the caching of its answer becomes one error.\<close>

definition sidecar_conid :: "bot_env \<Rightarrow> string \<Rightarrow> int \<Rightarrow> (int, 'r bot_world) act" where
  "sidecar_conid env broker iid = (\<lambda>s.
     let (r, s') = abind (of_res (be_sidecar_conid env broker iid)) (\<lambda>c.
           aseq (bcmd (\<lambda>s. ((), s\<lparr>bw_conids := (bw_conids s)((broker, iid) \<mapsto> print_int c)\<rparr>))) (aret c)) s
     in (case r of Inl e \<Rightarrow> Inl (if e = CancelledError then e else BotConidUnresolvedError) | Inr c \<Rightarrow> Inr c, s'))"

definition resolve_conid :: "bot_env \<Rightarrow> string \<Rightarrow> string \<Rightarrow> uuid \<Rightarrow> (int, 'r bot_world) act" where
  "resolve_conid env cid broker acct =
     abind (of_res (be_instrument env cid)) (\<lambda>i.
     case i of None \<Rightarrow> fail BotConidUnresolvedError
     | Some (iid, _, _) \<Rightarrow>
         abind (of_res (be_position_conid env acct iid)) (\<lambda>held.
         case held of Some t \<Rightarrow> of_res (parse_int t)
         | None \<Rightarrow>
             abind (bcmd (\<lambda>s. (bw_conids s (broker, iid), s))) (\<lambda>cached.
             case cached of Some t \<Rightarrow> of_res (parse_int t) | None \<Rightarrow> sidecar_conid env broker iid)))"

record intent =
  in_account :: uuid
  in_canonical :: string
  in_side :: string
  in_qty :: decimal
  in_type :: string
  in_broker :: string
  in_limit :: "decimal option"
  in_stop :: "decimal option"
  in_tif :: string
  in_algo :: "string option"
  in_effect :: string
  in_conid :: "int option"

definition parse_side :: "string \<Rightarrow> side option" where
  "parse_side = map_of [(''BUY'', Buy), (''SELL'', Sell)]"

definition parse_type :: "string \<Rightarrow> otype option" where
  "parse_type = map_of [(''MARKET'', MARKET), (''LIMIT'', LIMIT), (''STOP'', STOP), (''STOP_LIMIT'', STOP_LIMIT),
     (''TRAIL'', TRAIL), (''TRAIL_LIMIT'', TRAIL_LIMIT), (''MOC'', MOC), (''MOO'', MOO), (''LOC'', LOC), (''LOO'', LOO)]"

definition parse_tif :: "string \<Rightarrow> otif option" where
  "parse_tif = map_of [(''DAY'', DAY), (''GTC'', GTC), (''IOC'', IOC), (''FOK'', FOK), (''GTD'', GTD)]"

text \<open>
  The patterns of the fields, on the values that \<open>str\<close> prints without an exponent: no sign, at most
  ten digits before the point, ten (quantity) or eight (prices) after it.
\<close>

definition fits_pattern :: "nat \<Rightarrow> decimal \<Rightarrow> bool" where
  "fits_pattern k x \<longleftrightarrow> 0 \<le> x \<and> of_int \<lfloor>x * 10 ^ k\<rfloor> = x * 10 ^ k"

definition ALGO_STRATEGIES :: "string list" where
  "ALGO_STRATEGIES = [''ADAPTIVE'', ''TWAP'', ''VWAP'', ''ARRIVAL_PRICE'', ''ICEBERG'', ''RESERVE'', ''DARK_ICE'']"

definition fields_fit :: "intent \<Rightarrow> bool" where
  "fields_fit t \<longleftrightarrow> fits_pattern 10 (in_qty t) \<and> in_qty t < 10 ^ 10
     \<and> list_all (\<lambda>v. case v of Some x \<Rightarrow> fits_pattern 8 x | None \<Rightarrow> True) [in_limit t, in_stop t]
     \<and> (case in_algo t of Some a \<Rightarrow> a \<in> set ALGO_STRATEGIES | None \<Rightarrow> True)"

text \<open>The validated \<open>request_data\<close> of \<open>place_order_for_bot\<close>.\<close>

definition request_of :: "bot_env \<Rightarrow> intent \<Rightarrow> int \<Rightarrow> exn + place_req" where
  "request_of env t conid =
     (case (parse_side (upper (in_side t)), parse_type (upper (in_type t)), parse_tif (in_tif t)) of
        (Some sd, Some ty, Some tf) \<Rightarrow>
          if \<not> fields_fit t then Inl (ValueError ''validation error'') else
          Inr \<lparr>rq_account = in_account t, rq_conid = print_int conid, rq_side = sd, rq_type = ty, rq_tif = tf,
               rq_qty = Some (in_qty t), rq_cash = None, rq_limit = in_limit t, rq_stop = in_stop t, rq_trail = None,
               rq_trail_type = None, rq_trail_limit = None, rq_expiry = None, rq_algo = in_algo t, rq_display = None,
               rq_effect = Some (in_effect t), rq_client = be_client_id env,
               rq_nonce = ''bot:'' @ be_bot env @ '':'' @ be_client_id env\<rparr>
      | _ \<Rightarrow> Inl (ValueError ''validation error''))"

definition place_order_for_bot ::
  "'r redis_srv \<Rightarrow> bot_env \<Rightarrow> intent \<Rightarrow> int \<Rightarrow> (order_row \<times> submission_state, 'r world) act" where
  "place_order_for_bot R env t conid =
     abind (of_res (rbind (check_kill_switch (be_place env) ''kill_switch_active'') (\<lambda>_.
              rbind (if pe_maintenance (be_place env) then Inl (HttpError 503 ''maintenance'') else Inr ()) (\<lambda>_.
              request_of env t conid)))) (\<lambda>q. place_order R (be_place env) (be_fresh env) True q)"

definition facade_place_order ::
  "'r redis_srv \<Rightarrow> bot_env \<Rightarrow> intent \<Rightarrow> (order_row \<times> submission_state, 'r bot_world) act" where
  "facade_place_order R env t =
     abind (case in_conid t of Some c \<Rightarrow> aret c
            | None \<Rightarrow> resolve_conid env (in_canonical t) (in_broker t) (in_account t)) (\<lambda>conid.
     on_orders (place_order_for_bot R env t conid))"

definition effective_config :: "advisor_config \<Rightarrow> (uuid \<Rightarrow> advisor_config option) \<Rightarrow> uuid \<Rightarrow> advisor_config" where
  "effective_config cfg over acct = (case over acct of Some c \<Rightarrow> c | None \<Rightarrow> cfg)"

text \<open>\<open>limit_price or Decimal("0")\<close> and \<open>currency or "USD"\<close>.\<close>

definition order_price :: "intent \<Rightarrow> decimal" where
  "order_price t = (case in_limit t of Some p \<Rightarrow> p | None \<Rightarrow> 0)"

definition currency_or_usd :: "string option \<Rightarrow> string" where
  "currency_or_usd cur = (case cur of Some c \<Rightarrow> if c = [] then ''USD'' else c | None \<Rightarrow> ''USD'')"

text \<open>The gate, when there is one.\<close>

definition exposure_station :: "bot_env \<Rightarrow> intent \<Rightarrow> int \<Rightarrow> string \<Rightarrow> exn + unit" where
  "exposure_station env t iid cur =
     (case be_gate env of None \<Rightarrow> Inr ()
      | Some g \<Rightarrow> rbind (exposure_check g iid (in_qty t) (order_price t) cur 1 None) (\<lambda>out.
          if out = Block_Exposure then Inl BotOrderBlocked else Inr ()))"

text \<open>The verdict, with the identifier of the decision; a veto counts towards the pause.\<close>

definition advisor_station :: "bot_env \<Rightarrow> uuid \<Rightarrow> ((advisor_verdict \<times> int option) option, 'r bot_world) act" where
  "advisor_station env acct =
     (case be_advisor env of None \<Rightarrow> aret None
      | Some (ae, cfg, over) \<Rightarrow>
          abind (on_advisor (review ae (be_bot env) acct (effective_config cfg over acct))) (\<lambda>(v, i).
          if vd_action v = Veto
          then (\<lambda>s. (Inr (Some (v, i)), s\<lparr>bw_rejects := (bw_rejects s)(be_bot env :=
                  record_reject (be_reject_answers env) (effective_config cfg over acct) (be_clock env) (bw_rejects s (be_bot env)))\<rparr>))
          else aret (Some (v, i))))"

text \<open>The fields of \<open>OrderResponse\<close>: the row's identifier is \<open>id\<close>.\<close>

definition ORDER_RESPONSE_FIELDS :: "string list" where
  "ORDER_RESPONSE_FIELDS = [''id'', ''account_id'', ''broker_order_id'', ''conid'', ''symbol'', ''side'', ''order_type'', ''tif'',
     ''qty'', ''limit_price'', ''stop_price'', ''status'', ''filled_qty'', ''avg_fill_price'', ''notional'', ''created_at'',
     ''updated_at'', ''last_event_at'', ''submission_state'', ''events'']"

definition response_order_id :: "order_row \<Rightarrow> exn + uuid" where
  "response_order_id row = (if ''order_id'' \<in> set ORDER_RESPONSE_FIELDS then Inr (o_id row) else Inl AttributeError)"

definition insert_bot_order :: "bot_env \<Rightarrow> uuid \<Rightarrow> (advisor_verdict \<times> int option) option \<Rightarrow> uuid \<Rightarrow> (unit, 'r bot_world) act" where
  "insert_bot_order env acct adv oid = (\<lambda>s. (Inr (), s\<lparr>bw_rows := bw_rows s @
     [\<lparr>br_order = oid, br_bot = be_bot env, br_account = acct,
       br_decision = (case adv of Some (v, i) \<Rightarrow> if vd_action v = Approve then i else None | None \<Rightarrow> None)\<rparr>]\<rparr>))"

datatype placed = Vetoed advisor_verdict "int option" | Placed order_row submission_state

definition placing :: "'r redis_srv \<Rightarrow> bot_env \<Rightarrow> intent \<Rightarrow> (advisor_verdict \<times> int option) option \<Rightarrow> (placed, 'r bot_world) act" where
  "placing R env t adv =
     abind (facade_place_order R env t) (\<lambda>(row, st).
     abind (of_res (response_order_id row)) (\<lambda>oid.
     aseq (insert_bot_order env (in_account t) adv oid) (aret (Placed row st))))"

definition advised_placing :: "'r redis_srv \<Rightarrow> bot_env \<Rightarrow> intent \<Rightarrow> (placed, 'r bot_world) act" where
  "advised_placing R env t =
     abind (advisor_station env (in_account t)) (\<lambda>adv.
     case adv of
       Some (v, i) \<Rightarrow> if vd_action v = Veto then aret (Vetoed v i) else placing R env t adv
     | None \<Rightarrow> placing R env t adv)"

text \<open>An instrument that is not known counts as instrument 0, a stock in dollars.\<close>

definition instrument_or_default :: "(int \<times> string \<times> string option) option \<Rightarrow> int \<times> string \<times> string option" where
  "instrument_or_default i = (case i of Some x \<Rightarrow> x | None \<Rightarrow> (0, ''STOCK'', Some ''USD''))"

definition capped_placing ::
  "'r redis_srv \<Rightarrow> bot_env \<Rightarrow> intent \<Rightarrow> int \<times> string \<times> string option \<Rightarrow> (placed, 'r bot_world) act" where
  "capped_placing R env t = (\<lambda>(iid, cls, cur).
     aseq (risk_cap_check env (in_account t) (in_broker t) cls (in_qty t) (order_price t) iid)
     (aseq (of_res (exposure_station env t iid (currency_or_usd cur))) (advised_placing R env t)))"

definition bot_place_order :: "'r redis_srv \<Rightarrow> bot_env \<Rightarrow> intent \<Rightarrow> (placed, 'r bot_world) act" where
  "bot_place_order R env t =
     aseq (raise_if (in_account t \<notin> set (be_accounts env)) BotAccountError)
     (aseq (verify_account_mode env (in_account t))
     (abind (of_res (be_instrument env (in_canonical t))) (\<lambda>instr. capped_placing R env t (instrument_or_default instr))))"

text \<open>\<open>cancel_order\<close> forwards only orders of the bot; \<open>cancel\<close> is the service's operation.\<close>

definition bot_cancel_order :: "bot_env \<Rightarrow> (unit, 'r world) act \<Rightarrow> uuid \<Rightarrow> (unit, 'r bot_world) act" where
  "bot_cancel_order env cancel oid = (\<lambda>s.
     if List.find (\<lambda>r. br_order r = oid \<and> br_bot r = be_bot env) (bw_rows s) = None then (Inl BotAccountError, s)
     else on_orders cancel s)"

section \<open>Caps of the API and fills\<close>

text \<open>\<open>PUT /bots/{id}/risk-caps\<close>: the table row, and a message on a channel.\<close>

definition upsert_risk_caps :: "uuid \<Rightarrow> json \<Rightarrow> 'r bot_world \<Rightarrow> 'r bot_world" where
  "upsert_risk_caps bid caps s = s\<lparr>bw_caps_table := (bw_caps_table s)(bid \<mapsto> caps)\<rparr>"

text \<open>What the queries of one fill answer: profit and loss, broker, FX rate; and how the calls to Redis end.\<close>

record fill_env =
  fe_gate :: bool
  fe_fx :: "string \<Rightarrow> exn + decimal"
  fe_evalsha :: call_end
  fe_eval :: call_end
  fe_decimal :: "string \<Rightarrow> dec_text"
  fe_pnl :: "exn + decimal option"
  fe_broker :: "exn + string option"
  fe_today :: "string \<Rightarrow> string"

definition get_or :: "(string \<times> json) list \<Rightarrow> string \<Rightarrow> json \<Rightarrow> json" where
  "get_or m k d = (case map_of m k of Some v \<Rightarrow> v | None \<Rightarrow> d)"

text \<open>The signed value of a fill; a side that is no text has no \<open>lower\<close>.\<close>

definition fill_delta :: "fill_env \<Rightarrow> (string \<times> json) list \<Rightarrow> exn + int \<times> decimal" where
  "fill_delta env m =
     (case get_or m ''side'' (JStr ''buy'') of
        JStr sd \<Rightarrow>
          rbind (dec_of_json (fe_decimal env) (get_or m ''fill_qty'' (JStr ''0''))) (\<lambda>q.
          rbind (dec_of_json (fe_decimal env) (get_or m ''fill_price'' (JStr ''0''))) (\<lambda>p.
          rbind (dec_of_json (fe_decimal env) (get_or m ''multiplier'' (JStr ''1''))) (\<lambda>k.
          rbind (int_of_json (get_or m ''instrument_id'' (JInt 0))) (\<lambda>i.
          rbind (case get_or m ''currency'' (JStr ''USD'') of JStr c \<Rightarrow> fe_fx env c | _ \<Rightarrow> Inr 1) (\<lambda>fx.
            Inr (i, (if lower sd = ''buy'' then 1 else - 1) * q * p * k * fx))))))
      | _ \<Rightarrow> Inl AttributeError)"

text \<open>\<open>_update_daily_loss\<close>: the account's profit and loss under the bot's key; the exceptions of its queries are swallowed.\<close>

definition update_daily_loss :: "fill_env \<Rightarrow> uuid \<Rightarrow> uuid \<Rightarrow> 'r bot_world \<Rightarrow> 'r bot_world" where
  "update_daily_loss env bid acct s =
     (case rbind (fe_pnl env) (\<lambda>p. rbind (fe_broker env) (\<lambda>b. Inr (p, b))) of
        Inr (Some pnl, b) \<Rightarrow>
          (let broker = (case b of Some t \<Rightarrow> if t = [] then ''ibkr'' else t | None \<Rightarrow> ''ibkr'');
               k = (bid, acct, fe_today env (BROKER_TZ broker)) in
           snd (bcmd (\<lambda>s. ((), s\<lparr>bw_loss := (bw_loss s)(k \<mapsto> DNum pnl)\<rparr>)) s))
      | _ \<Rightarrow> s)"

text \<open>\<open>handle_event\<close> on the decoded message; \<open>publish\<close> takes a fault, which leaves the handler.\<close>

definition handle_event :: "fill_env \<Rightarrow> json \<Rightarrow> (unit, 'r bot_world) act" where
  "handle_event env ev =
     (case ev of
        JObj m \<Rightarrow>
          if jget m ''type'' \<noteq> JStr ''order:fill'' then aret ()
          else (case jget m ''order_id'' of
            JStr t \<Rightarrow>
              (case parse_uuid t of Inl _ \<Rightarrow> aret ()
               | Inr oid \<Rightarrow> (\<lambda>s.
                   case List.find (\<lambda>r. br_order r = oid) (bw_rows s) of
                     None \<Rightarrow> (Inr (), s)
                   | Some row \<Rightarrow>
                       abind (of_res (rbind (item m ''account_id'') (\<lambda>v. case v of JStr a \<Rightarrow> parse_uuid a | _ \<Rightarrow> Inl AttributeError))) (\<lambda>acct.
                       aseq (bcmd (\<lambda>s. ((), s\<lparr>bw_fills := bw_fills s @ [(br_bot row, ev)]\<rparr>))) (\<lambda>s.
                         let s' = (if fe_gate env then (case fill_delta env m of
                                Inl _ \<Rightarrow> s
                              | Inr (i, d) \<Rightarrow> s\<lparr>bw_exposure := (bw_exposure s)(acct :=
                                  snd (update_on_fill (fe_evalsha env) (fe_eval env) i d None (bw_exposure s acct)))\<rparr>) else s)
                         in (Inr (), update_daily_loss env (br_bot row) acct s'))) s))
          | v \<Rightarrow> if falsy v then aret () else of_res (Inl AttributeError))
      | _ \<Rightarrow> of_res (Inl AttributeError))"


section \<open>What the stations leave alone\<close>

abbreviation sent :: "'r bot_world \<Rightarrow> broker_msg list" where
  "sent s \<equiv> w_sent (bw_orders s)"

lemma keeps_on_orders:
  fixes m :: "('a, 'r world) act" and f :: "'r bot_world \<Rightarrow> 'v"
  assumes "keeps g m" and "\<And>s w. g w = g (bw_orders s) \<Longrightarrow> f (s\<lparr>bw_orders := w\<rparr>) = f s"
  shows "keeps f (on_orders m)"
  unfolding keeps_def
proof
  fix s :: "'r bot_world"
  obtain r w where m: "m (bw_orders s) = (r, w)" by fastforce
  then have "g w = g (bw_orders s)" using keepsD [OF assms(1)] by blast
  with m assms(2) [of w s] show "f (snd (on_orders m s)) = f s" by (simp add: on_orders_def)
qed

lemma keeps_on_advisor [keeps_intro]:
  "(\<And>s a. f (s\<lparr>bw_advisor := a\<rparr>) = f s) \<Longrightarrow> keeps f (on_advisor m)"
  by (auto simp: keeps_def on_advisor_def split: prod.split)

lemma keeps_bcmd:
  assumes "\<And>s w. f (s\<lparr>bw_orders := (bw_orders s)\<lparr>w_conn := w\<rparr>\<rparr>) = f s" and "\<And>s. f (snd (c s)) = f s"
  shows "keeps f (bcmd c)"
proof -
  have "keeps f (on_orders (rcmd (\<lambda>w. ((), w))))"
    unfolding keeps_def
  proof
    fix s
    have "f (s\<lparr>bw_orders := bw_orders s\<rparr>) = f s" by simp
    then show "f (snd (on_orders (rcmd (\<lambda>w. ((), w))) s)) = f s"
      using assms(1) by (simp add: on_orders_def rcmd_def split: list.split option.split)
  qed
  moreover have "keeps f (\<lambda>s. let (x, s') = c s in (Inr x, s'))"
    using assms(2) by (simp add: keeps_def Let_def split_beta)
  ultimately show ?thesis unfolding bcmd_def by (rule keeps_abind)
qed

text \<open>An observation that no station changes: it may read anything but the connection and the caches.\<close>

locale station_view =
  fixes f :: "'r bot_world \<Rightarrow> 'v"
  assumes conn: "f (s\<lparr>bw_orders := (bw_orders s)\<lparr>w_conn := k\<rparr>\<rparr>) = f s"
    and advisor: "f (s\<lparr>bw_advisor := a\<rparr>) = f s"
    and modes: "f (s\<lparr>bw_modes := md\<rparr>) = f s"
    and conids: "f (s\<lparr>bw_conids := cs\<rparr>) = f s"
    and rejects: "f (s\<lparr>bw_rejects := rj\<rparr>) = f s"
begin

lemma keeps_look_up: "keeps f (bcmd (\<lambda>s. (g s, s)))"
  by (rule keeps_bcmd) (simp_all add: conn)

lemma keeps_mode: "keeps f (verify_account_mode env acct)"
  unfolding verify_account_mode_def Let_def
  by (intro keeps_intro keeps_look_up keeps_bcmd) (simp_all add: conn modes)

lemma keeps_get_caps: "keeps f (get_caps bid)"
  unfolding keeps_def
proof
  fix s
  have "f (snd (bcmd (\<lambda>s. (bw_caps s bid, s)) s)) = f s"
    using keeps_look_up [of "\<lambda>s. bw_caps s bid"] unfolding keeps_def by blast
  then show "f (snd (get_caps bid s)) = f s"
    by (auto simp: get_caps_def split: prod.split sum.split option.split)
qed

lemma keeps_daily_loss: "keeps f (daily_loss_cap env m acct broker)"
proof -
  let ?k = "(be_bot env, acct, be_today env (BROKER_TZ broker))"
  have "f (snd (bcmd (\<lambda>s. (bw_loss s ?k, s)) s)) = f s" for s
    using keeps_look_up [of "\<lambda>s. bw_loss s ?k"] unfolding keeps_def by blast
  then show ?thesis
    by (simp add: keeps_def daily_loss_cap_def Let_def aret_def split_beta)
qed

lemma keeps_caps: "keeps f (risk_cap_check env acct broker cls q p iid)"
  unfolding risk_cap_check_def
  by (rule keeps_abind [OF keeps_get_caps]) (auto intro!: keeps_intro keeps_daily_loss split: option.split json.split)

lemma keeps_advisor: "keeps f (advisor_station env acct)"
  unfolding advisor_station_def
  by (auto intro!: keeps_intro simp: advisor split: option.split prod.split) (auto simp: keeps_def rejects advisor)

lemma keeps_sidecar: "keeps f (sidecar_conid env broker iid)"
proof -
  let ?m = "abind (of_res (be_sidecar_conid env broker iid)) (\<lambda>c.
      aseq (bcmd (\<lambda>s. ((), s\<lparr>bw_conids := (bw_conids s)((broker, iid) \<mapsto> print_int c)\<rparr>))) (aret c))"
  have "keeps f ?m" by (intro keeps_intro keeps_bcmd) (simp_all add: conn conids)
  then show ?thesis unfolding sidecar_conid_def keeps_def Let_def split_beta snd_conv .
qed

lemma keeps_resolve: "keeps f (resolve_conid env cid broker acct)"
  unfolding resolve_conid_def
  by (auto intro!: keeps_intro keeps_look_up keeps_sidecar split: option.split prod.split)

end

text \<open>Two views: what the broker was told, and the rows, fills, caps and losses kept for bots.\<close>

definition bot_store :: "'r bot_world \<Rightarrow> bot_row list \<times> (uuid \<times> json) list \<times> (uuid \<Rightarrow> (exn + json) option)
    \<times> (uuid \<times> uuid \<times> string \<Rightarrow> dec_text option) \<times> (uuid \<Rightarrow> exposures)" where
  "bot_store s = (bw_rows s, bw_fills s, bw_caps s, bw_loss s, bw_exposure s)"

interpretation sent_view: station_view sent
  by unfold_locales simp_all

interpretation store_view: station_view bot_store
  by unfold_locales (simp_all add: bot_store_def)


section \<open>Stations of an order that was sent\<close>

lemma no_order_id: "of_res (response_order_id row) = of_res (Inl AttributeError)"
  by (simp add: response_order_id_def ORDER_RESPONSE_FIELDS_def)

lemma abind_raised: "abind (of_res (Inl e)) f = of_res (Inl e)"
  by (simp add: abind_def of_res_def)

lemma keeps_placing_store: "keeps bot_store (placing R env t adv)"
proof -
  have w: "keeps bot_store (on_orders (place_order_for_bot R env t c))" for c
    by (rule keeps_on_orders [where g = "\<lambda>_. ()"]) (simp_all add: keeps_def bot_store_def)
  have "keeps bot_store (case in_conid t of Some c \<Rightarrow> aret c
      | None \<Rightarrow> resolve_conid env (in_canonical t) (in_broker t) (in_account t))"
    by (auto intro: keeps_aret store_view.keeps_resolve split: option.split)
  then have "keeps bot_store (facade_place_order R env t)"
    unfolding facade_place_order_def by (rule keeps_abind) (rule w)
  then show ?thesis
    unfolding placing_def no_order_id abind_raised by (rule keeps_abind) (simp add: keeps_of_res split_beta)
qed

lemma keeps_bot_place_store: "keeps bot_store (bot_place_order R env t)"
  unfolding bot_place_order_def capped_placing_def advised_placing_def
  by (auto intro!: keeps_intro store_view.keeps_mode store_view.keeps_caps store_view.keeps_advisor keeps_placing_store
      split: option.split prod.split)

lemma placing_never_returns: "fst (placing R env t adv s) \<noteq> Inr x"
  unfolding placing_def no_order_id abind_raised by (auto simp: abind_def of_res_def split: prod.splits sum.splits)

definition mode_seen :: "bot_env \<Rightarrow> uuid \<Rightarrow> 'r bot_world \<Rightarrow> exn + string" where
  "mode_seen env acct s = (case bw_modes s acct of Some md \<Rightarrow> Inr md
     | None \<Rightarrow> rbind (be_mode_row env acct) (\<lambda>row. Inr (case row of Some t \<Rightarrow> if t = [] then ''paper'' else t | None \<Rightarrow> ''paper'')))"

lemma bcmd_clean:
  "faults (w_conn (bw_orders s)) = [] \<Longrightarrow> bcmd c s = (Inr (fst (c s)), snd (c s))"
  by (simp add: bcmd_def on_orders_def rcmd_def abind_def Let_def split_beta)

lemma mode_clean:
  assumes "verify_account_mode env acct s = (Inr (), s1)" and "faults (w_conn (bw_orders s)) = []"
  shows "mode_seen env acct s = Inr (be_mode env) \<and> (\<exists>md. s1 = s\<lparr>bw_modes := md\<rparr>)"
proof (cases "bw_modes s acct")
  case (Some md)
  with assms have "md = be_mode env \<and> s1 = s"
    by (auto simp: verify_account_mode_def abind_def bcmd_clean aret_def raise_if_def fail_def of_res_def split: if_splits)
  then show ?thesis using Some by (auto simp: mode_seen_def intro!: exI [of _ "bw_modes s"])
next
  case None
  with assms show ?thesis
    by (cases "be_mode_row env acct")
      (auto simp: verify_account_mode_def mode_seen_def abind_def aseq_def bcmd_clean of_res_def aret_def raise_if_def fail_def Let_def
        split: option.splits if_splits)
qed

text \<open>The caps a store holds are met.\<close>

definition caps_met :: "bot_env \<Rightarrow> intent \<Rightarrow> string \<Rightarrow> int \<Rightarrow> 'r bot_world \<Rightarrow> bool" where
  "caps_met env t cls iid s \<longleftrightarrow>
     (\<forall>m. bw_caps s (be_bot env) = Some (Inr (JObj m)) \<longrightarrow>
        (let n = in_qty t * order_price t in
         order_size_cap env m n = Inr () \<and> open_orders_cap env m = Inr () \<and> asset_class_cap m cls = Inr ()
         \<and> position_cap env m (in_account t) iid n = Inr ()
         \<and> fst (daily_loss_cap env m (in_account t) (in_broker t) s) = Inr ()))"

lemma daily_loss_clean:
  "faults (w_conn (bw_orders s)) = [] \<Longrightarrow> snd (daily_loss_cap env m acct broker s) = s"
  by (simp add: daily_loss_cap_def bcmd_clean aret_def Let_def)

lemma caps_clean:
  assumes "risk_cap_check env (in_account t) (in_broker t) cls (in_qty t) (order_price t) iid s = (Inr (), s1)"
    and "faults (w_conn (bw_orders s)) = []"
  shows "caps_met env t cls iid s \<and> s1 = s"
proof -
  have g: "get_caps (be_bot env) s = (Inr (case bw_caps s (be_bot env) of Some (Inr v) \<Rightarrow> if v = JNull then None else Some v | _ \<Rightarrow> None), s)"
    using assms(2) by (auto simp: get_caps_def bcmd_clean split: option.split sum.split)
  show ?thesis
  proof (cases "\<exists>m. bw_caps s (be_bot env) = Some (Inr (JObj m))")
    case True
    then obtain m where m: "bw_caps s (be_bot env) = Some (Inr (JObj m))" by blast
    have d: "\<exists>r. daily_loss_cap env m (in_account t) (in_broker t) s = (r, s)"
      using daily_loss_clean [OF assms(2)] by (metis prod.collapse)
    then show ?thesis
      using assms(1) g m
      by (auto simp: risk_cap_check_def abind_def aseq_def of_res_def caps_met_def Let_def split: sum.splits)
  next
    case False
    then show ?thesis
      using assms(1) g
      by (auto simp: risk_cap_check_def abind_def of_res_def aret_def caps_met_def split: option.splits sum.splits json.splits if_splits)
  qed
qed

lemma caps_met_modes:
  assumes "faults (w_conn (bw_orders s)) = []"
  shows "caps_met env t cls iid (s\<lparr>bw_modes := md\<rparr>) = caps_met env t cls iid s"
  using assms by (simp add: caps_met_def daily_loss_cap_def bcmd_clean aret_def Let_def)

lemma advisor_approved:
  assumes "advisor_station env acct s = (Inr adv, s1)" and "\<forall>v i. adv = Some (v, i) \<longrightarrow> vd_action v \<noteq> Veto"
    and "be_advisor env = Some (ae, cfg, over)"
  shows "\<exists>v i. fst (review ae (be_bot env) acct (effective_config cfg over acct) (bw_advisor s)) = Inr (v, i) \<and> vd_action v \<noteq> Veto"
  using assms
  by (auto simp: advisor_station_def abind_def on_advisor_def aret_def split: prod.splits sum.splits if_splits)

lemma advisor_clean:
  assumes "advisor_station env acct s = (Inr adv, s1)"
  shows "bw_orders s1 = bw_orders s"
proof -
  have "keeps bw_orders (advisor_station env acct :: (_, 'r bot_world) act)"
    unfolding advisor_station_def
    by (auto intro!: keeps_intro split: option.split prod.split) (auto simp: keeps_def)
  from keepsD [OF this] assms show ?thesis by blast
qed

lemma resolve_clean:
  assumes "resolve_conid env cid broker acct s = (Inr c, s1)" and "faults (w_conn (bw_orders s)) = []"
  shows "bw_orders s1 = bw_orders s"
  using assms
  by (auto simp: resolve_conid_def sidecar_conid_def abind_def aseq_def bcmd_clean of_res_def aret_def fail_def Let_def
      split: option.splits sum.splits prod.splits if_splits)


lemma abind_moved:
  assumes "abind m f s = (r, s')" and "keeps g m" and "g s' \<noteq> g s"
  obtains x u where "m s = (Inr x, u)" and "f x u = (r, s')" and "g u = g s"
  using assms(1)
proof (cases rule: abind_cases)
  case (raised e)
  with keepsD [OF assms(2)] assms(3) show thesis by blast
next
  case (went_on x u)
  with keepsD [OF assms(2)] that show thesis by blast
qed

lemma aseq_moved:
  assumes "aseq m n s = (r, s')" and "keeps g m" and "g s' \<noteq> g s"
  obtains x u where "m s = (Inr x, u)" and "n u = (r, s')" and "g u = g s"
  using abind_moved [OF assms(1) [unfolded aseq_def] assms(2,3)] .

lemma placing_sent:
  assumes "placing R env t adv s = (r, s')" and "sent s' \<noteq> sent s" and "faults (w_conn (bw_orders s)) = []"
  obtains conid q r' w where "request_of env t conid = Inr q"
    and "place_order R (be_place env) (be_fresh env) True q (bw_orders s) = (r', w)" and "w_sent w \<noteq> sent s"
    and "r = Inl AttributeError \<or> (\<exists>e. r = Inl e \<and> r' = Inl e)"
proof -
  let ?c = "case in_conid t of Some c \<Rightarrow> aret c | None \<Rightarrow> resolve_conid env (in_canonical t) (in_broker t) (in_account t)"
  obtain r1 s1 where f: "facade_place_order R env t s = (r1, s1)" by fastforce
  have s1: "s1 = s' \<and> (r = Inl AttributeError \<or> (\<exists>e. r = Inl e \<and> r1 = Inl e))"
    using assms(1) f unfolding placing_def no_order_id abind_raised
    by (cases r1) (auto simp: abind_def of_res_def split_beta)
  have k: "keeps sent ?c" by (auto intro: keeps_aret sent_view.keeps_resolve split: option.split)
  have "sent s1 \<noteq> sent s" using s1 assms(2) by simp
  with f obtain conid u where c: "?c s = (Inr conid, u)" and o: "on_orders (place_order_for_bot R env t conid) u = (r1, s1)"
    unfolding facade_place_order_def by (rule abind_moved [OF _ k])
  have u: "bw_orders u = bw_orders s"
    using c resolve_clean [OF _ assms(3)] by (auto simp: aret_def split: option.splits)
  obtain w where p: "place_order_for_bot R env t conid (bw_orders s) = (r1, w)" and w: "s1 = u\<lparr>bw_orders := w\<rparr>"
    using o u by (auto simp: on_orders_def split: prod.splits)
  from w s1 assms(2) have ws: "w_sent w \<noteq> sent s" by auto
  obtain q where "request_of env t conid = Inr q" and "place_order R (be_place env) (be_fresh env) True q (bw_orders s) = (r1, w)"
    using p ws unfolding place_order_for_bot_def
    by (auto simp: abind_def of_res_def rbind_Inr_iff split: sum.splits)
  with ws s1 that show thesis by blast
qed

lemma bw_same: "bw_orders (s\<lparr>bw_modes := md\<rparr>) = bw_orders s"
  by simp

lemma advised_sent:
  assumes "advised_placing R env t s = (r, s')" and "sent s' \<noteq> sent s"
  obtains adv u where "advisor_station env (in_account t) s = (Inr adv, u)" and "\<forall>v i. adv = Some (v, i) \<longrightarrow> vd_action v \<noteq> Veto"
    and "placing R env t adv u = (r, s')" and "bw_orders u = bw_orders s"
proof -
  obtain adv u where a: "advisor_station env (in_account t) s = (Inr adv, u)" and r: "(case adv of
       Some (v, i) \<Rightarrow> if vd_action v = Veto then aret (Vetoed v i) else placing R env t adv
     | None \<Rightarrow> placing R env t adv) u = (r, s')"
    using abind_moved [OF assms(1) [unfolded advised_placing_def] sent_view.keeps_advisor assms(2)] .
  have o: "bw_orders u = bw_orders s" using advisor_clean [OF a] .
  have v: "\<forall>v i. adv = Some (v, i) \<longrightarrow> vd_action v \<noteq> Veto" using r o assms(2) by (auto simp: aret_def)
  with r have "placing R env t adv u = (r, s')" by (auto split: option.splits prod.splits)
  with a v o that show thesis by blast
qed

lemma capped_sent:
  assumes "capped_placing R env t (iid, cls, cur) s = (r, s')" and "sent s' \<noteq> sent s" and "faults (w_conn (bw_orders s)) = []"
  obtains adv v where "caps_met env t cls iid s" and "exposure_station env t iid (currency_or_usd cur) = Inr ()"
    and "advisor_station env (in_account t) s = (Inr adv, v)" and "\<forall>w i. adv = Some (w, i) \<longrightarrow> vd_action w \<noteq> Veto"
    and "placing R env t adv v = (r, s')" and "bw_orders v = bw_orders s"
proof -
  have run: "aseq (risk_cap_check env (in_account t) (in_broker t) cls (in_qty t) (order_price t) iid)
     (aseq (of_res (exposure_station env t iid (currency_or_usd cur))) (advised_placing R env t)) s = (r, s')"
    using assms(1) by (simp add: capped_placing_def)
  obtain x u where c: "risk_cap_check env (in_account t) (in_broker t) cls (in_qty t) (order_price t) iid s = (Inr x, u)"
    and r2: "aseq (of_res (exposure_station env t iid (currency_or_usd cur))) (advised_placing R env t) u = (r, s')"
    using aseq_moved [OF run sent_view.keeps_caps assms(2)] .
  have caps: "caps_met env t cls iid s" and u: "u = s" using caps_clean [OF _ assms(3)] c by simp_all
  obtain y u' where e: "of_res (exposure_station env t iid (currency_or_usd cur)) s = (Inr y, u')" and r3: "advised_placing R env t u' = (r, s')"
    using aseq_moved [OF r2 [unfolded u] keeps_of_res assms(2)] .
  have x: "exposure_station env t iid (currency_or_usd cur) = Inr ()" and u': "u' = s" using e by (simp_all add: of_res_def)
  show thesis
    using advised_sent [OF r3 [unfolded u'] assms(2)] caps x that by metis
qed



section \<open>The engine as a whole\<close>

datatype 'r bot_op =
    Place_Bot bot_env intent
  | Cancel_Bot bot_env "(unit, 'r world) act" uuid
  | Fill_Event fill_env json
  | Put_Caps uuid json

fun bot_step :: "'r redis_srv \<Rightarrow> 'r bot_op \<Rightarrow> 'r bot_world \<Rightarrow> 'r bot_world" where
  "bot_step R (Place_Bot env t) s = snd (bot_place_order R env t s)"
| "bot_step R (Cancel_Bot env cancel oid) s = snd (bot_cancel_order env cancel oid s)"
| "bot_step R (Fill_Event env ev) s = snd (handle_event env ev s)"
| "bot_step R (Put_Caps bid caps) s = upsert_risk_caps bid caps s"

text \<open>A store no order of a bot was recorded in and no cap was cached in.\<close>

definition fresh_store :: "'r bot_world \<Rightarrow> bool" where
  "fresh_store s \<longleftrightarrow> bw_rows s = [] \<and> bw_fills s = [] \<and> bw_caps s = (\<lambda>_. None) \<and> bw_loss s = (\<lambda>_. None)"

lemma fresh_store_bot_store: "fresh_store s \<longleftrightarrow> (\<exists>x. bot_store s = ([], [], (\<lambda>_. None), (\<lambda>_. None), x))"
  by (auto simp: fresh_store_def bot_store_def)

lemma fresh_step: "fresh_store s \<Longrightarrow> fresh_store (bot_step R e s)"
proof (cases e)
  case (Place_Bot env t)
  assume "fresh_store s"
  then show ?thesis
    using keeps_bot_place_store [of R env t] by (simp add: Place_Bot fresh_store_bot_store keeps_def)
next
  case (Fill_Event env ev)
  assume "fresh_store s"
  then have "snd (handle_event env ev s) = s"
    by (auto simp: handle_event_def fresh_store_def aret_def of_res_def split: json.split sum.split)
  with \<open>fresh_store s\<close> show ?thesis by (simp add: Fill_Event)
qed (simp_all add: bot_cancel_order_def upsert_risk_caps_def fresh_store_def)

interpretation bot_engine: invariant_machine "bot_step R" fresh_store for R
  by unfold_locales (rule fresh_step)

lemma uncapped_check:
  assumes "bw_caps s = (\<lambda>_. None)"
  shows "fst (risk_cap_check env acct broker cls q p iid s) = Inr ()"
proof -
  obtain r u where b: "bcmd (\<lambda>s. (bw_caps s (be_bot env), s)) s = (r, u)" by fastforce
  then have "r = Inr None \<or> (\<exists>e. r = Inl e)"
    using assms by (auto simp: bcmd_def on_orders_def rcmd_def abind_def Let_def split: list.splits option.splits)
  with b have "get_caps (be_bot env) s = (Inr None, u)" by (auto simp: get_caps_def)
  then show ?thesis by (simp add: risk_cap_check_def abind_def aret_def)
qed

text \<open>In every run of the engine, whatever caps the API stores and whatever orders its bots place, no order is recorded as a
  bot's, no fill is delivered, a bot cannot cancel its orders, and the risk caps let every order pass: nothing writes
  the key they are read from.\<close>

theorem bot_safeguards_inert:
  assumes "fresh_store s" and "s' = fold (bot_step R) ops s"
  shows "bw_rows s' = [] \<and> bw_fills s' = []
       \<and> fst (bot_cancel_order env cancel oid s') = Inl BotAccountError
       \<and> fst (risk_cap_check env acct broker cls q p iid s') = Inr ()"
  using bot_engine.run_inv [OF assms(1), of R ops] uncapped_check [of s' env acct broker cls q p iid]
  by (simp add: assms(2) fresh_store_def bot_cancel_order_def)

text \<open>An order of a bot that the order service accepted still ends in an exception, after the broker has it: the context reads
  a field that the response does not have.\<close>

theorem accepted_bot_order_raises:
  assumes "placing R env t adv s = (r, s')" and "sent s' \<noteq> sent s" and "faults (w_conn (bw_orders s)) = []"
  shows "\<exists>e. r = Inl e"
  using placing_sent [OF assms] by metis

section \<open>Concrete inputs\<close>

definition demo_intent :: intent where
  "demo_intent = \<lparr>in_account = ''a1'', in_canonical = ''stock:AAPL:US'', in_side = ''buy'', in_qty = 10, in_type = ''limit'',
     in_broker = ''ibkr'', in_limit = Some 20, in_stop = None, in_tif = ''DAY'', in_algo = None, in_effect = ''OPEN'',
     in_conid = Some 265598\<rparr>"

definition demo_bot :: bot_env where
  "demo_bot = \<lparr>be_bot = ''b1'', be_accounts = [''a1''], be_mode = ''paper'', be_mode_row = (\<lambda>_. Inr None),
     be_instrument = (\<lambda>_. Inr None), be_decimal = (\<lambda>_. DBad), be_bytes = True, be_today = (\<lambda>_. ''2025-01-06''),
     be_open_orders = Inr 0, be_position_value = (\<lambda>_ _. Inr 0), be_gate = None, be_advisor = None, be_clock = 0,
     be_reject_answers = 4, be_position_conid = (\<lambda>_ _. Inr None), be_sidecar_conid = (\<lambda>_ _. Inr 0),
     be_client_id = ''c1'', be_place = demo_penv, be_fresh = demo_ids\<rparr>"

text \<open>A bot with a cap of 250 on the size of an order, in an otherwise empty store.\<close>

definition demo_bots :: "(exn + json) option \<Rightarrow> mem bot_world" where
  "demo_bots caps = \<lparr>bw_orders = demo_world, bw_advisor = \<lparr>ad_sem = (\<lambda>_. None), ad_count = (\<lambda>_. 0), ad_spend = (\<lambda>_. 0),
       ad_rows = [], ad_next = 1, ad_dlq = []\<rparr>,
     bw_caps = (\<lambda>_. caps), bw_caps_table = (\<lambda>_. None), bw_loss = (\<lambda>_. None), bw_modes = (\<lambda>_. None),
     bw_conids = (\<lambda>_. None), bw_rejects = (\<lambda>_. ([], 0)), bw_rows = [], bw_fills = [], bw_exposure = (\<lambda>_ _. None)\<rparr>"

lemma demo_request: "request_of demo_bot demo_intent 265598 = Inr demo_bot_req"
proof -
  have "print_int 265598 = ''265598''" by (simp add: print_int_def print_nat.simps)
  moreover have "fields_fit demo_intent"
    by (simp add: fields_fit_def fits_pattern_def demo_intent_def)
  moreover have "parse_side (upper ''buy'') = Some Buy" "parse_type (upper ''limit'') = Some LIMIT" "parse_tif ''DAY'' = Some DAY"
    by code_simp+
  ultimately show ?thesis
    by (simp add: request_of_def demo_intent_def demo_bot_def demo_bot_req_def demo_req_def)
qed

definition cap_of_250 :: json where
  "cap_of_250 = JObj [(''max_order_size'', JInt 250)]"

lemma demo_bot_placed:
  assumes "caps \<in> {None, Some (Inr cap_of_250)}"
  shows "\<exists>r s'. bot_place_order mem_srv demo_bot demo_intent (demo_bots caps) = (r, s') \<and> sent s' \<noteq> sent (demo_bots caps)"
proof -
  let ?s = "(demo_bots caps)\<lparr>bw_modes := (\<lambda>_. None)(''a1'' \<mapsto> ''paper'')\<rparr>"
  have clean: "faults (w_conn (bw_orders (demo_bots caps))) = []" "faults (w_conn (bw_orders ?s)) = []"
    by (simp_all add: demo_bots_def demo_world_def)
  have vm: "verify_account_mode demo_bot ''a1'' (demo_bots caps) = (Inr (), ?s)"
    using clean(1) by (simp add: verify_account_mode_def run_simps bcmd_clean demo_bot_def demo_bots_def Let_def)
  have g: "get_caps ''b1'' ?s = (Inr (case caps of Some (Inr v) \<Rightarrow> Some v | _ \<Rightarrow> None), ?s)"
    using assms clean(2) by (auto simp: get_caps_def bcmd_clean demo_bots_def cap_of_250_def)
  have rc: "risk_cap_check demo_bot ''a1'' ''ibkr'' ''STOCK'' 10 20 0 ?s = (Inr (), ?s)"
    using assms g
    by (auto simp: risk_cap_check_def run_simps demo_bot_def cap_of_250_def order_size_cap_def open_orders_cap_def
        daily_loss_cap_def asset_class_cap_def position_cap_def jget_def)
  have adm: "admit mem_srv demo_penv True demo_bot_req demo_world = (Inr demo_ticket, demo_world)"
    using demo_prepare(3) demo_gate [of demo_bot_req] by (simp add: admit_def run_simps)
  obtain r1 w where sub: "submit mem_srv demo_penv demo_ids demo_bot_req demo_ticket demo_world = (r1, w)"
    and ws: "w_sent w \<noteq> w_sent demo_world" using demo_submitted [of demo_bot_req demo_world] by blast
  have po: "place_order mem_srv demo_penv demo_ids True demo_bot_req demo_world = (r1, w)"
    using adm sub by (simp add: place_order_def abind_def)
  have pre: "rbind (check_kill_switch demo_penv ''kill_switch_active'') (\<lambda>_. rbind (if pe_maintenance demo_penv
      then Inl (HttpError 503 ''maintenance'') else Inr ()) (\<lambda>_. request_of demo_bot demo_intent 265598)) = Inr demo_bot_req"
    by (simp add: demo_request check_kill_switch_def is_kill_switch_active_def cfg_get_bool_def demo_penv_def)
  have e: "be_place demo_bot = demo_penv" "be_fresh demo_bot = demo_ids" "in_conid demo_intent = Some 265598" "in_account demo_intent = ''a1''"
    "in_broker demo_intent = ''ibkr''" "in_qty demo_intent = 10" "order_price demo_intent = 20" "be_advisor demo_bot = None" "be_gate demo_bot = None"
    "be_accounts demo_bot = [''a1'']" "be_instrument demo_bot = (\<lambda>_. Inr None)" "bw_orders ?s = demo_world"
    by (simp_all add: demo_bot_def demo_intent_def order_price_def demo_bots_def)
  have "snd (placing mem_srv demo_bot demo_intent None ?s) = ?s\<lparr>bw_orders := w\<rparr>"
    unfolding placing_def no_order_id abind_raised
    by (cases r1) (simp_all add: facade_place_order_def run_simps e on_orders_def place_order_for_bot_def pre po split_beta)
  then have "snd (bot_place_order mem_srv demo_bot demo_intent (demo_bots caps)) = ?s\<lparr>bw_orders := w\<rparr>"
    using vm rc by (simp add: bot_place_order_def capped_placing_def advised_placing_def run_simps e instrument_or_default_def
        exposure_station_def advisor_station_def)
  then have "sent (snd (bot_place_order mem_srv demo_bot demo_intent (demo_bots caps))) = w_sent w" by simp
  moreover have "sent (demo_bots caps) = w_sent demo_world" by (simp add: demo_bots_def)
  ultimately show ?thesis using ws by (metis prod.collapse)
qed



theorem bot_safeguards_inert_witness:
  "\<exists>s'. s' = fold (bot_step mem_srv) [Put_Caps ''b1'' cap_of_250, Place_Bot demo_bot demo_intent] (demo_bots None)
      \<and> bw_rows s' = [] \<and> fst (risk_cap_check demo_bot ''a1'' ''ibkr'' ''STOCK'' 1000 1000 0 s') = Inr ()"
proof -
  have "fresh_store (demo_bots None)" by (simp add: fresh_store_def demo_bots_def)
  note inert = bot_safeguards_inert [OF this refl, where R = mem_srv
      and ops = "[Put_Caps ''b1'' cap_of_250, Place_Bot demo_bot demo_intent]" and env = demo_bot and acct = "''a1''"
      and broker = "''ibkr''" and cls = "''STOCK''" and q = 1000 and p = 1000 and iid = 0]
  show ?thesis by (rule exI, rule conjI [OF refl]) (use inert in blast)
qed

end
