(* ===== verification/Bot_Supervisor.thy ===== *)
theory Bot_Supervisor
  imports Bot_Advisor
begin

text \<open>
  The supervision of bots: \<open>backend/app/bot/supervisor.py\<close> and the operations of \<open>backend/app/api/bots.py\<close>
  that change a bot or write to its control stream.

  The state holds the \<open>bots\<close> table, the control streams, the heartbeat keys, what the supervisor keeps in memory and
  the child processes with their queues. A queue is created with a process and numbered with it; a child that was
  replaced keeps its own. \<open>life\<close> interleaves the coroutines of the supervisor, the children, the API and
  the clock: a timer fires when it is due, two rounds of the heartbeat loop are at least eight seconds apart.
\<close>

section \<open>State\<close>

datatype child_msg = Stop | Pause json | Resume | Update_Config json

record bot =
  bt_name :: string
  bt_params :: json
  bt_timeframe :: string
  bt_status :: string
  bt_version :: int
  bt_deleted :: bool

record sup =
  sv_bots :: "uuid \<Rightarrow> bot option"
  sv_streams :: "uuid \<Rightarrow> (nat \<times> json) list"
  sv_groups :: "uuid \<Rightarrow> bool"
  sv_done :: "(uuid \<times> nat) list"
  sv_acked :: "(uuid \<times> nat) list"
  sv_published :: "(uuid \<times> json) list"
  sv_heartbeat :: "uuid \<Rightarrow> rat option"
  sv_running :: "(uuid \<times> nat) list"
  sv_counts :: "uuid \<Rightarrow> nat"
  sv_queues :: "uuid \<Rightarrow> nat option"
  sv_respawns :: "(uuid \<times> rat) list"
  sv_inbox :: "nat \<Rightarrow> child_msg list"
  sv_procs :: "(nat \<times> uuid) list"
  sv_alive :: "nat \<Rightarrow> bool"
  sv_beating :: bool
  sv_next :: nat

text \<open>How the calls to Redis, to the database and to \<open>Process.start\<close> end, and the statuses \<open>restart\<close> reads as time passes.\<close>

record sup_env =
  se_redis :: "string \<Rightarrow> exn + unit"
  se_start :: "exn + unit"
  se_update :: "exn + unit"
  se_status :: "rat \<Rightarrow> exn + string option"
  se_took :: "rat \<Rightarrow> rat"

definition RESPAWN_DELAYS :: "rat list" where
  "RESPAWN_DELAYS = [10, 30, 60]"

definition HEARTBEAT_POLL :: rat where
  "HEARTBEAT_POLL = 8"

definition HEARTBEAT_TTL :: rat where
  "HEARTBEAT_TTL = 10"

section \<open>Processes\<close>

text \<open>\<open>put_nowait\<close> on a queue of twenty; a full queue drops the message.\<close>

definition send_to_child :: "uuid \<Rightarrow> child_msg \<Rightarrow> sup \<Rightarrow> sup" where
  "send_to_child bid m s =
     (case sv_queues s bid of
        None \<Rightarrow> s
      | Some q \<Rightarrow> if length (sv_inbox s q) < 20 then s\<lparr>sv_inbox := (sv_inbox s)(q := sv_inbox s q @ [m])\<rparr> else s)"

text \<open>\<open>_start_bot\<close>: every error of \<open>xgroup_create\<close> is swallowed; the queue is replaced before the process starts.\<close>

definition sup_start :: "sup_env \<Rightarrow> uuid \<Rightarrow> (unit, sup) act" where
  "sup_start env bid = (\<lambda>s.
     let q = sv_next s;
         s1 = (case se_redis env ''xgroup_create'' of
                 Inr _ \<Rightarrow> s\<lparr>sv_groups := (sv_groups s)(bid := True)\<rparr> | Inl _ \<Rightarrow> s);
         s2 = s1\<lparr>sv_queues := (sv_queues s1)(bid \<mapsto> q), sv_inbox := (sv_inbox s1)(q := []), sv_next := Suc q\<rparr> in
     case se_start env of
       Inl e \<Rightarrow> (Inl e, s2)
     | Inr _ \<Rightarrow>
         (Inr (), s2\<lparr>sv_procs := sv_procs s2 @ [(q, bid)], sv_alive := (sv_alive s2)(q := True),
            sv_running := AList.update bid q (sv_running s2), sv_counts := (sv_counts s2)(bid := 0)\<rparr>))"

section \<open>Commands\<close>

definition redis_call :: "sup_env \<Rightarrow> string \<Rightarrow> (unit, sup) act" where
  "redis_call env c = of_res (se_redis env c)"

definition change :: "(sup \<Rightarrow> sup) \<Rightarrow> (unit, sup) act" where
  "change f = (\<lambda>s. (Inr (), f s))"

definition handle_pause_cmd :: "sup_env \<Rightarrow> uuid \<Rightarrow> json \<Rightarrow> (unit, sup) act" where
  "handle_pause_cmd env bid reason =
     aseq (redis_call env ''publish'') (change (\<lambda>s. s\<lparr>sv_published := sv_published s @
       [(bid, JObj [(''bot_id'', JStr bid), (''status'', JStr ''paused''), (''reason'', reason)])]\<rparr>))"

definition dispatch_command :: "sup_env \<Rightarrow> uuid \<Rightarrow> (string \<times> json) list \<Rightarrow> (unit, sup) act" where
  "dispatch_command env bid m =
     (let cmd = jget m ''cmd'' in
      if cmd = JStr ''START'' then sup_start env bid
      else if cmd = JStr ''STOP'' then change (send_to_child bid Stop)
      else if cmd = JStr ''PAUSE'' then
        (let reason = field_or m ''reason'' (JStr ''manual'') in
         abind (of_res (parse_uuid bid)) (\<lambda>u.
         aseq (handle_pause_cmd env u reason) (change (send_to_child bid (Pause reason)))))
      else if cmd = JStr ''RESUME'' then change (send_to_child bid Resume)
      else if cmd = JStr ''UPDATE_ADVISOR_CONFIG'' then
        change (send_to_child bid (Update_Config (field_or m ''config'' (JObj []))))
      else if cmd = JStr ''DEPLOY'' then aseq (change (send_to_child bid Stop)) (sup_start env bid)
      else aret ())"

definition process_command :: "sup_env \<Rightarrow> uuid \<Rightarrow> nat \<Rightarrow> json \<Rightarrow> (unit, sup) act" where
  "process_command env bid i payload =
     aseq (redis_call env ''sismember'')
       (\<lambda>s. if (bid, i) \<in> set (sv_done s) then (Inr (), s)
         else (aseq (case payload of JObj m \<Rightarrow> dispatch_command env bid m | _ \<Rightarrow> of_res (Inl AttributeError))
              (aseq (redis_call env ''sadd'')
              (aseq (change (\<lambda>s. s\<lparr>sv_done := sv_done s @ [(bid, i)]\<rparr>))
              (aseq (redis_call env ''expire'')
              (aseq (redis_call env ''xack'')
                    (change (\<lambda>s. s\<lparr>sv_acked := sv_acked s @ [(bid, i)]\<rparr>))))))) s)"

text \<open>The entries of one read, in order; the first that raises ends the batch, whose entries are not delivered again.\<close>

fun process_batch :: "sup_env \<Rightarrow> uuid \<Rightarrow> (nat \<times> json) list \<Rightarrow> (unit, sup) act" where
  "process_batch env bid [] = aret ()"
| "process_batch env bid ((i, p) # rest) = aseq (process_command env bid i p) (process_batch env bid rest)"

text \<open>One bot of one round of \<open>_command_loop\<close>; without a consumer group the read raises. Every exception is logged.\<close>

definition read_commands :: "sup_env \<Rightarrow> uuid \<Rightarrow> sup \<Rightarrow> sup" where
  "read_commands env bid s =
     (if \<not> sv_groups s bid \<or> se_redis env ''xreadgroup'' \<noteq> Inr () then s
      else let batch = take 10 (sv_streams s bid) in
        snd (process_batch env bid batch (s\<lparr>sv_streams := (sv_streams s)(bid := drop 10 (sv_streams s bid))\<rparr>)))"

definition command_round :: "sup_env \<Rightarrow> sup \<Rightarrow> sup" where
  "command_round env s = fold (read_commands env) (map fst (sv_running s)) s"

section \<open>Heartbeats and respawns\<close>

text \<open>
  \<open>_check_heartbeat\<close> at time \<open>now\<close>. A delayed respawn is a pending pair of the bot and the time it is due.
\<close>

definition check_heartbeat :: "sup_env \<Rightarrow> rat \<Rightarrow> uuid \<Rightarrow> (unit, sup) act" where
  "check_heartbeat env now bid =
     aseq (redis_call env ''get'') (\<lambda>s.
       if (case sv_heartbeat s bid of Some t \<Rightarrow> now < t | None \<Rightarrow> False) then (Inr (), s)
       else let count = sv_counts s bid in
         if length RESPAWN_DELAYS \<le> count
         then aseq (of_res (se_update env)) (change (\<lambda>s. s\<lparr>
                sv_bots := (sv_bots s)(bid := map_option (bt_status_update (\<lambda>_. ''error'')) (sv_bots s bid)),
                sv_running := AList.delete bid (sv_running s)\<rparr>)) s
         else (Inr (), s\<lparr>sv_counts := (sv_counts s)(bid := count + 1),
                 sv_respawns := sv_respawns s @ [(bid, now + RESPAWN_DELAYS ! count)]\<rparr>))"

fun check_all :: "sup_env \<Rightarrow> rat \<Rightarrow> uuid list \<Rightarrow> (unit, sup) act" where
  "check_all env now [] = aret ()"
| "check_all env now (b # bs) = aseq (check_heartbeat env now b) (check_all env now bs)"

text \<open>A round of \<open>_heartbeat_loop\<close>, which has no handler: an exception ends the loop.\<close>

definition heartbeat_round :: "sup_env \<Rightarrow> rat \<Rightarrow> sup \<Rightarrow> sup" where
  "heartbeat_round env now s =
     (case check_all env now (map fst (sv_running s)) s of
        (Inr _, s') \<Rightarrow> s' | (Inl _, s') \<Rightarrow> s'\<lparr>sv_beating := False\<rparr>)"

text \<open>A delayed respawn that is due: it starts a process and leaves the one before it alone.\<close>

definition respawn_bot :: "sup_env \<Rightarrow> uuid \<times> rat \<Rightarrow> sup \<Rightarrow> sup" where
  "respawn_bot env r s = snd (sup_start env (fst r) (s\<lparr>sv_respawns := remove1 r (sv_respawns s)\<rparr>))"

text \<open>A child: its heartbeat for ten seconds, and one message of its queue, of which only \<open>STOP\<close> has an effect.\<close>

definition child_beat :: "rat \<Rightarrow> nat \<times> uuid \<Rightarrow> sup \<Rightarrow> sup" where
  "child_beat now p s =
     (if p \<in> set (sv_procs s) \<and> sv_alive s (fst p)
      then s\<lparr>sv_heartbeat := (sv_heartbeat s)(snd p \<mapsto> now + HEARTBEAT_TTL)\<rparr> else s)"

definition child_poll :: "nat \<Rightarrow> sup \<Rightarrow> sup" where
  "child_poll q s =
     (if \<not> sv_alive s q then s
      else case sv_inbox s q of
        [] \<Rightarrow> s
      | m # ms \<Rightarrow> s\<lparr>sv_inbox := (sv_inbox s)(q := ms), sv_alive := (sv_alive s)(q := m \<noteq> Stop)\<rparr>)"

definition child_crash :: "nat \<Rightarrow> sup \<Rightarrow> sup" where
  "child_crash q s = s\<lparr>sv_alive := (sv_alive s)(q := False)\<rparr>"

section \<open>Restart\<close>

text \<open>
  The loop of \<open>restart\<close>: \<open>st now\<close> is the status read at \<open>now\<close>, \<open>took now\<close> the time the query takes; the sleep is
  half a second. The result is the time the loop ends at, with the number of its queries.
\<close>

function await_stopped ::
  "(rat \<Rightarrow> exn + string option) \<Rightarrow> (rat \<Rightarrow> rat) \<Rightarrow> rat \<Rightarrow> rat \<Rightarrow> (exn + rat) \<times> nat" where
  "await_stopped st took deadline now =
     (if now < deadline then
        (case st now of
           Inl e \<Rightarrow> (Inl e, 1)
         | Inr x \<Rightarrow>
             if x = Some ''stopped'' \<or> x = Some ''error'' then (Inr (now + max 0 (took now)), 1)
             else let (r, n) = await_stopped st took deadline (now + max 0 (took now) + 1 / 2) in (r, Suc n))
      else (Inr now, 0))"
  by pat_completeness auto

definition half_seconds :: "rat \<Rightarrow> nat" where
  "half_seconds d = nat \<lceil>2 * d\<rceil>"

lemma half_seconds_less:
  assumes "0 < d" and "d' \<le> d - 1 / 2"
  shows "half_seconds d' < half_seconds d"
proof -
  have "2 * d' \<le> 2 * d - 1" using assms(2) by linarith
  then have "\<lceil>2 * d'\<rceil> \<le> \<lceil>2 * d - 1\<rceil>" by (rule ceiling_mono)
  then have "\<lceil>2 * d'\<rceil> \<le> \<lceil>2 * d\<rceil> - 1" by simp
  moreover have "0 < \<lceil>2 * d\<rceil>" using assms(1) by simp
  ultimately show ?thesis by (auto simp: half_seconds_def)
qed

termination await_stopped
  by (relation "measure (\<lambda>(st, took, deadline, now). half_seconds (deadline - now))")
    (auto intro!: half_seconds_less)

declare await_stopped.simps [simp del]

text \<open>\<open>restart\<close>, whose handler turns every exception into one error.\<close>

definition restart_body :: "sup_env \<Rightarrow> rat \<Rightarrow> uuid \<Rightarrow> (unit, sup) act" where
  "restart_body env now bid =
     abind (of_res (se_status env now)) (\<lambda>x.
     aseq (of_res (if x \<notin> {Some ''running'', Some ''paused'', Some ''error''} then Inl SupervisorRestartError else Inr ()))
     (aseq (change (send_to_child bid Stop))
     (aseq (of_res (fst (await_stopped (se_status env) (se_took env) (now + 10) now)))
           (sup_start env bid))))"

definition restart :: "sup_env \<Rightarrow> rat \<Rightarrow> uuid \<Rightarrow> (unit, sup) act" where
  "restart env now bid = (\<lambda>s. let (r, s') = restart_body env now bid s in
     (case r of Inl e \<Rightarrow> Inl (if e = CancelledError then e else SupervisorRestartError) | Inr _ \<Rightarrow> Inr (), s'))"

section \<open>The API\<close>

definition live_bot :: "sup \<Rightarrow> uuid \<Rightarrow> bot option" where
  "live_bot s bid = (case sv_bots s bid of Some b \<Rightarrow> if bt_deleted b then None else Some b | None \<Rightarrow> None)"

definition put_bot :: "uuid \<Rightarrow> (bot \<Rightarrow> bot) \<Rightarrow> sup \<Rightarrow> sup" where
  "put_bot bid f s = s\<lparr>sv_bots := (sv_bots s)(bid := map_option f (sv_bots s bid))\<rparr>"

text \<open>\<open>xadd\<close> to the control stream, with a fresh entry id.\<close>

definition xadd_command :: "sup_env \<Rightarrow> uuid \<Rightarrow> string \<Rightarrow> (unit, sup) act" where
  "xadd_command env bid cmd =
     aseq (redis_call env ''xadd'') (change (\<lambda>s. s\<lparr>
       sv_streams := (sv_streams s)(bid := sv_streams s bid @ [(sv_next s, JObj [(''cmd'', JStr cmd)])]),
       sv_next := Suc (sv_next s)\<rparr>))"

definition api_start_bot :: "sup_env \<Rightarrow> uuid \<Rightarrow> (unit, sup) act" where
  "api_start_bot env bid = (\<lambda>s.
     if live_bot s bid = None then (Inl (HttpError 404 ''bot_not_found''), s)
     else aseq (change (put_bot bid (bt_status_update (\<lambda>_. ''starting'')))) (xadd_command env bid ''START'') s)"

definition api_stop_bot :: "sup_env \<Rightarrow> uuid \<Rightarrow> (unit, sup) act" where
  "api_stop_bot env bid =
     aseq (change (put_bot bid (bt_status_update (\<lambda>_. ''pausing'')))) (xadd_command env bid ''STOP'')"

definition api_pause_bot :: "sup_env \<Rightarrow> uuid \<Rightarrow> (unit, sup) act" where
  "api_pause_bot env bid = xadd_command env bid ''PAUSE''"

definition api_resume_bot :: "sup_env \<Rightarrow> uuid \<Rightarrow> (unit, sup) act" where
  "api_resume_bot env bid = xadd_command env bid ''RESUME''"

definition api_deploy_bot :: "sup_env \<Rightarrow> uuid \<Rightarrow> (unit, sup) act" where
  "api_deploy_bot env bid = (\<lambda>s.
     if live_bot s bid = None then (Inl (HttpError 404 ''bot_not_found''), s)
     else aseq (change (put_bot bid (\<lambda>b. b\<lparr>bt_version := bt_version b + 1\<rparr>))) (xadd_command env bid ''DEPLOY'') s)"

text \<open>\<open>_assert_stopped\<close>, and the same guard in \<open>update_bot\<close> and \<open>delete_bot\<close>.\<close>

definition assert_stopped :: "uuid \<Rightarrow> (unit, sup) act" where
  "assert_stopped bid = (\<lambda>s.
     (case live_bot s bid of
        None \<Rightarrow> Inl (HttpError 404 ''bot_not_found'')
      | Some b \<Rightarrow> if bt_status b \<noteq> ''stopped'' then Inl (HttpError 409 ''bot_must_be_stopped'') else Inr (), s))"

definition the_or_old :: "'a option \<Rightarrow> 'a \<Rightarrow> 'a" where
  "the_or_old new old = (case new of Some x \<Rightarrow> x | None \<Rightarrow> old)"

definition update_bot :: "uuid \<Rightarrow> string option \<Rightarrow> json option \<Rightarrow> string option \<Rightarrow> (unit, sup) act" where
  "update_bot bid name params timeframe =
     aseq (assert_stopped bid)
     (aseq (of_res (if name = None \<and> params = None \<and> timeframe = None
                    then Inl (HttpError 422 ''no_fields_to_update'') else Inr ()))
           (change (put_bot bid (\<lambda>b. b\<lparr>bt_name := the_or_old name (bt_name b), bt_params := the_or_old params (bt_params b),
              bt_timeframe := the_or_old timeframe (bt_timeframe b)\<rparr>))))"

definition delete_bot :: "uuid \<Rightarrow> (unit, sup) act" where
  "delete_bot bid = aseq (assert_stopped bid) (change (put_bot bid (bt_deleted_update (\<lambda>_. True))))"

section \<open>The life of the bots\<close>

type_synonym moment = "rat \<times> rat \<times> sup"

text \<open>
  A moment is the time, the time of the last heartbeat round and the state. Time does not pass beyond a timer that is due.
  \<open>ok\<close> restricts how the calls of a step may end; \<open>pub\<close> says whether \<open>start_bot\<close> and \<open>stop_bot\<close> are called, which
  nothing but \<open>restart\<close> does.
\<close>

inductive life :: "bool \<Rightarrow> (sup_env \<Rightarrow> bool) \<Rightarrow> moment \<Rightarrow> moment \<Rightarrow> bool" for pub ok where
  Tick: "n \<le> n' \<Longrightarrow> \<forall>r \<in> set (sv_respawns s). n' \<le> snd r \<Longrightarrow> life pub ok (n, p, s) (n', p, s)"
| Timer: "ok env \<Longrightarrow> r \<in> set (sv_respawns s) \<Longrightarrow> snd r \<le> n \<Longrightarrow> life pub ok (n, p, s) (n, p, respawn_bot env r s)"
| Beat_Round: "ok env \<Longrightarrow> sv_beating s \<Longrightarrow> p + HEARTBEAT_POLL \<le> n \<Longrightarrow> life pub ok (n, p, s) (n, n, heartbeat_round env n s)"
| Commands: "ok env \<Longrightarrow> life pub ok (n, p, s) (n, p, command_round env s)"
| Child_Beat: "life pub ok (n, p, s) (n, p, child_beat n q s)"
| Child_Poll: "life pub ok (n, p, s) (n, p, child_poll i s)"
| Child_Crash: "life pub ok (n, p, s) (n, p, child_crash i s)"
| Api_Start: "life pub ok (n, p, s) (n, p, snd (api_start_bot env bid s))"
| Api_Stop: "life pub ok (n, p, s) (n, p, snd (api_stop_bot env bid s))"
| Api_Pause: "life pub ok (n, p, s) (n, p, snd (api_pause_bot env bid s))"
| Api_Resume: "life pub ok (n, p, s) (n, p, snd (api_resume_bot env bid s))"
| Api_Deploy: "life pub ok (n, p, s) (n, p, snd (api_deploy_bot env bid s))"
| Api_Update: "life pub ok (n, p, s) (n, p, snd (update_bot bid nm ps tf s))"
| Api_Delete: "life pub ok (n, p, s) (n, p, snd (delete_bot bid s))"
| Public_Start: "pub \<Longrightarrow> ok env \<Longrightarrow> life pub ok (n, p, s) (n, p, snd (sup_start env bid s))"
| Public_Stop: "pub \<Longrightarrow> life pub ok (n, p, s) (n, p, send_to_child bid Stop s)"


section \<open>A crash loop goes on for ever\<close>

text \<open>
  Three failed heartbeats in a row would need three rounds without a start in between; the timer set by the
  first is due ten seconds later, before the third round. With every start the count is zero again.
\<close>

definition pending :: "uuid \<Rightarrow> rat \<Rightarrow> sup \<Rightarrow> bool" where
  "pending b t s \<longleftrightarrow> (\<exists>r \<in> set (sv_respawns s). fst r = b \<and> snd r \<le> t)"

definition fine :: "uuid \<Rightarrow> rat \<Rightarrow> sup \<Rightarrow> bool" where
  "fine b q s \<longleftrightarrow> sv_counts s b \<le> 2 \<and> (sv_counts s b = 1 \<longrightarrow> pending b (q + 10) s) \<and> (sv_counts s b = 2 \<longrightarrow> pending b (q + 2) s)"

definition calm :: "rat \<Rightarrow> rat \<Rightarrow> sup \<Rightarrow> bool" where
  "calm n p s \<longleftrightarrow> (\<forall>r \<in> set (sv_respawns s). n \<le> snd r) \<and> (\<forall>b. fine b p s)"

definition unharmed :: "uuid \<Rightarrow> uuid set \<Rightarrow> sup \<Rightarrow> bool" where
  "unharmed b K s \<longleftrightarrow> (\<exists>x. sv_bots s b = Some x \<and> bt_status x \<noteq> ''error'')
     \<and> distinct (map fst (sv_running s)) \<and> K \<subseteq> fst ` set (sv_running s)"

definition steady :: "uuid \<Rightarrow> uuid set \<Rightarrow> rat \<Rightarrow> rat \<Rightarrow> sup \<Rightarrow> bool" where
  "steady b K n p s \<longleftrightarrow> calm n p s \<and> unharmed b K s"

text \<open>Nothing of this depends on streams, queues, keys and processes.\<close>

definition sup_view :: "sup \<Rightarrow> _" where
  "sup_view s = (sv_counts s, sv_respawns s, sv_bots s, sv_running s)"

lemma steady_view: "sup_view s = sup_view t \<Longrightarrow> steady b K n p s \<longleftrightarrow> steady b K n p t"
  by (simp add: steady_def calm_def fine_def unharmed_def pending_def sup_view_def)

lemma view_send: "sup_view (send_to_child bid m s) = sup_view s"
  by (simp add: send_to_child_def sup_view_def split: option.split)

text \<open>A start clears the count of its bot; at most timers of that bot are gone.\<close>

lemma calm_reset:
  assumes "calm n p s" and "sv_counts t = (sv_counts s)(bid := 0)"
    and "set (sv_respawns t) \<subseteq> set (sv_respawns s)"
    and "\<And>r. r \<in> set (sv_respawns s) \<Longrightarrow> fst r \<noteq> bid \<Longrightarrow> r \<in> set (sv_respawns t)"
  shows "calm n p t"
proof -
  have "pending b d s \<Longrightarrow> b \<noteq> bid \<Longrightarrow> pending b d t" for b d
    using assms(4) unfolding pending_def by blast
  then show ?thesis
    using assms(1-3) unfolding calm_def fine_def by (auto simp: subset_iff)
qed

lemma sup_start_effect:
  assumes "se_start env = Inr ()"
  shows "sv_counts (snd (sup_start env bid s)) = (sv_counts s)(bid := 0)"
    "sv_respawns (snd (sup_start env bid s)) = sv_respawns s"
    "sv_bots (snd (sup_start env bid s)) = sv_bots s"
    "sv_running (snd (sup_start env bid s)) = AList.update bid (sv_next s) (sv_running s)"
  using assms by (simp_all add: sup_start_def Let_def split: sum.split)

lemma unharmed_start:
  "se_start env = Inr () \<Longrightarrow> unharmed b K s \<Longrightarrow> unharmed b K (snd (sup_start env bid s))"
  by (auto simp: unharmed_def sup_start_effect dom_update distinct_update)

lemma steady_start: "se_start env = Inr () \<Longrightarrow> preserves (steady b K n p) (sup_start env bid)"
  unfolding preserves_def steady_def
  by (auto simp: unharmed_start sup_start_effect intro: calm_reset)

lemma keeps_preserves: "keeps sup_view m \<Longrightarrow> preserves (steady b K n p) m"
  unfolding preserves_def keeps_def by (metis steady_view)

lemma keeps_change: "(\<And>s. sup_view (f s) = sup_view s) \<Longrightarrow> keeps sup_view (change f)"
  by (simp add: keeps_def change_def)

lemma keeps_redis_call [keeps_intro]: "keeps f (redis_call env c)"
  by (simp add: redis_call_def keeps_of_res)

lemma keeps_change_send [keeps_intro]: "keeps sup_view (change (send_to_child bid m))"
  by (rule keeps_change) (rule view_send)

lemma keeps_pause [keeps_intro]: "keeps sup_view (handle_pause_cmd env bid reason)"
  unfolding handle_pause_cmd_def by (intro keeps_intro keeps_change) (simp add: sup_view_def)

lemma steady_leaves:
  "preserves (steady b K n p) (redis_call env c)"
  "preserves (steady b K n p) (change (send_to_child bid m))"
  "preserves (steady b K n p) (handle_pause_cmd env bid reason)"
  by (rule keeps_preserves; rule keeps_intro)+

lemma steady_change: "(\<And>s. sup_view (f s) = sup_view s) \<Longrightarrow> preserves (steady b K n p) (change f)"
  by (rule keeps_preserves) (rule keeps_change)

lemma steady_dispatch: "se_start env = Inr () \<Longrightarrow> preserves (steady b K n p) (dispatch_command env bid m)"
  unfolding dispatch_command_def Let_def
  by (auto intro!: preserves_intro steady_start steady_leaves split: if_split)

lemma steady_process:
  assumes "se_start env = Inr ()"
  shows "preserves (steady b K n p) (process_command env bid i pl)"
proof -
  have "preserves (steady b K n p) (aseq (case pl of JObj m \<Rightarrow> dispatch_command env bid m | _ \<Rightarrow> of_res (Inl AttributeError))
      (aseq (redis_call env ''sadd'') (aseq (change (\<lambda>s. s\<lparr>sv_done := sv_done s @ [(bid, i)]\<rparr>))
      (aseq (redis_call env ''expire'') (aseq (redis_call env ''xack'') (change (\<lambda>s. s\<lparr>sv_acked := sv_acked s @ [(bid, i)]\<rparr>)))))))"
    by (cases pl; simp; intro preserves_intro steady_leaves steady_change steady_dispatch assms)
      (simp_all add: sup_view_def)
  then show ?thesis
    unfolding process_command_def by (intro preserves_aseq steady_leaves) (auto simp: preserves_def)
qed

lemma steady_batch: "se_start env = Inr () \<Longrightarrow> preserves (steady b K n p) (process_batch env bid es)"
  by (induction env bid es rule: process_batch.induct) (auto intro!: preserves_intro steady_process)

lemma steady_read: "\<lbrakk>se_start env = Inr (); steady b K n p s\<rbrakk> \<Longrightarrow> steady b K n p (read_commands env bid s)"
  unfolding read_commands_def Let_def
  by (auto intro!: steady_batch [unfolded preserves_def, rule_format] simp: steady_view [of "s\<lparr>sv_streams := _\<rparr>" s] sup_view_def)

lemma steady_commands: "\<lbrakk>se_start env = Inr (); steady b K n p s\<rbrakk> \<Longrightarrow> steady b K n p (command_round env s)"
proof -
  assume a: "se_start env = Inr ()" "steady b K n p s"
  have "steady b K n p (fold (read_commands env) bs s)" for bs
    using a(2) by (induction bs arbitrary: s) (auto intro: steady_read [OF a(1)])
  then show ?thesis by (simp add: command_round_def)
qed

text \<open>A timer that fires clears the count of its bot, and no other bot loses its timer.\<close>

lemma steady_timer:
  assumes "se_start env = Inr ()" and "steady b K n p s"
  shows "steady b K n p (respawn_bot env r s)"
proof -
  let ?s = "s\<lparr>sv_respawns := remove1 r (sv_respawns s)\<rparr>"
  have other: "r' \<in> set (remove1 r (sv_respawns s))" if "r' \<in> set (sv_respawns s)" "fst r' \<noteq> fst r" for r'
    using that by (metis in_set_remove1)
  have "calm n p (snd (sup_start env (fst r) ?s))"
  proof (rule calm_reset)
    show "calm n p s" using assms(2) by (simp add: steady_def)
  qed (use assms(1) other in \<open>simp_all add: sup_start_effect set_remove1_subset\<close>)
  moreover have "unharmed b K ?s" using assms(2) by (simp add: steady_def unharmed_def)
  ultimately show ?thesis
    by (simp add: steady_def respawn_bot_def unharmed_start [OF assms(1)])
qed

text \<open>One heartbeat: a count of two would mean a timer that is overdue.\<close>

lemma pending_mono: "pending b t s \<Longrightarrow> t \<le> t' \<Longrightarrow> pending b t' s"
  unfolding pending_def by (meson order_trans)

lemma fine_mono: "fine b p s \<Longrightarrow> p \<le> n \<Longrightarrow> fine b n s"
  unfolding fine_def by (auto elim: pending_mono)

lemma check_calm:
  assumes "check_heartbeat env n b s = (r, t)" and "fine b p s" and "p + HEARTBEAT_POLL \<le> n"
    and timers: "\<forall>r \<in> set (sv_respawns s). n \<le> snd r"
  shows "fine b n t" and "fine b' q s \<Longrightarrow> b' \<noteq> b \<Longrightarrow> fine b' q t"
    and "\<forall>r \<in> set (sv_respawns t). n \<le> snd r" and "sv_bots t = sv_bots s" and "sv_running t = sv_running s"
proof -
  have pn: "p + 8 \<le> n" using assms(3) by (simp add: HEARTBEAT_POLL_def)
  have c2: "sv_counts s b \<noteq> 2"
    using assms(2) timers pn unfolding fine_def pending_def by force
  then have c: "sv_counts s b = 0 \<or> sv_counts s b = 1" using assms(2) unfolding fine_def by linarith
  have keep: "fine b n s" using assms(2) pn by (auto elim: fine_mono)
  from assms(1) consider "t = s"
    | "t = s\<lparr>sv_counts := (sv_counts s)(b := sv_counts s b + 1),
                 sv_respawns := sv_respawns s @ [(b, n + RESPAWN_DELAYS ! sv_counts s b)]\<rparr>"
    using c by (auto simp: check_heartbeat_def redis_call_def RESPAWN_DELAYS_def run_simps Let_def
        split: prod.splits sum.splits if_splits)
  note cases = this
  show "fine b n t"
  proof (cases rule: cases)
    case 2
    have "pending b (n + 2) s" if "sv_counts s b = 1"
      using assms(2) that pn by (auto simp: fine_def elim: pending_mono)
    then show ?thesis using 2 c by (auto simp: fine_def pending_def RESPAWN_DELAYS_def)
  qed (use keep in simp)
  show "fine b' q s \<Longrightarrow> b' \<noteq> b \<Longrightarrow> fine b' q t"
    by (cases rule: cases) (auto simp: fine_def pending_def)
  show "\<forall>r \<in> set (sv_respawns t). n \<le> snd r"
    using timers c by (cases rule: cases) (auto simp: RESPAWN_DELAYS_def)
  show "sv_bots t = sv_bots s" "sv_running t = sv_running s" by (cases rule: cases; simp)+
qed

lemma check_all_calm:
  assumes "check_all env n bs s = (r, t)" and "distinct bs" and "p + HEARTBEAT_POLL \<le> n"
    and "\<forall>r \<in> set (sv_respawns s). n \<le> snd r"
    and "\<forall>b \<in> set bs. fine b p s" and "\<forall>b. b \<notin> set bs \<longrightarrow> fine b n s"
  shows "calm n n t \<and> sv_bots t = sv_bots s \<and> sv_running t = sv_running s"
  using assms
proof (induction bs arbitrary: s)
  case Nil
  then show ?case by (auto simp: aret_def calm_def)
next
  case (Cons b bs)
  obtain r1 s1 where c: "check_heartbeat env n b s = (r1, s1)" by fastforce
  have fb: "fine b p s" using Cons.prems(5) by simp
  note one = check_calm [OF c fb Cons.prems(3,4)]
  have le: "p \<le> n" using Cons.prems(3) by (simp add: HEARTBEAT_POLL_def)
  show ?case
  proof (cases r1)
    case (Inl e)
    then have "t = s1" using Cons.prems(1) c by (simp add: aseq_def abind_def)
    moreover have "fine b' n s1" for b'
    proof -
      have "b' \<noteq> b \<Longrightarrow> fine b' n s"
        using Cons.prems(5,6) fine_mono [OF _ le] by (cases "b' \<in> set bs") auto
      then show ?thesis using one(1,2) by blast
    qed
    ultimately show ?thesis using one(3-5) by (simp add: calm_def)
  next
    case (Inr u)
    then have "check_all env n bs s1 = (r, t)" using Cons.prems(1) c by (simp add: aseq_def abind_def)
    then have "calm n n t \<and> sv_bots t = sv_bots s1 \<and> sv_running t = sv_running s1"
    proof (rule Cons.IH [OF _ _ Cons.prems(3) one(3)])
      show "distinct bs" using Cons.prems(2) by simp
      show "\<forall>b' \<in> set bs. fine b' p s1"
        using Cons.prems(2,5) one(2) by (metis distinct.simps(2) list.set_intros(2))
      show "\<forall>b'. b' \<notin> set bs \<longrightarrow> fine b' n s1"
        using Cons.prems(6) one(1,2) by (metis set_ConsD)
    qed
    then show ?thesis using one(4,5) by simp
  qed
qed

lemma steady_round:
  assumes "steady b K n p s" and "p + HEARTBEAT_POLL \<le> n"
  shows "steady b K n n (heartbeat_round env n s)"
proof -
  obtain r t where c: "check_all env n (map fst (sv_running s)) s = (r, t)" by fastforce
  have le: "p \<le> n" using assms(2) by (simp add: HEARTBEAT_POLL_def)
  have "calm n n t \<and> sv_bots t = sv_bots s \<and> sv_running t = sv_running s"
    using assms le by (intro check_all_calm [OF c]) (auto simp: steady_def calm_def unharmed_def intro: fine_mono)
  moreover from this assms(1) have "unharmed b K t" by (simp add: steady_def unharmed_def)
  ultimately have "steady b K n n t" by (simp add: steady_def)
  then show ?thesis
    using c by (auto simp: heartbeat_round_def steady_view [of "t\<lparr>sv_beating := False\<rparr>" t] sup_view_def split: sum.split)
qed


text \<open>The API writes statuses other than \<open>error\<close> and touches neither counts nor timers.\<close>

lemma steady_put:
  assumes "\<And>x. bt_status x \<noteq> ''error'' \<Longrightarrow> bt_status (f x) \<noteq> ''error''" and "steady b K n p s"
  shows "steady b K n p (put_bot bid f s)"
  using assms by (auto simp: steady_def calm_def fine_def pending_def unharmed_def put_bot_def)

lemma steady_xadd: "steady b K n p s \<Longrightarrow> steady b K n p (snd (xadd_command env bid c s))"
proof -
  have "keeps sup_view (xadd_command env bid c)"
    unfolding xadd_command_def by (intro keeps_intro keeps_change) (simp add: sup_view_def)
  then show "steady b K n p s \<Longrightarrow> steady b K n p (snd (xadd_command env bid c s))"
    unfolding keeps_def by (metis steady_view)
qed

lemma aseq_change: "aseq (change f) m s = m (f s)"
  by (simp add: aseq_def abind_def change_def)

lemma steady_api:
  assumes "steady b K n p s"
  shows "steady b K n p (snd (api_start_bot env bid s))" "steady b K n p (snd (api_stop_bot env bid s))"
    "steady b K n p (snd (api_deploy_bot env bid s))" "steady b K n p (snd (update_bot bid nm ps tf s))"
    "steady b K n p (snd (delete_bot bid s))"
proof -
  show "steady b K n p (snd (api_start_bot env bid s))" "steady b K n p (snd (api_stop_bot env bid s))"
    "steady b K n p (snd (api_deploy_bot env bid s))"
    using assms by (auto simp: api_start_bot_def api_stop_bot_def api_deploy_bot_def aseq_change intro!: steady_xadd steady_put)
  have stopped: "snd (aseq (assert_stopped bid) m s) = s \<or> snd (aseq (assert_stopped bid) m s) = snd (m s)" for m :: "(unit, sup) act"
    by (auto simp: aseq_def abind_def assert_stopped_def split: option.split)
  show "steady b K n p (snd (delete_bot bid s))"
    using stopped [of "change (put_bot bid (bt_deleted_update (\<lambda>_. True)))"] assms
    by (auto simp: delete_bot_def change_def intro!: steady_put)
  show "steady b K n p (snd (update_bot bid nm ps tf s))"
    using stopped [of "aseq (of_res (if nm = None \<and> ps = None \<and> tf = None
                    then Inl (HttpError 422 ''no_fields_to_update'') else Inr ()))
           (change (put_bot bid (\<lambda>b. b\<lparr>bt_name := the_or_old nm (bt_name b), bt_params := the_or_old ps (bt_params b),
              bt_timeframe := the_or_old tf (bt_timeframe b)\<rparr>)))"] assms
    unfolding update_bot_def by (auto simp: change_def run_simps intro!: steady_put split: if_splits)
qed

lemma view_child: "sup_view (child_beat n q s) = sup_view s" "sup_view (child_poll i s) = sup_view s"
  "sup_view (child_crash i s) = sup_view s"
  by (auto simp: sup_view_def child_beat_def child_poll_def child_crash_def split: list.split)

lemma steady_time: "\<lbrakk>steady b K n p s; \<forall>r \<in> set (sv_respawns s). n' \<le> snd r\<rbrakk> \<Longrightarrow> steady b K n' p s"
  by (simp add: steady_def calm_def)

lemma life_steady:
  assumes "life pub (\<lambda>env. se_start env = Inr ()) (n, p, s) (n', p', s')" and "steady b K n p s"
  shows "steady b K n' p' s'"
  using assms
proof (cases rule: life.cases)
  case (Public_Start env bid)
  then show ?thesis using assms(2) steady_start [unfolded preserves_def] by blast
next
  case Child_Beat
  then show ?thesis using assms(2) steady_view view_child by metis
next
  case Child_Poll
  then show ?thesis using assms(2) steady_view view_child by metis
next
  case Child_Crash
  then show ?thesis using assms(2) steady_view view_child by metis
next
  case Public_Stop
  then show ?thesis using assms(2) steady_view view_send by metis
qed (auto intro: steady_time steady_timer steady_round steady_commands steady_api steady_xadd
    simp: api_pause_bot_def api_resume_bot_def)

lemma run_steady:
  "(life pub (\<lambda>env. se_start env = Inr ()))\<^sup>*\<^sup>* m m' \<Longrightarrow> steady b K (fst m) (fst (snd m)) (snd (snd m))
   \<Longrightarrow> steady b K (fst m') (fst (snd m')) (snd (snd m'))"
  by (induction rule: rtranclp_induct) (auto intro: life_steady)

text \<open>As long as processes can be started, a bot is never given up: however often its children die, its count of
  respawns stays at two or less, its status never becomes \<open>error\<close> and it stays among the supervised bots, because
  every respawn sets the count back to zero.\<close>

theorem crash_loop_never_errors:
  assumes "(life pub (\<lambda>env. se_start env = Inr ()))\<^sup>*\<^sup>* (n, p, s) (n', p', s')"
    and "sv_counts s = (\<lambda>_. 0)" and "sv_respawns s = []" and "distinct (map fst (sv_running s))"
    and "sv_bots s b = Some x" and "bt_status x \<noteq> ''error''"
  shows "sv_counts s' b \<le> 2 \<and> (\<exists>y. sv_bots s' b = Some y \<and> bt_status y \<noteq> ''error'')
    \<and> fst ` set (sv_running s) \<subseteq> fst ` set (sv_running s')"
proof -
  have "steady b (fst ` set (sv_running s)) n p s"
    using assms(2-6) by (simp add: steady_def calm_def fine_def unharmed_def)
  with run_steady [OF assms(1)] have "steady b (fst ` set (sv_running s)) n' p' s'" by simp
  then show ?thesis by (simp add: steady_def calm_def fine_def unharmed_def)
qed


section \<open>Bots that are started\<close>

text \<open>The status of a started bot never returns to \<open>stopped\<close>; \<open>update_bot\<close> and \<open>delete_bot\<close> ask for it.\<close>

definition stuck :: "uuid \<Rightarrow> sup \<Rightarrow> bool" where
  "stuck b s \<longleftrightarrow> (\<exists>x. live_bot s b = Some x \<and> bt_status x \<in> {''starting'', ''pausing'', ''error''})"

lemma stuck_view: "sv_bots s = sv_bots t \<Longrightarrow> stuck b s \<longleftrightarrow> stuck b t"
  by (simp add: stuck_def live_bot_def)

lemma stuck_put:
  assumes "stuck b s"
    and "\<And>x. bt_status x \<in> {''starting'', ''pausing'', ''error''} \<Longrightarrow> bt_status (f x) \<in> {''starting'', ''pausing'', ''error''}"
    and "\<And>x. bt_deleted (f x) = bt_deleted x"
  shows "stuck b (put_bot bid f s)"
  using assms by (cases "bid = b") (auto simp: stuck_def live_bot_def put_bot_def split: option.splits if_splits)

lemma stuck_refused:
  assumes "stuck b s"
  shows "aseq (assert_stopped b) m s = (Inl (HttpError 409 ''bot_must_be_stopped''), s)"
  using assms by (auto simp: stuck_def assert_stopped_def aseq_def abind_def)

lemma keeps_bots:
  "keeps sv_bots (redis_call env c)" "keeps sv_bots (change (send_to_child bid m))"
  "keeps sv_bots (sup_start env bid)" "keeps sv_bots (xadd_command env bid cm)"
  by (auto simp: keeps_def redis_call_def of_res_def change_def send_to_child_def sup_start_def Let_def xadd_command_def
      run_simps split: option.split sum.split prod.split)

lemma keeps_bots_change: "(\<And>s. sv_bots (f s) = sv_bots s) \<Longrightarrow> keeps sv_bots (change f)"
  by (simp add: keeps_def change_def)

lemma keeps_bots_dispatch: "keeps sv_bots (dispatch_command env bid m)"
  unfolding dispatch_command_def handle_pause_cmd_def Let_def
  by (auto intro!: keeps_intro keeps_bots keeps_bots_change)

lemma keeps_bots_process: "keeps sv_bots (process_command env bid i pl)"
proof -
  have "keeps sv_bots (aseq (case pl of JObj m \<Rightarrow> dispatch_command env bid m | _ \<Rightarrow> of_res (Inl AttributeError))
      (aseq (redis_call env ''sadd'') (aseq (change (\<lambda>s. s\<lparr>sv_done := sv_done s @ [(bid, i)]\<rparr>))
      (aseq (redis_call env ''expire'') (aseq (redis_call env ''xack'') (change (\<lambda>s. s\<lparr>sv_acked := sv_acked s @ [(bid, i)]\<rparr>)))))))"
    by (cases pl; simp; intro keeps_intro keeps_bots_dispatch keeps_bots_change) simp_all
  then show ?thesis
    unfolding process_command_def by (intro keeps_aseq keeps_redis_call) (auto simp: keeps_def)
qed

lemma keeps_bots_batch: "keeps sv_bots (process_batch env bid es)"
  by (induction env bid es rule: process_batch.induct) (auto intro!: keeps_intro keeps_bots_process)

lemma bots_commands: "sv_bots (command_round env s) = sv_bots s"
proof -
  have one: "sv_bots (read_commands env bid s) = sv_bots s" for bid s
    using keeps_bots_batch [unfolded keeps_def] by (simp add: read_commands_def Let_def)
  have "sv_bots (fold (read_commands env) bs s) = sv_bots s" for bs
    by (induction bs arbitrary: s) (simp_all add: one)
  then show ?thesis by (simp add: command_round_def)
qed

lemma stuck_check: "stuck b s \<Longrightarrow> stuck b (snd (check_heartbeat env n bid s))"
  by (auto simp: check_heartbeat_def redis_call_def run_simps change_def Let_def stuck_def live_bot_def
      split: prod.splits sum.splits option.splits if_splits)

lemma stuck_round: "stuck b s \<Longrightarrow> stuck b (heartbeat_round env n s)"
proof -
  have "stuck b s \<Longrightarrow> stuck b (snd (check_all env n bs s))" for bs
  proof (induction bs arbitrary: s)
    case (Cons c bs)
    obtain r t where c: "check_heartbeat env n c s = (r, t)" by fastforce
    then have "stuck b t" using stuck_check [OF Cons.prems, of env n c] by simp
    then show ?case using Cons.IH c by (cases r) (simp_all add: aseq_def abind_def)
  qed (simp add: aret_def)
  moreover have "sv_bots (heartbeat_round env n s) = sv_bots (snd (check_all env n (map fst (sv_running s)) s))"
    by (simp add: heartbeat_round_def split: sum.split prod.split)
  ultimately show "stuck b s \<Longrightarrow> stuck b (heartbeat_round env n s)" by (metis stuck_view)
qed

lemma bots_kept:
  "sv_bots (child_beat n q s) = sv_bots s" "sv_bots (child_poll i s) = sv_bots s" "sv_bots (child_crash i s) = sv_bots s"
  "sv_bots (send_to_child bid m s) = sv_bots s" "sv_bots (snd (sup_start env bid s)) = sv_bots s"
  "sv_bots (snd (xadd_command env bid c s)) = sv_bots s" "sv_bots (respawn_bot env r s) = sv_bots s"
  using keeps_bots(3,4) unfolding keeps_def
  by (auto simp: child_beat_def child_poll_def child_crash_def send_to_child_def respawn_bot_def split: list.split option.split)

lemma stuck_kept: "stuck b s \<Longrightarrow> sv_bots t = sv_bots s \<Longrightarrow> stuck b t"
  by (metis stuck_view)

lemma stuck_xadd: "stuck b s \<Longrightarrow> stuck b (snd (xadd_command env bid c s))"
  by (rule stuck_kept) (simp_all add: bots_kept)

lemma life_stuck:
  assumes "life pub ok (n, p, s) (n', p', s')" and "stuck b s"
  shows "stuck b s'"
  using assms
proof (cases rule: life.cases)
  case (Api_Update bid nm ps tf)
  then show ?thesis
    using assms(2) by (cases "bid = b") (auto simp: stuck_refused update_bot_def assert_stopped_def run_simps change_def
        intro!: stuck_put split: option.splits if_splits)
next
  case (Api_Delete bid)
  show ?thesis
  proof (cases "bid = b")
    case True
    then show ?thesis using Api_Delete assms(2) by (simp add: stuck_refused delete_bot_def)
  next
    case False
    then show ?thesis using Api_Delete assms(2)
      by (auto simp: delete_bot_def assert_stopped_def run_simps change_def stuck_def live_bot_def put_bot_def
          split: option.splits if_splits)
  qed
qed (auto simp: api_start_bot_def api_stop_bot_def api_deploy_bot_def api_pause_bot_def api_resume_bot_def aseq_change
    bots_kept bots_commands intro: stuck_kept intro!: stuck_round stuck_xadd stuck_put)


text \<open>Once the API has started a bot, \<open>update_bot\<close> and \<open>delete_bot\<close> refuse it with 409 for ever, whatever is stopped, deployed or
  restarted later: the API writes \<open>starting\<close> and \<open>pausing\<close>, the supervisor \<open>error\<close>, and nothing writes \<open>stopped\<close>.\<close>

theorem started_bot_never_editable:
  assumes "api_start_bot env b s0 = (Inr (), s)" and "(life pub ok)\<^sup>*\<^sup>* (n, p, s) (n', p', s')"
  shows "update_bot b nm ps tf s' = (Inl (HttpError 409 ''bot_must_be_stopped''), s')
    \<and> delete_bot b s' = (Inl (HttpError 409 ''bot_must_be_stopped''), s')"
proof -
  obtain x where x: "live_bot s0 b = Some x" and s: "s = snd (xadd_command env b ''START'' (put_bot b (bt_status_update (\<lambda>_. ''starting'')) s0))"
    using assms(1) by (auto simp: api_start_bot_def aseq_change split: if_splits)
  from x have "stuck b (put_bot b (bt_status_update (\<lambda>_. ''starting'')) s0)"
    by (auto simp: stuck_def live_bot_def put_bot_def split: option.splits if_splits)
  then have "stuck b s" unfolding s by (rule stuck_xadd)
  have "stuck b (snd (snd m'))" if "(life pub ok)\<^sup>*\<^sup>* m m'" "stuck b (snd (snd m))" for m m'
    using that by (induction rule: rtranclp_induct) (auto intro: life_stuck)
  from this [OF assms(2)] \<open>stuck b s\<close> have "stuck b s'" by simp
  then show ?thesis by (simp add: update_bot_def delete_bot_def stuck_refused)
qed

section \<open>Starting and stopping\<close>

text \<open>Without supervised bots no stream is read.\<close>

definition idle :: "(nat \<times> uuid) list \<Rightarrow> (uuid \<Rightarrow> (nat \<times> json) list) \<Rightarrow> sup \<Rightarrow> bool" where
  "idle P S s \<longleftrightarrow> sv_running s = [] \<and> sv_respawns s = [] \<and> sv_procs s = P \<and> (\<forall>b. \<exists>more. sv_streams s b = S b @ more)"

lemma idle_xadd: "idle P S s \<Longrightarrow> idle P S (snd (xadd_command env b c s))"
  unfolding idle_def xadd_command_def redis_call_def change_def run_simps
  by (auto split: sum.splits) (metis append_assoc)

lemma idle_put: "idle P S s \<Longrightarrow> idle P S (put_bot b f s)"
  by (simp add: idle_def put_bot_def)

lemma life_idle:
  assumes "life False ok (n, p, s) (n', p', s')" and "idle P S s"
  shows "idle P S s'"
  using assms
proof (cases rule: life.cases)
  case (Api_Update bid nm ps tf)
  then show ?thesis using assms(2)
    by (auto simp: update_bot_def assert_stopped_def run_simps change_def intro!: idle_put split: option.splits if_splits)
next
  case (Api_Delete bid)
  then show ?thesis using assms(2)
    by (auto simp: delete_bot_def assert_stopped_def run_simps change_def intro!: idle_put split: option.splits if_splits)
qed (auto simp: api_start_bot_def api_stop_bot_def api_deploy_bot_def api_pause_bot_def api_resume_bot_def aseq_change
    intro!: idle_xadd idle_put,
    auto simp: idle_def command_round_def heartbeat_round_def aret_def child_beat_def child_poll_def child_crash_def split: list.split)

text \<open>The supervisor reads the control streams of the bots it runs, and no others: from a supervisor without bots, a
  command \<open>START\<close> of the API stays in its stream for ever and no process is ever started.\<close>

theorem start_command_never_consumed:
  assumes "api_start_bot env b s0 = (Inr (), s)" and "sv_running s0 = []" and "sv_respawns s0 = []"
    and "(life False ok)\<^sup>*\<^sup>* (n, p, s) (n', p', s')"
  shows "sv_procs s' = sv_procs s0 \<and> (\<exists>i more. sv_streams s' b = sv_streams s0 b @ (i, JObj [(''cmd'', JStr ''START'')]) # more)"
proof -
  obtain i where s: "idle (sv_procs s0) (sv_streams s) s" "sv_streams s b = sv_streams s0 b @ [(i, JObj [(''cmd'', JStr ''START'')])]"
    using assms(1-3) by (auto simp: api_start_bot_def aseq_change xadd_command_def redis_call_def change_def run_simps
        idle_def put_bot_def split: if_splits sum.splits)
  have "idle P S (snd (snd m'))" if "(life False ok)\<^sup>*\<^sup>* m m'" "idle P S (snd (snd m))" for m m' P S
    using that by (induction rule: rtranclp_induct) (auto intro: life_idle)
  from this [OF assms(4)] s(1) have "idle (sv_procs s0) (sv_streams s) s'" by simp
  then show ?thesis using s(2) by (auto simp: idle_def) (metis append_Cons append_Nil append_assoc)
qed

text \<open>Stopping a bot does not last: the child leaves at the message \<open>STOP\<close>, the supervisor takes the missing heartbeat for a
  crash, and ten seconds after the next round a new process of the bot is alive.\<close>

theorem stopped_bot_comes_back:
  assumes "sv_running s = [(b, q)]" and "sv_counts s b = 0" and "\<not> (case sv_heartbeat s b of Some t \<Rightarrow> n < t | None \<Rightarrow> False)"
    and "se_redis env ''get'' = Inr ()" and "se_start env = Inr ()"
  shows "let s1 = heartbeat_round env n s; s2 = respawn_bot env (b, n + 10) s1 in
    (b, n + 10) \<in> set (sv_respawns s1) \<and> (\<exists>q'. (q', b) \<in> set (sv_procs s2) \<and> sv_alive s2 q' \<and> sv_running s2 = [(b, q')])"
  using assms by (auto simp: heartbeat_round_def check_heartbeat_def redis_call_def run_simps RESPAWN_DELAYS_def Let_def
      respawn_bot_def sup_start_def split: sum.split)

section \<open>Restart returns\<close>

lemma await_stopped_bounds:
  "snd (await_stopped st took d now) \<le> half_seconds (d - now)
   \<and> (\<forall>t. fst (await_stopped st took d now) = Inr t \<longrightarrow> now \<le> t)"
proof (induction st took d now rule: await_stopped.induct)
  case (1 st took d now)
  show ?case
  proof (cases "now < d")
    case False
    then show ?thesis by (simp add: await_stopped.simps [of st took d now])
  next
    case True
    then have pos: "1 \<le> half_seconds (d - now)" by (simp add: half_seconds_def le_nat_iff)
    show ?thesis
    proof (cases "st now")
      case (Inl e)
      then show ?thesis using True pos by (simp add: await_stopped.simps [of st took d now])
    next
      case (Inr x)
      show ?thesis
      proof (cases "x = Some ''stopped'' \<or> x = Some ''error''")
        case stop: True
        then show ?thesis using True Inr pos by (auto simp: await_stopped.simps [of st took d now])
      next
        case go_on: False
        let ?n = "now + max 0 (took now) + 1 / 2"
        have "half_seconds (d - ?n) < half_seconds (d - now)"
          using True by (intro half_seconds_less) auto
        then show ?thesis
          using 1 [OF True Inr] go_on True Inr
          by (auto simp: await_stopped.simps [of st took d now] split: prod.split)
      qed
    qed
  qed
qed

text \<open>\<open>restart\<close> always returns: its loop asks for the status at most twenty times, and when the queries and the start succeed it
  starts a new process of an active bot, also when the old one has not left.\<close>

theorem restart_returns:
  assumes "\<forall>t. \<exists>x. se_status env t = Inr x" and "se_status env now = Inr (Some y)"
    and "y \<in> {''running'', ''paused'', ''error''}" and "se_start env = Inr ()"
  shows "snd (await_stopped (se_status env) (se_took env) (now + 10) now) \<le> 20
    \<and> (\<exists>s' q. restart env now b s = (Inr (), s') \<and> sv_procs s' = sv_procs s @ [(q, b)]
         \<and> (\<forall>i. sv_alive s i \<longrightarrow> sv_alive s' i))"
proof -
  have h: "half_seconds (now + 10 - now) = 20" by (simp add: half_seconds_def)
  have "\<exists>u. fst (await_stopped (se_status env) took d m) = Inr u" for took d m
  proof (induction "se_status env" took d m rule: await_stopped.induct)
    case (1 took d m)
    then show ?case
      using assms(1) [rule_format, of m] by (auto simp: await_stopped.simps [of "se_status env" took d m] split: prod.split)
  qed
  from this [of "se_took env" "now + 10" now] obtain u
    where u: "fst (await_stopped (se_status env) (se_took env) (now + 10) now) = Inr u" by blast
  have "\<exists>s' q. restart env now b s = (Inr (), s') \<and> sv_procs s' = sv_procs s @ [(q, b)] \<and> (\<forall>i. sv_alive s i \<longrightarrow> sv_alive s' i)"
    using assms(2-4) u by (auto simp: restart_def restart_body_def run_simps change_def send_to_child_def sup_start_def Let_def
        split: option.split sum.split)
  then show ?thesis using await_stopped_bounds [of "se_status env" "se_took env" "now + 10" now] h by simp
qed


section \<open>Concrete instances\<close>

definition demo_sup :: sup where
  "demo_sup = \<lparr>sv_bots = [''b1'' \<mapsto> \<lparr>bt_name = ''mean reversion'', bt_params = JObj [], bt_timeframe = ''1m'', bt_status = ''stopped'',
       bt_version = 1, bt_deleted = False\<rparr>],
     sv_streams = (\<lambda>_. []), sv_groups = (\<lambda>_. False), sv_done = [], sv_acked = [], sv_published = [],
     sv_heartbeat = (\<lambda>_. None), sv_running = [], sv_counts = (\<lambda>_. 0), sv_queues = (\<lambda>_. None), sv_respawns = [],
     sv_inbox = (\<lambda>_. []), sv_procs = [], sv_alive = (\<lambda>_. False), sv_beating = True, sv_next = 0\<rparr>"

definition demo_sup_env :: sup_env where
  "demo_sup_env = \<lparr>se_redis = (\<lambda>_. Inr ()), se_start = Inr (), se_update = Inr (), se_status = (\<lambda>_. Inr (Some ''running'')),
     se_took = (\<lambda>_. 0)\<rparr>"

text \<open>Started, and dead by the first heartbeat.\<close>

definition demo_started :: sup where
  "demo_started = snd (sup_start demo_sup_env ''b1'' demo_sup)"

lemma demo_crashes:
  "(life True (\<lambda>env. se_start env = Inr ()))\<^sup>*\<^sup>* (0, 0, demo_sup) (8, 8, heartbeat_round demo_sup_env 8 demo_started)"
proof -
  have e: "se_start demo_sup_env = Inr ()" by (simp add: demo_sup_env_def)
  have "life True (\<lambda>env. se_start env = Inr ()) (0, 0, demo_sup) (0, 0, demo_started)"
    unfolding demo_started_def by (rule life.Public_Start) (simp_all add: e)
  moreover have "life True (\<lambda>env. se_start env = Inr ()) (0, 0, demo_started) (8, 0, demo_started)"
    by (rule life.Tick) (simp_all add: demo_started_def sup_start_effect e demo_sup_def)
  moreover have "life True (\<lambda>env. se_start env = Inr ()) (8, 0, demo_started) (8, 8, heartbeat_round demo_sup_env 8 demo_started)"
    by (rule life.Beat_Round) (simp_all add: e HEARTBEAT_POLL_def demo_started_def sup_start_def Let_def demo_sup_env_def demo_sup_def)
  ultimately show ?thesis by (meson converse_rtranclp_into_rtranclp rtranclp.rtrancl_refl)
qed

theorem crash_loop_never_errors_witness:
  "sv_counts (heartbeat_round demo_sup_env 8 demo_started) ''b1'' = 1
   \<and> (\<exists>y. sv_bots (heartbeat_round demo_sup_env 8 demo_started) ''b1'' = Some y \<and> bt_status y \<noteq> ''error'')"
proof -
  have "sv_counts (heartbeat_round demo_sup_env 8 demo_started) ''b1'' = 1"
    by (simp add: demo_started_def demo_sup_def demo_sup_env_def sup_start_def heartbeat_round_def check_heartbeat_def
        redis_call_def run_simps RESPAWN_DELAYS_def Let_def)
  moreover note crash_loop_never_errors [OF demo_crashes, of "''b1''" "the (sv_bots demo_sup ''b1'')"]
  ultimately show ?thesis by (simp add: demo_sup_def)
qed

definition demo_requested :: sup where
  "demo_requested = snd (api_start_bot demo_sup_env ''b1'' demo_sup)"

lemma demo_requested: "api_start_bot demo_sup_env ''b1'' demo_sup = (Inr (), demo_requested)"
  by (simp add: demo_requested_def api_start_bot_def live_bot_def demo_sup_def demo_sup_env_def run_simps change_def
      xadd_command_def redis_call_def)

lemma demo_served:
  "(life False (\<lambda>_. True))\<^sup>*\<^sup>* (0, 0, demo_requested) (0, 0, command_round demo_sup_env demo_requested)"
  by (intro r_into_rtranclp life.Commands) simp

theorem started_bot_never_editable_witness:
  "delete_bot ''b1'' (command_round demo_sup_env demo_requested)
    = (Inl (HttpError 409 ''bot_must_be_stopped''), command_round demo_sup_env demo_requested)"
  using started_bot_never_editable [OF demo_requested demo_served] by simp

theorem start_command_never_consumed_witness:
  "sv_procs (command_round demo_sup_env demo_requested) = []"
  using start_command_never_consumed [OF demo_requested _ _ demo_served] by (simp add: demo_sup_def)

definition demo_dead :: sup where
  "demo_dead = child_poll 0 (send_to_child ''b1'' Stop demo_started)"

theorem stopped_bot_comes_back_witness:
  "\<not> sv_alive demo_dead 0 \<and> (let s2 = respawn_bot demo_sup_env (''b1'', 18) (heartbeat_round demo_sup_env 8 demo_dead) in
    \<exists>q'. sv_alive s2 q' \<and> sv_running s2 = [(''b1'', q')])"
proof -
  have d: "\<not> sv_alive demo_dead 0" "sv_running demo_dead = [(''b1'', 0)]" "sv_counts demo_dead ''b1'' = 0"
    "sv_heartbeat demo_dead ''b1'' = None"
    by (simp_all add: demo_dead_def demo_started_def demo_sup_def demo_sup_env_def sup_start_def child_poll_def send_to_child_def Let_def)
  show ?thesis
    using stopped_bot_comes_back [OF d(2,3), of 8 demo_sup_env] d(1,4) by (auto simp: demo_sup_env_def Let_def)
qed

theorem restart_returns_witness:
  "snd (await_stopped (se_status demo_sup_env) (se_took demo_sup_env) (0 + 10) 0) \<le> 20
   \<and> (\<exists>s'. restart demo_sup_env 0 ''b1'' demo_started = (Inr (), s') \<and> sv_alive s' 0)"
proof -
  have a: "sv_alive demo_started 0"
    by (simp add: demo_started_def demo_sup_def demo_sup_env_def sup_start_def Let_def)
  have "\<forall>t. \<exists>x. se_status demo_sup_env t = Inr x" "se_status demo_sup_env 0 = Inr (Some ''running'')" "se_start demo_sup_env = Inr ()"
    by (simp_all add: demo_sup_env_def)
  from restart_returns [OF this(1,2) _ this(3), of "''b1''" demo_started] a show ?thesis by fastforce
qed

end
