(* ===== verification/Bar_Engine.thy ===== *)
theory Bar_Engine
  imports Alert_Predicates
begin

text \<open>
  The bar aggregator service of \<open>src/bar_aggregator/app\<close>: one-second buckets in memory (\<open>aggregator.py\<close>), the
  write-ahead log of ticks in Redis streams (\<open>wal.py\<close>), the flush of closed buckets to \<open>bars_1s\<close> (\<open>flush.py\<close>), the
  one-minute bars (\<open>minute_emitter.py\<close>) and the handling of one message and the replay after a crash (\<open>main.py\<close>).

  Times are microseconds since the epoch. A stream is a list of entries with increasing numbers; a record is kept as the value
  that its text fields are read back to. What PostgreSQL, Redis and the clock answer is the environment of a call.
  Snapshots handed to the publisher are recorded; its coalescing of partial ones is left out.
\<close>

section \<open>Buckets\<close>

datatype vol_source = Tape | Quote_Proxy | No_Volume

record bucket =
  bk_start :: int
  bk_open :: "decimal option"
  bk_high :: "decimal option"
  bk_low :: "decimal option"
  bk_close :: "decimal option"
  bk_volume :: "decimal option"
  bk_source :: vol_source
  bk_count :: nat

definition new_bucket :: "int \<Rightarrow> bucket" where
  "new_bucket t = \<lparr>bk_start = t, bk_open = None, bk_high = None, bk_low = None, bk_close = None, bk_volume = None,
     bk_source = No_Volume, bk_count = 0\<rparr>"

definition or_zero :: "decimal option \<Rightarrow> decimal" where
  "or_zero v = (case v of Some x \<Rightarrow> x | None \<Rightarrow> 0)"

definition priced :: "decimal \<Rightarrow> bucket \<Rightarrow> bucket" where
  "priced p b = b\<lparr>
     bk_open := Some (case bk_open b of None \<Rightarrow> p | Some x \<Rightarrow> x),
     bk_high := Some (case bk_high b of None \<Rightarrow> p | Some x \<Rightarrow> max x p),
     bk_low := Some (case bk_low b of None \<Rightarrow> p | Some x \<Rightarrow> min x p),
     bk_close := Some p\<rparr>"

definition apply_tick :: "decimal \<Rightarrow> decimal \<Rightarrow> bucket \<Rightarrow> bucket" where
  "apply_tick p v b = (priced p b)\<lparr>
     bk_volume := Some (or_zero (bk_volume b) + v),
     bk_count := bk_count b + 1,
     bk_source := (if 0 < v \<or> bk_source b = Quote_Proxy then Tape else bk_source b)\<rparr>"

definition apply_quote :: "decimal \<Rightarrow> decimal \<Rightarrow> bucket \<Rightarrow> bucket" where
  "apply_quote bid ask b = (priced ((bid + ask) / 2) b)\<lparr>
     bk_source := (if bk_source b = No_Volume then Quote_Proxy else bk_source b)\<rparr>"

section \<open>The engine\<close>

record engine =
  en_buckets :: "((int \<times> string) \<times> (int \<times> bucket) list) list"
  en_updated :: "int \<times> string \<times> int \<Rightarrow> int option"
  en_seq :: int

definition MAX_INSTRUMENTS :: nat where
  "MAX_INSTRUMENTS = 1000"

definition empty_engine :: engine where
  "empty_engine = \<lparr>en_buckets = [], en_updated = (\<lambda>_. None), en_seq = 0\<rparr>"

text \<open>\<open>ts.replace(microsecond=0)\<close>.\<close>

definition second_of :: "int \<Rightarrow> int" where
  "second_of tm = tm - tm mod 1000000"

definition source_buckets :: "engine \<Rightarrow> int \<times> string \<Rightarrow> (int \<times> bucket) list" where
  "source_buckets e k = (case map_of (en_buckets e) k of Some sb \<Rightarrow> sb | None \<Rightarrow> [])"

definition bucket_at :: "engine \<Rightarrow> int \<times> string \<Rightarrow> int \<Rightarrow> bucket option" where
  "bucket_at e k t = map_of (source_buckets e k) t"

text \<open>\<open>_get_or_create_bucket\<close>, an update of the bucket, \<open>_mark_updated\<close>.\<close>

definition on_bucket :: "(bucket \<Rightarrow> bucket) \<Rightarrow> int \<times> string \<Rightarrow> int \<Rightarrow> engine \<Rightarrow> engine" where
  "on_bucket f k t e =
     (if map_of (en_buckets e) k = None \<and> MAX_INSTRUMENTS \<le> length (en_buckets e) then e
      else let b = (case bucket_at e k t of Some b \<Rightarrow> b | None \<Rightarrow> new_bucket t) in
        e\<lparr>en_buckets := AList.update k (AList.update t (f b) (source_buckets e k)) (en_buckets e),
          en_updated := (en_updated e)((fst k, snd k, t) \<mapsto> en_seq e + 1),
          en_seq := en_seq e + 1\<rparr>)"

definition on_tick :: "int \<Rightarrow> string \<Rightarrow> int \<Rightarrow> decimal \<Rightarrow> decimal \<Rightarrow> engine \<Rightarrow> engine" where
  "on_tick i src tm p v = on_bucket (apply_tick p v) (i, src) (second_of tm)"

definition on_quote :: "int \<Rightarrow> string \<Rightarrow> int \<Rightarrow> decimal \<Rightarrow> decimal \<Rightarrow> engine \<Rightarrow> engine" where
  "on_quote i src tm bid ask = on_bucket (apply_quote bid ask) (i, src) (second_of tm)"

definition peek_bucket :: "engine \<Rightarrow> int \<Rightarrow> int \<Rightarrow> bucket option" where
  "peek_bucket e i t = fst (fold (\<lambda>((i', src), sb) (best, n).
     if i' \<noteq> i then (best, n)
     else case map_of sb t of
       None \<Rightarrow> (best, n)
     | Some b \<Rightarrow> let q = (case en_updated e (i, src, t) of Some q \<Rightarrow> q | None \<Rightarrow> - 1) in
         if n < q then (Some b, q) else (best, n)) (en_buckets e) (None, - 1))"

definition remove_bucket :: "int \<times> string \<Rightarrow> int \<Rightarrow> engine \<Rightarrow> engine" where
  "remove_bucket k t e = e\<lparr>
     en_buckets := (case map_of (en_buckets e) k of
         None \<Rightarrow> en_buckets e
       | Some sb \<Rightarrow> let sb' = AList.delete t sb in
           if sb' = [] then AList.delete k (en_buckets e) else AList.update k sb' (en_buckets e)),
     en_updated := (en_updated e)((fst k, snd k, t) := None)\<rparr>"

section \<open>Records, rows and snapshots\<close>

record tick_rec =
  tr_inst :: int
  tr_source :: string
  tr_ts :: int
  tr_price :: "decimal option"
  tr_volume :: "decimal option"
  tr_bid :: "decimal option"
  tr_ask :: "decimal option"
  tr_kind :: string

record bar_row =
  ro_inst :: int
  ro_source :: string
  ro_bar :: bucket

record minute_row =
  mi_inst :: int
  mi_source :: string
  mi_priority :: int
  mi_bar :: bucket

record snapshot =
  sn_canonical :: string
  sn_inst :: int
  sn_tf :: string
  sn_bar :: bucket
  sn_revision :: int
  sn_partial :: bool

definition FINAL_REVISION :: int where
  "FINAL_REVISION = 2 ^ 31 - 1"

definition ALLOWED_SOURCES :: "string list" where
  "ALLOWED_SOURCES = [''schwab'', ''alpaca'', ''ibkr'', ''futu'']"

text \<open>The columns of migration 0024: prices are not null, and a volume goes with its source.\<close>

definition row_ok :: "bucket \<Rightarrow> bool" where
  "row_ok b \<longleftrightarrow> bk_open b \<noteq> None \<and> bk_high b \<noteq> None \<and> bk_low b \<noteq> None \<and> bk_close b \<noteq> None
     \<and> (bk_source b = No_Volume \<longleftrightarrow> bk_volume b = None)"

record agg_app =
  ag_engine :: engine
  ag_wal :: "int \<Rightarrow> (nat \<times> tick_rec) list"
  ag_next :: nat
  ag_flushed :: "int \<Rightarrow> int option"
  ag_entries :: "int \<times> int \<Rightarrow> nat option"
  ag_paused :: "int list"
  ag_since :: "int option"
  ag_last_flush :: "int option"
  ag_rows :: "bar_row list"
  ag_minutes :: "minute_row list"
  ag_finals :: "snapshot list"
  ag_partials :: "snapshot list"

text \<open>
  \<open>ge_trim n\<close> is how many entries the approximate \<open>MAXLEN\<close> of \<open>xadd\<close> drops from a stream of \<open>n\<close>; \<open>ge_str\<close> is \<open>str\<close> on a value
  that is no text, \<open>ge_ts\<close> is \<open>fromisoformat\<close>, \<open>ge_operational\<close> the exceptions that the minute emitter catches.
\<close>

record agg_env =
  ge_shard :: int
  ge_shards :: int
  ge_interval :: int
  ge_lookup :: "int \<Rightarrow> string option"
  ge_ts :: "string \<Rightarrow> exn + int"
  ge_str :: "json \<Rightarrow> string"
  ge_dec :: "string \<Rightarrow> dec_text"
  ge_now_ms :: int
  ge_xadd :: "exn + unit"
  ge_trim :: "nat \<Rightarrow> nat"
  ge_xtrim :: "exn + unit"
  ge_hset :: "exn + unit"
  ge_publish :: "exn + unit"
  ge_pg :: "exn + unit"
  ge_operational :: "exn \<Rightarrow> bool"

section \<open>One message\<close>

definition str_json :: "agg_env \<Rightarrow> json \<Rightarrow> string" where
  "str_json env v = (case v of JStr t \<Rightarrow> t | _ \<Rightarrow> ge_str env v)"

text \<open>\<open>_optional_decimal(payload.get(k))\<close>.\<close>

definition optional_decimal :: "agg_env \<Rightarrow> json \<Rightarrow> exn + decimal option" where
  "optional_decimal env v =
     (if v = JNull \<or> v = JStr [] then Inr None else rbind (dec_of_json (ge_dec env) v) (\<lambda>x. Inr (Some x)))"

text \<open>The part of \<open>_handle_quote_message\<close> before the append: \<open>None\<close> is a message that is not for this instance.\<close>

definition record_of_message :: "agg_env \<Rightarrow> int list \<Rightarrow> json \<Rightarrow> exn + tick_rec option" where
  "record_of_message env paused data =
     (case data of
        JObj m \<Rightarrow>
          rbind (rbind (item m ''instrument_id'') int_of_json) (\<lambda>i.
          rbind (item m ''source'') (\<lambda>sv. let src = str_json env sv in
          if ge_shards env = 0 then Inl ZeroDivisionError
          else if i mod ge_shards env \<noteq> ge_shard env then Inr None
          else if i \<in> set paused then Inr None
          else if src \<notin> set ALLOWED_SOURCES then Inr None
          else if ge_lookup env i = None then Inr None
          else
            rbind (rbind (item m ''ts'') (\<lambda>v. ge_ts env (str_json env v))) (\<lambda>tm.
            rbind (item m ''kind'') (\<lambda>kv.
            rbind (optional_decimal env (jget m ''price'')) (\<lambda>p.
            rbind (optional_decimal env (jget m ''volume'')) (\<lambda>v.
            rbind (optional_decimal env (jget m ''bid'')) (\<lambda>b.
            rbind (optional_decimal env (jget m ''ask'')) (\<lambda>a.
              Inr (Some \<lparr>tr_inst = i, tr_source = src, tr_ts = tm, tr_price = p, tr_volume = v, tr_bid = b, tr_ask = a,
                         tr_kind = str_json env kv\<rparr>)))))))))
      | _ \<Rightarrow> Inl TypeError)"

definition apply_record :: "tick_rec \<Rightarrow> engine \<Rightarrow> engine" where
  "apply_record r e =
     (if tr_kind r = ''tick'' then on_tick (tr_inst r) (tr_source r) (tr_ts r) (or_zero (tr_price r)) (or_zero (tr_volume r)) e
      else if tr_kind r = ''quote'' then on_quote (tr_inst r) (tr_source r) (tr_ts r) (or_zero (tr_bid r)) (or_zero (tr_ask r)) e
      else e)"

definition snapshot_of :: "string \<Rightarrow> int \<Rightarrow> string \<Rightarrow> bucket \<Rightarrow> int \<Rightarrow> bool \<Rightarrow> snapshot" where
  "snapshot_of cid i tf b rv part = \<lparr>sn_canonical = cid, sn_inst = i, sn_tf = tf, sn_bar = b, sn_revision = rv, sn_partial = part\<rparr>"

definition wal_append :: "agg_env \<Rightarrow> tick_rec \<Rightarrow> agg_app \<Rightarrow> agg_app" where
  "wal_append env r s =
     (let w = ag_wal s (tr_inst r) @ [(ag_next s, r)] in
      s\<lparr>ag_wal := (ag_wal s)(tr_inst r := drop (ge_trim env (length w)) w), ag_next := Suc (ag_next s)\<rparr>)"

definition publish_partial :: "agg_env \<Rightarrow> int \<Rightarrow> int \<Rightarrow> agg_app \<Rightarrow> agg_app" where
  "publish_partial env i t s =
     (case peek_bucket (ag_engine s) i t of
        None \<Rightarrow> s
      | Some b \<Rightarrow> s\<lparr>ag_partials := ag_partials s @
          [snapshot_of (case ge_lookup env i of Some c \<Rightarrow> c | None \<Rightarrow> print_int i) i ''1s'' b (ge_now_ms env) True]\<rparr>)"

text \<open>The part after a record was built: append, apply, remember the entry, publish.\<close>

definition take_record :: "agg_env \<Rightarrow> tick_rec \<Rightarrow> (unit, agg_app) act" where
  "take_record env r = (\<lambda>s.
     case ge_xadd env of
       Inl e \<Rightarrow> (Inl e, s)
     | Inr _ \<Rightarrow>
         let t = second_of (tr_ts r); n = ag_next s; s1 = wal_append env r s in
         (Inr (), publish_partial env (tr_inst r) t
            (s1\<lparr>ag_engine := apply_record r (ag_engine s1), ag_entries := (ag_entries s1)((tr_inst r, t) \<mapsto> n)\<rparr>)))"

definition handle_quote_message :: "agg_env \<Rightarrow> json \<Rightarrow> (unit, agg_app) act" where
  "handle_quote_message env data = (\<lambda>s.
     case record_of_message env (ag_paused s) data of
       Inl e \<Rightarrow> (Inl e, s)
     | Inr None \<Rightarrow> (Inr (), s)
     | Inr (Some r) \<Rightarrow> take_record env r s)"

section \<open>The flush\<close>

type_synonym candidate = "(int \<times> string) \<times> int \<times> bucket"

definition closed_candidates :: "int \<Rightarrow> engine \<Rightarrow> candidate list" where
  "closed_candidates now e =
     concat (map (\<lambda>(k, sb). map (\<lambda>(t, b). (k, t, b)) (filter (\<lambda>(t, b). t + 1000000 \<le> now) sb)) (en_buckets e))"

definition row_of :: "candidate \<Rightarrow> bar_row" where
  "row_of c = (case c of ((i, src), t, b) \<Rightarrow> \<lparr>ro_inst = i, ro_source = src, ro_bar = b\<lparr>bk_start := t\<rparr>\<rparr>)"

definition has_row :: "bar_row list \<Rightarrow> int \<Rightarrow> int \<Rightarrow> bool" where
  "has_row rows i t \<longleftrightarrow> list_ex (\<lambda>r. ro_inst r = i \<and> bk_start (ro_bar r) = t) rows"

text \<open>\<open>ON CONFLICT (instrument_id, bucket_start) DO NOTHING\<close>.\<close>

definition insert_row :: "bar_row \<Rightarrow> bar_row list \<Rightarrow> bar_row list" where
  "insert_row r rows = (if has_row rows (ro_inst r) (bk_start (ro_bar r)) then rows else rows @ [r])"

text \<open>The transaction: a row that breaks a constraint of the table fails the whole batch, also where it would conflict.\<close>

definition insert_rows :: "agg_env \<Rightarrow> candidate list \<Rightarrow> bar_row list \<Rightarrow> exn + bar_row list" where
  "insert_rows env cs rows =
     rbind (ge_pg env) (\<lambda>_. if list_all (row_ok \<circ> ro_bar \<circ> row_of) cs then Inr (fold (insert_row \<circ> row_of) cs rows) else Inl DatabaseError)"

text \<open>\<open>XTRIM MINID\<close> keeps the entry itself.\<close>

definition ack_flushed :: "agg_env \<Rightarrow> int \<Rightarrow> int \<Rightarrow> (unit, agg_app) act" where
  "ack_flushed env i t = (\<lambda>s.
     case ag_entries s (i, t) of
       None \<Rightarrow> (Inr (), s)
     | Some n \<Rightarrow>
         aseq (of_res (ge_xtrim env))
         (aseq (\<lambda>s. (Inr (), s\<lparr>ag_wal := (ag_wal s)(i := filter (\<lambda>(m, r). n \<le> m) (ag_wal s i))\<rparr>))
         (aseq (of_res (ge_hset env)) (\<lambda>s. (Inr (), s\<lparr>ag_flushed := (ag_flushed s)(i \<mapsto> t)\<rparr>))))
         (s\<lparr>ag_entries := (ag_entries s)((i, t) := None)\<rparr>))"

definition publish_final :: "agg_env \<Rightarrow> int \<Rightarrow> string \<Rightarrow> bucket \<Rightarrow> (unit, agg_app) act" where
  "publish_final env i tf b =
     (case ge_lookup env i of
        None \<Rightarrow> aret ()
      | Some cid \<Rightarrow> aseq (of_res (ge_publish env))
          (\<lambda>s. (Inr (), s\<lparr>ag_finals := ag_finals s @ [snapshot_of cid i tf b FINAL_REVISION False]\<rparr>)))"

definition settle_candidate :: "agg_env \<Rightarrow> candidate \<Rightarrow> (unit, agg_app) act" where
  "settle_candidate env c = (case c of ((i, src), t, b) \<Rightarrow>
     aseq (\<lambda>s. (Inr (), s\<lparr>ag_engine := remove_bucket (i, src) t (ag_engine s)\<rparr>))
     (aseq (ack_flushed env i t) (publish_final env i ''1s'' (b\<lparr>bk_start := t\<rparr>))))"

fun settle_all :: "agg_env \<Rightarrow> candidate list \<Rightarrow> (unit, agg_app) act" where
  "settle_all env [] = aret ()"
| "settle_all env (c # cs) = aseq (settle_candidate env c) (settle_all env cs)"

text \<open>\<open>flush_once\<close>; only errors of PostgreSQL are caught, in the loop every other one is logged.\<close>

definition flush_once :: "agg_env \<Rightarrow> int \<Rightarrow> (nat, agg_app) act" where
  "flush_once env now = (\<lambda>s.
     let cs = closed_candidates now (ag_engine s) in
     if cs = [] then (Inr 0, s)
     else case insert_rows env cs (ag_rows s) of
       Inl e \<Rightarrow>
         if e = DatabaseError
         then (Inr 0, s\<lparr>ag_since := Some (case ag_since s of Some t \<Rightarrow> t | None \<Rightarrow> now)\<rparr>)
         else (Inl e, s)
     | Inr rows \<Rightarrow>
         aseq (settle_all env cs)
           (\<lambda>s. (Inr (length cs), s\<lparr>ag_since := None, ag_last_flush := Some now\<rparr>))
         (s\<lparr>ag_rows := rows\<rparr>))"

section \<open>The minute\<close>

definition best_volume_source :: "bucket list \<Rightarrow> vol_source" where
  "best_volume_source bs = (if Tape \<in> bk_source ` set bs then Tape else if Quote_Proxy \<in> bk_source ` set bs then Quote_Proxy else No_Volume)"

text \<open>The values that are not \<open>None\<close>.\<close>

definition present :: "(bucket \<Rightarrow> decimal option) \<Rightarrow> bucket list \<Rightarrow> decimal list" where
  "present f bs = List.map_filter f bs"

definition aggregate_buckets :: "int \<Rightarrow> bucket list \<Rightarrow> bucket option" where
  "aggregate_buckets t bs =
     (let ordered = sort_key bk_start bs; highs = present bk_high ordered; lows = present bk_low ordered; vols = present bk_volume ordered in
      case (bk_open (hd ordered), bk_close (last ordered)) of
        (Some op, Some cl) \<Rightarrow>
          if highs = [] \<or> lows = [] then None
          else Some \<lparr>bk_start = t, bk_open = Some op, bk_high = Some (Max (set highs)), bk_low = Some (Min (set lows)), bk_close = Some cl,
                     bk_volume = (if vols = [] then None else Some (sum_list vols)), bk_source = best_volume_source ordered,
                     bk_count = sum_list (map bk_count ordered)\<rparr>
      | _ \<Rightarrow> None)"

definition window_buckets :: "int \<Rightarrow> int \<Rightarrow> (int \<times> bucket) list \<Rightarrow> bucket list" where
  "window_buckets start stop sb = map snd (filter (\<lambda>(t, b). start \<le> t \<and> t < stop) sb)"

definition collect_minute_bars :: "int \<Rightarrow> int \<Rightarrow> engine \<Rightarrow> (int \<times> string \<times> bucket) list" where
  "collect_minute_bars start stop e =
     List.map_filter (\<lambda>((i, src), sb). let bs = window_buckets start stop sb in
       if bs = [] then None else map_option (\<lambda>b. (i, src, b)) (aggregate_buckets start bs)) (en_buckets e)"

definition AGGREGATOR_PRIORITY :: int where
  "AGGREGATOR_PRIORITY = 99"

text \<open>\<open>ON CONFLICT DO UPDATE ... WHERE EXCLUDED.source_priority < bars_1m.source_priority\<close>.\<close>

definition upsert_minute :: "minute_row \<Rightarrow> minute_row list \<Rightarrow> minute_row list" where
  "upsert_minute r rows =
     (let same = (\<lambda>x. mi_inst x = mi_inst r \<and> bk_start (mi_bar x) = bk_start (mi_bar r)) in
      if list_ex same rows then map (\<lambda>x. if same x \<and> mi_priority r < mi_priority x then r else x) rows
      else rows @ [r])"

definition minute_row_of :: "int \<times> string \<times> bucket \<Rightarrow> minute_row" where
  "minute_row_of = (\<lambda>(i, src, b). \<lparr>mi_inst = i, mi_source = ''aggregator-'' @ src, mi_priority = AGGREGATOR_PRIORITY, mi_bar = b\<rparr>)"

definition store_minutes :: "agg_env \<Rightarrow> (int \<times> string \<times> bucket) list \<Rightarrow> minute_row list \<Rightarrow> exn + minute_row list" where
  "store_minutes env bs rows =
     rbind (ge_pg env) (\<lambda>_. if list_all (\<lambda>(i, src, b). row_ok b) bs then Inr (fold (upsert_minute \<circ> minute_row_of) bs rows) else Inl DatabaseError)"

text \<open>A failure to publish one bar is logged.\<close>

definition publish_minute :: "agg_env \<Rightarrow> int \<times> string \<times> bucket \<Rightarrow> agg_app \<Rightarrow> agg_app" where
  "publish_minute env = (\<lambda>(i, src, b) s. snd (publish_final env i ''1m'' b s))"

definition minute_tick :: "agg_env \<Rightarrow> int \<Rightarrow> (unit, agg_app) act" where
  "minute_tick env at' = (\<lambda>s.
     let stop = at' - at' mod 60000000; bs = collect_minute_bars (stop - 60000000) stop (ag_engine s) in
     if bs = [] then (Inr (), s)
     else case store_minutes env bs (ag_minutes s) of
       Inl e \<Rightarrow> (if ge_operational env e then Inr () else Inl e, s)
     | Inr rows \<Rightarrow> (Inr (), fold (publish_minute env) bs (s\<lparr>ag_minutes := rows\<rparr>)))"

section \<open>Restart\<close>

text \<open>\<open>_raise_on_gap\<close>: the oldest entry against the last flush, in microseconds.\<close>

definition gap_detected :: "agg_env \<Rightarrow> agg_app \<Rightarrow> int \<Rightarrow> bool" where
  "gap_detected env s i =
     (case (ag_wal s i, ag_flushed s i) of
        ((n, r) # _, Some f) \<Rightarrow> 2 * ge_interval env * 1000 < tr_ts r - f
      | _ \<Rightarrow> False)"

text \<open>A crash keeps Redis and PostgreSQL; \<open>start\<close> replays the streams in the order of the scan.\<close>

definition crashed :: "agg_app \<Rightarrow> agg_app" where
  "crashed s = s\<lparr>ag_engine := empty_engine, ag_entries := (\<lambda>_. None), ag_paused := [], ag_since := None, ag_last_flush := None\<rparr>"

definition replay_instrument :: "agg_env \<Rightarrow> int \<Rightarrow> agg_app \<Rightarrow> agg_app" where
  "replay_instrument env i s =
     (if gap_detected env s i then s\<lparr>ag_paused := ag_paused s @ [i]\<rparr>
      else s\<lparr>ag_engine := fold (\<lambda>(n, r). apply_record r) (ag_wal s i) (ag_engine s)\<rparr>)"

definition replay_wal :: "agg_env \<Rightarrow> int list \<Rightarrow> agg_app \<Rightarrow> agg_app" where
  "replay_wal env scan s = fold (replay_instrument env) scan s"

section \<open>A bucket is the summary of its prices\<close>

text \<open>What a bucket should hold after a list of trades and quotes.\<close>

datatype market_event = Trade decimal decimal | Quoted decimal decimal

fun price_of :: "market_event \<Rightarrow> decimal" where
  "price_of (Trade p v) = p"
| "price_of (Quoted bid ask) = (bid + ask) / 2"

fun volume_of :: "market_event \<Rightarrow> decimal option" where
  "volume_of (Trade p v) = Some v"
| "volume_of (Quoted bid ask) = None"

fun absorb :: "market_event \<Rightarrow> bucket \<Rightarrow> bucket" where
  "absorb (Trade p v) = apply_tick p v"
| "absorb (Quoted bid ask) = apply_quote bid ask"

definition summary :: "int \<Rightarrow> market_event list \<Rightarrow> bucket \<Rightarrow> bool" where
  "summary t evs b \<longleftrightarrow> bk_start b = t
     \<and> bk_open b = Some (price_of (hd evs)) \<and> bk_close b = Some (price_of (last evs))
     \<and> bk_high b = Some (Max (price_of ` set evs)) \<and> bk_low b = Some (Min (price_of ` set evs))
     \<and> bk_volume b = (let vs = List.map_filter volume_of evs in if vs = [] then None else Some (sum_list vs))
     \<and> bk_count b = length (List.map_filter volume_of evs)"

lemma priced_fields:
  "bk_start (priced p b) = bk_start b"
  "bk_open (priced p b) = Some (case bk_open b of None \<Rightarrow> p | Some x \<Rightarrow> x)"
  "bk_high (priced p b) = Some (case bk_high b of None \<Rightarrow> p | Some x \<Rightarrow> max x p)"
  "bk_low (priced p b) = Some (case bk_low b of None \<Rightarrow> p | Some x \<Rightarrow> min x p)"
  "bk_close (priced p b) = Some p"
  "bk_volume (priced p b) = bk_volume b" "bk_count (priced p b) = bk_count b" "bk_source (priced p b) = bk_source b"
  by (simp_all add: priced_def)

lemma absorb_fields:
  "bk_start (absorb ev b) = bk_start b"
  "bk_open (absorb ev b) = Some (case bk_open b of None \<Rightarrow> price_of ev | Some x \<Rightarrow> x)"
  "bk_high (absorb ev b) = Some (case bk_high b of None \<Rightarrow> price_of ev | Some x \<Rightarrow> max x (price_of ev))"
  "bk_low (absorb ev b) = Some (case bk_low b of None \<Rightarrow> price_of ev | Some x \<Rightarrow> min x (price_of ev))"
  "bk_close (absorb ev b) = Some (price_of ev)"
  "bk_volume (absorb ev b) = (case volume_of ev of None \<Rightarrow> bk_volume b | Some v \<Rightarrow> Some (or_zero (bk_volume b) + v))"
  "bk_count (absorb ev b) = (case volume_of ev of None \<Rightarrow> bk_count b | Some v \<Rightarrow> bk_count b + 1)"
  by (cases ev; simp add: apply_tick_def apply_quote_def priced_fields split: option.split)+

lemma map_filter_snoc: "List.map_filter f (xs @ [x]) = List.map_filter f xs @ (case f x of None \<Rightarrow> [] | Some y \<Rightarrow> [y])"
  by (simp add: List.map_filter_def split: option.split)

lemma fold_absorb_summary:
  assumes "evs \<noteq> []"
  shows "summary t evs (fold absorb evs (new_bucket t))"
  using assms
proof (induction evs rule: rev_nonempty_induct)
  case (single ev)
  then show ?case
    by (cases ev) (simp_all add: summary_def absorb_fields new_bucket_def or_zero_def List.map_filter_def del: absorb.simps)
next
  case (snoc ev evs)
  let ?b = "fold absorb evs (new_bucket t)"
  have b: "summary t evs ?b" by (rule snoc.IH)
  have img: "price_of ` set (evs @ [ev]) = insert (price_of ev) (price_of ` set evs)" by simp
  have mm: "Max (price_of ` set (evs @ [ev])) = max (Max (price_of ` set evs)) (price_of ev)"
    "Min (price_of ` set (evs @ [ev])) = min (Min (price_of ` set evs)) (price_of ev)"
    unfolding img using snoc.hyps by (simp_all add: max.commute min.commute)
  from b have "summary t (evs @ [ev]) (absorb ev ?b)"
    unfolding summary_def mm using snoc.hyps
    by (cases "volume_of ev"; cases "List.map_filter volume_of evs = []")
      (simp_all add: absorb_fields map_filter_snoc Let_def or_zero_def)
  then show ?case by simp
qed

text \<open>A bucket that has taken a list of trades and quotes is their open, highest, lowest and closing price, the sum
  of the traded volumes (none without a trade) and the number of trades.\<close>

theorem bucket_is_summary:
  assumes "evs \<noteq> []"
  shows "summary t evs (fold absorb evs (new_bucket t))"
  by (rule fold_absorb_summary [OF assms])

section \<open>Buckets through the operations of the engine\<close>

definition wf_engine :: "(int \<times> string) set \<Rightarrow> engine \<Rightarrow> bool" where
  "wf_engine U e \<longleftrightarrow> distinct (map fst (en_buckets e)) \<and> fst ` set (en_buckets e) \<subseteq> U"

lemma empty_wf: "wf_engine U empty_engine"
  by (simp add: wf_engine_def empty_engine_def)

lemma room_left:
  assumes "wf_engine U e" and "finite U" and "card U \<le> MAX_INSTRUMENTS" and "k \<in> U" and "map_of (en_buckets e) k = None"
  shows "length (en_buckets e) < MAX_INSTRUMENTS"
proof -
  have "k \<notin> fst ` set (en_buckets e)" using assms(5) by (simp add: map_of_eq_None_iff)
  then have "fst ` set (en_buckets e) \<subset> U" using assms(1,4) by (auto simp: wf_engine_def)
  then have "card (fst ` set (en_buckets e)) < card U" using assms(2) by (rule psubset_card_mono [rotated])
  moreover have "card (fst ` set (en_buckets e)) = length (en_buckets e)"
    using assms(1) distinct_card [of "map fst (en_buckets e)"] by (simp add: wf_engine_def)
  ultimately show ?thesis using assms(3) by simp
qed

lemma on_bucket_wf: "wf_engine U e \<Longrightarrow> k \<in> U \<Longrightarrow> wf_engine U (on_bucket f k t e)"
  by (auto simp: wf_engine_def on_bucket_def Let_def distinct_update dom_update)

lemma on_bucket_at:
  assumes "map_of (en_buckets e) k = None \<Longrightarrow> length (en_buckets e) < MAX_INSTRUMENTS"
  shows "bucket_at (on_bucket f k t e) k' t' =
    (if k' = k \<and> t' = t then Some (f (case bucket_at e k t of Some b \<Rightarrow> b | None \<Rightarrow> new_bucket t)) else bucket_at e k' t')"
  using assms by (auto simp: on_bucket_def bucket_at_def source_buckets_def Let_def not_le)

lemma remove_bucket_wf: "wf_engine U e \<Longrightarrow> wf_engine U (remove_bucket k t e)"
  unfolding wf_engine_def remove_bucket_def Let_def
  using distinct_delete [of "en_buckets e" k] delete_keys [of k "en_buckets e"]
  by (auto simp: distinct_update dom_update AList.delete_eq dest: map_of_SomeD split: option.split)

lemma remove_bucket_sources:
  assumes "map_of (en_buckets e) k = Some sb"
  shows "source_buckets (remove_bucket k t e) k' = (if k' = k then AList.delete t sb else source_buckets e k')"
proof (cases "AList.delete t sb = []")
  case True
  then have "en_buckets (remove_bucket k t e) = AList.delete k (en_buckets e)"
    using assms by (simp add: remove_bucket_def Let_def)
  then show ?thesis using True by (simp add: source_buckets_def)
next
  case False
  then have "en_buckets (remove_bucket k t e) = AList.update k (AList.delete t sb) (en_buckets e)"
    using assms by (simp add: remove_bucket_def Let_def)
  then show ?thesis by (simp add: source_buckets_def)
qed

lemma remove_bucket_at: "bucket_at (remove_bucket k t e) k' t' = (if k' = k \<and> t' = t then None else bucket_at e k' t')"
proof (cases "map_of (en_buckets e) k")
  case None
  then show ?thesis by (simp add: remove_bucket_def bucket_at_def source_buckets_def)
next
  case (Some sb)
  then have "source_buckets e k = sb" by (simp add: source_buckets_def)
  then show ?thesis by (simp add: bucket_at_def remove_bucket_sources [OF Some])
qed

lemma in_closed_candidates:
  "(k, t, b) \<in> set (closed_candidates now e) \<longleftrightarrow> (\<exists>sb. (k, sb) \<in> set (en_buckets e) \<and> (t, b) \<in> set sb \<and> t + 1000000 \<le> now)"
proof
  assume "(k, t, b) \<in> set (closed_candidates now e)"
  then show "\<exists>sb. (k, sb) \<in> set (en_buckets e) \<and> (t, b) \<in> set sb \<and> t + 1000000 \<le> now"
    by (auto simp: closed_candidates_def)
next
  assume "\<exists>sb. (k, sb) \<in> set (en_buckets e) \<and> (t, b) \<in> set sb \<and> t + 1000000 \<le> now"
  then obtain sb where sb: "(k, sb) \<in> set (en_buckets e)" "(t, b) \<in> set sb" "t + 1000000 \<le> now" by blast
  then have "(k, t, b) \<in> set (map (\<lambda>(t, b). (k, t, b)) (filter (\<lambda>(t, b). t + 1000000 \<le> now) sb))"
    by (simp add: image_iff)
  then show "(k, t, b) \<in> set (closed_candidates now e)"
    unfolding closed_candidates_def set_concat set_map using sb(1)
    by (intro UN_I [of "(\<lambda>(k, sb). map (\<lambda>(t, b). (k, t, b)) (filter (\<lambda>(t, b). t + 1000000 \<le> now) sb)) (k, sb)"]) auto
qed

lemma closed_candidate:
  assumes "bucket_at e k t = Some b" and "t + 1000000 \<le> now"
  shows "(k, t, b) \<in> set (closed_candidates now e)"
proof -
  obtain sb where "map_of (en_buckets e) k = Some sb" "map_of sb t = Some b"
    using assms(1) by (auto simp: bucket_at_def source_buckets_def split: option.splits)
  then show ?thesis using assms(2) unfolding in_closed_candidates by (blast dest: map_of_SomeD)
qed

lemma candidate_closed: "(k, t, b) \<in> set (closed_candidates now e) \<Longrightarrow> t + 1000000 \<le> now"
  unfolding in_closed_candidates by blast

section \<open>What the log rebuilds\<close>

definition counted :: "tick_rec \<Rightarrow> bool" where
  "counted r \<longleftrightarrow> tr_kind r = ''tick'' \<or> tr_kind r = ''quote''"

definition market_event_of :: "tick_rec \<Rightarrow> market_event" where
  "market_event_of r = (if tr_kind r = ''tick'' then Trade (or_zero (tr_price r)) (or_zero (tr_volume r))
     else Quoted (or_zero (tr_bid r)) (or_zero (tr_ask r)))"

text \<open>The bucket of a source and a second that the entries of a stream amount to.\<close>

definition entries_of :: "(nat \<times> tick_rec) list \<Rightarrow> string \<Rightarrow> int \<Rightarrow> tick_rec list" where
  "entries_of w src t = filter (\<lambda>r. counted r \<and> tr_source r = src \<and> second_of (tr_ts r) = t) (map snd w)"

definition rebuilt :: "(nat \<times> tick_rec) list \<Rightarrow> string \<Rightarrow> int \<Rightarrow> bucket option" where
  "rebuilt w src t = (let rs = entries_of w src t in
     if rs = [] then None else Some (fold (absorb \<circ> market_event_of) rs (new_bucket t)))"

lemma apply_record_counted:
  "counted r \<Longrightarrow> apply_record r = on_bucket (absorb (market_event_of r)) (tr_inst r, tr_source r) (second_of (tr_ts r))"
  by (auto simp: counted_def apply_record_def market_event_of_def on_tick_def on_quote_def)

lemma apply_record_other: "\<not> counted r \<Longrightarrow> apply_record r e = e"
  by (simp add: counted_def apply_record_def)

lemma apply_record_wf: "wf_engine U e \<Longrightarrow> (tr_inst r, tr_source r) \<in> U \<Longrightarrow> wf_engine U (apply_record r e)"
  by (cases "counted r") (auto simp: apply_record_counted apply_record_other on_bucket_wf)

lemma rebuilt_snoc:
  "rebuilt (w @ [(n, r)]) src t = (if counted r \<and> tr_source r = src \<and> second_of (tr_ts r) = t
     then Some (absorb (market_event_of r) (case rebuilt w src t of Some b \<Rightarrow> b | None \<Rightarrow> new_bucket t)) else rebuilt w src t)"
  by (auto simp: rebuilt_def entries_of_def Let_def)

text \<open>A bound on the instruments and sources of an instance.\<close>

definition fits :: "(int \<times> string) set \<Rightarrow> bool" where
  "fits U \<longleftrightarrow> finite U \<and> card U \<le> MAX_INSTRUMENTS"

lemma apply_record_at:
  assumes "fits U" and "wf_engine U e" and "(tr_inst r, tr_source r) \<in> U"
  shows "bucket_at (apply_record r e) (i, src) t = (if counted r \<and> tr_inst r = i \<and> tr_source r = src \<and> second_of (tr_ts r) = t
     then Some (absorb (market_event_of r) (case bucket_at e (i, src) t of Some b \<Rightarrow> b | None \<Rightarrow> new_bucket t)) else bucket_at e (i, src) t)"
proof (cases "counted r")
  case True
  have room: "map_of (en_buckets e) (tr_inst r, tr_source r) = None \<Longrightarrow> length (en_buckets e) < MAX_INSTRUMENTS"
    using room_left [OF assms(2) _ _ assms(3)] assms(1) by (simp add: fits_def)
  show ?thesis using True by (auto simp: apply_record_counted on_bucket_at [OF room])
qed (simp add: apply_record_other)

lemma replay_entries:
  assumes "fits U" and "wf_engine U e" and "\<forall>(n, r) \<in> set w. tr_inst r = i \<and> (i, tr_source r) \<in> U"
  shows "wf_engine U (fold (\<lambda>(n, r). apply_record r) w e)
    \<and> (\<forall>src t. bucket_at e (i, src) t = None \<longrightarrow> bucket_at (fold (\<lambda>(n, r). apply_record r) w e) (i, src) t = rebuilt w src t)
    \<and> (\<forall>i' src t. i' \<noteq> i \<longrightarrow> bucket_at (fold (\<lambda>(n, r). apply_record r) w e) (i', src) t = bucket_at e (i', src) t)"
  using assms(3)
proof (induction w rule: rev_induct)
  case Nil
  then show ?case using assms(2) by (simp add: rebuilt_def entries_of_def)
next
  case (snoc x w)
  obtain n r where x: "x = (n, r)" by fastforce
  let ?e = "fold (\<lambda>(n, r). apply_record r) w e"
  have r: "tr_inst r = i" "(tr_inst r, tr_source r) \<in> U" using snoc.prems x by auto
  have IH: "wf_engine U ?e" "\<forall>src t. bucket_at e (i, src) t = None \<longrightarrow> bucket_at ?e (i, src) t = rebuilt w src t"
    "\<forall>i' src t. i' \<noteq> i \<longrightarrow> bucket_at ?e (i', src) t = bucket_at e (i', src) t"
    using snoc.IH snoc.prems by auto
  show ?case
    using IH r by (simp add: x apply_record_wf apply_record_at [OF assms(1) IH(1) r(2)] rebuilt_snoc)
qed

section \<open>Histories\<close>

type_synonym history = "tick_rec list \<times> agg_app"

text \<open>A record comes in order when no entry of its instrument is of a later second and its own second is not stored yet.\<close>

definition in_order :: "agg_app \<Rightarrow> tick_rec \<Rightarrow> bool" where
  "in_order s r \<longleftrightarrow> (\<forall>(n, r') \<in> set (ag_wal s (tr_inst r)). second_of (tr_ts r') \<le> second_of (tr_ts r))
     \<and> \<not> has_row (ag_rows s) (tr_inst r) (second_of (tr_ts r))"

text \<open>
  What can happen to an instance: a message is taken (in order, with room in the stream) or not, a flush or a minute under any
  answers of PostgreSQL and Redis, a crash with the replay after it. The first component lists the records taken.
\<close>

inductive feed :: "(int \<times> string) set \<Rightarrow> history \<Rightarrow> history \<Rightarrow> bool" for U where
  Taken: "record_of_message env (ag_paused s) data = Inr (Some r) \<Longrightarrow> ge_xadd env = Inr () \<Longrightarrow> (\<And>n. ge_trim env n = 0) \<Longrightarrow>
    in_order s r \<Longrightarrow> (tr_inst r, tr_source r) \<in> U \<Longrightarrow> feed U (L, s) (L @ [r], snd (handle_quote_message env data s))"
| Not_Taken: "(\<forall>r. record_of_message env (ag_paused s) data \<noteq> Inr (Some r)) \<or> ge_xadd env \<noteq> Inr () \<Longrightarrow>
    feed U (L, s) (L, snd (handle_quote_message env data s))"
| Flush: "feed U (L, s) (L, snd (flush_once env now s))"
| Minute: "feed U (L, s) (L, snd (minute_tick env now s))"
| Restart: "distinct scan \<Longrightarrow> {i. ag_wal s i \<noteq> []} \<subseteq> set scan \<Longrightarrow> feed U (L, s) (L, replay_wal env scan (crashed s))"

text \<open>A record is stored when its second has a row, logged while it is in its stream.\<close>

definition stored :: "agg_app \<Rightarrow> tick_rec \<Rightarrow> bool" where
  "stored s r \<longleftrightarrow> has_row (ag_rows s) (tr_inst r) (second_of (tr_ts r))"

definition logged :: "agg_app \<Rightarrow> tick_rec \<Rightarrow> bool" where
  "logged s r \<longleftrightarrow> (\<exists>n. (n, r) \<in> set (ag_wal s (tr_inst r)))"

definition wal_ok :: "(int \<times> string) set \<Rightarrow> agg_app \<Rightarrow> bool" where
  "wal_ok U s \<longleftrightarrow> (\<forall>i. \<forall>(n, r) \<in> set (ag_wal s i). n < ag_next s \<and> tr_inst r = i \<and> (i, tr_source r) \<in> U)"

definition entries_ok :: "agg_app \<Rightarrow> bool" where
  "entries_ok s \<longleftrightarrow> (\<forall>i t n. ag_entries s (i, t) = Some n \<longrightarrow>
     n < ag_next s \<and> (\<forall>(m, r) \<in> set (ag_wal s i). m < n \<longrightarrow> second_of (tr_ts r) \<le> t))"

definition covered :: "agg_app \<Rightarrow> bool" where
  "covered s \<longleftrightarrow> (\<forall>i src t b. bucket_at (ag_engine s) (i, src) t = Some b \<longrightarrow> has_row (ag_rows s) i t \<or> rebuilt (ag_wal s i) src t = Some b)"

definition held :: "agg_app \<Rightarrow> bool" where
  "held s \<longleftrightarrow> (\<forall>i. \<forall>(n, r) \<in> set (ag_wal s i). counted r \<longrightarrow> stored s r
     \<or> bucket_at (ag_engine s) (i, tr_source r) (second_of (tr_ts r)) \<noteq> None
     \<or> i \<in> set (ag_paused s) \<and> (\<forall>t. ag_entries s (i, t) = None))"

definition agg_ok :: "(int \<times> string) set \<Rightarrow> history \<Rightarrow> bool" where
  "agg_ok U h \<longleftrightarrow> (case h of (L, s) \<Rightarrow> wf_engine U (ag_engine s) \<and> wal_ok U s \<and> entries_ok s \<and> covered s \<and> held s
     \<and> (\<forall>r \<in> set L. counted r \<longrightarrow> stored s r \<or> logged s r))"

text \<open>Publishing, the minute and the marks of the last flush are not part of it.\<close>

definition agg_view :: "agg_app \<Rightarrow> _" where
  "agg_view s = (ag_engine s, ag_wal s, ag_next s, ag_entries s, ag_paused s, ag_rows s)"

lemma agg_ok_view: "agg_view s = agg_view s' \<Longrightarrow> agg_ok U (L, s) \<longleftrightarrow> agg_ok U (L, s')"
  by (simp add: agg_view_def agg_ok_def wal_ok_def entries_ok_def covered_def held_def stored_def logged_def)

lemma record_not_paused: "record_of_message env P data = Inr (Some r) \<Longrightarrow> tr_inst r \<notin> set P"
  by (auto simp: record_of_message_def rbind_Inr_iff Let_def split: json.splits if_splits)

lemma publish_partial_view: "agg_view (publish_partial env i t s) = agg_view s"
  by (simp add: publish_partial_def agg_view_def split: option.split)

text \<open>Taking a record: the entry, the engine and the mark of its second.\<close>

definition taken :: "tick_rec \<Rightarrow> agg_app \<Rightarrow> agg_app" where
  "taken r s = s\<lparr>ag_wal := (ag_wal s)(tr_inst r := ag_wal s (tr_inst r) @ [(ag_next s, r)]), ag_next := Suc (ag_next s),
     ag_engine := apply_record r (ag_engine s), ag_entries := (ag_entries s)((tr_inst r, second_of (tr_ts r)) \<mapsto> ag_next s)\<rparr>"

lemma taken_view:
  assumes "ge_xadd env = Inr ()" and "\<And>n. ge_trim env n = 0"
  shows "agg_view (snd (take_record env r s)) = agg_view (taken r s)"
proof -
  have "snd (take_record env r s) = publish_partial env (tr_inst r) (second_of (tr_ts r)) (taken r s)"
    using assms by (simp add: take_record_def Let_def wal_append_def taken_def)
  then show ?thesis by (simp add: publish_partial_view)
qed

lemma entry_mark: "entries_ok s \<Longrightarrow> ag_entries s (i, t) = Some n \<Longrightarrow> n < ag_next s"
  unfolding entries_ok_def by blast

lemma entry_before:
  "\<lbrakk>entries_ok s; ag_entries s (i, t) = Some n; (m, r) \<in> set (ag_wal s i); m < n\<rbrakk> \<Longrightarrow> second_of (tr_ts r) \<le> t"
  unfolding entries_ok_def by blast

lemma taken_wal: "(m, x) \<in> set (ag_wal (taken r s) i) \<longleftrightarrow> (m, x) \<in> set (ag_wal s i) \<or> i = tr_inst r \<and> x = r \<and> m = ag_next s"
  by (auto simp: taken_def)

lemma taken_entries:
  assumes "entries_ok s" and "in_order s r"
  shows "entries_ok (taken r s)"
  unfolding entries_ok_def
proof (intro allI impI conjI)
  fix i t n assume n: "ag_entries (taken r s) (i, t) = Some n"
  have mark: "n = ag_next s \<and> i = tr_inst r \<and> t = second_of (tr_ts r) \<or> ag_entries s (i, t) = Some n"
    using n by (auto simp: taken_def split: if_splits)
  then show "n < ag_next (taken r s)"
    using entry_mark [OF assms(1), of i t n] by (auto simp: taken_def)
  show "\<forall>(m, x) \<in> set (ag_wal (taken r s) i). m < n \<longrightarrow> second_of (tr_ts x) \<le> t"
  proof (intro ballI, clarify)
    fix m x assume m: "(m, x) \<in> set (ag_wal (taken r s) i)" "m < n"
    have "n \<le> ag_next s" using mark entry_mark [OF assms(1), of i t n] by auto
    then have "(m, x) \<in> set (ag_wal s i)" using m by (auto simp: taken_wal)
    then show "second_of (tr_ts x) \<le> t"
      using mark m(2) entry_before [OF assms(1)] assms(2) unfolding in_order_def by blast
  qed
qed

lemma rebuilt_None:
  "rebuilt w src t = None \<longleftrightarrow> (\<forall>(n, r) \<in> set w. counted r \<longrightarrow> tr_source r = src \<longrightarrow> second_of (tr_ts r) \<noteq> t)"
  by (auto simp: rebuilt_def entries_of_def Let_def filter_empty_conv)

lemma taken_rebuilt:
  "rebuilt (ag_wal (taken r s) i) src t = (if counted r \<and> tr_inst r = i \<and> tr_source r = src \<and> second_of (tr_ts r) = t
     then Some (absorb (market_event_of r) (case rebuilt (ag_wal s i) src t of Some b \<Rightarrow> b | None \<Rightarrow> new_bucket t))
     else rebuilt (ag_wal s i) src t)"
  by (auto simp: taken_def rebuilt_snoc)

lemma taken_at:
  assumes "fits U" and "wf_engine U (ag_engine s)" and "(tr_inst r, tr_source r) \<in> U"
  shows "bucket_at (ag_engine (taken r s)) (i, src) t = (if counted r \<and> tr_inst r = i \<and> tr_source r = src \<and> second_of (tr_ts r) = t
     then Some (absorb (market_event_of r) (case bucket_at (ag_engine s) (i, src) t of Some b \<Rightarrow> b | None \<Rightarrow> new_bucket t))
     else bucket_at (ag_engine s) (i, src) t)"
  using apply_record_at [OF assms] by (simp add: taken_def)

lemma heldD:
  assumes "held s" and "(n, r) \<in> set (ag_wal s i)" and "counted r"
  obtains (row) "stored s r" | (open_second) "bucket_at (ag_engine s) (i, tr_source r) (second_of (tr_ts r)) \<noteq> None"
    | (paused) "i \<in> set (ag_paused s)" "\<And>t. ag_entries s (i, t) = None"
proof -
  have "\<forall>(n, r) \<in> set (ag_wal s i). counted r \<longrightarrow> stored s r
     \<or> bucket_at (ag_engine s) (i, tr_source r) (second_of (tr_ts r)) \<noteq> None
     \<or> i \<in> set (ag_paused s) \<and> (\<forall>t. ag_entries s (i, t) = None)"
    using assms(1) by (simp add: held_def)
  from bspec [OF this assms(2)] assms(3) that show ?thesis by auto
qed

lemma heldI:
  assumes "\<And>i n r. \<lbrakk>(n, r) \<in> set (ag_wal s i); counted r; \<not> stored s r; bucket_at (ag_engine s) (i, tr_source r) (second_of (tr_ts r)) = None\<rbrakk>
    \<Longrightarrow> i \<in> set (ag_paused s) \<and> (\<forall>t. ag_entries s (i, t) = None)"
  shows "held s"
  unfolding held_def using assms by blast

text \<open>Without a row, a second that has no bucket has no entry in the stream of an instrument that is served.\<close>

lemma held_none:
  assumes "held s" and "wal_ok U s" and "bucket_at (ag_engine s) (i, src) t = None" and "\<not> has_row (ag_rows s) i t" and "i \<notin> set (ag_paused s)"
  shows "rebuilt (ag_wal s i) src t = None"
  unfolding rebuilt_None
proof (intro ballI, clarify)
  fix n r assume r: "(n, r) \<in> set (ag_wal s i)" "counted r" "src = tr_source r" "t = second_of (tr_ts r)"
  have "tr_inst r = i" using assms(2) r(1) unfolding wal_ok_def by blast
  with assms(1) r(1,2) show False using assms(3-5) r(3,4) by (cases rule: heldD) (simp_all add: stored_def)
qed

lemma taken_covered:
  assumes "fits U" and "wf_engine U (ag_engine s)" and "(tr_inst r, tr_source r) \<in> U"
    and "held s" and "wal_ok U s" and "covered s" and "in_order s r" and "tr_inst r \<notin> set (ag_paused s)"
  shows "covered (taken r s)"
  unfolding covered_def
proof (intro allI impI)
  fix i src t b assume b: "bucket_at (ag_engine (taken r s)) (i, src) t = Some b"
  have rows: "ag_rows (taken r s) = ag_rows s" by (simp add: taken_def)
  have cov: "bucket_at (ag_engine s) (i, src) t = Some c \<Longrightarrow> has_row (ag_rows s) i t \<or> rebuilt (ag_wal s i) src t = Some c" for c
    using assms(6) unfolding covered_def by blast
  show "has_row (ag_rows (taken r s)) i t \<or> rebuilt (ag_wal (taken r s) i) src t = Some b"
  proof (cases "counted r \<and> tr_inst r = i \<and> tr_source r = src \<and> second_of (tr_ts r) = t")
    case True
    then have nr: "\<not> has_row (ag_rows s) i t" "i \<notin> set (ag_paused s)" using assms(7,8) by (auto simp: in_order_def)
    have "bucket_at (ag_engine s) (i, src) t = rebuilt (ag_wal s i) src t"
      using cov nr(1) held_none [OF assms(4,5) _ nr] by (cases "bucket_at (ag_engine s) (i, src) t") auto
    then show ?thesis using True b taken_at [OF assms(1-3)] by (simp add: taken_rebuilt)
  next
    case False
    then show ?thesis using b cov taken_at [OF assms(1-3), of i src t] by (auto simp: rows taken_rebuilt)
  qed
qed

lemma taken_held:
  assumes "fits U" and "wf_engine U (ag_engine s)" and "(tr_inst r, tr_source r) \<in> U"
    and "held s" and "tr_inst r \<notin> set (ag_paused s)"
  shows "held (taken r s)"
proof (rule heldI)
  fix i m x assume x: "(m, x) \<in> set (ag_wal (taken r s) i)" "counted x" "\<not> stored (taken r s) x"
    and none: "bucket_at (ag_engine (taken r s)) (i, tr_source x) (second_of (tr_ts x)) = None"
  have "\<not> (i = tr_inst r \<and> x = r)" using none x(2) by (auto simp: taken_at [OF assms(1-3)])
  then have x': "(m, x) \<in> set (ag_wal s i)" using x(1) by (auto simp: taken_wal)
  from assms(4) x' x(2) show "i \<in> set (ag_paused (taken r s)) \<and> (\<forall>t. ag_entries (taken r s) (i, t) = None)"
  proof (cases rule: heldD)
    case paused
    then show ?thesis using assms(5) by (auto simp: taken_def)
  qed (use x(3) none in \<open>auto simp: stored_def taken_def taken_at [OF assms(1-3), unfolded taken_def, simplified] split: if_splits\<close>)
qed

lemma taken_ok:
  assumes "agg_ok U (L, s)" and "fits U" and "in_order s r" and "(tr_inst r, tr_source r) \<in> U" and "tr_inst r \<notin> set (ag_paused s)"
  shows "agg_ok U (L @ [r], taken r s)"
proof -
  have parts: "wf_engine U (ag_engine s)" "wal_ok U s" "entries_ok s" "covered s" "held s"
    "\<forall>r \<in> set L. counted r \<longrightarrow> stored s r \<or> logged s r"
    using assms(1) by (simp_all add: agg_ok_def)
  have "wf_engine U (ag_engine (taken r s))" using parts(1) assms(4) by (simp add: taken_def apply_record_wf)
  moreover have "wal_ok U (taken r s)"
    using parts(2) assms(4) unfolding wal_ok_def by (auto simp: taken_def less_Suc_eq)
  moreover have "\<forall>x \<in> set (L @ [r]). counted x \<longrightarrow> stored (taken r s) x \<or> logged (taken r s) x"
    using parts(6) by (auto simp: stored_def logged_def taken_def)
  ultimately show ?thesis
    using taken_entries [OF parts(3) assms(3)] taken_held [OF assms(2) parts(1) assms(4) parts(5) assms(5)]
      taken_covered [OF assms(2) parts(1) assms(4) parts(5,2,4) assms(3,5)] by (simp add: agg_ok_def)
qed

text \<open>A flush: every closed second is stored before its bucket and its entries go.\<close>

lemma has_row_insert: "has_row (insert_row x rows) i t \<longleftrightarrow> has_row rows i t \<or> ro_inst x = i \<and> bk_start (ro_bar x) = t"
  by (auto simp: insert_row_def has_row_def)

lemma row_of_key: "ro_inst (row_of c) = i \<and> bk_start (ro_bar (row_of c)) = t \<longleftrightarrow> (\<exists>src b. c = ((i, src), t, b))"
  by (cases c) (auto simp: row_of_def)

lemma has_row_fold:
  "has_row (fold (insert_row \<circ> row_of) cs rows) i t \<longleftrightarrow> has_row rows i t \<or> (\<exists>src b. ((i, src), t, b) \<in> set cs)"
proof (induction cs arbitrary: rows)
  case (Cons c cs)
  have "has_row (fold (insert_row \<circ> row_of) (c # cs) rows) i t
      \<longleftrightarrow> (has_row rows i t \<or> (\<exists>src b. c = ((i, src), t, b))) \<or> (\<exists>src b. ((i, src), t, b) \<in> set cs)"
    by (simp only: fold_simps comp_apply Cons.IH has_row_insert row_of_key)
  then show ?case unfolding list.set insert_iff by (rule trans) metis
qed simp

definition closed_stored :: "int \<Rightarrow> agg_app \<Rightarrow> bool" where
  "closed_stored now s \<longleftrightarrow> (\<forall>i src t. bucket_at (ag_engine s) (i, src) t \<noteq> None \<longrightarrow> t + 1000000 \<le> now \<longrightarrow> has_row (ag_rows s) i t)"

definition settled :: "(int \<times> string) set \<Rightarrow> tick_rec list \<Rightarrow> int \<Rightarrow> agg_app \<Rightarrow> bool" where
  "settled U L now s \<longleftrightarrow> agg_ok U (L, s) \<and> closed_stored now s"

lemma settled_view: "agg_view s = agg_view s' \<Longrightarrow> settled U L now s \<longleftrightarrow> settled U L now s'"
  using agg_ok_view [of s s'] by (simp add: settled_def closed_stored_def agg_view_def)

lemma settled_remove:
  assumes "settled U L now s" and "has_row (ag_rows s) i t"
  shows "settled U L now (s\<lparr>ag_engine := remove_bucket (i, src) t (ag_engine s)\<rparr>)"
proof -
  let ?s = "s\<lparr>ag_engine := remove_bucket (i, src) t (ag_engine s)\<rparr>"
  have parts: "wf_engine U (ag_engine s)" "wal_ok U s" "entries_ok s" "covered s" "held s"
    "\<forall>r \<in> set L. counted r \<longrightarrow> stored s r \<or> logged s r" "closed_stored now s"
    using assms(1) by (simp_all add: settled_def agg_ok_def)
  have "held ?s"
  proof (rule heldI)
    fix i' m x assume x: "(m, x) \<in> set (ag_wal ?s i')" "counted x" "\<not> stored ?s x"
      and none: "bucket_at (ag_engine ?s) (i', tr_source x) (second_of (tr_ts x)) = None"
    have x': "(m, x) \<in> set (ag_wal s i')" "tr_inst x = i'" using x(1) parts(2) unfolding wal_ok_def by auto
    from parts(5) x'(1) x(2) show "i' \<in> set (ag_paused ?s) \<and> (\<forall>t. ag_entries ?s (i', t) = None)"
    proof (cases rule: heldD)
      case open_second
      then show ?thesis using none x(3) x'(2) assms(2) by (auto simp: remove_bucket_at stored_def split: if_splits)
    qed (use x(3) in \<open>auto simp: stored_def\<close>)
  qed
  moreover have "covered ?s" using parts(4) by (auto simp: covered_def remove_bucket_at split: if_splits)
  moreover have "closed_stored now ?s" using parts(7) by (auto simp: closed_stored_def remove_bucket_at split: if_splits)
  ultimately show ?thesis
    using parts(1-3,6) by (simp add: settled_def agg_ok_def remove_bucket_wf wal_ok_def entries_ok_def stored_def logged_def)
qed

lemma entries_of_filter:
  "entries_of w src t = map snd (filter (\<lambda>x. counted (snd x) \<and> tr_source (snd x) = src \<and> second_of (tr_ts (snd x)) = t) w)"
  by (simp add: entries_of_def filter_map comp_def)

lemma rebuilt_filter:
  assumes "\<And>m r. (m, r) \<in> set w \<Longrightarrow> m < n \<Longrightarrow> second_of (tr_ts r) \<noteq> t"
  shows "rebuilt (filter (\<lambda>(m, r). n \<le> m) w) src t = rebuilt w src t"
proof -
  have late: "n \<le> m" if "(m, r) \<in> set w" "second_of (tr_ts r) = t" for m r
  proof (rule ccontr)
    assume "\<not> n \<le> m"
    then show False using assms [OF that(1)] that(2) by simp
  qed
  have "entries_of (filter (\<lambda>(m, r). n \<le> m) w) src t = entries_of w src t"
    unfolding entries_of_filter filter_filter
    by (rule arg_cong [where f = "map snd"], rule filter_cong) (use late in auto)
  then show ?thesis by (simp add: rebuilt_def)
qed

text \<open>The trim keeps the entries of every open second, and what it drops is stored.\<close>

lemma settled_trim:
  assumes "settled U L now s" and "ag_entries s (i, t) = Some n" and "t + 1000000 \<le> now"
  shows "settled U L now (s\<lparr>ag_entries := (ag_entries s)((i, t) := None), ag_wal := (ag_wal s)(i := filter (\<lambda>(m, r). n \<le> m) (ag_wal s i))\<rparr>)"
    (is "settled U L now ?s")
proof -
  have parts: "wf_engine U (ag_engine s)" "wal_ok U s" "entries_ok s" "covered s" "held s"
    "\<forall>r \<in> set L. counted r \<longrightarrow> stored s r \<or> logged s r" "closed_stored now s"
    using assms(1) by (simp_all add: settled_def agg_ok_def)
  have early: "second_of (tr_ts r) \<le> t" if "(m, r) \<in> set (ag_wal s i)" "m < n" for m r
    using entry_before [OF parts(3) assms(2) that] .
  have gone: "stored s r" if r: "(m, r) \<in> set (ag_wal s i)" "m < n" "counted r" for m r
    using parts(5) r(1,3)
  proof (cases rule: heldD)
    case open_second
    have "second_of (tr_ts r) + 1000000 \<le> now" using early [OF r(1,2)] assms(3) by linarith
    then have "has_row (ag_rows s) i (second_of (tr_ts r))" using open_second parts(7) unfolding closed_stored_def by blast
    then show ?thesis using parts(2) r(1) unfolding wal_ok_def stored_def by auto
  qed (use assms(2) in auto)
  have "covered ?s"
    unfolding covered_def
  proof (intro allI impI)
    fix i' src t' b assume b: "bucket_at (ag_engine ?s) (i', src) t' = Some b"
    show "has_row (ag_rows ?s) i' t' \<or> rebuilt (ag_wal ?s i') src t' = Some b"
    proof (cases "t' + 1000000 \<le> now")
      case True
      then show ?thesis using b parts(7) by (auto simp: closed_stored_def)
    next
      case False
      then have "rebuilt (filter (\<lambda>(m, r). n \<le> m) (ag_wal s i)) src t' = rebuilt (ag_wal s i) src t'"
        using early assms(3) by (intro rebuilt_filter) force
      then show ?thesis using b parts(4) by (auto simp: covered_def)
    qed
  qed
  moreover have "held ?s"
  proof (rule heldI)
    fix i' m x assume x: "(m, x) \<in> set (ag_wal ?s i')" "counted x" "\<not> stored ?s x"
      and none: "bucket_at (ag_engine ?s) (i', tr_source x) (second_of (tr_ts x)) = None"
    have "(m, x) \<in> set (ag_wal s i')" using x(1) by (auto split: if_splits)
    from parts(5) this x(2) show "i' \<in> set (ag_paused ?s) \<and> (\<forall>t. ag_entries ?s (i', t) = None)"
    proof (cases rule: heldD)
      case open_second
      then show ?thesis using none by simp
    next
      case paused
      then show ?thesis by simp
    qed (use x(3) in \<open>simp add: stored_def\<close>)
  qed
  moreover have "\<forall>r \<in> set L. counted r \<longrightarrow> stored ?s r \<or> logged ?s r"
    using parts(6) gone by (auto simp: stored_def logged_def not_le)
  moreover have "entries_ok ?s"
    unfolding entries_ok_def using entry_mark [OF parts(3)] entry_before [OF parts(3)] by (auto split: if_splits)
  moreover have "wal_ok U ?s" "closed_stored now ?s"
    using parts(2,7) by (auto simp: wal_ok_def closed_stored_def split: if_splits)
  ultimately show ?thesis using parts(1) by (simp add: settled_def agg_ok_def)
qed

lemma settled_pop:
  assumes "settled U L now s"
  shows "settled U L now (s\<lparr>ag_entries := (ag_entries s)((i, t) := None)\<rparr>)" (is "settled U L now ?s")
proof -
  have parts: "wf_engine U (ag_engine s)" "wal_ok U s" "entries_ok s" "covered s" "held s"
    "\<forall>r \<in> set L. counted r \<longrightarrow> stored s r \<or> logged s r" "closed_stored now s"
    using assms(1) by (simp_all add: settled_def agg_ok_def)
  have "held ?s"
  proof (rule heldI)
    fix i' m x assume x: "(m, x) \<in> set (ag_wal ?s i')" "counted x" "\<not> stored ?s x"
      and none: "bucket_at (ag_engine ?s) (i', tr_source x) (second_of (tr_ts x)) = None"
    have "(m, x) \<in> set (ag_wal s i')" using x(1) by simp
    from parts(5) this x(2) show "i' \<in> set (ag_paused ?s) \<and> (\<forall>t. ag_entries ?s (i', t) = None)"
    proof (cases rule: heldD)
      case open_second
      then show ?thesis using none by simp
    next
      case paused
      then show ?thesis by simp
    qed (use x(3) in \<open>simp add: stored_def\<close>)
  qed
  moreover have "entries_ok ?s"
    unfolding entries_ok_def using entry_mark [OF parts(3)] entry_before [OF parts(3)] by (auto split: if_splits)
  ultimately show ?thesis
    using parts by (simp add: settled_def agg_ok_def wal_ok_def covered_def stored_def logged_def closed_stored_def)
qed

lemma settled_ack:
  assumes "settled U L now s" and "t + 1000000 \<le> now"
  shows "settled U L now (snd (ack_flushed env i t s))" and "ag_rows (snd (ack_flushed env i t s)) = ag_rows s"
proof -
  have mark: "settled U L now (x\<lparr>ag_flushed := f\<rparr>) \<longleftrightarrow> settled U L now x" for x f
    by (rule settled_view) (simp add: agg_view_def)
  show "settled U L now (snd (ack_flushed env i t s))"
    using assms(1) settled_pop [OF assms(1), of i t] settled_trim [OF assms(1) _ assms(2), of i]
    by (auto simp: ack_flushed_def run_simps mark split: option.split sum.split)
  show "ag_rows (snd (ack_flushed env i t s)) = ag_rows s"
    by (auto simp: ack_flushed_def run_simps split: option.split sum.split)
qed

lemma publish_final_view: "agg_view (snd (publish_final env i tf b s)) = agg_view s"
  by (auto simp: publish_final_def run_simps agg_view_def split: option.split sum.split)

lemma view_rows: "agg_view s = agg_view s' \<Longrightarrow> ag_rows s = ag_rows s'"
  by (simp add: agg_view_def)

lemma settled_candidate:
  assumes "settled U L now s" and "has_row (ag_rows s) i t" and "t + 1000000 \<le> now"
  shows "settled U L now (snd (settle_candidate env ((i, src), t, b) s)) \<and> ag_rows (snd (settle_candidate env ((i, src), t, b) s)) = ag_rows s"
proof -
  define s1 where "s1 = s\<lparr>ag_engine := remove_bucket (i, src) t (ag_engine s)\<rparr>"
  have s1: "settled U L now s1" "ag_rows s1 = ag_rows s"
    using settled_remove [OF assms(1,2)] by (simp_all add: s1_def)
  obtain r s2 where a: "ack_flushed env i t s1 = (r, s2)" by fastforce
  have s2: "settled U L now s2" "ag_rows s2 = ag_rows s"
    using settled_ack [OF s1(1) assms(3), of env i] a s1(2) by simp_all
  have "snd (settle_candidate env ((i, src), t, b) s)
      = (case r of Inl e \<Rightarrow> s2 | Inr u \<Rightarrow> snd (publish_final env i ''1s'' (b\<lparr>bk_start := t\<rparr>) s2))"
    using a by (simp add: settle_candidate_def aseq_def abind_def s1_def split: sum.split)
  then have "agg_view (snd (settle_candidate env ((i, src), t, b) s)) = agg_view s2"
    by (simp add: publish_final_view split: sum.split)
  then show ?thesis using s2 settled_view view_rows by metis
qed

lemma settled_all:
  assumes "settled U L now s" and "\<forall>((i, src), t, b) \<in> set cs. has_row (ag_rows s) i t \<and> t + 1000000 \<le> now"
  shows "settled U L now (snd (settle_all env cs s))"
  using assms
proof (induction cs arbitrary: s)
  case Nil
  then show ?case by (simp add: aret_def)
next
  case (Cons c cs)
  obtain i src t b where c: "c = ((i, src), t, b)" by (metis surj_pair)
  obtain r s1 where s1: "settle_candidate env c s = (r, s1)" by fastforce
  have k: "settled U L now s1" "ag_rows s1 = ag_rows s"
    using settled_candidate [OF Cons.prems(1), of i t env src b] Cons.prems(2) s1 c by auto
  then have "settled U L now (snd (settle_all env cs s1))" using Cons.prems(2) by (intro Cons.IH) auto
  then show ?case using s1 k(1) by (cases r) (simp_all add: aseq_def abind_def)
qed

lemma flush_unwritten:
  assumes "closed_candidates now (ag_engine s) = [] \<or> insert_rows env (closed_candidates now (ag_engine s)) (ag_rows s) = Inl e"
  shows "agg_view (snd (flush_once env now s)) = agg_view s"
  using assms by (auto simp: flush_once_def Let_def agg_view_def)

lemma flush_written:
  assumes "cs = closed_candidates now (ag_engine s)" and "cs \<noteq> []" and "insert_rows env cs (ag_rows s) = Inr rows"
  shows "rows = fold (insert_row \<circ> row_of) cs (ag_rows s)"
    and "agg_view (snd (flush_once env now s)) = agg_view (snd (settle_all env cs (s\<lparr>ag_rows := rows\<rparr>)))"
proof -
  show "rows = fold (insert_row \<circ> row_of) cs (ag_rows s)"
    using assms(3) by (auto simp: insert_rows_def rbind_Inr_iff split: if_splits)
  obtain r s2 where "settle_all env cs (s\<lparr>ag_rows := rows\<rparr>) = (r, s2)" by fastforce
  then show "agg_view (snd (flush_once env now s)) = agg_view (snd (settle_all env cs (s\<lparr>ag_rows := rows\<rparr>)))"
    using assms by (cases r) (simp_all add: flush_once_def Let_def aseq_def abind_def agg_view_def)
qed

lemma flush_ok:
  assumes "agg_ok U (L, s)"
  shows "agg_ok U (L, snd (flush_once env now s))"
proof -
  define cs where "cs = closed_candidates now (ag_engine s)"
  show ?thesis
  proof (cases "cs = [] \<or> (\<exists>e. insert_rows env cs (ag_rows s) = Inl e)")
    case True
    then have "agg_view (snd (flush_once env now s)) = agg_view s" using flush_unwritten cs_def by metis
    then show ?thesis using assms agg_ok_view by metis
  next
    case False
    then obtain rs where rs: "insert_rows env cs (ag_rows s) = Inr rs" by (metis old.sum.exhaust)
    define s1 where "s1 = s\<lparr>ag_rows := rs\<rparr>"
    note written = flush_written [OF cs_def _ rs]
    have rsf: "rs = fold (insert_row \<circ> row_of) cs (ag_rows s)" using written(1) False by simp
    have rows: "has_row (ag_rows s1) i t \<longleftrightarrow> has_row (ag_rows s) i t \<or> (\<exists>src b. ((i, src), t, b) \<in> set cs)" for i t
      unfolding s1_def rsf using has_row_fold by simp
    have "agg_ok U (L, s1)"
    proof -
      have more: "stored s r \<Longrightarrow> stored s1 r" for r by (simp add: stored_def rows)
      have e: "ag_engine s1 = ag_engine s" "ag_wal s1 = ag_wal s" "ag_next s1 = ag_next s" "ag_entries s1 = ag_entries s"
        "ag_paused s1 = ag_paused s" by (simp_all add: s1_def)
      have "held s1"
      proof (rule heldI)
        fix i m x assume x: "(m, x) \<in> set (ag_wal s1 i)" "counted x" "\<not> stored s1 x"
          and none: "bucket_at (ag_engine s1) (i, tr_source x) (second_of (tr_ts x)) = None"
        have "held s" "(m, x) \<in> set (ag_wal s i)" using assms x(1) by (simp_all add: agg_ok_def e)
        from this x(2) show "i \<in> set (ag_paused s1) \<and> (\<forall>t. ag_entries s1 (i, t) = None)"
          by (cases rule: heldD) (use more x(3) none in \<open>auto simp: e\<close>)
      qed
      moreover have "covered s1"
        using assms unfolding agg_ok_def covered_def e rows by simp blast
      ultimately show ?thesis
        using assms more by (auto simp: agg_ok_def e wal_ok_def entries_ok_def logged_def)
    qed
    moreover have "closed_stored now s1"
      unfolding closed_stored_def rows using closed_candidate [of "ag_engine s"] by (auto simp: s1_def cs_def) blast
    ultimately have "settled U L now s1" by (simp add: settled_def)
    then have "settled U L now (snd (settle_all env cs s1))"
      by (rule settled_all) (auto simp: rows cs_def dest: candidate_closed)
    moreover have "agg_view (snd (flush_once env now s)) = agg_view (snd (settle_all env cs s1))"
      using written(2) False by (simp add: s1_def)
    ultimately show ?thesis using settled_view settled_def by metis
  qed
qed

lemma minute_view: "agg_view (snd (minute_tick env now s)) = agg_view s"
proof -
  have "agg_view (fold (publish_minute env) bs s) = agg_view s" for bs s
    by (induction bs arbitrary: s) (auto simp: publish_minute_def publish_final_view split: prod.split)
  then have "agg_view (fold (publish_minute env) bs (s\<lparr>ag_minutes := rows\<rparr>)) = agg_view s" for bs rows
    by (simp add: agg_view_def)
  then show ?thesis by (auto simp: minute_tick_def Let_def split: sum.split)
qed

text \<open>A restart: each stream is replayed into an engine that has nothing of its instrument.\<close>

lemma gap_cong: "ag_wal s = ag_wal s' \<Longrightarrow> ag_flushed s = ag_flushed s' \<Longrightarrow> gap_detected env s = gap_detected env s'"
  unfolding gap_detected_def by presburger

lemma replay_instrument_frame:
  "ag_wal (replay_instrument env i s) = ag_wal s" "ag_next (replay_instrument env i s) = ag_next s"
  "ag_rows (replay_instrument env i s) = ag_rows s" "ag_entries (replay_instrument env i s) = ag_entries s"
  by (simp_all add: replay_instrument_def)

lemma replay_instrument_gap: "gap_detected env' (replay_instrument env i s) = gap_detected env' s"
  by (rule gap_cong) (simp_all add: replay_instrument_def)

lemma replay_scan:
  fixes env :: agg_env
  assumes "fits U" and "wal_ok U s" and "distinct scan" and "wf_engine U (ag_engine s)"
    and "\<forall>i \<in> set scan. \<forall>src t. bucket_at (ag_engine s) (i, src) t = None"
  defines "s' \<equiv> fold (replay_instrument env) scan s"
  shows "wf_engine U (ag_engine s') \<and> ag_wal s' = ag_wal s \<and> ag_next s' = ag_next s \<and> ag_rows s' = ag_rows s \<and> ag_entries s' = ag_entries s
    \<and> set (ag_paused s') = set (ag_paused s) \<union> {i \<in> set scan. gap_detected env s i}
    \<and> (\<forall>i src t. bucket_at (ag_engine s') (i, src) t = (if i \<in> set scan then (if gap_detected env s i then None else rebuilt (ag_wal s i) src t)
         else bucket_at (ag_engine s) (i, src) t))"
  using assms(2-5) unfolding s'_def
proof (induction scan arbitrary: s)
  case Nil
  then show ?case by simp
next
  case (Cons j scan)
  let ?s = "replay_instrument env j s"
  have w: "\<forall>(n, r) \<in> set (ag_wal s j). tr_inst r = j \<and> (j, tr_source r) \<in> U" using Cons.prems(1) unfolding wal_ok_def by blast
  note rep = replay_entries [OF assms(1) Cons.prems(3) w]
  have at: "bucket_at (ag_engine ?s) (i, src) t = (if i = j then (if gap_detected env s j then None else rebuilt (ag_wal s j) src t)
      else bucket_at (ag_engine s) (i, src) t)" for i src t
    using rep Cons.prems(4) by (auto simp: replay_instrument_def)
  have wf: "wf_engine U (ag_engine ?s)" using rep Cons.prems(3) by (simp add: replay_instrument_def)
  have paused: "set (ag_paused ?s) = set (ag_paused s) \<union> {i. i = j \<and> gap_detected env s i}"
    by (auto simp: replay_instrument_def)
  have "wal_ok U ?s" using Cons.prems(1) by (simp add: wal_ok_def replay_instrument_frame)
  from Cons.IH [OF this _ wf] Cons.prems(2,4) show ?case
    by (auto simp: replay_instrument_frame replay_instrument_gap at paused)
qed

lemma restart_state:
  fixes env :: agg_env
  assumes "agg_ok U (L, s)" and "fits U" and "distinct scan"
  defines "s' \<equiv> replay_wal env scan (crashed s)"
  shows "wf_engine U (ag_engine s') \<and> ag_wal s' = ag_wal s \<and> ag_next s' = ag_next s \<and> ag_rows s' = ag_rows s \<and> ag_entries s' = (\<lambda>_. None)
    \<and> set (ag_paused s') = {i \<in> set scan. gap_detected env s i}
    \<and> (\<forall>i src t. bucket_at (ag_engine s') (i, src) t = (if i \<in> set scan \<and> \<not> gap_detected env s i then rebuilt (ag_wal s i) src t else None))"
proof -
  have "wal_ok U (crashed s)" using assms(1) by (simp add: agg_ok_def wal_ok_def crashed_def)
  moreover have "bucket_at empty_engine k t = None" for k t by (simp add: bucket_at_def source_buckets_def empty_engine_def)
  moreover have "gap_detected env (crashed s) = gap_detected env s" by (rule gap_cong) (simp_all add: crashed_def)
  moreover have "ag_wal (crashed s) = ag_wal s" "ag_next (crashed s) = ag_next s" "ag_rows (crashed s) = ag_rows s"
    "ag_engine (crashed s) = empty_engine" "ag_entries (crashed s) = (\<lambda>_. None)" "ag_paused (crashed s) = []"
    by (simp_all add: crashed_def)
  ultimately show ?thesis
    using replay_scan [OF assms(2) _ assms(3), of "crashed s" env] empty_wf unfolding s'_def replay_wal_def by auto
qed

lemma restart_ok:
  assumes "agg_ok U (L, s)" and "fits U" and "distinct scan" and "{i. ag_wal s i \<noteq> []} \<subseteq> set scan"
  shows "agg_ok U (L, replay_wal env scan (crashed s))"
proof -
  let ?s = "replay_wal env scan (crashed s)"
  note st = restart_state [OF assms(1-3), of env]
  have "held ?s"
  proof (rule heldI)
    fix i m x assume x: "(m, x) \<in> set (ag_wal ?s i)" "counted x"
      and none: "bucket_at (ag_engine ?s) (i, tr_source x) (second_of (tr_ts x)) = None"
    have "(m, x) \<in> set (ag_wal s i)" using x(1) st by simp
    then have "rebuilt (ag_wal s i) (tr_source x) (second_of (tr_ts x)) \<noteq> None" "i \<in> set scan"
      using x(2) assms(4) unfolding rebuilt_None by auto
    then have "gap_detected env s i" using none st by (simp split: if_splits)
    then show "i \<in> set (ag_paused ?s) \<and> (\<forall>t. ag_entries ?s (i, t) = None)" using st \<open>i \<in> set scan\<close> by simp
  qed
  moreover have "covered ?s" using st by (auto simp: covered_def split: if_splits)
  ultimately show ?thesis
    using assms(1) st by (simp add: agg_ok_def wal_ok_def entries_ok_def stored_def logged_def)
qed

lemma feed_ok:
  assumes "feed U h h'" and "fits U" and "agg_ok U h"
  shows "agg_ok U h'"
  using assms(1,3)
proof (cases rule: feed.cases)
  case (Taken env s data r L)
  have "agg_view (snd (handle_quote_message env data s)) = agg_view (taken r s)"
    using Taken(3) taken_view [OF Taken(4) Taken(5)] by (simp add: handle_quote_message_def)
  moreover have "agg_ok U (L @ [r], taken r s)"
    using Taken taken_ok assms(2,3) record_not_paused by blast
  ultimately show ?thesis using Taken(2) agg_ok_view by metis
next
  case (Not_Taken env s data L)
  have "snd (handle_quote_message env data s) = s"
    using Not_Taken(3) by (auto simp: handle_quote_message_def take_record_def split: sum.split option.split)
  then show ?thesis using Not_Taken assms(3) by simp
next
  case (Minute L s env now)
  then show ?thesis using assms(3) minute_view agg_ok_view by metis
qed (use assms(2,3) flush_ok restart_ok in auto)


section \<open>Where the pipeline stops\<close>

text \<open>A bucket without trades has a volume source and no volume, which the table refuses.\<close>

lemma quotes_only_source:
  "evs \<noteq> [] \<Longrightarrow> \<forall>ev \<in> set evs. volume_of ev = None \<Longrightarrow> bk_source (fold absorb evs (new_bucket t)) = Quote_Proxy"
proof (induction evs rule: rev_nonempty_induct)
  case (single ev)
  then show ?case by (cases ev) (simp_all add: apply_quote_def priced_fields new_bucket_def)
next
  case (snoc ev evs)
  then show ?case by (cases ev) (simp_all add: apply_quote_def priced_fields)
qed

lemma quotes_only_refused:
  assumes "evs \<noteq> []" and "\<forall>ev \<in> set evs. volume_of ev = None"
  shows "\<not> row_ok (fold absorb evs (new_bucket t))"
proof -
  have "List.map_filter volume_of evs = []" using assms(2) by (simp add: List.map_filter_def filter_empty_conv)
  then have "bk_volume (fold absorb evs (new_bucket t)) = None" using fold_absorb_summary [OF assms(1)] by (simp add: summary_def)
  then show ?thesis using quotes_only_source [OF assms] by (simp add: row_ok_def)
qed

lemma row_ok_start: "row_ok (b\<lparr>bk_start := t\<rparr>) \<longleftrightarrow> row_ok b"
  by (simp add: row_ok_def)

lemma blocked_flush:
  assumes "((i, src), t, b) \<in> set (closed_candidates now (ag_engine s))" and "\<not> row_ok b"
  shows "agg_view (snd (flush_once env now s)) = agg_view s"
proof -
  have "\<not> list_all (row_ok \<circ> ro_bar \<circ> row_of) (closed_candidates now (ag_engine s))"
    using assms by (force simp: list_all_iff row_of_def row_ok_start)
  then have "\<exists>e. insert_rows env (closed_candidates now (ag_engine s)) (ag_rows s) = Inl e"
    by (cases "ge_pg env") (simp_all add: insert_rows_def)
  then show ?thesis using flush_unwritten by blast
qed

text \<open>One instrument that was quoted and not traded in a second stops the storage of all: the row of such a bucket breaks a constraint of
  \<open>bars_1s\<close>, the transaction of the whole flush fails, and no later flush, of whatever other buckets and however PostgreSQL and Redis
  answer, stores a row, drops a bucket or trims a stream.\<close>

theorem quoted_second_blocks_flushes:
  assumes "bucket_at (ag_engine s) k t = Some (fold absorb evs (new_bucket t))" and "evs \<noteq> []" and "\<forall>ev \<in> set evs. volume_of ev = None"
    and "\<forall>(env, now) \<in> set fs. t + 1000000 \<le> now"
  shows "let s' = fold (\<lambda>(env, now) s. snd (flush_once env now s)) fs s in
    ag_rows s' = ag_rows s \<and> ag_engine s' = ag_engine s \<and> ag_wal s' = ag_wal s"
proof -
  have "agg_view (fold (\<lambda>(env, now) s. snd (flush_once env now s)) fs s) = agg_view s"
    using assms(1,4)
  proof (induction fs arbitrary: s)
    case (Cons f fs)
    obtain env now where f: "f = (env, now)" by fastforce
    obtain i src where k: "k = (i, src)" by fastforce
    have "(k, t, fold absorb evs (new_bucket t)) \<in> set (closed_candidates now (ag_engine s))"
      using Cons.prems f by (intro closed_candidate) auto
    then have v: "agg_view (snd (flush_once env now s)) = agg_view s"
      using blocked_flush quotes_only_refused [OF assms(2,3)] unfolding k by blast
    then have "ag_engine (snd (flush_once env now s)) = ag_engine s" by (simp add: agg_view_def)
    then show ?case using Cons f v by simp
  qed simp
  then show ?thesis by (simp add: agg_view_def Let_def)
qed

section \<open>What a minute sees\<close>

definition all_after :: "int \<Rightarrow> engine \<Rightarrow> bool" where
  "all_after f e \<longleftrightarrow> (\<forall>(k, sb) \<in> set (en_buckets e). \<forall>(t, b) \<in> set sb. f < t + 1000000)"

lemma remove_bucket_set:
  assumes "distinct (map fst (en_buckets e))" and "(k', sb) \<in> set (en_buckets (remove_bucket k t e))" and "(t', b) \<in> set sb"
  shows "(k', t') \<noteq> (k, t) \<and> (\<exists>sb0. (k', sb0) \<in> set (en_buckets e) \<and> (t', b) \<in> set sb0)"
proof (cases "map_of (en_buckets e) k")
  case None
  then have e: "en_buckets (remove_bucket k t e) = en_buckets e" by (simp add: remove_bucket_def)
  have "k \<notin> fst ` set (en_buckets e)" using None by (simp add: map_of_eq_None_iff)
  then have "k' \<noteq> k" using assms(2) unfolding e by (metis fst_conv image_eqI)
  then show ?thesis using assms(2,3) unfolding e by blast
next
  case (Some sb0)
  have mem: "(k, sb0) \<in> set (en_buckets e)" using Some by (rule map_of_SomeD)
  have "k' = k \<and> sb = AList.delete t sb0 \<or> k' \<noteq> k \<and> (k', sb) \<in> set (en_buckets e)"
  proof -
    have d: "distinct (map fst (en_buckets (remove_bucket k t e)))"
      using remove_bucket_wf [of UNIV e k t] assms(1) by (simp add: wf_engine_def)
    have "map_of (en_buckets (remove_bucket k t e)) k' = Some sb" using assms(2) d by simp
    then show ?thesis
      using Some by (auto simp: remove_bucket_def Let_def dest: map_of_SomeD split: if_splits)
  qed
  then show ?thesis using mem assms(3) by (auto simp: AList.delete_eq)
qed

lemma ack_engine: "ag_engine (snd (ack_flushed env i t s)) = ag_engine s"
  by (auto simp: ack_flushed_def run_simps split: option.split sum.split)

lemma settle_all_engine:
  assumes "settle_all env cs s = (Inr (), s')" and "distinct (map fst (en_buckets (ag_engine s)))"
    and "(k, sb) \<in> set (en_buckets (ag_engine s'))" and "(t, b) \<in> set sb"
  shows "(\<forall>b'. (k, t, b') \<notin> set cs) \<and> (\<exists>sb0. (k, sb0) \<in> set (en_buckets (ag_engine s)) \<and> (t, b) \<in> set sb0)"
  using assms
proof (induction cs arbitrary: s)
  case Nil
  then show ?case by (auto simp: aret_def)
next
  case (Cons c cs)
  obtain i src tc bc where c: "c = ((i, src), tc, bc)" by (metis surj_pair)
  from Cons.prems(1) obtain s1 where s1: "settle_candidate env c s = (Inr (), s1)" "settle_all env cs s1 = (Inr (), s')"
    by (auto simp: aseq_def abind_def split: prod.splits sum.splits)
  have e: "ag_engine s1 = remove_bucket (i, src) tc (ag_engine s)"
  proof -
    define s0 where "s0 = s\<lparr>ag_engine := remove_bucket (i, src) tc (ag_engine s)\<rparr>"
    obtain r a where a: "ack_flushed env i tc s0 = (r, a)" by fastforce
    have "aseq (ack_flushed env i tc) (publish_final env i ''1s'' (bc\<lparr>bk_start := tc\<rparr>)) s0 = (Inr (), s1)"
      using s1(1) by (simp add: c settle_candidate_def aseq_def abind_def s0_def)
    then have "publish_final env i ''1s'' (bc\<lparr>bk_start := tc\<rparr>) a = (Inr (), s1)"
      using a by (cases r) (simp_all add: aseq_def abind_def)
    then have "ag_engine s1 = ag_engine a" using publish_final_view [of env i "''1s''" "bc\<lparr>bk_start := tc\<rparr>" a] by (simp add: agg_view_def)
    also have "\<dots> = ag_engine s0" using ack_engine [of env i tc s0] a by simp
    finally show ?thesis by (simp add: s0_def)
  qed
  have d: "distinct (map fst (en_buckets (ag_engine s1)))"
    using remove_bucket_wf [of UNIV "ag_engine s"] Cons.prems(2) e by (simp add: wf_engine_def)
  obtain sb1 where sb1: "(k, sb1) \<in> set (en_buckets (ag_engine s1))" "(t, b) \<in> set sb1" "\<forall>b'. (k, t, b') \<notin> set cs"
    using Cons.IH [OF s1(2) d Cons.prems(3,4)] by blast
  have "(k, t) \<noteq> ((i, src), tc)" "\<exists>sb0. (k, sb0) \<in> set (en_buckets (ag_engine s)) \<and> (t, b) \<in> set sb0"
    using remove_bucket_set [OF Cons.prems(2) sb1(1) [unfolded e] sb1(2)] by blast+
  then show ?case using sb1(3) unfolding c by auto
qed

lemma flushed_all_after:
  assumes "flush_once env f s = (Inr n, s')" and "0 < n" and "distinct (map fst (en_buckets (ag_engine s)))"
  shows "all_after f (ag_engine s')"
proof -
  let ?cs = "closed_candidates f (ag_engine s)"
  obtain rows where r: "insert_rows env ?cs (ag_rows s) = Inr rows" "?cs \<noteq> []"
    using assms(1,2) by (auto simp: flush_once_def Let_def split: if_splits sum.splits)
  obtain s1 where s1: "settle_all env ?cs (s\<lparr>ag_rows := rows\<rparr>) = (Inr (), s1)" "ag_engine s' = ag_engine s1"
    using assms(1) r by (auto simp: flush_once_def Let_def aseq_def abind_def split: prod.splits sum.splits)
  show ?thesis
    unfolding all_after_def
  proof (intro ballI, clarify)
    fix i src sb t b assume m: "((i, src), sb) \<in> set (en_buckets (ag_engine s'))" "(t, b) \<in> set sb"
    obtain sb0 where sb0: "((i, src), sb0) \<in> set (en_buckets (ag_engine s))" "(t, b) \<in> set sb0" "((i, src), t, b) \<notin> set ?cs"
      using settle_all_engine [OF s1(1) _ m(1) [unfolded s1(2)] m(2)] assms(3) by auto
    show "f < t + 1000000"
    proof (rule ccontr)
      assume "\<not> f < t + 1000000"
      then have "((i, src), t, b) \<in> set ?cs" using sb0(1,2) unfolding in_closed_candidates by auto
      then show False using sb0(3) by contradiction
    qed
  qed
qed

text \<open>After a flush that stored something, the bar of a minute is made of the seconds still open at that flush and of later ones: its
  opening price, its extremes and its number of trades know nothing of the seconds of the minute that were flushed
  before, which with a flush per second is all but the last.\<close>

theorem minute_bar_misses_flushed_seconds:
  assumes "flush_once env f s = (Inr n, s')" and "0 < n" and "distinct (map fst (en_buckets (ag_engine s)))"
    and "(i, src, b) \<in> set (collect_minute_bars start stop (ag_engine s'))"
  shows "\<exists>parts. parts \<noteq> [] \<and> aggregate_buckets start (map snd parts) = Some b
    \<and> (\<forall>(t, x) \<in> set parts. f < t + 1000000 \<and> start \<le> t \<and> t < stop)"
proof -
  have after: "all_after f (ag_engine s')" using flushed_all_after assms(1-3) by blast
  obtain sb where sb: "((i, src), sb) \<in> set (en_buckets (ag_engine s'))" "window_buckets start stop sb \<noteq> []"
    "aggregate_buckets start (window_buckets start stop sb) = Some b"
    using assms(4) by (auto simp: collect_minute_bars_def List.map_filter_def Let_def split: if_splits option.splits)
  let ?parts = "filter (\<lambda>(t, b). start \<le> t \<and> t < stop) sb"
  have "?parts \<noteq> []" "aggregate_buckets start (map snd ?parts) = Some b"
    using sb(2,3) by (auto simp: window_buckets_def)
  moreover have "\<forall>(t, x) \<in> set ?parts. f < t + 1000000 \<and> start \<le> t \<and> t < stop"
    using after sb(1) unfolding all_after_def by fastforce
  ultimately show ?thesis by blast
qed

section \<open>What the publishers send\<close>

text \<open>The payload of \<open>quotes/engine.py\<close> and of \<open>crypto/coinbase_ws.py\<close>, the two publishers on \<open>quote.*\<close>.\<close>

definition engine_payload :: "string \<Rightarrow> json \<Rightarrow> json" where
  "engine_payload worker q = JObj [(''v'', JInt 1), (''publisher_worker_id'', JStr worker), (''q'', q)]"

definition coinbase_payload :: "json \<Rightarrow> json \<Rightarrow> json \<Rightarrow> string \<Rightarrow> json" where
  "coinbase_payload bid ask price cid = JObj [(''bid'', bid), (''ask'', ask), (''price'', price), (''canonical_id'', JStr cid)]"

text \<open>The aggregator and the publishers of the backend do not speak the same language: every message that the quote engine or the
  Coinbase client publishes raises \<open>KeyError\<close> in the aggregator, which logs it and keeps its state, so that no sequence of
  them creates a bucket or a bar.\<close>

theorem published_quotes_never_aggregated:
  assumes "\<forall>p \<in> set ps. (\<exists>worker q. p = engine_payload worker q) \<or> (\<exists>bid ask price cid. p = coinbase_payload bid ask price cid)"
  shows "(\<forall>p \<in> set ps. fst (handle_quote_message env p s) = Inl KeyError)
    \<and> fold (\<lambda>p s. snd (handle_quote_message env p s)) ps s = s"
proof -
  have one: "handle_quote_message env p s = (Inl KeyError, s)" if "p \<in> set ps" for p s
    using assms that by (auto simp: handle_quote_message_def record_of_message_def engine_payload_def coinbase_payload_def item_def)
  have "fold (\<lambda>p s. snd (handle_quote_message env p s)) qs s = s" if "set qs \<subseteq> set ps" for qs
    using that by (induction qs) (simp_all add: one)
  then show ?thesis using one by simp
qed

text \<open>Partial snapshots carry milliseconds of the clock, which have passed the revision of final ones in January 1970.\<close>

lemma final_revision_is_lower:
  assumes "publish_partial env i t s \<noteq> s" and "2 ^ 31 \<le> ge_now_ms env"
  shows "FINAL_REVISION < sn_revision (last (ag_partials (publish_partial env i t s)))"
  using assms by (auto simp: publish_partial_def FINAL_REVISION_def snapshot_of_def split: option.splits)

section \<open>Concrete instances\<close>

definition demo_agg_env :: agg_env where
  "demo_agg_env = \<lparr>ge_shard = 0, ge_shards = 1, ge_interval = 1000, ge_lookup = [7 \<mapsto> ''stock:AAPL:US''],
     ge_ts = (\<lambda>t. rbind (parse_int t) (\<lambda>n. Inr n)), ge_str = (\<lambda>_. []), ge_dec = (\<lambda>_. DBad), ge_now_ms = 1750000000000,
     ge_xadd = Inr (), ge_trim = (\<lambda>_. 0), ge_xtrim = Inr (), ge_hset = Inr (), ge_publish = Inr (), ge_pg = Inr (),
     ge_operational = (\<lambda>_. False)\<rparr>"

definition fresh_agg :: agg_app where
  "fresh_agg = \<lparr>ag_engine = empty_engine, ag_wal = (\<lambda>_. []), ag_next = 0, ag_flushed = (\<lambda>_. None), ag_entries = (\<lambda>_. None),
     ag_paused = [], ag_since = None, ag_last_flush = None, ag_rows = [], ag_minutes = [], ag_finals = [], ag_partials = []\<rparr>"

definition demo_record :: "int \<Rightarrow> decimal \<Rightarrow> tick_rec" where
  "demo_record t p = \<lparr>tr_inst = 7, tr_source = ''ibkr'', tr_ts = t, tr_price = Some p, tr_volume = Some 100, tr_bid = None, tr_ask = None,
     tr_kind = ''tick''\<rparr>"

definition demo_message :: "string \<Rightarrow> int \<Rightarrow> json" where
  "demo_message t p = JObj [(''instrument_id'', JInt 7), (''source'', JStr ''ibkr''), (''ts'', JStr t), (''kind'', JStr ''tick''),
     (''price'', JInt p), (''volume'', JInt 100)]"

lemma bucket_is_summary_witness:
  "bk_volume (fold absorb [Trade 10 100, Trade 12 50, Quoted 9 10] (new_bucket 0)) = Some 150
   \<and> bk_high (fold absorb [Trade 10 100, Trade 12 50, Quoted 9 10] (new_bucket 0)) = Some 12"
  using bucket_is_summary [of "[Trade 10 100, Trade 12 50, Quoted 9 10]" 0]
  by (simp add: summary_def List.map_filter_def)

text \<open>Two trades of one minute, at its second 10 and its second 59, with a flush in between.\<close>

definition minute_state :: agg_app where
  "minute_state = fresh_agg\<lparr>ag_engine := apply_record (demo_record 59000000 30) (apply_record (demo_record 10000000 20) empty_engine)\<rparr>"

definition minute_flushed :: agg_app where
  "minute_flushed = snd (flush_once demo_agg_env 59500000 minute_state)"

lemma minute_flush: "flush_once demo_agg_env 59500000 minute_state = (Inr 1, minute_flushed)"
proof -
  have "fst (flush_once demo_agg_env 59500000 minute_state) = Inr 1" by code_simp
  then show ?thesis by (metis minute_flushed_def prod.collapse)
qed

definition last_second_bar :: bucket where
  "last_second_bar = \<lparr>bk_start = 0, bk_open = Some 30, bk_high = Some 30, bk_low = Some 30, bk_close = Some 30, bk_volume = Some 100,
     bk_source = Tape, bk_count = 1\<rparr>"

lemma minute_collected: "collect_minute_bars 0 60000000 (ag_engine minute_flushed) = [(7, ''ibkr'', last_second_bar)]"
  by code_simp

theorem minute_bar_misses_flushed_seconds_witness:
  "\<exists>parts. aggregate_buckets 0 (map snd parts) = Some last_second_bar \<and> (\<forall>(t, x) \<in> set parts. (58500000 :: int) < t)"
proof -
  have "distinct (map fst (en_buckets (ag_engine minute_state)))" by code_simp
  from minute_bar_misses_flushed_seconds [OF minute_flush _ this, of 7 "''ibkr''" last_second_bar 0 60000000]
  show ?thesis by (fastforce simp: minute_collected)
qed

definition quoted_state :: agg_app where
  "quoted_state = fresh_agg\<lparr>ag_engine := on_quote 7 ''ibkr'' 10500000 9 10 empty_engine\<rparr>"

theorem quoted_second_blocks_flushes_witness:
  "ag_rows (snd (flush_once demo_agg_env 60000000 quoted_state)) = []
   \<and> bucket_at (ag_engine (snd (flush_once demo_agg_env 60000000 quoted_state))) (7, ''ibkr'') 10000000 \<noteq> None"
proof -
  have b: "bucket_at (ag_engine quoted_state) (7, ''ibkr'') 10000000 = Some (fold absorb [Quoted 9 10] (new_bucket 10000000))"
    by code_simp
  have "ag_rows quoted_state = []" by (simp add: quoted_state_def fresh_agg_def)
  then show ?thesis
    using quoted_second_blocks_flushes [OF b, of "[(demo_agg_env, 60000000)]"] b by (simp add: Let_def)
qed

theorem published_quotes_never_aggregated_witness:
  "fst (handle_quote_message demo_agg_env (engine_payload ''w1'' JNull) fresh_agg) = Inl KeyError"
  using published_quotes_never_aggregated [of "[engine_payload ''w1'' JNull]" demo_agg_env fresh_agg] by auto

definition demo_taken :: agg_app where
  "demo_taken = snd (handle_quote_message demo_agg_env (demo_message ''10500000'' 20) fresh_agg)"

lemma demo_feed: "(feed {(7, ''ibkr'')})\<^sup>*\<^sup>* ([], fresh_agg) ([demo_record 10500000 20], demo_taken)"
proof -
  have r: "record_of_message demo_agg_env (ag_paused fresh_agg) (demo_message ''10500000'' 20) = Inr (Some (demo_record 10500000 20))"
    by code_simp
  have "feed {(7, ''ibkr'')} ([], fresh_agg) ([] @ [demo_record 10500000 20], demo_taken)"
    unfolding demo_taken_def
    by (rule feed.Taken [OF r]) (simp_all add: demo_agg_env_def in_order_def fresh_agg_def has_row_def demo_record_def)
  then show ?thesis by simp
qed


text \<open>Out of order: the trade of second 11 is logged before a trade of second 10, whose flush trims it while its second is open.\<close>

definition disordered :: agg_app where
  "disordered = snd (flush_once demo_agg_env 11500000
     (snd (handle_quote_message demo_agg_env (demo_message ''10900000'' 21)
       (snd (handle_quote_message demo_agg_env (demo_message ''11100000'' 20) fresh_agg)))))"

lemma disordered_tick_lost:
  "bucket_at (ag_engine disordered) (7, ''ibkr'') 11000000 \<noteq> None \<and> \<not> has_row (ag_rows disordered) 7 11000000
   \<and> bucket_at (ag_engine (replay_wal demo_agg_env [7] (crashed disordered))) (7, ''ibkr'') 11000000 = None"
  by code_simp

end
