(* ===== verification/Combo_Envelope.thy ===== *)
theory Combo_Envelope
  imports Prelude
begin

text \<open>
  Option combos before they meet the outside: \<open>services/combos/types.py\<close>, \<open>strategy_validator.py\<close> and
  \<open>pnl_envelope.py\<close>. The envelope of a combo, its worst loss, best profit and break-even prices, is set
  against the payoff of its legs at expiry, which is this theory's reference.
\<close>

section \<open>Legs and combos\<close>

text \<open>A \<open>Decimal\<close> whose spelling matters: its value and its \<open>str\<close>.\<close>

record spelled =
  dv :: decimal
  dt :: string

record leg_spec =
  lg_inst :: int
  lg_side :: string
  lg_qty :: spelled
  lg_effect :: string
  lg_ratio :: int
  lg_limit :: "spelled option"
  lg_symbol :: string
  lg_exchange :: string
  lg_currency :: string
  lg_expiry :: string
  lg_strike :: spelled
  lg_put_call :: string

record combo_spec =
  cs_type :: string
  cs_symbol :: string
  cs_canonical :: string
  cs_legs :: "leg_spec list"
  cs_tif :: string
  cs_account :: string

record envelope =
  ev_net :: decimal
  ev_kind :: string
  ev_max_loss :: "decimal option"
  ev_max_profit :: "decimal option"
  ev_break_even :: "decimal list"

abbreviation leg_qty :: "leg_spec \<Rightarrow> decimal" where
  "leg_qty l \<equiv> dv (lg_qty l)"

abbreviation strike :: "leg_spec \<Rightarrow> decimal" where
  "strike l \<equiv> dv (lg_strike l)"

section \<open>Validation\<close>

text \<open>The first of the guards that holds gives the reason.\<close>

fun refuse_first :: "(bool \<times> string) list \<Rightarrow> exn + unit" where
  "refuse_first [] = Inr ()"
| "refuse_first ((bad, reason) # rest) = (if bad then Inl (ComboValidationError reason) else refuse_first rest)"

definition validate_vertical :: "leg_spec \<Rightarrow> leg_spec \<Rightarrow> exn + unit" where
  "validate_vertical a b = refuse_first
     [(lg_expiry a \<noteq> lg_expiry b, ''expiry_mismatch''),
      (lg_put_call a \<noteq> lg_put_call b, ''same_put_call_required''),
      (strike a = strike b, ''different_strike_required''),
      (lg_side a = lg_side b, ''opposite_side_required'')]"

definition validate_calendar :: "leg_spec \<Rightarrow> leg_spec \<Rightarrow> exn + unit" where
  "validate_calendar a b = refuse_first
     [(lg_expiry a = lg_expiry b, ''different_expiry_required''),
      (lg_put_call a \<noteq> lg_put_call b, ''same_put_call_required''),
      (strike a \<noteq> strike b, ''same_strike_required''),
      (lg_side a = lg_side b, ''opposite_side_required'')]"

definition validate_diagonal :: "leg_spec \<Rightarrow> leg_spec \<Rightarrow> exn + unit" where
  "validate_diagonal a b = refuse_first
     [(lg_expiry a = lg_expiry b \<and> strike a = strike b, ''expiry_or_strike_must_differ''),
      (lg_put_call a \<noteq> lg_put_call b, ''same_put_call_required''),
      (lg_side a = lg_side b, ''opposite_side_required'')]"

definition validate_straddle :: "leg_spec \<Rightarrow> leg_spec \<Rightarrow> exn + unit" where
  "validate_straddle a b = refuse_first
     [(lg_expiry a \<noteq> lg_expiry b, ''expiry_mismatch''),
      (strike a \<noteq> strike b, ''same_strike_required''),
      (lg_put_call a = lg_put_call b, ''opposite_put_call_required''),
      (lg_side a \<noteq> lg_side b, ''same_side_required'')]"

definition validate_strangle :: "leg_spec \<Rightarrow> leg_spec \<Rightarrow> exn + unit" where
  "validate_strangle a b = refuse_first
     [(lg_expiry a \<noteq> lg_expiry b, ''expiry_mismatch''),
      (strike a = strike b, ''different_strike_required''),
      (lg_put_call a = lg_put_call b, ''opposite_put_call_required''),
      (lg_side a \<noteq> lg_side b, ''same_side_required'')]"

definition VALIDATORS :: "(string \<times> (leg_spec \<Rightarrow> leg_spec \<Rightarrow> exn + unit)) list" where
  "VALIDATORS = [(''VERTICAL'', validate_vertical), (''CALENDAR'', validate_calendar), (''DIAGONAL'', validate_diagonal),
     (''STRADDLE'', validate_straddle), (''STRANGLE'', validate_strangle)]"

text \<open>\<open>validate\<close>; the validators look at the first two legs.\<close>

definition validate :: "string \<Rightarrow> leg_spec list \<Rightarrow> string \<Rightarrow> string \<Rightarrow> string \<Rightarrow> string \<Rightarrow> exn + combo_spec" where
  "validate ty legs und cid tif acct =
     (if 1 < length (remdups (map lg_currency legs)) then Inl (ComboValidationError ''currency_mismatch'')
      else case map_of VALIDATORS ty of
        None \<Rightarrow> Inl (ComboValidationError (''unknown_strategy_type:'' @ ty))
      | Some check \<Rightarrow>
          (case legs of
             a # b # _ \<Rightarrow> rbind (check a b) (\<lambda>_. Inr \<lparr>cs_type = ty, cs_symbol = und, cs_canonical = cid, cs_legs = legs,
                                                       cs_tif = tif, cs_account = acct\<rparr>)
           | _ \<Rightarrow> Inl (ComboValidationError ''min_two_legs_required'')))"

section \<open>The envelope\<close>

definition MULTIPLIER :: decimal where
  "MULTIPLIER = 100"

text \<open>\<open>mids\<close> is a \<open>dict\<close> from the indices of the legs to prices.\<close>

definition mid_at :: "(nat \<Rightarrow> decimal option) \<Rightarrow> nat \<Rightarrow> decimal" where
  "mid_at mids i = (case mids i of Some m \<Rightarrow> m | None \<Rightarrow> 0)"

definition leg_signed_premium :: "leg_spec \<Rightarrow> decimal \<Rightarrow> decimal" where
  "leg_signed_premium l m = (if lg_side l = ''sell'' then 1 else - 1) * m * leg_qty l"

definition premium :: "leg_spec list \<Rightarrow> (nat \<Rightarrow> decimal option) \<Rightarrow> decimal" where
  "premium legs mids = sum_list (map (\<lambda>(i, l). leg_signed_premium l (mid_at mids i)) (enumerate 0 legs))"

text \<open>\<open>next(leg for leg in legs if ...)\<close>.\<close>

definition next_leg :: "(leg_spec \<Rightarrow> bool) \<Rightarrow> leg_spec list \<Rightarrow> exn + leg_spec" where
  "next_leg P legs = (case List.find P legs of None \<Rightarrow> Inl StopIteration | Some l \<Rightarrow> Inr l)"

definition vertical :: "leg_spec list \<Rightarrow> (nat \<Rightarrow> decimal option) \<Rightarrow> exn + envelope" where
  "vertical legs mids =
     rbind (next_leg (\<lambda>l. lg_side l = ''buy'') legs) (\<lambda>buy_leg.
     rbind (next_leg (\<lambda>l. lg_side l = ''sell'') legs) (\<lambda>sell_leg.
     let net = quantize8 (premium legs mids); spread = quantize8 \<bar>strike buy_leg - strike sell_leg\<bar> in
     Inr (if net < 0 then
       (let nd = quantize8 (- net) in
        \<lparr>ev_net = nd, ev_kind = ''DEBIT'', ev_max_loss = Some (quantize8 (nd * MULTIPLIER)),
         ev_max_profit = Some (quantize8 ((spread - nd) * MULTIPLIER)), ev_break_even = [quantize8 (strike buy_leg + nd)]\<rparr>)
      else
       (let nd = quantize8 net in
        \<lparr>ev_net = nd, ev_kind = ''CREDIT'', ev_max_loss = Some (quantize8 ((spread - nd) * MULTIPLIER)),
         ev_max_profit = Some (quantize8 (nd * MULTIPLIER)), ev_break_even = [quantize8 (strike sell_leg + nd)]\<rparr>))))"

definition calendar :: "leg_spec list \<Rightarrow> (nat \<Rightarrow> decimal option) \<Rightarrow> exn + envelope" where
  "calendar legs mids =
     (let net = quantize8 (premium legs mids); nd = quantize8 \<bar>net\<bar> in
      Inr \<lparr>ev_net = nd, ev_kind = (if net < 0 then ''DEBIT'' else ''CREDIT''), ev_max_loss = Some (quantize8 (nd * MULTIPLIER)),
           ev_max_profit = None, ev_break_even = []\<rparr>)"

definition diagonal :: "leg_spec list \<Rightarrow> (nat \<Rightarrow> decimal option) \<Rightarrow> exn + envelope" where
  "diagonal = calendar"

text \<open>The part \<open>_straddle\<close> and \<open>_strangle\<close> share: \<open>lo\<close> and \<open>hi\<close> are the strikes of the break-even prices.\<close>

definition long_volatility :: "decimal \<Rightarrow> decimal \<Rightarrow> decimal \<Rightarrow> envelope" where
  "long_volatility net lo hi =
     (let nd = quantize8 \<bar>net\<bar> in
      if net < 0 then
        \<lparr>ev_net = nd, ev_kind = ''DEBIT'', ev_max_loss = Some (quantize8 (nd * MULTIPLIER)), ev_max_profit = None,
         ev_break_even = [quantize8 (lo - nd), quantize8 (hi + nd)]\<rparr>
      else
        \<lparr>ev_net = nd, ev_kind = ''CREDIT'', ev_max_loss = None, ev_max_profit = Some (quantize8 (nd * MULTIPLIER)),
         ev_break_even = []\<rparr>)"

definition straddle :: "leg_spec list \<Rightarrow> (nat \<Rightarrow> decimal option) \<Rightarrow> exn + envelope" where
  "straddle legs mids =
     (let net = quantize8 (premium legs mids) in
      case legs of [] \<Rightarrow> Inl IndexError | l # _ \<Rightarrow> Inr (long_volatility net (strike l) (strike l)))"

definition strangle :: "leg_spec list \<Rightarrow> (nat \<Rightarrow> decimal option) \<Rightarrow> exn + envelope" where
  "strangle legs mids =
     (let net = quantize8 (premium legs mids) in
      rbind (next_leg (\<lambda>l. lg_put_call l = ''P'') legs) (\<lambda>put_leg.
      rbind (next_leg (\<lambda>l. lg_put_call l = ''C'') legs) (\<lambda>call_leg.
        Inr (long_volatility net (strike put_leg) (strike call_leg)))))"

definition ENVELOPES :: "(string \<times> (leg_spec list \<Rightarrow> (nat \<Rightarrow> decimal option) \<Rightarrow> exn + envelope)) list" where
  "ENVELOPES = [(''VERTICAL'', vertical), (''CALENDAR'', calendar), (''DIAGONAL'', diagonal), (''STRADDLE'', straddle),
     (''STRANGLE'', strangle)]"

definition compute_envelope :: "combo_spec \<Rightarrow> (nat \<Rightarrow> decimal option) \<Rightarrow> exn + envelope" where
  "compute_envelope spec mids =
     (if list_ex (\<lambda>i. mids i = None) [0..<length (cs_legs spec)] then Inl (ValueError ''mids missing leg indices'')
      else case map_of ENVELOPES (cs_type spec) of
        None \<Rightarrow> Inl KeyError
      | Some f \<Rightarrow> f (cs_legs spec) mids)"

definition combo_native_notional :: "envelope \<Rightarrow> decimal \<Rightarrow> decimal" where
  "combo_native_notional e m =
     (if ev_kind e = ''DEBIT'' then quantize8 (\<bar>ev_net e\<bar> * m)
      else case ev_max_loss e of
        Some x \<Rightarrow> quantize8 (x * m)
      | None \<Rightarrow> quantize8 (\<bar>ev_net e\<bar> * m))"

section \<open>The payoff at expiry\<close>

text \<open>What the legs are worth at a price of the underlying, for one unit of the contract, premium included.\<close>

definition intrinsic :: "leg_spec \<Rightarrow> decimal \<Rightarrow> decimal" where
  "intrinsic l p = (if lg_put_call l = ''C'' then max 0 (p - strike l) else max 0 (strike l - p))"

definition leg_payoff :: "leg_spec \<Rightarrow> decimal \<Rightarrow> decimal" where
  "leg_payoff l p = (if lg_side l = ''sell'' then - 1 else 1) * leg_qty l * intrinsic l p"

definition payoff :: "leg_spec list \<Rightarrow> (nat \<Rightarrow> decimal option) \<Rightarrow> decimal \<Rightarrow> decimal" where
  "payoff legs mids p = premium legs mids + sum_list (map (\<lambda>l. leg_payoff l p) legs)"

text \<open>Legs as the API's clients spell them.\<close>

definition well_spelled :: "leg_spec \<Rightarrow> bool" where
  "well_spelled l \<longleftrightarrow> lg_side l \<in> {''buy'', ''sell''} \<and> lg_put_call l \<in> {''C'', ''P''}"

text \<open>The leg worth at least as much as the other at every price: the lower call, the higher put.\<close>

definition dominates :: "leg_spec \<Rightarrow> leg_spec \<Rightarrow> bool" where
  "dominates l m \<longleftrightarrow> (if lg_put_call l = ''C'' then strike l < strike m else strike m < strike l)"

text \<open>Amounts with at most eight decimals, which \<open>_q\<close> leaves alone.\<close>

definition ticked :: "decimal \<Rightarrow> bool" where
  "ticked x \<longleftrightarrow> quantize8 x = x"

named_theorems ticked_intro \<open>amounts that \<open>quantize8\<close> leaves alone\<close>

lemma ticked_iff: "ticked x \<longleftrightarrow> (\<exists>k. x = of_int k / 100000000)"
proof
  assume "\<exists>k. x = of_int k / 100000000"
  then show "ticked x" by (auto simp: ticked_def quantize8_def)
next
  assume "ticked x"
  then have "x = of_int (round_half_even (x * 100000000)) / 100000000" by (simp add: ticked_def quantize8_def)
  then show "\<exists>k. x = of_int k / 100000000" by (rule exI)
qed

lemma ticked_quantize8: "ticked x \<Longrightarrow> quantize8 x = x"
  by (simp add: ticked_def)

lemma ticked_add [ticked_intro]:
  assumes "ticked x" and "ticked y"
  shows "ticked (x + y)"
proof -
  obtain i j where "x = of_int i / 100000000" "y = of_int j / 100000000" using assms unfolding ticked_iff by blast
  then have "x + y = of_int (i + j) / 100000000" by (simp add: add_divide_distrib)
  then show ?thesis unfolding ticked_iff by (rule exI)
qed

lemma ticked_of_int_mult:
  assumes "ticked x"
  shows "ticked (of_int n * x)"
proof -
  obtain i where "x = of_int i / 100000000" using assms unfolding ticked_iff by blast
  then have "of_int n * x = of_int (n * i) / 100000000" by simp
  then show ?thesis unfolding ticked_iff by (rule exI)
qed

lemma ticked_uminus [ticked_intro]: "ticked x \<Longrightarrow> ticked (- x)"
  using ticked_of_int_mult [of x "- 1"] by simp

lemma ticked_diff [ticked_intro]: "ticked x \<Longrightarrow> ticked y \<Longrightarrow> ticked (x - y)"
  using ticked_add [of x "- y"] ticked_uminus [of y] by simp

lemma ticked_abs [ticked_intro]: "ticked x \<Longrightarrow> ticked \<bar>x\<bar>"
  using ticked_uminus by (simp add: abs_if)

lemma ticked_hundred [ticked_intro]: "ticked x \<Longrightarrow> ticked (x * MULTIPLIER)"
  using ticked_of_int_mult [of x 100] by (simp add: MULTIPLIER_def mult.commute)

lemma ticked_of_nat [ticked_intro]: "ticked x \<Longrightarrow> ticked (of_nat n * x)"
  using ticked_of_int_mult [of x "int n"] by simp

text \<open>The two legs of a vertical, in whichever order they come.\<close>

definition vertical_pair :: "leg_spec list \<Rightarrow> (nat \<Rightarrow> decimal option) \<Rightarrow> leg_spec \<Rightarrow> decimal \<Rightarrow> leg_spec \<Rightarrow> decimal \<Rightarrow> bool" where
  "vertical_pair legs mids b mb s ms \<longleftrightarrow> lg_side b = ''buy'' \<and> lg_side s = ''sell''
     \<and> (legs = [b, s] \<and> mid_at mids 0 = mb \<and> mid_at mids 1 = ms \<or> legs = [s, b] \<and> mid_at mids 0 = ms \<and> mid_at mids 1 = mb)"

lemma vertical_pairI:
  assumes "validate ''VERTICAL'' [x, y] und cid tif acct = Inr spec" and "well_spelled x" and "well_spelled y"
  obtains b mb s ms where "vertical_pair [x, y] mids b mb s ms" and "lg_put_call b = lg_put_call s" and "strike b \<noteq> strike s"
    and "well_spelled b" and "spec = \<lparr>cs_type = ''VERTICAL'', cs_symbol = und, cs_canonical = cid, cs_legs = [x, y], cs_tif = tif, cs_account = acct\<rparr>"
    and "{b, s} = {x, y}"
proof -
  have v: "lg_put_call x = lg_put_call y" "strike x \<noteq> strike y" "lg_side x \<noteq> lg_side y"
    and spec: "spec = \<lparr>cs_type = ''VERTICAL'', cs_symbol = und, cs_canonical = cid, cs_legs = [x, y], cs_tif = tif, cs_account = acct\<rparr>"
    using assms(1) by (auto simp: validate_def VALIDATORS_def validate_vertical_def rbind_Inr_iff split: if_splits)
  show ?thesis
  proof (cases "lg_side x = ''buy''")
    case True
    then have "lg_side y = ''sell''" using v(3) assms(3) by (auto simp: well_spelled_def)
    with True v spec assms(2) show ?thesis
      by (intro that [of x "mid_at mids 0" y "mid_at mids 1"]) (auto simp: vertical_pair_def)
  next
    case False
    then have "lg_side x = ''sell''" "lg_side y = ''buy''" using v(3) assms(2,3) by (auto simp: well_spelled_def)
    with v spec assms(3) show ?thesis
      by (intro that [of y "mid_at mids 1" x "mid_at mids 0"]) (auto simp: vertical_pair_def)
  qed
qed

lemma vertical_pair_premium:
  "vertical_pair legs mids b mb s ms \<Longrightarrow> premium legs mids = ms * leg_qty s - mb * leg_qty b"
  by (auto simp: vertical_pair_def premium_def leg_signed_premium_def)

lemma vertical_pair_payoff:
  "vertical_pair legs mids b mb s ms \<Longrightarrow>
     payoff legs mids p = ms * leg_qty s - mb * leg_qty b + (leg_qty b * intrinsic b p - leg_qty s * intrinsic s p)"
  by (auto simp: vertical_pair_def payoff_def premium_def leg_signed_premium_def leg_payoff_def)

lemma vertical_pair_envelope:
  assumes "vertical_pair legs mids b mb s ms" and "ticked (premium legs mids)" and "ticked (strike b)" and "ticked (strike s)"
  shows "vertical legs mids = Inr (let net = premium legs mids; gap = \<bar>strike b - strike s\<bar> in
    \<lparr>ev_net = \<bar>net\<bar>, ev_kind = (if net < 0 then ''DEBIT'' else ''CREDIT''),
     ev_max_loss = Some ((if net < 0 then - net else gap - net) * MULTIPLIER),
     ev_max_profit = Some ((if net < 0 then gap + net else net) * MULTIPLIER),
     ev_break_even = [strike (if net < 0 then b else s) + \<bar>net\<bar>]\<rparr>)"
proof -
  have n: "next_leg (\<lambda>l. lg_side l = ''buy'') legs = Inr b" "next_leg (\<lambda>l. lg_side l = ''sell'') legs = Inr s"
    using assms(1) by (auto simp: next_leg_def vertical_pair_def)
  let ?n = "premium legs mids" and ?g = "\<bar>strike b - strike s\<bar>"
  have t: "ticked ?n" "ticked (- ?n)" "ticked ?g" "ticked ((?g - - ?n) * MULTIPLIER)" "ticked (- ?n * MULTIPLIER)" "ticked (?n * MULTIPLIER)"
    "ticked ((?g - ?n) * MULTIPLIER)" "ticked (strike b + - ?n)" "ticked (strike s + ?n)"
    using assms(2-4) by (auto intro!: ticked_intro)
  note q = t [THEN ticked_quantize8]
  show ?thesis unfolding vertical_def n by (simp add: Let_def q q [simplified])
qed

text \<open>How far the dominating leg runs ahead: from nothing to the distance of the strikes, both of which happen.\<close>

lemma dominates_gap:
  assumes "dominates l m" and "lg_put_call l = lg_put_call m"
  shows "0 \<le> intrinsic l p - intrinsic m p" and "intrinsic l p - intrinsic m p \<le> \<bar>strike l - strike m\<bar>"
  using assms by (auto simp: dominates_def intrinsic_def max_def split: if_splits)

lemma dominates_ends:
  assumes "dominates l m" and "lg_put_call l = lg_put_call m" and "0 \<le> strike l" and "0 \<le> strike m"
  obtains p q where "0 \<le> p" and "intrinsic l p - intrinsic m p = 0" and "0 \<le> q" and "intrinsic l q - intrinsic m q = \<bar>strike l - strike m\<bar>"
proof (cases "lg_put_call l = ''C''")
  case True
  then show ?thesis using assms
    by (intro that [of 0 "strike m"]) (auto simp: dominates_def intrinsic_def max_def)
next
  case False
  then show ?thesis using assms
    by (intro that [of "strike l" 0]) (auto simp: dominates_def intrinsic_def max_def)
qed

lemma dominates_total: "strike l \<noteq> strike m \<Longrightarrow> lg_put_call l = lg_put_call m \<Longrightarrow> dominates l m \<or> dominates m l"
  by (auto simp: dominates_def)

lemma compute_vertical:
  assumes "spec = \<lparr>cs_type = ''VERTICAL'', cs_symbol = und, cs_canonical = cid, cs_legs = [x, y], cs_tif = tif, cs_account = acct\<rparr>"
    and "mids 0 \<noteq> None" and "mids 1 \<noteq> None"
  shows "compute_envelope spec mids = vertical [x, y] mids"
  using assms by (auto simp: compute_envelope_def ENVELOPES_def)

text \<open>A function that stays between two of its values.\<close>

definition ranges :: "(decimal \<Rightarrow> decimal) \<Rightarrow> decimal \<Rightarrow> decimal \<Rightarrow> bool" where
  "ranges f lo hi \<longleftrightarrow> (\<forall>p \<ge> 0. lo \<le> f p \<and> f p \<le> hi) \<and> (\<exists>p \<ge> 0. f p = lo) \<and> (\<exists>p \<ge> 0. f p = hi)"

lemma gap_ranges:
  assumes "dominates l m" and "lg_put_call l = lg_put_call m" and "0 \<le> strike l" and "0 \<le> strike m"
  shows "ranges (\<lambda>p. intrinsic l p - intrinsic m p) 0 \<bar>strike l - strike m\<bar>"
  unfolding ranges_def using dominates_gap [OF assms(1,2)] dominates_ends [OF assms] by metis

lemma ranges_shift: "ranges f lo hi \<Longrightarrow> 0 < k \<Longrightarrow> ranges (\<lambda>p. k * (c + f p)) (k * (c + lo)) (k * (c + hi))"
  unfolding ranges_def by (metis add_left_mono mult_left_mono less_imp_le)

lemma ranges_flip: "ranges f lo hi \<Longrightarrow> ranges (\<lambda>p. - f p) (- hi) (- lo)"
  unfolding ranges_def by (metis neg_le_iff_le)

text \<open>C26: the envelope of a vertical of one contract per leg is exact. When the leg that is worth more costs more, by at most the distance
  of the strikes, the reported loss and profit are the least and the greatest value of the position over all prices of the
  underlying at expiry, and both are reached.\<close>

theorem vertical_envelope_exact:
  assumes "validate ''VERTICAL'' [x, y] und cid tif acct = Inr spec" and "well_spelled x" and "well_spelled y"
    and "mids 0 = Some mx" and "mids 1 = Some my" and "ticked mx" and "ticked my"
    and "leg_qty x = 1" and "leg_qty y = 1"
    and "\<forall>l \<in> {x, y}. 0 \<le> strike l \<and> ticked (strike l)"
    and "if dominates x y then 0 < mx - my \<and> mx - my \<le> \<bar>strike x - strike y\<bar> else 0 < my - mx \<and> my - mx \<le> \<bar>strike x - strike y\<bar>"
  shows "\<exists>e loss profit. compute_envelope spec mids = Inr e \<and> ev_max_loss e = Some loss \<and> ev_max_profit e = Some profit
    \<and> ranges (\<lambda>p. 100 * payoff [x, y] mids p) (- loss) profit"
proof -
  obtain b mb s ms where p: "vertical_pair [x, y] mids b mb s ms" "lg_put_call b = lg_put_call s" "strike b \<noteq> strike s" "{b, s} = {x, y}"
    and spec: "spec = \<lparr>cs_type = ''VERTICAL'', cs_symbol = und, cs_canonical = cid, cs_legs = [x, y], cs_tif = tif, cs_account = acct\<rparr>"
    using vertical_pairI [OF assms(1-3), of mids] by metis
  have q: "leg_qty b = 1" "leg_qty s = 1" "0 \<le> strike b" "0 \<le> strike s" "ticked (strike b)" "ticked (strike s)"
    using p(4) assms(8-10) by (metis insert_iff singletonD)+
  have net: "premium [x, y] mids = ms - mb" using vertical_pair_premium [OF p(1)] q by simp
  have "b = x \<and> s = y \<and> mb = mx \<and> ms = my \<or> b = y \<and> s = x \<and> mb = my \<and> ms = mx"
    using p(1) assms(4,5) by (auto simp: vertical_pair_def mid_at_def)
  then have order: "dominates b s \<and> 0 < mb - ms \<and> mb - ms \<le> \<bar>strike b - strike s\<bar>
      \<or> dominates s b \<and> 0 < ms - mb \<and> ms - mb \<le> \<bar>strike b - strike s\<bar>" and "ticked (ms - mb)"
    using assms(6,7,11) dominates_total [OF p(3,2)] by (auto simp: abs_minus_commute intro!: ticked_intro split: if_splits)
  have e: "compute_envelope spec mids = vertical [x, y] mids" using compute_vertical [OF spec] assms(4,5) by simp
  note env = vertical_pair_envelope [OF p(1) _ q(5,6)]
  let ?g = "\<bar>strike b - strike s\<bar>" and ?n = "ms - mb"
  have pay: "(\<lambda>p. 100 * payoff [x, y] mids p) = (\<lambda>p. 100 * (?n + (intrinsic b p - intrinsic s p)))"
    by (simp add: vertical_pair_payoff [OF p(1)] q algebra_simps)
  from order show ?thesis
  proof
    assume d: "dominates b s \<and> 0 < mb - ms \<and> mb - ms \<le> ?g"
    have "ranges (\<lambda>p. 100 * payoff [x, y] mids p) (100 * (?n + 0)) (100 * (?n + ?g))"
      unfolding pay by (rule ranges_shift [OF gap_ranges]) (use d p(2) q(3,4) in simp_all)
    moreover have "\<exists>e. compute_envelope spec mids = Inr e \<and> ev_max_loss e = Some (- (100 * (?n + 0)))
        \<and> ev_max_profit e = Some (100 * (?n + ?g))"
      using d e env net \<open>ticked (ms - mb)\<close> by (simp add: MULTIPLIER_def Let_def algebra_simps)
    ultimately show ?thesis by (metis minus_minus)
  next
    assume d: "dominates s b \<and> 0 < ms - mb \<and> ms - mb \<le> ?g"
    have f: "(\<lambda>p. intrinsic b p - intrinsic s p) = (\<lambda>p. - (intrinsic s p - intrinsic b p))" by simp
    have g: "- ?g = - \<bar>strike s - strike b\<bar>" by (simp add: abs_minus_commute)
    have "ranges (\<lambda>p. intrinsic b p - intrinsic s p) (- ?g) (- 0)"
      unfolding f g by (rule ranges_flip [OF gap_ranges]) (use d p(2) q(3,4) in simp_all)
    then have "ranges (\<lambda>p. 100 * payoff [x, y] mids p) (100 * (?n + - ?g)) (100 * (?n + - 0))"
      unfolding pay by (rule ranges_shift) simp
    moreover have "\<exists>e. compute_envelope spec mids = Inr e \<and> ev_max_loss e = Some (- (100 * (?n + - ?g)))
        \<and> ev_max_profit e = Some (100 * (?n + - 0))"
      using d e env net \<open>ticked (ms - mb)\<close> by (simp add: MULTIPLIER_def Let_def algebra_simps)
    ultimately show ?thesis by (metis minus_minus)
  qed
qed

section \<open>Where the envelope is not the payoff\<close>

lemma two_legs:
  assumes "vertical_pair [x, y] mids b mb s ms"
  shows "b = x \<and> s = y \<or> b = y \<and> s = x"
  using assms by (auto simp: vertical_pair_def)

lemma vertical_computed:
  assumes "validate ''VERTICAL'' [x, y] und cid tif acct = Inr spec" and "well_spelled x" and "well_spelled y"
    and "mids 0 \<noteq> None" and "mids 1 \<noteq> None" and "\<forall>l \<in> {x, y}. ticked (strike l)" and "ticked (premium [x, y] mids)"
  obtains b mb s ms e where "vertical_pair [x, y] mids b mb s ms" and "lg_put_call b = lg_put_call s" and "strike b \<noteq> strike s"
    and "compute_envelope spec mids = Inr e"
    and "ev_max_loss e = Some (100 * (if premium [x, y] mids < 0 then - premium [x, y] mids else \<bar>strike b - strike s\<bar> - premium [x, y] mids))"
    and "ev_break_even e = [strike (if premium [x, y] mids < 0 then b else s) + \<bar>premium [x, y] mids\<bar>]"
proof -
  obtain b mb s ms where p: "vertical_pair [x, y] mids b mb s ms" "lg_put_call b = lg_put_call s" "strike b \<noteq> strike s"
    and spec: "spec = \<lparr>cs_type = ''VERTICAL'', cs_symbol = und, cs_canonical = cid, cs_legs = [x, y], cs_tif = tif, cs_account = acct\<rparr>"
    using vertical_pairI [OF assms(1-3), of mids] by metis
  have "ticked (strike b)" "ticked (strike s)" using two_legs [OF p(1)] assms(6) by auto
  then show ?thesis
    using that [OF p] vertical_pair_envelope [OF p(1) assms(7)] compute_vertical [OF spec assms(4,5)] by (simp add: MULTIPLIER_def Let_def)
qed

text \<open>The envelope takes the credit of all contracts from the distance of the strikes of one: for a vertical of several contracts whose
  sold leg is the one worth more, some price at expiry costs more than the reported worst loss, by the distance of the strikes for every
  contract after the first.\<close>

theorem short_vertical_loss_understated:
  assumes "validate ''VERTICAL'' [x, y] und cid tif acct = Inr spec" and "well_spelled x" and "well_spelled y"
    and "mids 0 \<noteq> None" and "mids 1 \<noteq> None" and "\<forall>l \<in> {x, y}. 0 \<le> strike l \<and> ticked (strike l) \<and> leg_qty l = of_nat n"
    and "ticked (premium [x, y] mids)" and "0 \<le> premium [x, y] mids" and "1 < n"
    and "if lg_side x = ''sell'' then dominates x y else dominates y x"
  shows "\<exists>e loss. compute_envelope spec mids = Inr e \<and> ev_max_loss e = Some loss
    \<and> (\<exists>p \<ge> 0. 100 * payoff [x, y] mids p = - loss - 100 * (of_nat n - 1) * \<bar>strike x - strike y\<bar> \<and> 100 * payoff [x, y] mids p < - loss)"
proof -
  obtain b mb s ms e where p: "vertical_pair [x, y] mids b mb s ms" "lg_put_call b = lg_put_call s" "strike b \<noteq> strike s"
    and e: "compute_envelope spec mids = Inr e" "ev_max_loss e = Some (100 * (\<bar>strike b - strike s\<bar> - premium [x, y] mids))"
  proof (rule vertical_computed [OF assms(1-5) _ assms(7)])
    show "\<forall>l \<in> {x, y}. ticked (strike l)" using assms(6) by blast
  qed (use assms(8) in auto)
  note two = two_legs [OF p(1)]
  have q: "leg_qty b = of_nat n" "leg_qty s = of_nat n" "0 \<le> strike b" "0 \<le> strike s" "\<bar>strike x - strike y\<bar> = \<bar>strike b - strike s\<bar>"
    using two assms(6) by (auto simp: abs_minus_commute)
  have "dominates s b" using two assms(10) p(1) by (auto simp: vertical_pair_def split: if_splits)
  then obtain w where w: "0 \<le> w" "intrinsic s w - intrinsic b w = \<bar>strike b - strike s\<bar>"
    using dominates_ends [of s b] p(2) q(3,4) by (metis abs_minus_commute)
  have "payoff [x, y] mids w = premium [x, y] mids - of_nat n * (intrinsic s w - intrinsic b w)"
    by (simp add: vertical_pair_payoff [OF p(1)] vertical_pair_premium [OF p(1)] q algebra_simps)
  then have "100 * payoff [x, y] mids w
      = - (100 * (\<bar>strike b - strike s\<bar> - premium [x, y] mids)) - 100 * (of_nat n - 1) * \<bar>strike b - strike s\<bar>"
    unfolding w(2) by (simp add: algebra_simps)
  moreover have "0 < 100 * (of_nat n - 1) * \<bar>strike b - strike s\<bar>" using p(3) assms(9) by simp
  ultimately show ?thesis using e w(1) unfolding q(5) by (intro exI conjI) auto
qed

text \<open>A vertical need not have equal quantities. When more calls are sold than bought the envelope still reports a loss, while the loss of
  the position has no bound.\<close>

theorem ratio_vertical_reported_bounded:
  assumes "validate ''VERTICAL'' [x, y] und cid tif acct = Inr spec" and "well_spelled x" and "well_spelled y"
    and "mids 0 \<noteq> None" and "mids 1 \<noteq> None" and "\<forall>l \<in> {x, y}. ticked (strike l)" and "ticked (premium [x, y] mids)"
    and "lg_put_call x = ''C''" and "if lg_side x = ''sell'' then leg_qty y < leg_qty x else leg_qty x < leg_qty y"
  shows "\<exists>e loss. compute_envelope spec mids = Inr e \<and> ev_max_loss e = Some loss \<and> (\<forall>bound. \<exists>p \<ge> 0. payoff [x, y] mids p < bound)"
proof -
  obtain b mb s ms e where p: "vertical_pair [x, y] mids b mb s ms" "lg_put_call b = lg_put_call s"
    and e: "compute_envelope spec mids = Inr e" "ev_max_loss e \<noteq> None"
    using vertical_computed [OF assms(1-7)] by (metis option.distinct(1))
  have c: "lg_put_call b = ''C''" "lg_put_call s = ''C''" and less: "leg_qty b < leg_qty s"
    using p assms(8,9) by (auto simp: vertical_pair_def split: if_splits)
  have "\<exists>w \<ge> 0. payoff [x, y] mids w < bound" for bound
  proof -
    let ?d = "leg_qty s - leg_qty b"
    let ?c = "ms * leg_qty s - mb * leg_qty b - leg_qty b * strike b + leg_qty s * strike s"
    let ?w = "max (max 0 (max (strike b) (strike s))) ((?c - bound) / ?d + 1)"
    have "payoff [x, y] mids ?w = ?c - ?d * ?w"
      by (simp add: vertical_pair_payoff [OF p(1)] intrinsic_def c algebra_simps)
    moreover have "(?c - bound) / ?d < ?w" by simp
    then have "?c - bound < ?d * ?w" using less by (simp add: pos_divide_less_eq mult.commute)
    ultimately have "payoff [x, y] mids ?w < bound" by linarith
    moreover have "0 \<le> ?w" by simp
    ultimately show ?thesis by blast
  qed
  then show ?thesis using e by auto
qed

text \<open>The reported break-even price of a vertical of one contract per leg: right for calls; for puts the code adds the premium to the
  strike where it has to be taken off, and the price it gives is one where the position has its whole premium lost or won.\<close>

theorem break_even_of_verticals:
  assumes "validate ''VERTICAL'' [x, y] und cid tif acct = Inr spec" and "well_spelled x" and "well_spelled y"
    and "mids 0 \<noteq> None" and "mids 1 \<noteq> None" and "\<forall>l \<in> {x, y}. ticked (strike l)" and "ticked (premium [x, y] mids)"
    and "leg_qty x = 1" and "leg_qty y = 1" and "premium [x, y] mids \<noteq> 0" and "\<bar>premium [x, y] mids\<bar> \<le> \<bar>strike x - strike y\<bar>"
    and "(if premium [x, y] mids < 0 then lg_side x = ''buy'' else lg_side x = ''sell'') = dominates x y"
  shows "\<exists>e be. compute_envelope spec mids = Inr e \<and> ev_break_even e = [be]
    \<and> payoff [x, y] mids be = (if lg_put_call x = ''C'' then 0 else premium [x, y] mids)"
proof -
  obtain b mb s ms e where p: "vertical_pair [x, y] mids b mb s ms" "lg_put_call b = lg_put_call s" "strike b \<noteq> strike s"
    and e: "compute_envelope spec mids = Inr e"
      "ev_break_even e = [strike (if premium [x, y] mids < 0 then b else s) + \<bar>premium [x, y] mids\<bar>]"
    using vertical_computed [OF assms(1-7)] by metis
  note two = two_legs [OF p(1)]
  have q: "leg_qty b = 1" "leg_qty s = 1" "\<bar>premium [x, y] mids\<bar> \<le> \<bar>strike b - strike s\<bar>" "lg_put_call x = lg_put_call b"
    using two assms(8,9,11) p(2) by (auto simp: abs_minus_commute)
  have dom: "if premium [x, y] mids < 0 then dominates b s else dominates s b"
    using two assms(12) p(1) dominates_total [OF p(3,2)] by (auto simp: vertical_pair_def dominates_def split: if_splits)
  let ?be = "strike (if premium [x, y] mids < 0 then b else s) + \<bar>premium [x, y] mids\<bar>"
  have pay: "payoff [x, y] mids ?be = premium [x, y] mids + (intrinsic b ?be - intrinsic s ?be)"
    by (simp add: vertical_pair_payoff [OF p(1)] vertical_pair_premium [OF p(1)] q(1,2))
  have "intrinsic b ?be - intrinsic s ?be = (if lg_put_call x = ''C'' then - premium [x, y] mids else 0)"
    using dom p(2) q(3) unfolding q(4) by (auto simp: dominates_def intrinsic_def max_def split: if_splits)
  then have "payoff [x, y] mids ?be = (if lg_put_call x = ''C'' then 0 else premium [x, y] mids)" unfolding pay by simp
  then show ?thesis using e by blast
qed

section \<open>Every valid combo has an envelope\<close>

lemma find_found: "a \<in> set xs \<Longrightarrow> P a \<Longrightarrow> \<exists>y. List.find P xs = Some y"
  by (metis find_None_iff option.exhaust)

lemma next_leg_found: "a \<in> set xs \<Longrightarrow> P a \<Longrightarrow> \<exists>y. next_leg P xs = Inr y"
  using find_found [of a xs P] by (auto simp: next_leg_def)

lemma enumerated_mids: "\<forall>i < length legs. mids i \<noteq> None \<Longrightarrow> \<not> list_ex (\<lambda>i. mids i = None) [0..<length legs]"
  by (auto simp: list_ex_iff)

lemma valid_combo_total:
  assumes "validate ty (x # y # others) und cid tif acct = Inr spec" and "well_spelled x" and "well_spelled y"
    and "\<forall>i < length (x # y # others). mids i \<noteq> None"
  shows "\<exists>e. compute_envelope spec mids = Inr e"
proof -
  let ?legs = "x # y # others"
  obtain check where c: "map_of VALIDATORS ty = Some check" "check x y = Inr ()"
    and spec: "cs_type spec = ty" "cs_legs spec = ?legs"
    using assms(1) by (auto simp: validate_def rbind_Inr_iff split: if_splits option.splits)
  have both: "\<exists>e. vertical ?legs mids = Inr e" if "lg_side x \<noteq> lg_side y"
  proof -
    have "\<exists>a \<in> set ?legs. lg_side a = ''buy''" "\<exists>a \<in> set ?legs. lg_side a = ''sell''"
      using that assms(2,3) by (auto simp: well_spelled_def)
    then obtain b s where "next_leg (\<lambda>l. lg_side l = ''buy'') ?legs = Inr b" "next_leg (\<lambda>l. lg_side l = ''sell'') ?legs = Inr s"
      using next_leg_found [of _ ?legs "\<lambda>l. lg_side l = ''buy''"] next_leg_found [of _ ?legs "\<lambda>l. lg_side l = ''sell''"] by blast
    then show ?thesis by (simp add: vertical_def Let_def)
  qed
  have rights: "\<exists>e. strangle ?legs mids = Inr e" if "lg_put_call x \<noteq> lg_put_call y"
  proof -
    have "\<exists>a \<in> set ?legs. lg_put_call a = ''P''" "\<exists>a \<in> set ?legs. lg_put_call a = ''C''"
      using that assms(2,3) by (auto simp: well_spelled_def)
    then obtain p q where "next_leg (\<lambda>l. lg_put_call l = ''P'') ?legs = Inr p" "next_leg (\<lambda>l. lg_put_call l = ''C'') ?legs = Inr q"
      using next_leg_found [of _ ?legs "\<lambda>l. lg_put_call l = ''P''"] next_leg_found [of _ ?legs "\<lambda>l. lg_put_call l = ''C''"] by blast
    then show ?thesis by (simp add: strangle_def Let_def)
  qed
  have "\<not> list_ex (\<lambda>i. mids i = None) [0..<length (cs_legs spec)]" unfolding spec using enumerated_mids assms(4) by blast
  then show ?thesis using c spec both rights
    by (auto simp: compute_envelope_def VALIDATORS_def ENVELOPES_def validate_vertical_def validate_straddle_def validate_strangle_def
        calendar_def diagonal_def straddle_def Let_def split: if_splits)
qed

text \<open>A combo that validation accepts, whose first two legs spell their side and their right as the code expects and whose legs all have a
  price, has an envelope; neither the lookups by side and right nor the dispatch on the strategy can fail.\<close>

theorem valid_combo_has_envelope:
  assumes "validate ty (x # y # others) und cid tif acct = Inr spec" and "well_spelled x" and "well_spelled y"
    and "\<forall>i < length (x # y # others). mids i \<noteq> None"
  shows "\<exists>e. compute_envelope spec mids = Inr e"
  by (rule valid_combo_total [OF assms])

text \<open>Without that spelling it can: the guards compare the texts with each other and not with what the envelope looks for.\<close>

theorem misspelled_strangle_raises:
  assumes "validate ''STRANGLE'' (x # y # others) und cid tif acct = Inr spec" and "\<forall>l \<in> set (x # y # others). lg_put_call l \<noteq> ''P''"
    and "\<forall>i < length (x # y # others). mids i \<noteq> None"
  shows "compute_envelope spec mids = Inl StopIteration"
proof -
  have spec: "cs_type spec = ''STRANGLE''" "cs_legs spec = x # y # others"
    using assms(1) by (auto simp: validate_def rbind_Inr_iff split: if_splits option.splits)
  have "next_leg (\<lambda>l. lg_put_call l = ''P'') (x # y # others) = Inl StopIteration"
    using assms(2) by (auto simp: next_leg_def find_None_iff split: option.split dest: find_Some_iff')
  moreover have "\<not> list_ex (\<lambda>i. mids i = None) [0..<length (cs_legs spec)]" unfolding spec using enumerated_mids assms(3) by blast
  ultimately show ?thesis by (simp add: compute_envelope_def ENVELOPES_def spec strangle_def Let_def)
qed

section \<open>Bought volatility\<close>

lemma bought_payoff:
  "\<forall>l \<in> set legs. lg_side l = ''buy'' \<and> 0 \<le> leg_qty l \<Longrightarrow> premium legs mids \<le> payoff legs mids p"
  by (auto simp: payoff_def leg_payoff_def intrinsic_def intro!: sum_list_nonneg)

text \<open>The loss reported for bought straddles and strangles, of whatever quantities, bounds the loss at every price of the
  underlying.\<close>

theorem bought_volatility_loss_bound:
  assumes "ty \<in> {''STRADDLE'', ''STRANGLE''}" and "cs_type spec = ty" and "compute_envelope spec mids = Inr e"
    and "\<forall>l \<in> set (cs_legs spec). lg_side l = ''buy'' \<and> 0 \<le> leg_qty l"
    and "ticked (premium (cs_legs spec) mids)" and "premium (cs_legs spec) mids < 0"
  shows "\<exists>loss. ev_max_loss e = Some loss \<and> (\<forall>p. - loss \<le> 100 * payoff (cs_legs spec) mids p)"
proof -
  let ?n = "premium (cs_legs spec) mids"
  have "ticked (- ?n * MULTIPLIER)" "ticked (- ?n)" using assms(5) by (auto intro!: ticked_intro)
  note q = ticked_quantize8 [OF assms(5)] this [THEN ticked_quantize8]
  have "\<exists>lo hi. e = long_volatility ?n lo hi"
    using assms(1-3) q(1)
    by (auto simp: compute_envelope_def ENVELOPES_def straddle_def strangle_def Let_def rbind_Inr_iff split: if_splits list.splits)
  then have "ev_max_loss e = Some (- ?n * MULTIPLIER)" using assms(6) q q(2) [simplified] by (auto simp: long_volatility_def Let_def)
  then show ?thesis using bought_payoff [OF assms(4), of mids] by (simp add: MULTIPLIER_def)
qed

section \<open>Witnesses\<close>

definition plain :: "decimal \<Rightarrow> spelled" where
  "plain x = \<lparr>dv = x, dt = []\<rparr>"

definition demo_leg :: "string \<Rightarrow> decimal \<Rightarrow> decimal \<Rightarrow> string \<Rightarrow> leg_spec" where
  "demo_leg sd q k pc = \<lparr>lg_inst = 1, lg_side = sd, lg_qty = plain q, lg_effect = ''OPEN'', lg_ratio = 1, lg_limit = None, lg_symbol = ''SPY'',
     lg_exchange = ''SMART'', lg_currency = ''USD'', lg_expiry = ''20261218'', lg_strike = plain k, lg_put_call = pc\<rparr>"

definition demo_mids :: "decimal \<Rightarrow> decimal \<Rightarrow> nat \<Rightarrow> decimal option" where
  "demo_mids a b = (\<lambda>i. if i = 0 then Some a else if i = 1 then Some b else None)"

lemmas combo_demo_defs = demo_leg_def plain_def demo_mids_def well_spelled_def dominates_def premium_def leg_signed_premium_def mid_at_def

lemma ticked_numeral: "ticked (numeral n)" "ticked 0" "ticked 1"
  using ticked_iff [of "numeral n"] ticked_iff [of 0] ticked_iff [of 1]
  by (auto intro: exI [of _ "numeral n * 100000000"] exI [of _ 0] exI [of _ 100000000])

theorem vertical_envelope_exact_witness:
  "\<exists>spec e loss profit. validate ''VERTICAL'' [demo_leg ''buy'' 1 100 ''C'', demo_leg ''sell'' 1 110 ''C''] ''SPY'' ''c'' ''DAY'' ''a'' = Inr spec
    \<and> compute_envelope spec (demo_mids 7 3) = Inr e \<and> ev_max_loss e = Some loss \<and> ev_max_profit e = Some profit
    \<and> ranges (\<lambda>p. 100 * payoff [demo_leg ''buy'' 1 100 ''C'', demo_leg ''sell'' 1 110 ''C''] (demo_mids 7 3) p) (- loss) profit"
proof -
  let ?x = "demo_leg ''buy'' 1 100 ''C''" and ?y = "demo_leg ''sell'' 1 110 ''C''"
  obtain spec where v: "validate ''VERTICAL'' [?x, ?y] ''SPY'' ''c'' ''DAY'' ''a'' = Inr spec"
    by (simp add: validate_def VALIDATORS_def validate_vertical_def combo_demo_defs)
  show ?thesis
    using v vertical_envelope_exact [OF v, of "demo_mids 7 3" 7 3] by (simp add: combo_demo_defs ticked_numeral)
qed

theorem short_vertical_loss_understated_witness:
  "\<exists>spec e loss. validate ''VERTICAL'' [demo_leg ''sell'' 3 100 ''C'', demo_leg ''buy'' 3 110 ''C''] ''SPY'' ''c'' ''DAY'' ''a'' = Inr spec
    \<and> compute_envelope spec (demo_mids 5 5) = Inr e \<and> ev_max_loss e = Some loss
    \<and> (\<exists>p \<ge> 0. 100 * payoff [demo_leg ''sell'' 3 100 ''C'', demo_leg ''buy'' 3 110 ''C''] (demo_mids 5 5) p = - loss - 2000)"
proof -
  let ?x = "demo_leg ''sell'' 3 100 ''C''" and ?y = "demo_leg ''buy'' 3 110 ''C''"
  obtain spec where v: "validate ''VERTICAL'' [?x, ?y] ''SPY'' ''c'' ''DAY'' ''a'' = Inr spec"
    by (simp add: validate_def VALIDATORS_def validate_vertical_def combo_demo_defs)
  show ?thesis
    using v short_vertical_loss_understated [OF v, of "demo_mids 5 5" 3] by (simp add: combo_demo_defs ticked_numeral) blast
qed

theorem ratio_vertical_reported_bounded_witness:
  "\<exists>spec e loss. validate ''VERTICAL'' [demo_leg ''buy'' 1 100 ''C'', demo_leg ''sell'' 10 110 ''C''] ''SPY'' ''c'' ''DAY'' ''a'' = Inr spec
    \<and> compute_envelope spec (demo_mids 5 5) = Inr e \<and> ev_max_loss e = Some loss"
proof -
  let ?x = "demo_leg ''buy'' 1 100 ''C''" and ?y = "demo_leg ''sell'' 10 110 ''C''"
  obtain spec where v: "validate ''VERTICAL'' [?x, ?y] ''SPY'' ''c'' ''DAY'' ''a'' = Inr spec"
    by (simp add: validate_def VALIDATORS_def validate_vertical_def combo_demo_defs)
  show ?thesis
    using v ratio_vertical_reported_bounded [OF v, of "demo_mids 5 5"] by (simp add: combo_demo_defs ticked_numeral) blast
qed

theorem break_even_of_verticals_witness:
  "\<exists>spec e be. validate ''VERTICAL'' [demo_leg ''buy'' 1 110 ''P'', demo_leg ''sell'' 1 100 ''P''] ''SPY'' ''c'' ''DAY'' ''a'' = Inr spec
    \<and> compute_envelope spec (demo_mids 7 3) = Inr e \<and> ev_break_even e = [be]
    \<and> payoff [demo_leg ''buy'' 1 110 ''P'', demo_leg ''sell'' 1 100 ''P''] (demo_mids 7 3) be = - 4"
proof -
  let ?x = "demo_leg ''buy'' 1 110 ''P''" and ?y = "demo_leg ''sell'' 1 100 ''P''"
  obtain spec where v: "validate ''VERTICAL'' [?x, ?y] ''SPY'' ''c'' ''DAY'' ''a'' = Inr spec"
    by (simp add: validate_def VALIDATORS_def validate_vertical_def combo_demo_defs)
  show ?thesis
    using v break_even_of_verticals [OF v, of "demo_mids 7 3"] by (simp add: combo_demo_defs ticked_numeral ticked_uminus)
qed

theorem valid_combo_has_envelope_witness:
  "\<exists>spec e. validate ''STRANGLE'' [demo_leg ''buy'' 1 90 ''P'', demo_leg ''buy'' 1 110 ''C''] ''SPY'' ''c'' ''DAY'' ''a'' = Inr spec
    \<and> compute_envelope spec (demo_mids 5 5) = Inr e"
proof -
  let ?x = "demo_leg ''buy'' 1 90 ''P''" and ?y = "demo_leg ''buy'' 1 110 ''C''"
  obtain spec where v: "validate ''STRANGLE'' [?x, ?y] ''SPY'' ''c'' ''DAY'' ''a'' = Inr spec"
    by (simp add: validate_def VALIDATORS_def validate_strangle_def combo_demo_defs)
  show ?thesis using v valid_combo_has_envelope [OF v, of "demo_mids 5 5"] by (simp add: combo_demo_defs less_Suc_eq)
qed

theorem misspelled_strangle_raises_witness:
  "\<exists>spec. validate ''STRANGLE'' [demo_leg ''buy'' 1 90 ''PUT'', demo_leg ''buy'' 1 110 ''CALL''] ''SPY'' ''c'' ''DAY'' ''a'' = Inr spec
    \<and> compute_envelope spec (demo_mids 5 5) = Inl StopIteration"
proof -
  let ?x = "demo_leg ''buy'' 1 90 ''PUT''" and ?y = "demo_leg ''buy'' 1 110 ''CALL''"
  obtain spec where v: "validate ''STRANGLE'' [?x, ?y] ''SPY'' ''c'' ''DAY'' ''a'' = Inr spec"
    by (simp add: validate_def VALIDATORS_def validate_strangle_def combo_demo_defs)
  show ?thesis using v misspelled_strangle_raises [OF v, of "demo_mids 5 5"] by (simp add: combo_demo_defs less_Suc_eq)
qed

definition demo_straddle :: combo_spec where
  "demo_straddle = \<lparr>cs_type = ''STRADDLE'', cs_symbol = ''SPY'', cs_canonical = ''c'',
     cs_legs = [demo_leg ''buy'' 2 100 ''C'', demo_leg ''buy'' 2 100 ''P''], cs_tif = ''DAY'', cs_account = ''a''\<rparr>"

theorem bought_volatility_loss_bound_witness:
  "\<exists>e loss. compute_envelope demo_straddle (demo_mids 5 5) = Inr e \<and> ev_max_loss e = Some loss
    \<and> - loss \<le> 100 * payoff (cs_legs demo_straddle) (demo_mids 5 5) 100"
proof -
  obtain e where e: "compute_envelope demo_straddle (demo_mids 5 5) = Inr e"
    by (simp add: compute_envelope_def ENVELOPES_def demo_straddle_def straddle_def Let_def combo_demo_defs)
  show ?thesis
    using e bought_volatility_loss_bound [OF _ _ e, of "''STRADDLE''"]
    by (simp add: demo_straddle_def combo_demo_defs ticked_numeral ticked_uminus) blast
qed

end
