(* ===== verification/Combo_Orders.thy ===== *)
theory Combo_Orders
  imports Combo_Envelope Combo_Fills Risk_Guarantees Alert_Predicates "HOL-Library.Multiset"
begin

text \<open>
  The life of an option combo: \<open>services/combos/combo_service.py\<close> (preview and confirmation) and
  \<open>api/combos.py\<close> (its four operations), over the rows of migration \<open>0049\<close>.

  The state holds the nonces in Redis, the tables \<open>combo_orders\<close>, \<open>order_legs\<close> and the orders of legs, and what was
  handed to a broker. The service works in the session of the request; the API commits or drops its changes. The parsing
  of a leg by pydantic, the risk tables, foreign keys and a broker's answers are the environment. The hash of a payload is
  the payload that is hashed.
\<close>

section \<open>State\<close>

type_synonym leg_digest =
  "string \<times> string \<times> string \<times> string \<times> string \<times> string \<times> string \<times> int \<times> string \<times> string option \<times> string"

type_synonym combo_hash = "string \<times> leg_digest list"

record combo_rec = combo_row +
  cb_account :: uuid
  cb_client :: string
  cb_type :: string
  cb_symbol :: string
  cb_canonical :: string
  cb_net :: decimal
  cb_kind :: string
  cb_tif :: string
  cb_broker :: "string option"
  cb_created :: int

record combo_leg = leg_row +
  lo_idx :: nat
  lo_inst :: int
  lo_side :: string
  lo_qty :: decimal
  lo_effect :: string
  lo_limit :: "decimal option"
  lo_broker :: "string option"

record combo_child =
  ch_id :: uuid
  ch_account :: uuid
  ch_client :: uuid
  ch_broker :: "string option"
  ch_combo :: uuid
  ch_conid :: string
  ch_symbol :: string
  ch_side :: string
  ch_tif :: string
  ch_qty :: decimal
  ch_limit :: decimal
  ch_notional :: decimal
  ch_effect :: string
  ch_status :: string

record combo_db =
  cd_nonces :: "(string \<times> combo_hash \<times> rat) list"
  cd_combos :: "combo_rec list"
  cd_legs :: "combo_leg list"
  cd_children :: "combo_child list"
  cd_sent :: "(string \<times> uuid \<times> leg_spec list) list"
  cd_next :: nat

text \<open>
  \<open>ce_taken\<close>: broker order ids that other orders of an account hold. A broker's answer is the id of the combo
  and the order ids of the legs, empty when it gives none.
\<close>

record desk_env =
  ce_risk :: risk_env
  ce_uuid :: "nat \<Rightarrow> uuid"
  ce_now :: rat
  ce_created :: int
  ce_redis :: "exn + unit"
  ce_leg :: "json \<Rightarrow> exn + leg_spec"
  ce_dec :: "string \<Rightarrow> dec_text"
  ce_accounts :: "uuid list"
  ce_instruments :: "int list"
  ce_taken :: "(uuid \<times> string) list"

type_synonym combo_broker = "leg_spec list \<Rightarrow> exn + string \<times> string list"

section \<open>Preview\<close>

fun parse_legs :: "desk_env \<Rightarrow> json list \<Rightarrow> exn + leg_spec list" where
  "parse_legs env [] = Inr []"
| "parse_legs env (j # js) = rbind (ce_leg env j) (\<lambda>l. rbind (parse_legs env js) (\<lambda>ls. Inr (l # ls)))"

definition leg_digest_of :: "leg_spec \<Rightarrow> leg_digest" where
  "leg_digest_of l = (lg_side l, lg_symbol l, lg_exchange l, lg_currency l, lg_expiry l, dt (lg_strike l), lg_put_call l, lg_ratio l,
     dt (lg_qty l), map_option dt (lg_limit l), lg_effect l)"

definition payload_hash :: "leg_spec list \<Rightarrow> string \<Rightarrow> combo_hash" where
  "payload_hash legs client = (client, map leg_digest_of legs)"

text \<open>\<open>_fetch_mids\<close>: five for every leg.\<close>

definition fetch_mids :: "leg_spec list \<Rightarrow> nat \<Rightarrow> decimal option" where
  "fetch_mids legs i = (if i < length legs then Some 5 else None)"

text \<open>A \<open>StopIteration\<close> that leaves a coroutine becomes a \<open>RuntimeError\<close>.\<close>

definition in_coroutine :: "exn + 'a \<Rightarrow> exn + 'a" where
  "in_coroutine r = (if r = Inl StopIteration then Inl (RuntimeError ''coroutine raised StopIteration'') else r)"

text \<open>\<open>_ComboRiskService.evaluate_combo\<close> of the API.\<close>

definition envelope_verdict :: "desk_env \<Rightarrow> string \<Rightarrow> envelope \<Rightarrow> exn + verdict" where
  "envelope_verdict env acct e =
     rbind (check_combo_envelope (ce_risk env) acct (ev_max_loss e)) (\<lambda>r. Inr (case r of
       None \<Rightarrow> \<lparr>final_verdict = Allow, blockers = [], warnings = []\<rparr>
     | Some (Some b, _) \<Rightarrow> \<lparr>final_verdict = Block, blockers = [b], warnings = []\<rparr>
     | Some (None, Some w) \<Rightarrow> \<lparr>final_verdict = Warn, blockers = [], warnings = [w]\<rparr>
     | Some (None, None) \<Rightarrow> \<lparr>final_verdict = Allow, blockers = [], warnings = []\<rparr>))"

datatype preview_reply = Risk_Blocked "blocker list" "warning list" | Previewed string string envelope "warning list"

definition NONCE_TTL :: rat where
  "NONCE_TTL = 120"

definition combo_preview ::
  "desk_env \<Rightarrow> string \<Rightarrow> string \<Rightarrow> string \<Rightarrow> string \<Rightarrow> string \<Rightarrow> json list \<Rightarrow> (preview_reply, combo_db) act" where
  "combo_preview env acct ty und cid tif js =
     abind (of_res (parse_legs env js)) (\<lambda>legs.
     abind (of_res (validate ty legs und cid tif acct)) (\<lambda>spec.
     abind (of_res (in_coroutine (compute_envelope spec (fetch_mids legs)))) (\<lambda>e.
     abind (of_res (envelope_verdict env acct e)) (\<lambda>v.
       if blockers v \<noteq> [] then aret (Risk_Blocked (blockers v) (warnings v))
       else (\<lambda>s.
         let client = ''combo-'' @ ce_uuid env (cd_next s); nonce = ce_uuid env (Suc (cd_next s)) in
         case ce_redis env of
           Inl x \<Rightarrow> (Inl x, s)
         | Inr _ \<Rightarrow> (Inr (Previewed client nonce e (warnings v)),
             s\<lparr>cd_nonces := AList.update nonce (payload_hash legs client, ce_now env + NONCE_TTL) (cd_nonces s),
               cd_next := cd_next s + 2\<rparr>))))))"

section \<open>Confirmation\<close>

text \<open>\<open>GETDEL\<close> of a key with a time to live.\<close>

definition nonce_take :: "desk_env \<Rightarrow> string \<Rightarrow> (combo_hash option, combo_db) act" where
  "nonce_take env nonce = (\<lambda>s.
     case ce_redis env of
       Inl x \<Rightarrow> (Inl x, s)
     | Inr _ \<Rightarrow>
         (Inr (case map_of (cd_nonces s) nonce of Some (h, t) \<Rightarrow> if ce_now env < t then Some h else None | None \<Rightarrow> None),
          s\<lparr>cd_nonces := AList.delete nonce (cd_nonces s)\<rparr>))"

text \<open>\<open>NUMERIC(20,8)\<close>.\<close>

definition fits_numeric :: "decimal \<Rightarrow> bool" where
  "fits_numeric x \<longleftrightarrow> \<bar>x\<bar> < 10 ^ 12"

definition combo_row_ok :: "desk_env \<Rightarrow> combo_rec \<Rightarrow> combo_db \<Rightarrow> bool" where
  "combo_row_ok env c s \<longleftrightarrow> cb_account c \<in> set (ce_accounts env)
     \<and> cb_type c \<in> {''VERTICAL'', ''CALENDAR'', ''DIAGONAL'', ''STRADDLE'', ''STRANGLE''}
     \<and> cb_kind c \<in> {''DEBIT'', ''CREDIT''} \<and> cb_tif c \<in> {''DAY'', ''GTC'', ''IOC'', ''FOK''} \<and> fits_numeric (cb_net c)
     \<and> \<not> list_ex (\<lambda>x. cb_account x = cb_account c \<and> cb_client x = cb_client c) (cd_combos s)"

definition leg_row_ok :: "desk_env \<Rightarrow> combo_leg \<Rightarrow> bool" where
  "leg_row_ok env l \<longleftrightarrow> lo_inst l \<in> set (ce_instruments env) \<and> lo_side l \<in> {''buy'', ''sell''} \<and> lo_effect l \<in> {''OPEN'', ''CLOSE''}
     \<and> fits_numeric (lo_qty l) \<and> (case lo_limit l of Some x \<Rightarrow> fits_numeric x | None \<Rightarrow> True)"

text \<open>The row of a leg, numbered from zero; its ratio is not written.\<close>

definition leg_row_of :: "uuid \<Rightarrow> nat \<times> leg_spec \<Rightarrow> combo_leg" where
  "leg_row_of cid p = (case p of (i, l) \<Rightarrow>
     \<lparr>l_combo = cid, l_order = None, l_status = ''pending_submit'', l_filled = 0, l_avg = None, lo_idx = i, lo_inst = lg_inst l,
      lo_side = lg_side l, lo_qty = leg_qty l, lo_effect = lg_effect l, lo_limit = map_option dv (lg_limit l), lo_broker = None\<rparr>)"

definition insert_combo :: "desk_env \<Rightarrow> combo_rec \<Rightarrow> (unit, combo_db) act" where
  "insert_combo env c = (\<lambda>s. if combo_row_ok env c s then (Inr (), s\<lparr>cd_combos := cd_combos s @ [c]\<rparr>) else (Inl DatabaseError, s))"

definition insert_legs :: "desk_env \<Rightarrow> uuid \<Rightarrow> leg_spec list \<Rightarrow> (unit, combo_db) act" where
  "insert_legs env cid legs = (\<lambda>s. let rows = map (leg_row_of cid) (enumerate 0 legs) in
     if list_all (leg_row_ok env) rows then (Inr (), s\<lparr>cd_legs := cd_legs s @ rows\<rparr>) else (Inl DatabaseError, s))"

definition put_combo :: "uuid \<Rightarrow> (combo_rec \<Rightarrow> combo_rec) \<Rightarrow> combo_db \<Rightarrow> combo_db" where
  "put_combo cid f s = s\<lparr>cd_combos := map (\<lambda>c. if cb_id c = cid then f c else c) (cd_combos s)\<rparr>"

definition child_of :: "desk_env \<Rightarrow> uuid \<Rightarrow> uuid \<Rightarrow> string \<Rightarrow> leg_spec \<Rightarrow> string \<Rightarrow> combo_db \<Rightarrow> combo_child" where
  "child_of env acct cid tif l b s =
     (let limit = (case lg_limit l of Some x \<Rightarrow> dv x | None \<Rightarrow> 0) in
      \<lparr>ch_id = ce_uuid env (cd_next s), ch_account = acct, ch_client = ce_uuid env (Suc (cd_next s)), ch_broker = (if b = [] then None else Some b),
       ch_combo = cid, ch_conid = print_int (lg_inst l), ch_symbol = lg_symbol l, ch_side = upper (lg_side l),
       ch_tif = (if tif \<in> {''DAY'', ''GTC''} then tif else ''DAY''), ch_qty = leg_qty l, ch_limit = limit, ch_notional = \<bar>leg_qty l * limit\<bar>,
       ch_effect = lg_effect l, ch_status = ''submitted''\<rparr>)"

definition child_ok :: "desk_env \<Rightarrow> combo_child \<Rightarrow> combo_db \<Rightarrow> bool" where
  "child_ok env c s \<longleftrightarrow> 0 < ch_qty c \<and> fits_numeric (ch_notional c)
     \<and> (case ch_broker c of None \<Rightarrow> True | Some b \<Rightarrow> (ch_account c, b) \<notin> set (ce_taken env)
          \<and> \<not> list_ex (\<lambda>x. ch_account x = ch_account c \<and> ch_broker x = Some b) (cd_children s))"

text \<open>The loop over \<open>response.legs\<close>: an order per answer and the update of its leg.\<close>

definition record_leg :: "desk_env \<Rightarrow> uuid \<Rightarrow> uuid \<Rightarrow> string \<Rightarrow> leg_spec list \<Rightarrow> nat \<times> string \<Rightarrow> (unit, combo_db) act" where
  "record_leg env acct cid tif legs p = (case p of (i, b) \<Rightarrow>
     if length legs \<le> i then of_res (Inl IndexError)
     else (\<lambda>s. let c = child_of env acct cid tif (legs ! i) b s in
       if child_ok env c s
       then (Inr (), s\<lparr>cd_children := cd_children s @ [c], cd_next := cd_next s + 2,
              cd_legs := map (\<lambda>r. if l_combo r = cid \<and> lo_idx r = i
                then r\<lparr>l_order := Some (ch_id c), lo_broker := ch_broker c, l_status := ''working''\<rparr> else r) (cd_legs s)\<rparr>)
       else (Inl DatabaseError, s)))"

fun record_legs :: "desk_env \<Rightarrow> uuid \<Rightarrow> uuid \<Rightarrow> string \<Rightarrow> leg_spec list \<Rightarrow> (nat \<times> string) list \<Rightarrow> (unit, combo_db) act" where
  "record_legs env acct cid tif legs [] = aret ()"
| "record_legs env acct cid tif legs (p # ps) =
     aseq (record_leg env acct cid tif legs p) (record_legs env acct cid tif legs ps)"

definition set_combo_status :: "uuid \<Rightarrow> string \<Rightarrow> (unit, combo_db) act" where
  "set_combo_status cid st = (\<lambda>s. (Inr (), put_combo cid (cb_status_update (\<lambda>_. st)) s))"

text \<open>From the broker on: without one, and when it raises, the combo is rejected and the exception goes on.\<close>

definition dispatch_combo ::
  "desk_env \<Rightarrow> combo_broker option \<Rightarrow> string \<Rightarrow> uuid \<Rightarrow> uuid \<Rightarrow> string \<Rightarrow> leg_spec list \<Rightarrow> (string, combo_db) act" where
  "dispatch_combo env broker client acct cid tif legs =
     (case broker of
        None \<Rightarrow> aseq (set_combo_status cid ''rejected'') (of_res (Inl (ValueError ''broker_not_configured'')))
      | Some place \<Rightarrow>
          aseq (\<lambda>s. (Inr (), s\<lparr>cd_sent := cd_sent s @ [(client, acct, legs)]\<rparr>))
          (case place legs of
             Inl x \<Rightarrow> aseq (set_combo_status cid ''rejected'') (of_res (Inl x))
           | Inr (bid, answers) \<Rightarrow>
               aseq (record_legs env acct cid tif legs (enumerate 0 answers))
                 (\<lambda>s. (Inr ''working'', put_combo cid (\<lambda>c. c\<lparr>cb_broker := Some bid, cb_status := ''working''\<rparr>) s))))"

record confirm_body =
  cf_account :: string
  cf_client :: string
  cf_legs :: "json list"
  cf_canonical :: string
  cf_type :: string
  cf_symbol :: string
  cf_tif :: string
  cf_net :: string
  cf_kind :: string

definition combo_row_of :: "desk_env \<Rightarrow> uuid \<Rightarrow> confirm_body \<Rightarrow> decimal \<Rightarrow> uuid \<Rightarrow> combo_rec" where
  "combo_row_of env u p net cid = \<lparr>cb_id = cid, cb_status = ''pending_submit'', cb_account = u, cb_client = cf_client p, cb_type = cf_type p,
     cb_symbol = cf_symbol p, cb_canonical = cf_canonical p, cb_net = net, cb_kind = cf_kind p, cb_tif = cf_tif p, cb_broker = None,
     cb_created = ce_created env\<rparr>"

text \<open>The part after the hash was compared.\<close>

definition place_combo :: "desk_env \<Rightarrow> combo_broker option \<Rightarrow> confirm_body \<Rightarrow> decimal \<Rightarrow> leg_spec list \<Rightarrow> (string, combo_db) act" where
  "place_combo env broker p net legs =
     abind (of_res (parse_uuid (cf_account p))) (\<lambda>u.
     abind (\<lambda>s. (Inr (ce_uuid env (cd_next s)), s\<lparr>cd_next := Suc (cd_next s)\<rparr>)) (\<lambda>cid.
     aseq (insert_combo env (combo_row_of env u p net cid))
     (aseq (insert_legs env cid legs) (dispatch_combo env broker (cf_client p) u cid (cf_tif p) legs))))"

definition combo_confirm :: "desk_env \<Rightarrow> combo_broker option \<Rightarrow> string \<Rightarrow> confirm_body \<Rightarrow> decimal \<Rightarrow> (string, combo_db) act" where
  "combo_confirm env broker nonce p net =
     abind (nonce_take env nonce) (\<lambda>h.
     case h of
       None \<Rightarrow> of_res (Inl (ValueError ''nonce_invalid''))
     | Some h \<Rightarrow>
         abind (of_res (parse_legs env (cf_legs p))) (\<lambda>legs.
         if h \<noteq> payload_hash legs (cf_client p) then of_res (Inl (ValueError ''payload_drift''))
         else place_combo env broker p net legs))"

section \<open>The API\<close>

definition api_preview_combo ::
  "desk_env \<Rightarrow> string \<Rightarrow> string \<Rightarrow> string \<Rightarrow> string \<Rightarrow> string \<Rightarrow> json list \<Rightarrow> (preview_reply, combo_db) act" where
  "api_preview_combo env acct ty und cid tif js = (\<lambda>s.
     case combo_preview env acct ty und cid tif js s of
       (Inl (ComboValidationError _), s') \<Rightarrow> (Inl (HttpError 422 ''combo_invalid_legs''), s')
     | (Inl x, s') \<Rightarrow> (Inl x, s')
     | (Inr (Risk_Blocked bs ws), s') \<Rightarrow> (Inl (HttpError 422 ''risk_blocked''), s')
     | (Inr r, s') \<Rightarrow> (Inr r, s'))"

text \<open>A session that ends without a commit: the tables are as they were, Redis and the broker are not.\<close>

definition rolled_back :: "combo_db \<Rightarrow> combo_db \<Rightarrow> combo_db" where
  "rolled_back s s' = s'\<lparr>cd_combos := cd_combos s, cd_legs := cd_legs s, cd_children := cd_children s\<rparr>"

text \<open>\<open>confirm_combo\<close>, with the broker that the API passes: none.\<close>

definition api_confirm_with :: "combo_broker option \<Rightarrow> desk_env \<Rightarrow> string \<Rightarrow> string \<Rightarrow> confirm_body \<Rightarrow> (string, combo_db) act" where
  "api_confirm_with broker env nonce csrf p = (\<lambda>s.
     if csrf \<noteq> nonce then (Inl (HttpError 422 ''csrf_required''), s)
     else case abind (of_res (to_decimal (ce_dec env (cf_net p)))) (combo_confirm env broker nonce p) s of
       (Inr r, s') \<Rightarrow> (Inr r, s')
     | (Inl (ValueError code), s') \<Rightarrow>
         if code = ''nonce_invalid'' then (Inl (HttpError 410 code), rolled_back s s')
         else if code = ''broker_not_configured'' then (Inl (HttpError 503 ''broker_not_wired''), s')
         else (Inl (HttpError 409 code), rolled_back s s')
     | (Inl CancelledError, s') \<Rightarrow> (Inl CancelledError, rolled_back s s')
     | (Inl _, s') \<Rightarrow> (Inl (HttpError 500 ''internal_error''), rolled_back s s'))"

definition api_confirm_combo :: "desk_env \<Rightarrow> string \<Rightarrow> string \<Rightarrow> confirm_body \<Rightarrow> (string, combo_db) act" where
  "api_confirm_combo = api_confirm_with None"

definition parse_query_uuid :: "string option \<Rightarrow> exn + uuid option" where
  "parse_query_uuid q = (case q of None \<Rightarrow> Inr None | Some t \<Rightarrow>
     (case parse_uuid t of Inl _ \<Rightarrow> Inl (HttpError 422 ''invalid_uuid'') | Inr u \<Rightarrow> Inr (Some u)))"

definition find_combo :: "uuid \<Rightarrow> uuid option \<Rightarrow> combo_db \<Rightarrow> combo_rec option" where
  "find_combo cid acct s = List.find (\<lambda>c. cb_id c = cid \<and> (case acct of None \<Rightarrow> True | Some a \<Rightarrow> cb_account c = a)) (cd_combos s)"

definition api_cancel_combo :: "string \<Rightarrow> string \<Rightarrow> string option \<Rightarrow> (unit, combo_db) act" where
  "api_cancel_combo combo_id csrf acct = (\<lambda>s.
     if csrf \<noteq> combo_id then (Inl (HttpError 422 ''csrf_required''), s)
     else case rbind (parse_query_uuid (Some combo_id)) (\<lambda>cid. rbind (parse_query_uuid acct) (\<lambda>a. Inr (the cid, a))) of
       Inl x \<Rightarrow> (Inl x, s)
     | Inr (cid, a) \<Rightarrow>
         (case find_combo cid a s of
            None \<Rightarrow> (Inl (HttpError 404 ''combo_not_found''), s)
          | Some c \<Rightarrow>
              if cb_status c \<notin> {''pending_submit'', ''working''} then (Inl (HttpError 409 ''combo_not_cancellable''), s)
              else (Inr (), put_combo cid (cb_status_update (\<lambda>_. ''cancelled'')) s)))"

definition api_get_combo :: "string \<Rightarrow> string option \<Rightarrow> combo_db \<Rightarrow> exn + combo_rec \<times> combo_leg list" where
  "api_get_combo combo_id acct s =
     rbind (parse_query_uuid (Some combo_id)) (\<lambda>cid. rbind (parse_query_uuid acct) (\<lambda>a.
       (case find_combo (the cid) a s of
          None \<Rightarrow> Inl (HttpError 404 ''combo_not_found'')
        | Some c \<Rightarrow> Inr (c, filter (\<lambda>l. l_combo l = cb_id c) (cd_legs s)))))"

definition newest_first :: "combo_rec list \<Rightarrow> combo_rec list" where
  "newest_first cs = sort_key (\<lambda>c. - cb_created c) (sort_key (\<lambda>c. - int (hex_value (cb_id c))) cs)"

definition older :: "combo_rec \<Rightarrow> int \<times> nat \<Rightarrow> bool" where
  "older c k \<longleftrightarrow> cb_created c < fst k \<or> cb_created c = fst k \<and> hex_value (cb_id c) < snd k"

text \<open>Python's \<open>rows[:n]\<close>.\<close>

definition slice_to :: "int \<Rightarrow> 'a list \<Rightarrow> 'a list" where
  "slice_to n xs = (if 0 \<le> n then take (nat n) xs else take (length xs - nat (- n)) xs)"

definition list_combos ::
  "uuid option \<Rightarrow> string option \<Rightarrow> int \<Rightarrow> (int \<times> nat) option \<Rightarrow> combo_rec list \<Rightarrow> exn + combo_rec list \<times> bool" where
  "list_combos acct st limit before cs =
     (let cap = min limit 100;
          wanted = filter (\<lambda>c. (case acct of None \<Rightarrow> True | Some a \<Rightarrow> cb_account c = a)
            \<and> (case st of None \<Rightarrow> True | Some t \<Rightarrow> cb_status c = t)
            \<and> (case before of None \<Rightarrow> True | Some k \<Rightarrow> older c k)) cs in
      if cap + 1 < 0 then Inl DatabaseError
      else let rows = take (nat (cap + 1)) (newest_first wanted) in Inr (slice_to cap rows, cap < int (length rows)))"

text \<open>A fill of a leg's order, through the listener of \<open>Combo_Fills\<close>.\<close>

definition combo_fill :: "uuid \<Rightarrow> uuid \<Rightarrow> decimal \<Rightarrow> decimal \<Rightarrow> combo_db \<Rightarrow> combo_db" where
  "combo_fill cid oid filled avg s =
     (let (cs, ls) = handle_fill (Some cid) oid filled avg (map combo_row.truncate (cd_combos s), map leg_row.truncate (cd_legs s)) in
      s\<lparr>cd_combos := map2 (\<lambda>c r. c\<lparr>cb_status := cb_status r\<rparr>) (cd_combos s) cs,
        cd_legs := map2 (\<lambda>l r. l\<lparr>l_status := l_status r, l_filled := l_filled r, l_avg := l_avg r\<rparr>) (cd_legs s) ls\<rparr>)"

section \<open>A dispatch spends a preview\<close>

definition outside :: "combo_db \<Rightarrow> _" where
  "outside s = (cd_sent s, cd_nonces s)"

lemma keeps_outside [keeps_intro]:
  "keeps outside (insert_combo env c)" "keeps outside (insert_legs env cid legs)" "keeps outside (set_combo_status cid st)"
  "keeps outside (\<lambda>s. (Inr (), put_combo cid f s))" "keeps outside (\<lambda>s. (Inr x, put_combo cid f s))"
  "keeps outside (\<lambda>s. (Inr (g s), s\<lparr>cd_next := h s\<rparr>))"
  by (simp_all add: keeps_def outside_def insert_combo_def insert_legs_def set_combo_status_def put_combo_def Let_def)

lemma keeps_record_leg [keeps_intro]: "keeps outside (record_leg env acct cid tif legs p)"
  by (cases p) (auto simp: keeps_def outside_def record_leg_def of_res_def Let_def)

lemma keeps_record_legs [keeps_intro]: "keeps outside (record_legs env acct cid tif legs ps)"
  by (induction ps) (auto intro: keeps_intro)

definition sent_one :: "string \<Rightarrow> leg_spec list \<Rightarrow> combo_db \<Rightarrow> combo_db \<Rightarrow> bool" where
  "sent_one client legs s s' \<longleftrightarrow> outside s' = outside s \<or> (\<exists>u. outside s' = (cd_sent s @ [(client, u, legs)], cd_nonces s))"

lemma dispatch_with_broker:
  "outside (snd (dispatch_combo env (Some place) client acct cid tif legs s)) = (cd_sent s @ [(client, acct, legs)], cd_nonces s)"
proof -
  let ?t = "s\<lparr>cd_sent := cd_sent s @ [(client, acct, legs)]\<rparr>"
  let ?m = "case place legs of
       Inl x \<Rightarrow> aseq (set_combo_status cid ''rejected'') (of_res (Inl x))
     | Inr (bid, answers) \<Rightarrow> aseq (record_legs env acct cid tif legs (enumerate 0 answers))
         (\<lambda>s. (Inr ''working'', put_combo cid (\<lambda>c. c\<lparr>cb_broker := Some bid, cb_status := ''working''\<rparr>) s))"
  have "keeps outside ?m" by (auto intro!: keeps_intro split: sum.split)
  moreover have "dispatch_combo env (Some place) client acct cid tif legs s = ?m ?t"
    by (simp add: dispatch_combo_def aseq_def abind_def)
  ultimately have "outside (snd (dispatch_combo env (Some place) client acct cid tif legs s)) = outside ?t" by (simp add: keeps_def)
  then show ?thesis by (simp add: outside_def)
qed

lemma keeps_dispatch_without_broker: "keeps outside (dispatch_combo env None client acct cid tif legs)"
  unfolding dispatch_combo_def by (auto intro!: keeps_intro)

lemma dispatch_sent: "sent_one client legs s (snd (dispatch_combo env broker client acct cid tif legs s))"
  using dispatch_with_broker keeps_dispatch_without_broker
  by (cases broker) (auto simp: sent_one_def keeps_def)

lemma sent_one_before: "outside t = outside s \<Longrightarrow> sent_one client legs t s' \<Longrightarrow> sent_one client legs s s'"
  by (auto simp: sent_one_def outside_def)

lemma sent_one_abind:
  assumes "keeps outside m" and "\<And>x t. sent_one client legs t (snd (k x t))"
  shows "sent_one client legs s (snd (abind m k s))"
proof -
  obtain r t where e: "m s = (r, t)" by fastforce
  have o: "outside t = outside s" using keepsD [OF assms(1) e] .
  show ?thesis
  proof (cases r)
    case (Inl x)
    then show ?thesis using o by (simp add: abind_def e sent_one_def)
  next
    case (Inr x)
    then show ?thesis using sent_one_before [OF o assms(2)] by (simp add: abind_def e)
  qed
qed

lemma place_sent: "sent_one (cf_client p) legs s (snd (place_combo env broker p net legs s))"
  unfolding place_combo_def aseq_def by (intro sent_one_abind keeps_intro dispatch_sent)

definition sent_hash :: "string \<times> uuid \<times> leg_spec list \<Rightarrow> combo_hash" where
  "sent_hash = (\<lambda>(client, u, legs). payload_hash legs client)"

text \<open>A confirmation sends nothing, or what the nonce it takes was stored with.\<close>

lemma confirm_outside:
  "(outside (snd (combo_confirm env broker nonce p net s)) = outside s
    \<or> outside (snd (combo_confirm env broker nonce p net s)) = (cd_sent s, AList.delete nonce (cd_nonces s)))
   \<or> (\<exists>u legs t. outside (snd (combo_confirm env broker nonce p net s))
          = (cd_sent s @ [(cf_client p, u, legs)], AList.delete nonce (cd_nonces s))
        \<and> map_of (cd_nonces s) nonce = Some (payload_hash legs (cf_client p), t) \<and> ce_now env < t)"
proof (cases "ce_redis env")
  case (Inl x)
  then show ?thesis by (simp add: combo_confirm_def abind_def nonce_take_def)
next
  case (Inr x)
  let ?t = "s\<lparr>cd_nonces := AList.delete nonce (cd_nonces s)\<rparr>"
  let ?h = "case map_of (cd_nonces s) nonce of Some (h, t) \<Rightarrow> if ce_now env < t then Some h else None | None \<Rightarrow> None"
  have c: "combo_confirm env broker nonce p net s = (case ?h of None \<Rightarrow> of_res (Inl (ValueError ''nonce_invalid''))
     | Some h \<Rightarrow> abind (of_res (parse_legs env (cf_legs p))) (\<lambda>legs.
         if h \<noteq> payload_hash legs (cf_client p) then of_res (Inl (ValueError ''payload_drift''))
         else place_combo env broker p net legs)) ?t"
    by (simp add: combo_confirm_def abind_def nonce_take_def Inr)
  have o: "outside ?t = (cd_sent s, AList.delete nonce (cd_nonces s))" by (simp add: outside_def)
  show ?thesis
  proof (cases ?h)
    case None
    then show ?thesis using o by (simp add: c of_res_def)
  next
    case (Some h)
    then obtain t where t: "map_of (cd_nonces s) nonce = Some (h, t)" "ce_now env < t" by (auto split: option.splits if_splits)
    show ?thesis
    proof (cases "parse_legs env (cf_legs p)")
      case (Inl y)
      then show ?thesis using o by (simp add: c Some abind_def of_res_def)
    next
      case (Inr legs)
      show ?thesis
      proof (cases "h = payload_hash legs (cf_client p)")
        case True
        have "sent_one (cf_client p) legs ?t (snd (combo_confirm env broker nonce p net s))"
          using place_sent by (simp add: c Some Inr abind_def of_res_def True)
        then show ?thesis using o t True by (auto simp: sent_one_def outside_def)
      next
        case False
        then show ?thesis using o by (simp add: c Some Inr abind_def of_res_def)
      qed
    qed
  qed
qed

datatype combo_op =
    Op_Preview desk_env string string string string string "json list"
  | Op_Confirm "combo_broker option" desk_env string string confirm_body
  | Op_Cancel string string "string option"
  | Op_Fill uuid uuid decimal decimal

text \<open>A state with the previews that passed the gate so far: the legs and the id that each of them gave out.\<close>

fun combo_step :: "combo_op \<Rightarrow> combo_db \<times> (leg_spec list \<times> string) list \<Rightarrow> combo_db \<times> (leg_spec list \<times> string) list" where
  "combo_step (Op_Preview env acct ty und cid tif js) (s, g) =
     (case api_preview_combo env acct ty und cid tif js s of
        (Inr (Previewed client nonce e ws), s') \<Rightarrow> (s', case parse_legs env js of Inr legs \<Rightarrow> g @ [(legs, client)] | Inl _ \<Rightarrow> g)
      | (_, s') \<Rightarrow> (s', g))"
| "combo_step (Op_Confirm broker env nonce csrf p) (s, g) = (snd (api_confirm_with broker env nonce csrf p s), g)"
| "combo_step (Op_Cancel combo_id csrf acct) (s, g) = (snd (api_cancel_combo combo_id csrf acct s), g)"
| "combo_step (Op_Fill cid oid q a) (s, g) = (combo_fill cid oid q a s, g)"

definition live_hashes :: "combo_db \<Rightarrow> combo_hash multiset" where
  "live_hashes s = mset (map (\<lambda>(n, h, t). h) (cd_nonces s))"

definition backed :: "combo_db \<times> (leg_spec list \<times> string) list \<Rightarrow> bool" where
  "backed x \<longleftrightarrow> mset (map sent_hash (cd_sent (fst x))) + live_hashes (fst x) \<subseteq># mset (map (\<lambda>(legs, c). payload_hash legs c) (snd x))"

lemma update_hashes: "mset (map (\<lambda>(n, h, t). h) (AList.update k (h, t) al)) \<subseteq># add_mset h (mset (map (\<lambda>(n, h, t). h) al))"
  by (induction al) (auto simp: subset_mset.add_increasing2 intro: subset_mset.order_trans split: if_splits)

lemma delete_hashes: "mset (map f (AList.delete k al)) \<subseteq># mset (map f al)"
  by (induction al) (auto simp: AList.delete_eq intro: subset_mset.order_trans)

lemma delete_hashes_found:
  "map_of al k = Some (h, t) \<Longrightarrow> add_mset h (mset (map (\<lambda>(n, h, t). h) (AList.delete k al))) \<subseteq># mset (map (\<lambda>(n, h, t). h) al)"
proof (induction al)
  case Nil
  then show ?case by simp
next
  case (Cons x al)
  then show ?case
    using delete_hashes [of "\<lambda>(n, h, t). h" k al] by (cases x) (auto simp: AList.delete_eq add_mset_commute split: if_splits)
qed

lemma backed_outside: "outside s' = outside s \<Longrightarrow> backed (s', g) = backed (s, g)"
  by (simp add: backed_def live_hashes_def outside_def)

lemma backed_if:
  "backed (s, g) \<Longrightarrow> mset (map sent_hash (cd_sent s')) + live_hashes s' \<subseteq># mset (map sent_hash (cd_sent s)) + live_hashes s \<Longrightarrow> backed (s', g)"
  unfolding backed_def fst_conv snd_conv by (rule subset_mset.order_trans)

lemma backed_taken:
  assumes "backed (s, g)" and "outside s' = (cd_sent s, AList.delete k (cd_nonces s))"
  shows "backed (s', g)"
  by (rule backed_if [OF assms(1)])
    (use assms(2) delete_hashes [of "\<lambda>(n, h, t). h" k "cd_nonces s"] in \<open>simp add: live_hashes_def outside_def\<close>)

lemma backed_sent:
  assumes "backed (s, g)" and "outside s' = (cd_sent s @ [x], AList.delete k (cd_nonces s))" and "map_of (cd_nonces s) k = Some (sent_hash x, t)"
  shows "backed (s', g)"
proof (rule backed_if [OF assms(1)])
  have "mset (map sent_hash (cd_sent s)) + add_mset (sent_hash x) (mset (map (\<lambda>(n, h, t). h) (AList.delete k (cd_nonces s))))
      \<subseteq># mset (map sent_hash (cd_sent s)) + live_hashes s"
    unfolding live_hashes_def by (rule subset_mset.add_left_mono [OF delete_hashes_found [OF assms(3)]])
  then show "mset (map sent_hash (cd_sent s')) + live_hashes s' \<subseteq># mset (map sent_hash (cd_sent s)) + live_hashes s"
    using assms(2) by (simp add: live_hashes_def outside_def)
qed

text \<open>The steps, one by one.\<close>

lemma outside_rolled_back [simp]: "outside (rolled_back s s') = outside s'"
  by (simp add: outside_def rolled_back_def)

lemma confirm_backed:
  assumes "backed (s, g)"
  shows "backed (snd (combo_confirm env broker nonce p net s), g)"
  using confirm_outside [of env broker nonce p net s]
proof (elim disjE exE conjE)
  assume "outside (snd (combo_confirm env broker nonce p net s)) = outside s"
  then show ?thesis using backed_outside assms by blast
next
  assume "outside (snd (combo_confirm env broker nonce p net s)) = (cd_sent s, AList.delete nonce (cd_nonces s))"
  then show ?thesis using backed_taken assms by blast
next
  fix u legs t
  assume "outside (snd (combo_confirm env broker nonce p net s)) = (cd_sent s @ [(cf_client p, u, legs)], AList.delete nonce (cd_nonces s))"
    and "map_of (cd_nonces s) nonce = Some (payload_hash legs (cf_client p), t)"
  then show ?thesis using backed_sent [OF assms] by (simp add: sent_hash_def)
qed

lemma api_confirm_outside:
  "outside (snd (api_confirm_with broker env nonce csrf p s)) = outside s
   \<or> (\<exists>net. outside (snd (api_confirm_with broker env nonce csrf p s)) = outside (snd (combo_confirm env broker nonce p net s)))"
proof (cases "csrf = nonce")
  case True
  let ?m = "abind (of_res (to_decimal (ce_dec env (cf_net p)))) (combo_confirm env broker nonce p)"
  obtain r s' where m: "?m s = (r, s')" by fastforce
  have "outside (snd (api_confirm_with broker env nonce csrf p s)) = outside s'"
    using True m by (auto simp: api_confirm_with_def split: sum.splits exn.splits)
  moreover have "s' = s \<or> (\<exists>net. s' = snd (combo_confirm env broker nonce p net s))"
  proof (cases "to_decimal (ce_dec env (cf_net p))")
    case (Inl x)
    then show ?thesis using m by (simp add: abind_def of_res_def)
  next
    case (Inr net)
    then have "s' = snd (combo_confirm env broker nonce p net s)" using m by (simp add: abind_def of_res_def)
    then show ?thesis by blast
  qed
  ultimately show ?thesis by metis
next
  case False
  then show ?thesis by (simp add: api_confirm_with_def)
qed

lemma preview_outside:
  assumes "api_preview_combo env acct ty und cid tif js s = (r, s')"
  shows "outside s' = outside s \<and> (\<forall>client nonce e ws. r \<noteq> Inr (Previewed client nonce e ws))
    \<or> (\<exists>client nonce e ws legs t. r = Inr (Previewed client nonce e ws) \<and> parse_legs env js = Inr legs
         \<and> outside s' = (cd_sent s, AList.update nonce (payload_hash legs client, t) (cd_nonces s)))"
  using assms
  by (auto simp: api_preview_combo_def combo_preview_def abind_def of_res_def aret_def outside_def Let_def
      split: sum.splits exn.splits preview_reply.splits prod.splits if_splits)

lemma backed_step: "backed x \<Longrightarrow> backed (combo_step op x)"
proof (cases x; cases op)
  fix s g env acct ty und cid tif js
  assume b: "backed x" and x: "x = (s, g)" and op: "op = Op_Preview env acct ty und cid tif js"
  obtain r s' where r: "api_preview_combo env acct ty und cid tif js s = (r, s')" by fastforce
  from preview_outside [OF r] show "backed (combo_step op x)"
  proof (elim disjE exE conjE)
    assume "outside s' = outside s" "\<forall>client nonce e ws. r \<noteq> Inr (Previewed client nonce e ws)"
    moreover from this(2) have "combo_step op x = (s', g)"
      by (auto simp: x op r split: sum.splits preview_reply.splits)
    ultimately show ?thesis using b x backed_outside by metis
  next
    fix client nonce e ws legs t
    assume a: "r = Inr (Previewed client nonce e ws)" "parse_legs env js = Inr legs"
      "outside s' = (cd_sent s, AList.update nonce (payload_hash legs client, t) (cd_nonces s))"
    have "live_hashes s' \<subseteq># add_mset (payload_hash legs client) (live_hashes s)"
      using a(3) update_hashes [of nonce "payload_hash legs client" t "cd_nonces s"] by (simp add: live_hashes_def outside_def)
    then have "mset (map sent_hash (cd_sent s)) + live_hashes s'
        \<subseteq># add_mset (payload_hash legs client) (mset (map sent_hash (cd_sent s)) + live_hashes s)"
      using subset_mset.add_left_mono [of "live_hashes s'" _ "mset (map sent_hash (cd_sent s))"] by simp
    moreover have "add_mset (payload_hash legs client) (mset (map sent_hash (cd_sent s)) + live_hashes s)
        \<subseteq># mset (map (\<lambda>(legs, c). payload_hash legs c) (g @ [(legs, client)]))"
      using b x by (simp add: backed_def)
    ultimately have "mset (map sent_hash (cd_sent s)) + live_hashes s' \<subseteq># mset (map (\<lambda>(legs, c). payload_hash legs c) (g @ [(legs, client)]))"
      by (rule subset_mset.order_trans)
    then have "backed (s', g @ [(legs, client)])" using a(3) by (simp add: backed_def outside_def)
    then show ?thesis by (simp add: x op r a)
  qed
next
  fix s g broker env nonce csrf p
  assume b: "backed x" and x: "x = (s, g)" and op: "op = Op_Confirm broker env nonce csrf p"
  have "backed (snd (api_confirm_with broker env nonce csrf p s), g)"
    using api_confirm_outside [of broker env nonce csrf p s]
  proof (elim disjE exE)
    assume "outside (snd (api_confirm_with broker env nonce csrf p s)) = outside s"
    from backed_outside [OF this] show ?thesis using b x by simp
  next
    fix net
    assume "outside (snd (api_confirm_with broker env nonce csrf p s)) = outside (snd (combo_confirm env broker nonce p net s))"
    from backed_outside [OF this] show ?thesis using confirm_backed b x by simp
  qed
  then show "backed (combo_step op x)" by (simp add: x op)
qed (auto simp: backed_def live_hashes_def api_cancel_combo_def put_combo_def combo_fill_def Let_def split: sum.splits option.splits prod.splits)

interpretation combo_runs: invariant_machine combo_step backed
  by unfold_locales (rule backed_step)

text \<open>C27: every combo handed to a broker spends a preview of its own: whatever previews, confirmations, cancellations and fills happen, in
  whatever order and however Redis, the tables and the broker answer, the payloads that were sent are, with their multiplicity, among
  those of the previews that passed the envelope check.\<close>

theorem combo_dispatch_spends_preview:
  assumes "cd_sent s = []" and "cd_nonces s = []" and "fold combo_step ops (s, []) = (s', passed)"
  shows "mset (map sent_hash (cd_sent s')) \<subseteq># mset (map (\<lambda>(legs, client). payload_hash legs client) passed)"
proof -
  have "backed (s, [])" using assms(1,2) by (simp add: backed_def live_hashes_def)
  from combo_runs.run_inv [OF this, of ops] have "backed (s', passed)" using assms(3) by simp
  then show ?thesis
    unfolding backed_def fst_conv snd_conv by (rule subset_mset.order_trans [OF mset_subset_eq_add_left])
qed

section \<open>What a preview does not bind\<close>

text \<open>The hash that ties a confirmation to its preview leaves out the account, the strategy and the instruments. A preview that passed the
  envelope check of one account places, within its two minutes, legs of the same spelling on any other account and with any other
  instruments.\<close>

theorem preview_not_bound_to_account:
  assumes "combo_preview env acct ty und cid tif js s = (Inr (Previewed client nonce e ws), t)" and "parse_legs env js = Inr legs"
    and "ce_now env' < ce_now env + 120" and "ce_redis env' = Inr ()" and "cf_client p = client"
    and "parse_legs env' (cf_legs p) = Inr legs'" and "map leg_digest_of legs' = map leg_digest_of legs"
    and "parse_uuid (cf_account p) = Inr u" and "combo_row_ok env' (combo_row_of env' u p net (ce_uuid env' (cd_next t))) t"
    and "list_all (leg_row_ok env') (map (leg_row_of (ce_uuid env' (cd_next t))) (enumerate 0 legs'))"
  shows "cd_sent (snd (combo_confirm env' (Some place) nonce p net t)) = cd_sent s @ [(client, u, legs')]"
proof -
  have stored: "map_of (cd_nonces t) nonce = Some (payload_hash legs client, ce_now env + 120)" and sent: "cd_sent t = cd_sent s"
    using assms(1,2)
    by (auto simp: combo_preview_def abind_def of_res_def aret_def Let_def NONCE_TTL_def split: sum.splits prod.splits if_splits)
  have h: "payload_hash legs client = payload_hash legs' (cf_client p)" using assms(5,7) by (simp add: payload_hash_def)
  let ?t = "t\<lparr>cd_nonces := AList.delete nonce (cd_nonces t)\<rparr>" and ?cid = "ce_uuid env' (cd_next t)"
  let ?c = "combo_row_of env' u p net ?cid"
  have "combo_confirm env' (Some place) nonce p net t = place_combo env' (Some place) p net legs' ?t"
    using stored assms(3,4,6) h by (simp add: combo_confirm_def abind_def nonce_take_def of_res_def)
  moreover have "combo_row_ok env' ?c (?t\<lparr>cd_next := Suc (cd_next t)\<rparr>)" using assms(9) by (simp add: combo_row_ok_def)
  ultimately have "combo_confirm env' (Some place) nonce p net t = dispatch_combo env' (Some place) (cf_client p) u ?cid (cf_tif p) legs'
      (?t\<lparr>cd_next := Suc (cd_next t), cd_combos := cd_combos t @ [?c],
          cd_legs := cd_legs t @ map (leg_row_of ?cid) (enumerate 0 legs')\<rparr>)"
    using assms(8,10) by (simp add: place_combo_def abind_def aseq_def of_res_def insert_combo_def insert_legs_def Let_def)
  then show ?thesis using dispatch_with_broker [of env' place "cf_client p" u ?cid] sent assms(5) by (simp add: outside_def)
qed

text \<open>Through the API no combo is ever placed: it passes no broker, so every confirmation ends in an error, whatever its payload and the state,
  and nothing is sent.\<close>

theorem api_confirm_never_places:
  "\<exists>x. fst (api_confirm_combo env nonce csrf p s) = Inl x \<and> cd_sent (snd (api_confirm_combo env nonce csrf p s)) = cd_sent s"
proof -
  have no: "\<exists>x. fst (place_combo env None p net legs t) = Inl x" for net legs t
    by (auto simp: place_combo_def abind_def aseq_def of_res_def insert_combo_def insert_legs_def Let_def dispatch_combo_def set_combo_status_def
        split: sum.split)
  have "\<exists>x. fst (combo_confirm env None nonce p net t) = Inl x" for net t
    using no by (auto simp: combo_confirm_def abind_def of_res_def nonce_take_def split: sum.split option.split)
  then have err: "\<exists>x. fst (abind (of_res (to_decimal (ce_dec env (cf_net p)))) (combo_confirm env None nonce p) s) = Inl x"
    by (auto simp: abind_def of_res_def split: sum.split)
  have e: "\<exists>x. fst (api_confirm_combo env nonce csrf p s) = Inl x"
    using err by (auto simp: api_confirm_combo_def api_confirm_with_def split: sum.splits exn.splits prod.splits)
  have "keeps outside (place_combo env None p net legs)" for net legs
    unfolding place_combo_def by (intro keeps_intro keeps_dispatch_without_broker)
  then have "cd_sent (snd (combo_confirm env None nonce p net t)) = cd_sent t" for net t
    by (auto simp: combo_confirm_def abind_def of_res_def nonce_take_def keeps_def outside_def split: sum.split option.split)
  then have "cd_sent (snd (api_confirm_combo env nonce csrf p s)) = cd_sent s"
    using api_confirm_outside [of None env nonce csrf p s] by (auto simp: api_confirm_combo_def outside_def)
  with e show ?thesis by blast
qed

section \<open>Cancellation and fills\<close>

lemma map2_map: "map2 g xs (map h xs) = map (\<lambda>x. g x (h x)) xs"
  by (induction xs) auto

lemma recompute_not_cancelled:
  "l \<in> set legs \<Longrightarrow> l_combo l = cid \<Longrightarrow> 0 < l_filled l \<Longrightarrow> recompute_combo_status legs cid \<noteq> ''cancelled''"
  by (auto simp: recompute_combo_status_def Let_def list_all_iff list_ex_iff)

lemma combo_fill_status:
  assumes "c \<in> set (cd_combos (combo_fill cid oid q a s))" and "cb_id c = cid"
  shows "cb_status c = recompute_combo_status (map (\<lambda>l. if l_order l = Some oid then l\<lparr>l_status := ''filled'', l_filled := q, l_avg := Some a\<rparr>
    else l) (map leg_row.truncate (cd_legs s))) cid"
proof -
  let ?cs = "map combo_row.truncate (cd_combos s)" and ?ls = "map leg_row.truncate (cd_legs s)"
  let ?ls' = "map (\<lambda>l. if l_order l = Some oid then l\<lparr>l_status := ''filled'', l_filled := q, l_avg := Some a\<rparr> else l) ?ls"
  have found: "cid \<in> cb_id ` set ?cs"
  proof (rule ccontr)
    assume n: "cid \<notin> cb_id ` set ?cs"
    then have "cd_combos (combo_fill cid oid q a s) = map2 (\<lambda>c r. c\<lparr>cb_status := cb_status r\<rparr>) (cd_combos s) ?cs"
      by (simp add: combo_fill_def handle_fill_def)
    then show False using assms n by (auto simp: map2_map combo_row.truncate_def image_image)
  qed
  have "fst (handle_fill (Some cid) oid q a (?cs, ?ls))
      = map (\<lambda>c. if cb_id c = cid then c\<lparr>cb_status := recompute_combo_status ?ls' cid\<rparr> else c) ?cs"
    using found by (simp add: handle_fill_def Let_def)
  then have "cd_combos (combo_fill cid oid q a s) = map (\<lambda>c. c\<lparr>cb_status := cb_status
      (if cb_id (combo_row.truncate c) = cid then (combo_row.truncate c)\<lparr>cb_status := recompute_combo_status ?ls' cid\<rparr> else combo_row.truncate c)\<rparr>) (cd_combos s)"
    by (simp add: combo_fill_def split_beta Let_def map2_map)
  then obtain d where d: "c = d\<lparr>cb_status := cb_status
      (if cb_id (combo_row.truncate d) = cid then (combo_row.truncate d)\<lparr>cb_status := recompute_combo_status ?ls' cid\<rparr> else combo_row.truncate d)\<rparr>"
    using assms(1) by auto
  have "cb_id (combo_row.truncate d) = cb_id d" by (simp add: combo_row.truncate_def)
  moreover have "cb_id d = cid" using assms(2) unfolding d by simp
  ultimately show ?thesis using d by simp
qed

text \<open>A cancellation stays in the database: it sends nothing and touches neither the legs nor their orders, which stay where they were at the
  broker, and the next fill of one of them takes the combo out of \<open>cancelled\<close>.\<close>

theorem cancelled_combo_comes_back:
  assumes "api_cancel_combo combo_id csrf acct s = (Inr (), t)" and "parse_uuid combo_id = Inr cid"
    and "l \<in> set (cd_legs s)" and "l_combo l = cid" and "l_order l = Some oid" and "0 < q"
  shows "cd_sent t = cd_sent s \<and> cd_legs t = cd_legs s \<and> cd_children t = cd_children s
    \<and> (\<exists>c \<in> set (cd_combos t). cb_id c = cid \<and> cb_status c = ''cancelled'')
    \<and> (\<forall>c \<in> set (cd_combos (combo_fill cid oid q a t)). cb_id c = cid \<longrightarrow> cb_status c \<noteq> ''cancelled'')"
proof -
  obtain b c where c: "find_combo cid b s = Some c" and t: "t = put_combo cid (cb_status_update (\<lambda>_. ''cancelled'')) s"
    using assms(1,2)
    by (auto simp: api_cancel_combo_def parse_query_uuid_def rbind_Inr_iff split: if_splits sum.splits option.splits)
  have "c \<in> set (cd_combos s)" "cb_id c = cid" using find_Some_iff' [OF c [unfolded find_combo_def]] by auto
  then have "c\<lparr>cb_status := ''cancelled''\<rparr> \<in> set (cd_combos t)"
    unfolding t put_combo_def by simp
  then have cancelled: "\<exists>c \<in> set (cd_combos t). cb_id c = cid \<and> cb_status c = ''cancelled''"
    using \<open>cb_id c = cid\<close> by (rule_tac bexI) auto
  have legs: "cd_legs t = cd_legs s" by (simp add: t put_combo_def)
  let ?ls' = "map (\<lambda>l. if l_order l = Some oid then l\<lparr>l_status := ''filled'', l_filled := q, l_avg := Some a\<rparr> else l)
      (map leg_row.truncate (cd_legs t))"
  have "(leg_row.truncate l)\<lparr>l_status := ''filled'', l_filled := q, l_avg := Some a\<rparr> \<in> set ?ls'"
    unfolding legs set_map
  proof (rule image_eqI [of _ _ "leg_row.truncate l"])
    show "leg_row.truncate l \<in> leg_row.truncate ` set (cd_legs s)" using assms(3) by (rule imageI)
  qed (simp add: leg_row.truncate_def assms(5))
  then have "recompute_combo_status ?ls' cid \<noteq> ''cancelled''"
    by (rule recompute_not_cancelled) (use assms(4,6) in \<open>simp_all add: leg_row.truncate_def\<close>)
  then have "cb_status c \<noteq> ''cancelled''" if "c \<in> set (cd_combos (combo_fill cid oid q a t))" "cb_id c = cid" for c
    unfolding combo_fill_status [OF that] .
  then show ?thesis using cancelled legs by (simp add: t put_combo_def)
qed

section \<open>The pages of the list\<close>

definition combo_key :: "combo_rec \<Rightarrow> int \<times> nat" where
  "combo_key c = (cb_created c, hex_value (cb_id c))"

text \<open>A client that asks for the next page with the last key it has seen, at most \<open>n\<close> times.\<close>

fun list_pages :: "nat \<Rightarrow> uuid option \<Rightarrow> string option \<Rightarrow> int \<Rightarrow> (int \<times> nat) option \<Rightarrow> combo_rec list \<Rightarrow> combo_rec list" where
  "list_pages 0 acct st limit before cs = []"
| "list_pages (Suc n) acct st limit before cs =
     (case list_combos acct st limit before cs of
        Inl _ \<Rightarrow> []
      | Inr (items, others) \<Rightarrow>
          items @ (if others \<and> items \<noteq> [] then list_pages n acct st limit (Some (combo_key (last items))) cs else []))"

definition wanted :: "uuid option \<Rightarrow> string option \<Rightarrow> combo_rec \<Rightarrow> bool" where
  "wanted acct st c \<longleftrightarrow> (case acct of None \<Rightarrow> True | Some a \<Rightarrow> cb_account c = a) \<and> (case st of None \<Rightarrow> True | Some t \<Rightarrow> cb_status c = t)"

lemma sorted_wrt_two_keys:
  fixes f :: "'a \<Rightarrow> 'b :: linorder" and g :: "'a \<Rightarrow> 'c :: linorder"
  assumes "sorted (map f xs)" and "\<And>k. sorted (map g (filter (\<lambda>x. f x = k) xs))"
  shows "sorted_wrt (\<lambda>x y. f x < f y \<or> f x = f y \<and> g x \<le> g y) xs"
  using assms
proof (induction xs)
  case Nil
  then show ?case by simp
next
  case (Cons x xs)
  have "sorted (map g (filter (\<lambda>y. f y = k) xs))" for k
    using Cons.prems(2) [of k] by (auto split: if_splits)
  moreover have "f x < f y \<or> f x = f y \<and> g x \<le> g y" if "y \<in> set xs" for y
  proof -
    have "f x \<le> f y" using Cons.prems(1) that by simp
    moreover have "g x \<le> g y" if "f y = f x" using Cons.prems(2) [of "f x"] \<open>y \<in> set xs\<close> that by simp
    ultimately show ?thesis by (metis order_le_less)
  qed
  ultimately show ?case using Cons.IH Cons.prems(1) by simp
qed

lemma distinct_sorted_wrt: "distinct xs \<Longrightarrow> sorted_wrt (\<noteq>) xs"
  by (induction xs) auto

lemma newest_first_filter: "filter P (newest_first cs) = newest_first (filter P cs)"
  by (simp add: newest_first_def filter_sort)

lemma newest_first_sorted:
  assumes "inj_on combo_key (set cs)" and "distinct cs"
  shows "sorted_wrt (\<lambda>c d. older d (combo_key c)) (newest_first cs)"
proof -
  let ?f = "\<lambda>c. - cb_created c" and ?g = "\<lambda>c. - int (hex_value (cb_id c))"
  have "sorted_wrt (\<lambda>x y. ?f x < ?f y \<or> ?f x = ?f y \<and> ?g x \<le> ?g y) (newest_first cs)"
  proof (rule sorted_wrt_two_keys)
    show "sorted (map ?f (newest_first cs))" unfolding newest_first_def by (rule sorted_sort_key)
    show "sorted (map ?g (filter (\<lambda>c. ?f c = k) (newest_first cs)))" for k
      unfolding newest_first_def by (simp only: sort_key_stable filter_sort sorted_sort_key)
  qed
  moreover have "distinct (newest_first cs)" using assms(2) by (simp add: newest_first_def)
  then have "sorted_wrt (\<noteq>) (newest_first cs)" by (simp add: distinct_sorted_wrt)
  ultimately have "sorted_wrt (\<lambda>x y. (?f x < ?f y \<or> ?f x = ?f y \<and> ?g x \<le> ?g y) \<and> x \<noteq> y) (newest_first cs)"
    by (auto simp: sorted_wrt_iff_nth_less)
  then show ?thesis
  proof (rule sorted_wrt_mono_rel [rotated])
    fix c d
    assume m: "c \<in> set (newest_first cs)" "d \<in> set (newest_first cs)" and r: "(?f c < ?f d \<or> ?f c = ?f d \<and> ?g c \<le> ?g d) \<and> c \<noteq> d"
    have "combo_key c \<noteq> combo_key d" using m r assms(1) by (auto simp: newest_first_def inj_on_def)
    then show "older d (combo_key c)" using r by (auto simp: older_def combo_key_def)
  qed
qed

lemma older_after:
  assumes "sorted_wrt (\<lambda>c d. older d (combo_key c)) (a @ b)" and "a \<noteq> []"
  shows "filter (\<lambda>c. older c (combo_key (last a))) (a @ b) = b"
proof -
  have asym: "older c (combo_key d) \<Longrightarrow> \<not> older d (combo_key c)" for c d by (auto simp: older_def combo_key_def)
  have irrefl: "\<not> older c (combo_key c)" for c by (simp add: older_def combo_key_def)
  obtain i z where a: "a = i @ [z]" using assms(2) by (metis append_butlast_last_id)
  show ?thesis using assms(1) asym irrefl unfolding a by (auto simp: sorted_wrt_append filter_empty_conv)
qed

lemma list_combos_page:
  assumes "1 \<le> limit" and "filter (\<lambda>c. case before of None \<Rightarrow> True | Some k \<Rightarrow> older c k) (newest_first (filter (wanted acct st) cs)) = b"
  shows "list_combos acct st limit before cs = Inr (take (nat (min limit 100)) b, nat (min limit 100) < length b)"
proof -
  have w: "filter (\<lambda>c. (case acct of None \<Rightarrow> True | Some a \<Rightarrow> cb_account c = a) \<and> (case st of None \<Rightarrow> True | Some t \<Rightarrow> cb_status c = t)
      \<and> (case before of None \<Rightarrow> True | Some k \<Rightarrow> older c k)) cs
    = filter (\<lambda>c. case before of None \<Rightarrow> True | Some k \<Rightarrow> older c k) (filter (wanted acct st) cs)"
    by (auto simp: wanted_def intro!: filter_cong)
  have "newest_first (filter (\<lambda>c. case before of None \<Rightarrow> True | Some k \<Rightarrow> older c k) (filter (wanted acct st) cs)) = b"
    using assms(2) unfolding newest_first_filter .
  then show ?thesis using assms(1) unfolding list_combos_def w Let_def by (auto simp: slice_to_def min_def take_all_iff)
qed

lemma pages_from:
  assumes "1 \<le> limit" and "sorted_wrt (\<lambda>c d. older d (combo_key c)) (newest_first (filter (wanted acct st) cs))"
    and "newest_first (filter (wanted acct st) cs) = a @ b" and "a = [] \<and> before = None \<or> a \<noteq> [] \<and> before = Some (combo_key (last a))"
    and "length b < n"
  shows "list_pages n acct st limit before cs = b"
  using assms(3-5)
proof (induction n arbitrary: a b before)
  case 0
  then show ?case by simp
next
  case (Suc n)
  let ?m = "nat (min limit 100)"
  have "filter (\<lambda>c. case before of None \<Rightarrow> True | Some k \<Rightarrow> older c k) (newest_first (filter (wanted acct st) cs)) = b"
    using Suc.prems(2)
  proof
    assume "a = [] \<and> before = None"
    then show ?thesis using Suc.prems(1) by simp
  next
    assume "a \<noteq> [] \<and> before = Some (combo_key (last a))"
    then show ?thesis using older_after [of a b] assms(2) unfolding Suc.prems(1) by simp
  qed
  note page = list_combos_page [OF assms(1) this]
  have pos: "0 < ?m" using assms(1) by simp
  show ?case
  proof (cases "?m < length b")
    case True
    then have ne: "take ?m b \<noteq> []" using pos by auto
    have "list_pages n acct st limit (Some (combo_key (last (take ?m b)))) cs = drop ?m b"
    proof (rule Suc.IH)
      show "newest_first (filter (wanted acct st) cs) = (a @ take ?m b) @ drop ?m b" using Suc.prems(1) by simp
      show "length (drop ?m b) < n" using Suc.prems(3) True pos by simp
    qed (use ne in simp)
    then show ?thesis using True ne by (simp add: page)
  next
    case False
    then show ?thesis by (simp add: page)
  qed
qed

text \<open>C28: paging through the list ends and is complete: with any positive page size, a client that asks on from the last combo it
  was given, one time more than there are combos at the most, has been given every combo of its account and status once, the newest
  first.\<close>

theorem pages_list_every_combo:
  assumes "1 \<le> limit" and "distinct cs" and "inj_on combo_key (set cs)" and "length cs < n"
  shows "list_pages n acct st limit None cs = newest_first (filter (wanted acct st) cs)"
proof (rule pages_from [OF assms(1), of _ _ _ "[]"])
  show "sorted_wrt (\<lambda>c d. older d (combo_key c)) (newest_first (filter (wanted acct st) cs))"
    by (rule newest_first_sorted) (use assms(2,3) in \<open>auto intro: inj_on_subset\<close>)
  have "length (newest_first (filter (wanted acct st) cs)) \<le> length cs" by (simp add: newest_first_def)
  then show "length (newest_first (filter (wanted acct st) cs)) < n" using assms(4) by linarith
qed simp_all

section \<open>Witnesses\<close>

definition demo_desk :: desk_env where
  "demo_desk = \<lparr>ce_risk = demo_env, ce_uuid = (\<lambda>n. replicate n CHR ''u''), ce_now = 0, ce_created = 0, ce_redis = Inr (),
     ce_leg = (\<lambda>j. case j of JInt k \<Rightarrow> Inr (demo_leg (if k = 90 then ''buy'' else ''sell'') 1 (of_int k) ''C'') | _ \<Rightarrow> Inl (ValueError ''leg'')),
     ce_dec = (\<lambda>_. DNum 0), ce_accounts = [demo_uuid], ce_instruments = [1], ce_taken = []\<rparr>"

definition empty_desk :: combo_db where
  "empty_desk = \<lparr>cd_nonces = [], cd_combos = [], cd_legs = [], cd_children = [], cd_sent = [], cd_next = 0\<rparr>"

definition demo_confirm :: confirm_body where
  "demo_confirm = \<lparr>cf_account = demo_uuid, cf_client = ''combo-'', cf_legs = [JInt 90, JInt 100], cf_canonical = ''c'', cf_type = ''STRADDLE'',
     cf_symbol = ''SPY'', cf_tif = ''DAY'', cf_net = ''0'', cf_kind = ''DEBIT''\<rparr>"

definition demo_broker :: combo_broker where
  "demo_broker = (\<lambda>_. Inr (''B'', [''b1'', ''b2'']))"

definition previewed_desk :: combo_db where
  "previewed_desk = snd (combo_preview demo_desk ''paper'' ''VERTICAL'' ''SPY'' ''c'' ''DAY'' [JInt 90, JInt 100] empty_desk)"

lemma demo_parsed:
  "parse_legs demo_desk [JInt 90, JInt 100] = Inr [demo_leg ''buy'' 1 90 ''C'', demo_leg ''sell'' 1 100 ''C'']"
  by (simp add: demo_desk_def)

lemma demo_preview:
  "\<exists>e. combo_preview demo_desk ''paper'' ''VERTICAL'' ''SPY'' ''c'' ''DAY'' [JInt 90, JInt 100] empty_desk
      = (Inr (Previewed ''combo-'' ''u'' e []), previewed_desk)"
proof -
  let ?legs = "[demo_leg ''buy'' 1 90 ''C'', demo_leg ''sell'' 1 100 ''C'']"
  obtain spec where v: "validate ''VERTICAL'' ?legs ''SPY'' ''c'' ''DAY'' ''paper'' = Inr spec"
    by (simp add: validate_def VALIDATORS_def validate_vertical_def combo_demo_defs)
  obtain e where e: "compute_envelope spec (fetch_mids ?legs) = Inr e"
    using valid_combo_total [OF v, of "fetch_mids ?legs"] by (auto simp: fetch_mids_def demo_leg_def well_spelled_def)
  have "parse_uuid ''paper'' = Inl (ValueError ''badly formed hexadecimal UUID string'')" by code_simp
  then have "fst (combo_preview demo_desk ''paper'' ''VERTICAL'' ''SPY'' ''c'' ''DAY'' [JInt 90, JInt 100] empty_desk)
      = Inr (Previewed ''combo-'' ''u'' e [])"
    using v e by (simp add: combo_preview_def demo_parsed abind_def of_res_def in_coroutine_def envelope_verdict_def check_combo_envelope_def
        Let_def empty_desk_def) (simp add: demo_desk_def)
  then show ?thesis by (metis previewed_desk_def prod.collapse)
qed

lemma preview_tables: "combo_preview env acct ty und cid tif js s = (r, t) \<Longrightarrow> cd_combos t = cd_combos s"
  by (auto simp: combo_preview_def abind_def of_res_def aret_def Let_def split: sum.splits prod.splits if_splits)

theorem preview_not_bound_to_account_witness:
  "cd_sent (snd (combo_confirm demo_desk (Some demo_broker) ''u'' demo_confirm 0 previewed_desk))
     = [(''combo-'', demo_uuid, [demo_leg ''buy'' 1 90 ''C'', demo_leg ''sell'' 1 100 ''C''])]"
proof -
  obtain e where e: "combo_preview demo_desk ''paper'' ''VERTICAL'' ''SPY'' ''c'' ''DAY'' [JInt 90, JInt 100] empty_desk
      = (Inr (Previewed ''combo-'' ''u'' e []), previewed_desk)" using demo_preview by blast
  have u: "parse_uuid demo_uuid = Inr demo_uuid" by code_simp
  have c: "cd_combos previewed_desk = []"
    using e preview_tables [OF e] by (simp add: empty_desk_def)
  let ?legs = "[demo_leg ''buy'' 1 90 ''C'', demo_leg ''sell'' 1 100 ''C'']" and ?cid = "ce_uuid demo_desk (cd_next previewed_desk)"
  have row: "combo_row_ok demo_desk (combo_row_of demo_desk demo_uuid demo_confirm 0 ?cid) previewed_desk"
    by (simp add: combo_row_ok_def combo_row_of_def c fits_numeric_def demo_confirm_def) (simp add: demo_desk_def)
  have legs: "list_all (leg_row_ok demo_desk) (map (leg_row_of ?cid) (enumerate 0 ?legs))"
    by (simp add: leg_row_ok_def leg_row_of_def fits_numeric_def demo_leg_def plain_def) (simp add: demo_desk_def)
  have "cd_sent (snd (combo_confirm demo_desk (Some demo_broker) ''u'' demo_confirm 0 previewed_desk))
      = cd_sent empty_desk @ [(''combo-'', demo_uuid, ?legs)]"
    by (rule preview_not_bound_to_account [OF e demo_parsed _ _ _ _ _ _ row legs])
      (simp_all add: demo_parsed demo_confirm_def u, simp_all add: demo_desk_def)
  then show ?thesis by (simp add: empty_desk_def)
qed

definition confirmed_desk :: combo_db where
  "confirmed_desk = snd (api_confirm_with (Some demo_broker) demo_desk ''u'' ''u'' demo_confirm previewed_desk)"

definition demo_ops :: "combo_op list" where
  "demo_ops = [Op_Preview demo_desk ''paper'' ''VERTICAL'' ''SPY'' ''c'' ''DAY'' [JInt 90, JInt 100],
     Op_Confirm (Some demo_broker) demo_desk ''u'' ''u'' demo_confirm, Op_Confirm (Some demo_broker) demo_desk ''u'' ''u'' demo_confirm]"

theorem combo_dispatch_spends_preview_witness:
  "\<exists>s' passed. fold combo_step demo_ops (empty_desk, []) = (s', passed)
     \<and> mset (map sent_hash (cd_sent s')) \<subseteq># mset (map (\<lambda>(legs, client). payload_hash legs client) passed)"
proof -
  obtain s' passed where f: "fold combo_step demo_ops (empty_desk, []) = (s', passed)" by fastforce
  from combo_dispatch_spends_preview [OF _ _ f] show ?thesis using f by (simp add: empty_desk_def)
qed

definition live_combo :: combo_db where
  "live_combo = empty_desk\<lparr>cd_combos := [(combo_row_of demo_desk demo_uuid demo_confirm 0 demo_uuid)\<lparr>cb_status := ''working''\<rparr>],
     cd_legs := [(leg_row_of demo_uuid (0, demo_leg ''buy'' 1 90 ''C''))\<lparr>l_order := Some ''o1'', l_status := ''working''\<rparr>]\<rparr>"

theorem cancelled_combo_comes_back_witness:
  "\<exists>t. api_cancel_combo demo_uuid demo_uuid None live_combo = (Inr (), t)
     \<and> (\<forall>c \<in> set (cd_combos (combo_fill demo_uuid ''o1'' 1 5 t)). cb_id c = demo_uuid \<longrightarrow> cb_status c \<noteq> ''cancelled'')"
proof -
  have u: "parse_uuid demo_uuid = Inr demo_uuid" by code_simp
  have "fst (api_cancel_combo demo_uuid demo_uuid None live_combo) = Inr ()"
    by (simp add: api_cancel_combo_def parse_query_uuid_def u find_combo_def live_combo_def combo_row_of_def)
  then obtain t where t: "api_cancel_combo demo_uuid demo_uuid None live_combo = (Inr (), t)" by (metis prod.collapse)
  let ?l = "(leg_row_of demo_uuid (0, demo_leg ''buy'' 1 90 ''C''))\<lparr>l_order := Some ''o1'', l_status := ''working''\<rparr>"
  show ?thesis
    using t cancelled_combo_comes_back [OF t u, of ?l "''o1''" 1 5] by (simp add: live_combo_def leg_row_of_def)
qed

theorem pages_list_every_combo_witness:
  "list_pages 2 None None 1 None (cd_combos live_combo) = newest_first (filter (wanted None None) (cd_combos live_combo))"
  by (rule pages_list_every_combo) (simp_all add: live_combo_def)

end
