(* ===== verification/Orders_Bracket.thy ===== *)
theory Orders_Bracket
  imports Orders_Guarantees
begin

text \<open>
  Bracket orders: \<open>place_bracket\<close> of \<open>backend/app/services/orders_service.py\<close> with its nonce, its answer
  from stored rows and its messages, and \<open>OrderBracketRequest\<close> of \<open>backend/app/schemas/orders.py\<close>.

  The tables, the nonces and the outbox are those of \<open>place_order\<close> (\<open>world\<close>); the configuration,
  the accounts and the contracts are in its \<open>place_env\<close>, what only a bracket needs (the
  exchange of a contract, fresh ids, the sidecar's answer to the three orders) is \<open>bracket_env\<close>.
  A price is present or not: the schema's pattern lets no empty text pass. Rows of
  tables outside \<open>world\<close> that point to an order (tags, bots, decisions) never refuse a deletion
  and are left out.
\<close>

section \<open>Requests and answers\<close>

record bracket_req =
  bk_nonce :: string
  bk_account :: uuid
  bk_client :: uuid
  bk_conid :: string
  bk_side :: side
  bk_tif :: otif
  bk_qty :: decimal
  bk_limit :: decimal
  bk_stop :: "decimal option"
  bk_target :: "decimal option"

record bracket_reply =
  br_parent :: string
  br_stop :: string
  br_target :: string

record bracket_env =
  be_exchange :: "string \<Rightarrow> string"
  be_parent :: uuid
  be_sl :: uuid
  be_tp :: uuid
  be_sl_client :: uuid
  be_tp_client :: uuid
  be_reply :: "place_wire \<Rightarrow> place_wire option \<Rightarrow> place_wire option \<Rightarrow> exn + bracket_reply"

record leg_answer =
  la_id :: uuid
  la_leg :: string
  la_broker :: string
  la_status :: ostatus

record bracket_answer =
  ba_parent :: uuid
  ba_client :: uuid
  ba_broker :: string
  ba_status :: ostatus
  ba_legs :: "leg_answer list"
  ba_oca :: string

fun opposite :: "side \<Rightarrow> side" where
  "opposite Buy = Sell"
| "opposite Sell = Buy"

section \<open>Checks\<close>

definition bracket_prices :: "bracket_req \<Rightarrow> exn + unit" where
  "bracket_prices q =
     (let bad = Inl (HttpError 400 ''bracket_invalid_prices'') in
      if bk_stop q = None \<and> bk_target q = None then Inl (HttpError 400 ''bracket_invalid_legs'')
      else if bk_side q = Buy then
        (if (case bk_stop q of Some s \<Rightarrow> bk_limit q \<le> s | None \<Rightarrow> False) then bad
         else if (case bk_target q of Some t \<Rightarrow> t \<le> bk_limit q | None \<Rightarrow> False) then bad else Inr ())
      else
        (if (case bk_stop q of Some s \<Rightarrow> s \<le> bk_limit q | None \<Rightarrow> False) then bad
         else if (case bk_target q of Some t \<Rightarrow> bk_limit q \<le> t | None \<Rightarrow> False) then bad else Inr ()))"

record bracket_ticket =
  bt_account :: account_rec
  bt_qty :: decimal
  bt_notional :: decimal

definition bracket_checks :: "place_env \<Rightarrow> bracket_req \<Rightarrow> exn + bracket_ticket" where
  "bracket_checks env q =
     rbind (bracket_prices q) (\<lambda>_.
     rbind (check_kill_switch env ''kill_switch'') (\<lambda>_.
     rbind (resolve_account env (bk_account q)) (\<lambda>ac.
     rbind (validate_pre_dispatch env False (gateway_label ac) LIMIT (bk_tif q) None False) (\<lambda>_.
     rbind (canonicalize_qty (Some (bk_qty q))) (\<lambda>x.
     rbind (get_account_policy (pe_cfg env) (gateway_label ac) (ac_mode ac)) (\<lambda>pol.
       if cap_status (x * bk_limit q) (max_notional_per_order pol) = Exceeded_Cap
       then Inl (HttpError 422 ''max_notional_exceeded'')
       else Inr \<lparr>bt_account = ac, bt_qty = x, bt_notional = x * bk_limit q\<rparr>))))))"

definition consume_preview_nonce :: "bracket_req \<Rightarrow> decimal \<Rightarrow> (unit, 'r world) act" where
  "consume_preview_nonce q x =
     consume_nonce (bk_account q, bk_nonce q) (HttpError 422 ''unknown_nonce'') (HttpError 422 ''payload_mismatch'')
       (preview_payload_hash (bk_account q) (bk_conid q) (bk_side q) LIMIT (bk_tif q) (Some x) (Some (bk_limit q)) None)"

section \<open>A bracket that is already stored\<close>

definition parent_of :: "'r world \<Rightarrow> order_row \<Rightarrow> uuid option" where
  "parent_of w r = (case w_cols w (o_id r) of Some c \<Rightarrow> oc_parent c | None \<Rightarrow> None)"

definition created_of :: "'r world \<Rightarrow> order_row \<Rightarrow> int" where
  "created_of w r = (case w_cols w (o_id r) of Some c \<Rightarrow> oc_created c | None \<Rightarrow> 0)"

text \<open>\<open>ORDER BY created_at, id\<close>.\<close>

definition children_of :: "uuid \<Rightarrow> 'r world \<Rightarrow> order_row list" where
  "children_of pid w =
     sort_key (created_of w) (sort_key (\<lambda>r. hex_value (o_id r))
       (filter (\<lambda>r. parent_of w r = Some pid) (orders (w_db w))))"

definition expected_children :: "bracket_req \<Rightarrow> nat" where
  "expected_children q = (if bk_stop q \<noteq> None then 1 else 0) + (if bk_target q \<noteq> None then 1 else 0)"

definition leg_from_db :: "'r world \<Rightarrow> order_row \<Rightarrow> leg_answer" where
  "leg_from_db w r =
     \<lparr>la_id = o_id r,
      la_leg = (case w_cols w (o_id r) of
          Some c \<Rightarrow> if oc_type c = STOP then ''stop_loss'' else ''take_profit'' | None \<Rightarrow> ''take_profit''),
      la_broker = (case o_broker r of Some b \<Rightarrow> b | None \<Rightarrow> []), la_status = o_status r\<rparr>"

definition build_bracket_response_from_db :: "'r world \<Rightarrow> order_row \<Rightarrow> order_row list \<Rightarrow> bracket_answer" where
  "build_bracket_response_from_db w p cs =
     \<lparr>ba_parent = o_id p, ba_client = o_client p,
      ba_broker = (case o_broker p of Some b \<Rightarrow> b | None \<Rightarrow> []), ba_status = o_status p,
      ba_legs = map (leg_from_db w) cs,
      ba_oca = (case w_cols w (o_id p) of
          Some c \<Rightarrow> (case oc_oca c of Some g \<Rightarrow> g | None \<Rightarrow> []) | None \<Rightarrow> [])\<rparr>"

section \<open>Statements\<close>

text \<open>Statements up to a commit: an exception takes the tables back, not what Redis or the broker saw.\<close>

definition transaction :: "('a, 'r world) act \<Rightarrow> ('a, 'r world) act" where
  "transaction m = (\<lambda>w. case m w of
       (Inl e, w') \<Rightarrow> (Inl e, w'\<lparr>w_db := w_db w, w_cols := w_cols w\<rparr>)
     | (Inr x, w') \<Rightarrow> (Inr x, w'))"

text \<open>
  \<open>DELETE FROM orders\<close>: an execution or a combo leg that points to a row refuses; events and
  child orders that do are detached.
\<close>

definition delete_orders :: "('r world \<Rightarrow> order_row \<Rightarrow> bool) \<Rightarrow> (unit, 'r world) act" where
  "delete_orders P = (\<lambda>w.
     let gone = map o_id (filter (P w) (orders (w_db w))); db = w_db w in
     if (\<exists>f \<in> set (fills db). f_order f \<in> set gone) \<or> (\<exists>l \<in> set (legs db). \<exists>i. l_order l = Some i \<and> i \<in> set gone)
     then (Inl DatabaseError, w)
     else (Inr (), w\<lparr>
       w_db := db\<lparr>orders := filter (\<lambda>r. o_id r \<notin> set gone) (orders db),
                  events := map (\<lambda>e. if \<exists>i. er_order e = Some i \<and> i \<in> set gone then e\<lparr>er_order := None\<rparr> else e) (events db)\<rparr>,
       w_cols := (\<lambda>i. if i \<in> set gone then None
                      else map_option (\<lambda>c. if \<exists>p. oc_parent c = Some p \<and> p \<in> set gone then c\<lparr>oc_parent := None\<rparr> else c) (w_cols w i))\<rparr>))"

definition delete_bracket :: "uuid \<Rightarrow> (unit, 'r world) act" where
  "delete_bracket pid =
     transaction (aseq (delete_orders (\<lambda>w r. parent_of w r = Some pid)) (delete_orders (\<lambda>w r. o_id r = pid)))"

text \<open>\<open>INSERT\<close> without \<open>ON CONFLICT\<close>.\<close>

definition insert_strict :: "order_row \<Rightarrow> order_cols \<Rightarrow> (unit, 'r world) act" where
  "insert_strict row cols = abind (insert_order row cols) (\<lambda>r. case r of None \<Rightarrow> fail DatabaseError | Some _ \<Rightarrow> aret ())"

definition contract_description :: "contract_rec \<Rightarrow> string \<Rightarrow> string" where
  "contract_description c ex = join_with (CHR '' '') (filter (\<lambda>p. p \<noteq> []) [ct_symbol c, ex, ct_currency c])"

definition oca_group :: "uuid \<Rightarrow> string" where
  "oca_group pid = ''BRK-'' @ take 8 (filter (\<lambda>c. c \<noteq> CHR ''-'') pid)"

definition parent_cols :: "place_env \<Rightarrow> bracket_env \<Rightarrow> bracket_req \<Rightarrow> string \<Rightarrow> decimal \<Rightarrow> order_cols" where
  "parent_cols env be q lbl n =
     \<lparr>oc_conid = bk_conid q, oc_symbol = lbl, oc_side = bk_side q, oc_type = LIMIT, oc_tif = bk_tif q,
      oc_limit = Some (bk_limit q), oc_stop = None, oc_notional = quantize8 n, oc_cancel_at = None,
      oc_created = pe_now env, oc_parent = None, oc_oca = Some (oca_group (be_parent be)), oc_algo = None\<rparr>"

definition child_cols ::
  "place_env \<Rightarrow> bracket_env \<Rightarrow> bracket_req \<Rightarrow> string \<Rightarrow> decimal \<Rightarrow> otype \<Rightarrow> decimal \<Rightarrow> order_cols" where
  "child_cols env be q lbl x ty p =
     (parent_cols env be q lbl (x * p))\<lparr>oc_side := opposite (bk_side q), oc_type := ty,
        oc_limit := (if ty = LIMIT then Some p else None), oc_stop := (if ty = LIMIT then None else Some p),
        oc_parent := Some (be_parent be)\<rparr>"

definition insert_bracket ::
  "place_env \<Rightarrow> bracket_env \<Rightarrow> bracket_req \<Rightarrow> string \<Rightarrow> bracket_ticket \<Rightarrow> (unit, 'r world) act" where
  "insert_bracket env be q lbl tk =
     transaction
       (aseq (insert_strict (new_row (be_parent be) (bk_account q) (bk_client q) (bt_qty tk)) (parent_cols env be q lbl (bt_notional tk)))
       (aseq (case bk_stop q of None \<Rightarrow> aret ()
                | Some p \<Rightarrow> insert_strict (new_row (be_sl be) (bk_account q) (be_sl_client be) (bt_qty tk)) (child_cols env be q lbl (bt_qty tk) STOP p))
             (case bk_target q of None \<Rightarrow> aret ()
                | Some p \<Rightarrow> insert_strict (new_row (be_tp be) (bk_account q) (be_tp_client be) (bt_qty tk)) (child_cols env be q lbl (bt_qty tk) LIMIT p))))"

section \<open>Dispatch\<close>

definition build_place_proto ::
  "bracket_req \<Rightarrow> side \<Rightarrow> otype \<Rightarrow> uuid \<Rightarrow> decimal \<Rightarrow> decimal option \<Rightarrow> decimal option \<Rightarrow> place_wire" where
  "build_place_proto q sd ty c x l s =
     \<lparr>pw_client = c, pw_conid = bk_conid q, pw_side = sd, pw_type = ty, pw_tif = bk_tif q, pw_qty = x,
      pw_limit = l, pw_stop = s, pw_trail = None, pw_trail_type = None, pw_trail_limit = None, pw_expiry = None\<rparr>"

definition parent_wire :: "bracket_req \<Rightarrow> decimal \<Rightarrow> place_wire" where
  "parent_wire q x = build_place_proto q (bk_side q) LIMIT (bk_client q) x (Some (bk_limit q)) None"

definition stop_wire :: "bracket_env \<Rightarrow> bracket_req \<Rightarrow> decimal \<Rightarrow> place_wire option" where
  "stop_wire be q x =
     map_option (\<lambda>p. build_place_proto q (opposite (bk_side q)) STOP (be_sl_client be) x None (Some p)) (bk_stop q)"

definition target_wire :: "bracket_env \<Rightarrow> bracket_req \<Rightarrow> decimal \<Rightarrow> place_wire option" where
  "target_wire be q x =
     map_option (\<lambda>p. build_place_proto q (opposite (bk_side q)) LIMIT (be_tp_client be) x (Some p) None) (bk_target q)"

definition reject_bracket :: "uuid \<Rightarrow> (unit, 'r world) act" where
  "reject_bracket pid = (\<lambda>w. (Inr (), w\<lparr>w_db := (w_db w)\<lparr>orders :=
     map (\<lambda>r. if o_id r = pid \<or> parent_of w r = Some pid then r\<lparr>o_status := Rejected\<rparr> else r) (orders (w_db w))\<rparr>\<rparr>))"

text \<open>One leg's \<open>UPDATE\<close> and its part of the answer; a leg without a broker id is passed over.\<close>

definition acknowledge_leg :: "'p option \<Rightarrow> string \<Rightarrow> uuid \<Rightarrow> string \<Rightarrow> (leg_answer list, 'r world) act" where
  "acknowledge_leg p leg i b =
     (if p \<noteq> None \<and> b \<noteq> []
      then aseq (mark_order_submitted i b) (aret [\<lparr>la_id = i, la_leg = leg, la_broker = b, la_status = Submitted\<rparr>])
      else aret [])"

definition acknowledge_bracket :: "bracket_env \<Rightarrow> bracket_req \<Rightarrow> bracket_reply \<Rightarrow> (bracket_answer, 'r world) act" where
  "acknowledge_bracket be q res =
     transaction
       (aseq (mark_order_submitted (be_parent be) (br_parent res))
       (abind (acknowledge_leg (bk_stop q) ''stop_loss'' (be_sl be) (br_stop res)) (\<lambda>sl.
        abind (acknowledge_leg (bk_target q) ''take_profit'' (be_tp be) (br_target res)) (\<lambda>tp.
        aret \<lparr>ba_parent = be_parent be, ba_client = bk_client q, ba_broker = br_parent res, ba_status = Submitted,
              ba_legs = sl @ tp, ba_oca = oca_group (be_parent be)\<rparr>))))"

definition dispatch_bracket :: "bracket_env \<Rightarrow> bracket_req \<Rightarrow> bracket_ticket \<Rightarrow> (bracket_answer, 'r world) act" where
  "dispatch_bracket be q tk =
     (let p = parent_wire q (bt_qty tk); s = stop_wire be q (bt_qty tk); t = target_wire be q (bt_qty tk) in
      aseq (send (BracketMsg (account_number (bt_account tk)) p s t))
      (case be_reply be p s t of
         Inl e \<Rightarrow>
           if e \<in> {SidecarTimeout, SidecarUnavailable}
           then aseq (reject_bracket (be_parent be)) (fail (HttpError 503 ''sidecar_unavailable''))
           else fail e
       | Inr res \<Rightarrow> acknowledge_bracket be q res))"

definition submit_bracket ::
  "place_env \<Rightarrow> bracket_env \<Rightarrow> bracket_req \<Rightarrow> bracket_ticket \<Rightarrow> (bracket_answer, 'r world) act" where
  "submit_bracket env be q tk =
     aseq (of_res (pe_client env (gateway_label (bt_account tk))))
     (abind (of_res (resolve_contract env (bk_conid q))) (\<lambda>c.
      aseq (insert_bracket env be q (contract_description c (be_exchange be (bk_conid q))) tk)
      (aseq (of_res (pe_client env (gateway_label (bt_account tk))))
        (dispatch_bracket be q tk))))"

definition place_bracket :: "place_env \<Rightarrow> bracket_env \<Rightarrow> bracket_req \<Rightarrow> (bracket_answer, 'r world) act" where
  "place_bracket env be q =
     abind (of_res (bracket_checks env q)) (\<lambda>tk.
     abind (aread (lookup_order (\<lambda>r. o_account r = bk_account q \<and> o_client r = bk_client q))) (\<lambda>ex.
     case ex of
       None \<Rightarrow> aseq (consume_preview_nonce q (bt_qty tk)) (submit_bracket env be q tk)
     | Some p \<Rightarrow>
         abind (aread (children_of (o_id p))) (\<lambda>cs.
         if length cs = expected_children q then (\<lambda>w. (Inr (build_bracket_response_from_db w p cs), w))
         else aseq (consume_preview_nonce q (bt_qty tk))
                (aseq (delete_bracket (o_id p)) (submit_bracket env be q tk)))))"

section \<open>What is left alone\<close>

lemma keeps_transaction [keeps_intro]:
  assumes "keeps f m" and "\<And>d w. f (w\<lparr>w_db := d\<rparr>) = f w" and "\<And>c w. f (w\<lparr>w_cols := c\<rparr>) = f w"
  shows "keeps f (transaction m)"
  unfolding keeps_def
proof
  fix w
  obtain r w' where e: "m w = (r, w')" by fastforce
  then show "f (snd (transaction m w)) = f w"
    using keepsD [OF assms(1) e] assms(2,3) by (cases r) (simp_all add: transaction_def)
qed

lemma keeps_consume_preview [keeps_intro]:
  "\<lbrakk>\<And>k w. f (w\<lparr>w_conn := k\<rparr>) = f w; \<And>n w. f (w\<lparr>w_nonces := n\<rparr>) = f w\<rbrakk> \<Longrightarrow> keeps f (consume_preview_nonce q x)"
  unfolding consume_preview_nonce_def consume_nonce_def by (intro keeps_intro)

lemma keeps_delete_orders [keeps_intro]:
  "\<lbrakk>\<And>d w. f (w\<lparr>w_db := d\<rparr>) = f w; \<And>c w. f (w\<lparr>w_cols := c\<rparr>) = f w\<rbrakk> \<Longrightarrow> keeps f (delete_orders P)"
  by (simp add: keeps_def delete_orders_def Let_def)

lemma keeps_delete_bracket [keeps_intro]:
  "\<lbrakk>\<And>d w. f (w\<lparr>w_db := d\<rparr>) = f w; \<And>c w. f (w\<lparr>w_cols := c\<rparr>) = f w\<rbrakk> \<Longrightarrow> keeps f (delete_bracket i)"
  unfolding delete_bracket_def by (intro keeps_intro)

lemma keeps_insert_strict [keeps_intro]:
  "\<lbrakk>\<And>d w. f (w\<lparr>w_db := d\<rparr>) = f w; \<And>c w. f (w\<lparr>w_cols := c\<rparr>) = f w\<rbrakk> \<Longrightarrow> keeps f (insert_strict row cols)"
  unfolding insert_strict_def by (intro keeps_intro)

lemma keeps_insert_bracket [keeps_intro]:
  "\<lbrakk>\<And>d w. f (w\<lparr>w_db := d\<rparr>) = f w; \<And>c w. f (w\<lparr>w_cols := c\<rparr>) = f w\<rbrakk> \<Longrightarrow> keeps f (insert_bracket env be q s tk)"
  unfolding insert_bracket_def by (intro keeps_intro)

lemma keeps_reject_bracket [keeps_intro]: "(\<And>d w. f (w\<lparr>w_db := d\<rparr>) = f w) \<Longrightarrow> keeps f (reject_bracket i)"
  by (simp add: keeps_def reject_bracket_def)

lemma keeps_acknowledge_leg [keeps_intro]: "(\<And>d w. f (w\<lparr>w_db := d\<rparr>) = f w) \<Longrightarrow> keeps f (acknowledge_leg p l i b)"
  unfolding acknowledge_leg_def by (intro keeps_intro)

lemma keeps_acknowledge_bracket [keeps_intro]:
  "\<lbrakk>\<And>d w. f (w\<lparr>w_db := d\<rparr>) = f w; \<And>c w. f (w\<lparr>w_cols := c\<rparr>) = f w\<rbrakk> \<Longrightarrow> keeps f (acknowledge_bracket be q res)"
  unfolding acknowledge_bracket_def by (intro keeps_intro)

lemma keeps_dispatch_bracket [keeps_intro]:
  "\<lbrakk>\<And>m w. f (w\<lparr>w_sent := m\<rparr>) = f w; \<And>d w. f (w\<lparr>w_db := d\<rparr>) = f w; \<And>c w. f (w\<lparr>w_cols := c\<rparr>) = f w\<rbrakk>
   \<Longrightarrow> keeps f (dispatch_bracket be q tk)"
  unfolding dispatch_bracket_def Let_def by (intro keeps_intro)

lemma keeps_submit_bracket [keeps_intro]:
  "\<lbrakk>\<And>m w. f (w\<lparr>w_sent := m\<rparr>) = f w; \<And>d w. f (w\<lparr>w_db := d\<rparr>) = f w; \<And>c w. f (w\<lparr>w_cols := c\<rparr>) = f w\<rbrakk>
   \<Longrightarrow> keeps f (submit_bracket env be q tk)"
  unfolding submit_bracket_def by (intro keeps_intro)

section \<open>What a dispatched bracket has passed\<close>

lemma abind_sent:
  assumes "abind m f w = (r, w')" and "keeps w_sent m" and "w_sent w' \<noteq> w_sent w"
  obtains x t where "m w = (Inr x, t)" and "f x t = (r, w')" and "w_sent w' \<noteq> w_sent t"
  using assms(1)
proof (cases rule: abind_cases)
  case (raised e)
  with keepsD [OF assms(2) raised(1)] assms(3) show thesis by simp
next
  case (went_on x t)
  with keepsD [OF assms(2) went_on(1)] assms(3) that show thesis by simp
qed

lemmas aseq_sent = abind_sent [where f = "\<lambda>_. n" for n, folded aseq_def]

lemma submit_bracket_sent:
  assumes "submit_bracket env be q tk w = (r, w')" and "w_sent w' \<noteq> w_sent w"
  obtains c t where "resolve_contract env (bk_conid q) = Inr c"
    and "insert_bracket env be q (contract_description c (be_exchange be (bk_conid q))) tk w = (Inr (), t)"
    and "dispatch_bracket be q tk t = (r, w')"
proof -
  from assms obtain t1 where 1: "abind (of_res (resolve_contract env (bk_conid q))) (\<lambda>c.
      aseq (insert_bracket env be q (contract_description c (be_exchange be (bk_conid q))) tk)
      (aseq (of_res (pe_client env (gateway_label (bt_account tk)))) (dispatch_bracket be q tk))) w = (r, w')"
    unfolding submit_bracket_def by (elim aseq_sent) (auto intro: keeps_intro simp: of_res_returns)
  then obtain c where c: "resolve_contract env (bk_conid q) = Inr c"
    and 2: "aseq (insert_bracket env be q (contract_description c (be_exchange be (bk_conid q))) tk)
      (aseq (of_res (pe_client env (gateway_label (bt_account tk)))) (dispatch_bracket be q tk)) w = (r, w')"
    using assms(2) by (elim abind_sent) (auto intro: keeps_intro simp: of_res_returns)
  obtain x t where i: "insert_bracket env be q (contract_description c (be_exchange be (bk_conid q))) tk w = (Inr x, t)"
    and 3: "aseq (of_res (pe_client env (gateway_label (bt_account tk)))) (dispatch_bracket be q tk) t = (r, w')"
    and d: "w_sent w' \<noteq> w_sent t"
    by (rule aseq_sent [OF 2 _ assms(2)]) (auto intro: keeps_intro)
  from 3 d have "dispatch_bracket be q tk t = (r, w')"
    by (elim aseq_sent) (auto intro: keeps_intro simp: of_res_returns)
  with c i that show thesis by simp
qed

text \<open>The order that has the account and the client id of the request.\<close>

abbreviation stored_as :: "bracket_req \<Rightarrow> 'r world \<Rightarrow> order_row option" where
  "stored_as q w \<equiv> lookup_order (\<lambda>r. o_account r = bk_account q \<and> o_client r = bk_client q) w"

lemma place_bracket_sent:
  assumes "place_bracket env be q w = (r, w')" and "w_sent w' \<noteq> w_sent w"
  obtains tk c w0 w1 w2 where "bracket_checks env q = Inr tk"
    and "consume_preview_nonce q (bt_qty tk) w = (Inr (), w0)"
    and "if stored_as q w = None then w1 = w0 else delete_bracket (o_id (the (stored_as q w))) w0 = (Inr (), w1)"
    and "resolve_contract env (bk_conid q) = Inr c"
    and "insert_bracket env be q (contract_description c (be_exchange be (bk_conid q))) tk w1 = (Inr (), w2)"
    and "dispatch_bracket be q tk w2 = (r, w')"
proof -
  from assms obtain tk where tk: "bracket_checks env q = Inr tk"
    by (auto simp: place_bracket_def abind_def of_res_def split: sum.splits)
  let ?pay = "aseq (consume_preview_nonce q (bt_qty tk))"
  consider (fresh) "?pay (submit_bracket env be q tk) w = (r, w')" "stored_as q w = None"
    | (again) p where "?pay (aseq (delete_bracket (o_id p)) (submit_bracket env be q tk)) w = (r, w')" "stored_as q w = Some p"
  proof (cases "stored_as q w")
    case None
    with tk assms(1) show thesis by (intro fresh) (simp add: place_bracket_def abind_def of_res_def aread_def)
  next
    case (Some p)
    have "length (children_of (o_id p) w) \<noteq> expected_children q"
    proof
      assume "length (children_of (o_id p) w) = expected_children q"
      with Some tk assms show False by (simp add: place_bracket_def abind_def of_res_def aread_def)
    qed
    with Some tk assms(1) show thesis
      by (intro again [of p]) (simp add: place_bracket_def abind_def of_res_def aread_def)
  qed
  then show thesis
  proof cases
    case fresh
    with assms(2) obtain w0 where c: "consume_preview_nonce q (bt_qty tk) w = (Inr (), w0)"
      and s: "submit_bracket env be q tk w0 = (r, w')" "w_sent w' \<noteq> w_sent w0"
      by (elim aseq_sent) (auto intro: keeps_intro)
    from s show thesis by (rule submit_bracket_sent) (use that [of tk w0 w0] tk c fresh(2) in simp)
  next
    case (again p)
    obtain w0 where c: "consume_preview_nonce q (bt_qty tk) w = (Inr (), w0)"
      and s: "aseq (delete_bracket (o_id p)) (submit_bracket env be q tk) w0 = (r, w')" "w_sent w' \<noteq> w_sent w0"
      by (rule aseq_sent [OF again(1) _ assms(2)]) (auto intro: keeps_intro)
    from s obtain w1 where d: "delete_bracket (o_id p) w0 = (Inr (), w1)"
      and s: "submit_bracket env be q tk w1 = (r, w')" "w_sent w' \<noteq> w_sent w1"
      by (elim aseq_sent) (auto intro: keeps_intro)
    from s show thesis by (rule submit_bracket_sent) (use that [of tk w0 w1] tk c d again(2) in simp)
  qed
qed

lemma dispatch_bracket_outbox:
  assumes "dispatch_bracket be q tk w = (r, w')"
  shows "w_sent w' = w_sent w @ [BracketMsg (account_number (bt_account tk)) (parent_wire q (bt_qty tk))
            (stop_wire be q (bt_qty tk)) (target_wire be q (bt_qty tk))]"
proof -
  let ?p = "parent_wire q (bt_qty tk)" and ?s = "stop_wire be q (bt_qty tk)" and ?t = "target_wire be q (bt_qty tk)"
  let ?m = "BracketMsg (account_number (bt_account tk)) ?p ?s ?t"
  have k: "keeps w_sent (case be_reply be ?p ?s ?t of
         Inl e \<Rightarrow>
           if e \<in> {SidecarTimeout, SidecarUnavailable}
           then aseq (reject_bracket (be_parent be)) (fail (HttpError 503 ''sidecar_unavailable''))
           else fail e
       | Inr res \<Rightarrow> (acknowledge_bracket be q res :: (bracket_answer, 'a world) act))"
    by (intro keeps_intro) simp_all
  have "send ?m w = (Inr (), w\<lparr>w_sent := w_sent w @ [?m]\<rparr>)" by (simp add: send_def)
  with assms keepsD [OF k] show ?thesis
    unfolding dispatch_bracket_def Let_def aseq_def by (subst (asm) abind_step) fastforce+
qed

text \<open>The three orders stand as the sides of the bracket should: exits on the other side, around the entry.\<close>

definition well_placed :: "bracket_req \<Rightarrow> bool" where
  "well_placed q \<longleftrightarrow> (bk_stop q \<noteq> None \<or> bk_target q \<noteq> None)
     \<and> (\<forall>s. bk_stop q = Some s \<longrightarrow> (if bk_side q = Buy then s < bk_limit q else bk_limit q < s))
     \<and> (\<forall>t. bk_target q = Some t \<longrightarrow> (if bk_side q = Buy then bk_limit q < t else t < bk_limit q))"

lemma bracket_prices_ok: "bracket_prices q = Inr () \<longleftrightarrow> well_placed q"
  by (auto simp: bracket_prices_def well_placed_def Let_def not_le split: option.splits)

lemma bracket_checks_passed:
  assumes "bracket_checks env q = Inr tk"
  shows "well_placed q \<and> is_kill_switch_active (pe_cfg env) = Inr False \<and> \<not> pe_maintenance env
       \<and> resolve_account env (bk_account q) = Inr (bt_account tk)
       \<and> bt_qty tk = quantize8 (bk_qty q) \<and> bt_notional tk = bt_qty tk * bk_limit q
       \<and> (\<exists>pol. get_account_policy (pe_cfg env) (gateway_label (bt_account tk)) (ac_mode (bt_account tk)) = Inr pol
              \<and> bt_notional tk \<le> max_notional_per_order pol)"
  using assms
  by (auto simp: bracket_checks_def bracket_prices_ok rbind_Inr_iff check_kill_switch_def validate_pre_dispatch_def
      canonicalize_qty_def not_less split: if_splits)

lemma consume_nonce_paid:
  assumes "consume_nonce k e1 e2 h w = (Inr (), w')"
  shows "(\<exists>n h'. w_nonces w k = Some n \<and> h = Inr h' \<and> nv_hash n = Some h')
       \<and> w_nonces w' = (w_nonces w)(k := None)"
proof -
  obtain v where d: "nonce_getdel k w = (Inr v, w')"
    and "\<exists>n h'. v = Some n \<and> h = Inr h' \<and> nv_hash n = Some h'"
    using assms by (auto simp: consume_nonce_def returns split: option.splits)
  with nonce_getdel_result [OF d] show ?thesis by auto
qed

lemma bracket_sent_facts:
  assumes "place_bracket env be q w = (r, w')" and "w_sent w' \<noteq> w_sent w"
  shows "is_kill_switch_active (pe_cfg env) = Inr False \<and> \<not> pe_maintenance env \<and> well_placed q
       \<and> (\<exists>ac pol. resolve_account env (bk_account q) = Inr ac
            \<and> get_account_policy (pe_cfg env) (gateway_label ac) (ac_mode ac) = Inr pol
            \<and> quantize8 (bk_qty q) * bk_limit q \<le> max_notional_per_order pol
            \<and> w_sent w' = w_sent w @ [BracketMsg (account_number ac) (parent_wire q (quantize8 (bk_qty q)))
                 (stop_wire be q (quantize8 (bk_qty q))) (target_wire be q (quantize8 (bk_qty q)))])
       \<and> (\<exists>n. w_nonces w (bk_account q, bk_nonce q) = Some n
            \<and> nv_hash n = Some (bk_account q, bk_conid q, bk_side q, LIMIT, bk_tif q, quantize8 (bk_qty q),
                                Some (quantize8 (bk_limit q)), None))
       \<and> w_nonces w' (bk_account q, bk_nonce q) = None"
  using assms
proof (rule place_bracket_sent)
  fix tk c w0 w1 w2
  assume tk: "bracket_checks env q = Inr tk" and pay: "consume_preview_nonce q (bt_qty tk) w = (Inr (), w0)"
    and del': "if stored_as q w = None then w1 = w0 else delete_bracket (o_id (the (stored_as q w))) w0 = (Inr (), w1)"
    and ins: "insert_bracket env be q (contract_description c (be_exchange be (bk_conid q))) tk w1 = (Inr (), w2)"
    and d: "dispatch_bracket be q tk w2 = (r, w')"
  let ?k = "(bk_account q, bk_nonce q)"
  from del' have del: "w1 = w0 \<or> (\<exists>p. delete_bracket p w0 = (Inr (), w1))" by (auto split: if_splits)
  have kd: "keeps f (delete_bracket p)" and ki: "keeps f (insert_bracket env be q l tk)"
    if "\<And>d v. f (v\<lparr>w_db := d\<rparr>) = f v" "\<And>c v. f (v\<lparr>w_cols := c\<rparr>) = f v" for f :: "'a world \<Rightarrow> 'z" and p l
    using that by (intro keeps_intro; simp)+
  have s: "w_sent w2 = w_sent w"
  proof -
    have "keeps w_sent (consume_preview_nonce q (bt_qty tk) :: (unit, 'a world) act)" by (intro keeps_intro) simp_all
    then have "w_sent w0 = w_sent w" using pay by (rule keepsD)
    moreover have "w_sent w1 = w_sent w0"
      using del by (elim disjE exE) (simp, erule keepsD [OF kd, rotated 2], simp_all)
    moreover have "w_sent w2 = w_sent w1" by (rule keepsD [OF ki ins]) simp_all
    ultimately show ?thesis by simp
  qed
  have n: "w_nonces w' = w_nonces w0"
  proof -
    have "w_nonces w1 = w_nonces w0"
      using del by (elim disjE exE) (simp, erule keepsD [OF kd, rotated 2], simp_all)
    moreover have "w_nonces w2 = w_nonces w1" by (rule keepsD [OF ki ins]) simp_all
    moreover have "keeps w_nonces (dispatch_bracket be q tk :: (bracket_answer, 'a world) act)" by (intro keeps_intro) simp_all
    then have "w_nonces w' = w_nonces w2" using d by (rule keepsD)
    ultimately show ?thesis by simp
  qed
  from bracket_checks_passed [OF tk] have c: "well_placed q" "is_kill_switch_active (pe_cfg env) = Inr False"
      "\<not> pe_maintenance env" "resolve_account env (bk_account q) = Inr (bt_account tk)"
      "bt_qty tk = quantize8 (bk_qty q)" "bt_notional tk = bt_qty tk * bk_limit q"
      "\<exists>pol. get_account_policy (pe_cfg env) (gateway_label (bt_account tk)) (ac_mode (bt_account tk)) = Inr pol
              \<and> bt_notional tk \<le> max_notional_per_order pol" by auto
  from consume_nonce_paid [OF pay [unfolded consume_preview_nonce_def]]
  have "\<exists>m. w_nonces w ?k = Some m \<and> nv_hash m = Some (bk_account q, bk_conid q, bk_side q, LIMIT, bk_tif q,
      quantize8 (bk_qty q), Some (quantize8 (bk_limit q)), None)" "w_nonces w0 ?k = None"
    by (auto simp: preview_payload_hash_def canonicalize_qty_def c(5))
  with c n dispatch_bracket_outbox [OF d] s show ?thesis by auto
qed

lemmas bracket_sent_message = bracket_sent_facts [THEN conjunct2, THEN conjunct2, THEN conjunct2, THEN conjunct1]

text \<open>C29: whatever \<open>place_bracket\<close> returns, three orders go to the broker at most once, and only when the kill
  switch is off, no maintenance window is open, the parent's notional fits the cap per order and a preview
  of the same parent order was paid; the exits are on the other side, for the same quantity, with the stop on the
  losing and the target on the winning side of the entry.\<close>

theorem bracket_dispatch_checked:
  assumes "place_bracket env be q w = (r, w')" and "w_sent w' \<noteq> w_sent w"
  shows "is_kill_switch_active (pe_cfg env) = Inr False \<and> \<not> pe_maintenance env \<and> well_placed q
       \<and> (\<exists>ac pol. resolve_account env (bk_account q) = Inr ac
            \<and> get_account_policy (pe_cfg env) (gateway_label ac) (ac_mode ac) = Inr pol
            \<and> quantize8 (bk_qty q) * bk_limit q \<le> max_notional_per_order pol
            \<and> w_sent w' = w_sent w @ [BracketMsg (account_number ac) (parent_wire q (quantize8 (bk_qty q)))
                 (stop_wire be q (quantize8 (bk_qty q))) (target_wire be q (quantize8 (bk_qty q)))])
       \<and> (\<exists>n. w_nonces w (bk_account q, bk_nonce q) = Some n
            \<and> nv_hash n = Some (bk_account q, bk_conid q, bk_side q, LIMIT, bk_tif q, quantize8 (bk_qty q),
                                Some (quantize8 (bk_limit q)), None))
       \<and> w_nonces w' (bk_account q, bk_nonce q) = None"
  using assms by (rule bracket_sent_facts)

text \<open>The risk gate and its counters have no part in a bracket: its outcome is the same under every
  risk environment, and no buying power or day trade is reserved in Redis for it.\<close>

theorem bracket_ignores_risk:
  "place_bracket (env\<lparr>pe_risk := re\<rparr>) be q w = place_bracket env be q w
   \<and> srv (w_conn (snd (place_bracket env be q w))) = srv (w_conn w)"
proof
  have "bracket_checks (env\<lparr>pe_risk := re\<rparr>) q = bracket_checks env q"
    by (simp add: bracket_checks_def check_kill_switch_def resolve_account_def validate_pre_dispatch_def)
  moreover have "submit_bracket (env\<lparr>pe_risk := re\<rparr>) be q = (submit_bracket env be q :: bracket_ticket \<Rightarrow> (bracket_answer, 'a world) act)"
    by (simp add: fun_eq_iff submit_bracket_def resolve_contract_def insert_bracket_def parent_cols_def child_cols_def
        cong: option.case_cong)
  ultimately show "place_bracket (env\<lparr>pe_risk := re\<rparr>) be q w = place_bracket env be q w"
    by (simp add: place_bracket_def cong: option.case_cong if_cong)
  have kn: "keeps (srv \<circ> w_conn) (consume_preview_nonce q x :: (unit, 'a world) act)" for x
  proof -
    have "keeps (srv \<circ> w_conn) (nonce_getdel k :: (nonce_val option, 'a world) act)" for k
      by (auto simp: keeps_def nonce_getdel_def rcmd_def split: list.splits option.splits)
    then show ?thesis unfolding consume_preview_nonce_def consume_nonce_def
      by (intro keeps_abind keeps_option keeps_fail keeps_of_res keeps_raise_if)
  qed
  have "keeps (srv \<circ> w_conn) (place_bracket env be q :: (bracket_answer, 'a world) act)"
    unfolding place_bracket_def by (intro keeps_intro kn) simp_all
  then show "srv (w_conn (snd (place_bracket env be q w))) = srv (w_conn w)"
    by (simp add: keeps_def)
qed

section \<open>The rows of a bracket\<close>

text \<open>What identifies the stored orders: their ids, accounts and client ids, and the other columns.\<close>

definition key_of :: "order_row \<Rightarrow> uuid \<times> uuid \<times> uuid" where
  "key_of r = (o_id r, o_account r, o_client r)"

definition order_keys :: "'r world \<Rightarrow> (uuid \<times> uuid \<times> uuid) list \<times> (uuid \<Rightarrow> order_cols option)" where
  "order_keys w = (map key_of (orders (w_db w)), w_cols w)"

lemma same_keys: "map key_of rs = map key_of rs' \<longleftrightarrow> list_all2 (\<lambda>r r'. key_of r = key_of r') rs rs'"
  by (simp add: list.rel_eq [symmetric] list.rel_map)

lemma find_keys:
  assumes "map key_of rs = map key_of rs'"
  shows "rel_option (\<lambda>r r'. key_of r = key_of r') (List.find (\<lambda>r. o_account r = a \<and> o_client r = c) rs)
     (List.find (\<lambda>r. o_account r = a \<and> o_client r = c) rs')"
  using assms unfolding same_keys by (induction rule: list_all2_induct) (auto simp: key_of_def)

lemma find_skip: "List.find P xs = None \<Longrightarrow> List.find P (xs @ ys) = List.find P ys"
  by (induction xs) (auto split: if_splits)

lemma same_ids:
  assumes "map key_of rs = map key_of rs'"
  shows "o_id ` set rs = o_id ` set rs'"
  using arg_cong [OF assms, of "\<lambda>ks. fst ` set ks"] by (simp add: image_image key_of_def)

lemma filter_keys:
  assumes "map key_of rs = map key_of rs'"
  shows "map key_of (filter (\<lambda>r. P (o_id r)) rs) = map key_of (filter (\<lambda>r. P (o_id r)) rs')"
  using assms unfolding same_keys by (induction rule: list_all2_induct) (auto simp: key_of_def)

lemma length_children: "length (children_of i w) = length (filter (\<lambda>r. parent_of w r = Some i) (orders (w_db w)))"
  by (simp add: children_of_def)

lemma children_keys:
  assumes "order_keys w = order_keys w'"
  shows "length (children_of i w) = length (children_of i w')"
proof -
  let ?P = "\<lambda>oid. (case w_cols w oid of Some c \<Rightarrow> oc_parent c | None \<Rightarrow> None) = Some i"
  have "map key_of (filter (\<lambda>r. ?P (o_id r)) (orders (w_db w))) = map key_of (filter (\<lambda>r. ?P (o_id r)) (orders (w_db w')))"
    using assms by (intro filter_keys) (simp add: order_keys_def)
  then have "length (filter (\<lambda>r. ?P (o_id r)) (orders (w_db w))) = length (filter (\<lambda>r. ?P (o_id r)) (orders (w_db w')))"
    by (rule map_eq_imp_length_eq)
  then show ?thesis using assms by (simp add: length_children parent_of_def order_keys_def)
qed

lemma keeps_keys_transaction:
  assumes "keeps order_keys m"
  shows "keeps order_keys (transaction m)"
  unfolding keeps_def
proof
  fix w
  obtain r w' where e: "m w = (r, w')" by fastforce
  with keepsD [OF assms e] show "order_keys (snd (transaction m w)) = order_keys w"
    by (cases r) (simp_all add: transaction_def order_keys_def)
qed

lemma keeps_keys_by_id:
  "(\<And>r. key_of (f r) = key_of r) \<Longrightarrow> keeps order_keys (update_by_id i f)"
  by (simp add: keeps_def update_by_id_def order_keys_def Let_def)

lemma keeps_keys_dispatch_bracket: "keeps order_keys (dispatch_bracket be q tk)"
proof -
  have m: "keeps order_keys (mark_order_submitted i b)" for i b
    unfolding mark_order_submitted_def by (rule keeps_keys_by_id) (simp add: key_of_def)
  have j: "keeps order_keys (reject_bracket i)" for i
    by (simp add: keeps_def reject_bracket_def order_keys_def key_of_def)
  show ?thesis
    unfolding dispatch_bracket_def Let_def acknowledge_bracket_def acknowledge_leg_def
    by (intro keeps_intro keeps_keys_transaction m j) (simp add: order_keys_def)
qed

definition bracket_rows :: "bracket_env \<Rightarrow> bracket_req \<Rightarrow> decimal \<Rightarrow> order_row list" where
  "bracket_rows be q x =
     new_row (be_parent be) (bk_account q) (bk_client q) x
     # (if bk_stop q = None then [] else [new_row (be_sl be) (bk_account q) (be_sl_client be) x])
     @ (if bk_target q = None then [] else [new_row (be_tp be) (bk_account q) (be_tp_client be) x])"

lemma insert_strict_inserted:
  assumes "insert_strict row cols w = (Inr (), w')"
  shows "(o_account row, o_client row) \<notin> set (client_keys w) \<and> 0 < o_qty row
       \<and> w' = w\<lparr>w_db := (w_db w)\<lparr>orders := orders (w_db w) @ [row]\<rparr>, w_cols := (w_cols w)(o_id row \<mapsto> cols)\<rparr>"
proof -
  obtain r t where "insert_order row cols w = (Inr (Some r), t)" and "w' = t"
    using assms by (auto simp: insert_strict_def returns split: option.splits)
  with insert_order_inserted show ?thesis by fastforce
qed

lemma insert_bracket_inserted:
  assumes "insert_bracket env be q l tk w = (Inr (), w')"
  shows "orders (w_db w') = orders (w_db w) @ bracket_rows be q (bt_qty tk)
       \<and> (bk_account q, bk_client q) \<notin> set (client_keys w)
       \<and> w_cols w' = (let c0 = (w_cols w)(be_parent be \<mapsto> parent_cols env be q l (bt_notional tk));
              c1 = (case bk_stop q of None \<Rightarrow> c0 | Some p \<Rightarrow> c0(be_sl be \<mapsto> child_cols env be q l (bt_qty tk) STOP p))
            in case bk_target q of None \<Rightarrow> c1 | Some p \<Rightarrow> c1(be_tp be \<mapsto> child_cols env be q l (bt_qty tk) LIMIT p))"
proof -
  let ?row = "\<lambda>i c. new_row i (bk_account q) c (bt_qty tk)"
  obtain v0 v1 where
    0: "insert_strict (?row (be_parent be) (bk_client q)) (parent_cols env be q l (bt_notional tk)) w = (Inr (), v0)" and
    1: "(case bk_stop q of None \<Rightarrow> aret () | Some p \<Rightarrow> insert_strict (?row (be_sl be) (be_sl_client be)) (child_cols env be q l (bt_qty tk) STOP p)) v0 = (Inr (), v1)" and
    2: "(case bk_target q of None \<Rightarrow> aret () | Some p \<Rightarrow> insert_strict (?row (be_tp be) (be_tp_client be)) (child_cols env be q l (bt_qty tk) LIMIT p)) v1 = (Inr (), w')"
    using assms by (auto simp: insert_bracket_def transaction_def returns split: prod.splits sum.splits)
  from 1 insert_strict_inserted have 1: "v1 = (case bk_stop q of None \<Rightarrow> v0
      | Some p \<Rightarrow> v0\<lparr>w_db := (w_db v0)\<lparr>orders := orders (w_db v0) @ [?row (be_sl be) (be_sl_client be)]\<rparr>,
                     w_cols := (w_cols v0)(be_sl be \<mapsto> child_cols env be q l (bt_qty tk) STOP p)\<rparr>)"
    by (cases "bk_stop q") (fastforce simp: aret_def)+
  from 2 insert_strict_inserted have 2: "w' = (case bk_target q of None \<Rightarrow> v1
      | Some p \<Rightarrow> v1\<lparr>w_db := (w_db v1)\<lparr>orders := orders (w_db v1) @ [?row (be_tp be) (be_tp_client be)]\<rparr>,
                     w_cols := (w_cols v1)(be_tp be \<mapsto> child_cols env be q l (bt_qty tk) LIMIT p)\<rparr>)"
    by (cases "bk_target q") (fastforce simp: aret_def)+
  from insert_strict_inserted [OF 0] 1 2 show ?thesis
    by (cases "bk_stop q"; cases "bk_target q") (simp_all add: bracket_rows_def Let_def)
qed

lemma delete_orders_shrinks:
  assumes "delete_orders P w = (Inr (), w')"
  shows "orders (w_db w') = filter (\<lambda>r. o_id r \<notin> set (map o_id (filter (P w) (orders (w_db w))))) (orders (w_db w))
       \<and> (\<forall>r p. parent_of w' r = Some p \<longrightarrow> parent_of w r = Some p)"
  using assms by (auto simp: delete_orders_def Let_def parent_of_def split: if_splits option.splits)

lemma delete_bracket_shrinks:
  assumes "delete_bracket i w = (Inr (), w')"
  shows "set (orders (w_db w')) \<subseteq> {r \<in> set (orders (w_db w)). o_id r \<noteq> i}
       \<and> (\<forall>r p. parent_of w' r = Some p \<longrightarrow> parent_of w r = Some p)"
proof -
  obtain t where 1: "delete_orders (\<lambda>w r. parent_of w r = Some i) w = (Inr (), t)"
    and 2: "delete_orders (\<lambda>w r. o_id r = i) t = (Inr (), w')"
    using assms by (auto simp: delete_bracket_def transaction_def returns split: prod.splits sum.splits)
  from delete_orders_shrinks [OF 1] delete_orders_shrinks [OF 2] show ?thesis by auto
qed

section \<open>After the broker was told\<close>

text \<open>What \<open>uuid7\<close> promises of the ids of a bracket.\<close>

definition fresh_bracket :: "bracket_env \<Rightarrow> 'r world \<Rightarrow> bool" where
  "fresh_bracket be w \<longleftrightarrow> distinct [be_parent be, be_sl be, be_tp be]
     \<and> (\<forall>r \<in> set (orders (w_db w)). o_id r \<notin> {be_parent be, be_sl be, be_tp be} \<and> parent_of w r \<noteq> Some (be_parent be))"

lemma bracket_inserted:
  assumes "place_bracket env be q (w :: 'a world) = (r, w')" and "w_sent w' \<noteq> w_sent w" and "fresh_bracket be w"
  obtains tk w1 w2 where "set (orders (w_db w1)) \<subseteq> set (orders (w_db w))"
    and "\<forall>p. stored_as q w = Some p \<longrightarrow> (\<forall>r \<in> set (orders (w_db w1)). o_id r \<noteq> o_id p)"
    and "orders (w_db w2) = orders (w_db w1) @ bracket_rows be q (bt_qty tk)"
    and "(bk_account q, bk_client q) \<notin> set (client_keys (w1 :: 'a world))"
    and "\<forall>r \<in> set (orders (w_db w1)). parent_of w2 r \<noteq> Some (be_parent be)"
    and "\<forall>r \<in> set (bracket_rows be q (bt_qty tk)). parent_of w2 r = (if o_id r = be_parent be then None else Some (be_parent be))"
    and "bt_qty tk = quantize8 (bk_qty q)"
    and "dispatch_bracket be q tk w2 = (r, w')"
  using assms(1,2)
proof (rule place_bracket_sent)
  fix tk c w0 w1 w2
  assume tk: "bracket_checks env q = Inr tk" and pay: "consume_preview_nonce q (bt_qty tk) w = (Inr (), w0)"
    and del: "if stored_as q w = None then w1 = w0 else delete_bracket (o_id (the (stored_as q w))) w0 = (Inr (), w1)"
    and ins: "insert_bracket env be q (contract_description c (be_exchange be (bk_conid q))) tk w1 = (Inr (), w2)"
    and d: "dispatch_bracket be q tk w2 = (r, w')"
  have k: "keeps (\<lambda>w. (w_db w, w_cols w)) (consume_preview_nonce q (bt_qty tk) :: (unit, 'a world) act)"
    by (intro keeps_intro) simp_all
  have 0: "w_db w0 = w_db w" "w_cols w0 = w_cols w" using keepsD [OF k pay] by simp_all
  have 1: "set (orders (w_db w1)) \<subseteq> set (orders (w_db w))"
      "\<forall>p. stored_as q w = Some p \<longrightarrow> (\<forall>r \<in> set (orders (w_db w1)). o_id r \<noteq> o_id p)"
      "parent_of w1 r = Some p \<Longrightarrow> parent_of w r = Some p" for r p
    using del delete_bracket_shrinks [of "o_id (the (stored_as q w))" w0 w1] 0
    by (cases "stored_as q w"; auto simp: parent_of_def split: option.splits)+
  from insert_bracket_inserted [OF ins] have i: "orders (w_db w2) = orders (w_db w1) @ bracket_rows be q (bt_qty tk)"
    "(bk_account q, bk_client q) \<notin> set (client_keys w1)" by auto
  have old: "parent_of w2 r = parent_of w1 r" if "r \<in> set (orders (w_db w1))" for r
  proof -
    have "o_id r \<notin> {be_parent be, be_sl be, be_tp be}" using that 1(1) assms(3) by (auto simp: fresh_bracket_def)
    with insert_bracket_inserted [OF ins] show ?thesis
      by (cases "bk_stop q"; cases "bk_target q"; simp add: parent_of_def Let_def)
  qed
  have A: "\<forall>r \<in> set (orders (w_db w1)). parent_of w2 r \<noteq> Some (be_parent be)"
    using old 1(1,3) assms(3) by (fastforce simp: fresh_bracket_def)
  have B: "\<forall>r \<in> set (bracket_rows be q (bt_qty tk)). parent_of w2 r = (if o_id r = be_parent be then None else Some (be_parent be))"
    using insert_bracket_inserted [OF ins] assms(3)
    by (cases "bk_stop q"; cases "bk_target q";
        auto simp: parent_of_def Let_def bracket_rows_def fresh_bracket_def child_cols_def parent_cols_def)
  have "bt_qty tk = quantize8 (bk_qty q)" using bracket_checks_passed [OF tk] by simp
  then show thesis by (rule that [OF 1(1,2) i A B _ d])
qed

lemma bracket_rows_found:
  assumes "orders (w_db w2) = orders (w_db w1) @ bracket_rows be q x"
    and "(bk_account q, bk_client q) \<notin> set (client_keys w1)"
    and "\<forall>r \<in> set (orders (w_db w1)). parent_of w2 r \<noteq> Some (be_parent be)"
    and "\<forall>r \<in> set (bracket_rows be q x). parent_of w2 r = (if o_id r = be_parent be then None else Some (be_parent be))"
    and "distinct [be_parent be, be_sl be, be_tp be]"
  shows "stored_as q w2 = Some (new_row (be_parent be) (bk_account q) (bk_client q) x)"
    and "length (children_of (be_parent be) w2) = expected_children q"
proof -
  have "List.find (\<lambda>r. o_account r = bk_account q \<and> o_client r = bk_client q) (orders (w_db w1)) = None"
    using assms(2) by (simp add: in_client_keys lookup_order_def)
  then show "stored_as q w2 = Some (new_row (be_parent be) (bk_account q) (bk_client q) x)"
    by (simp add: lookup_order_def assms(1) bracket_rows_def find_skip)
  have "filter (\<lambda>r. parent_of w2 r = Some (be_parent be)) (orders (w_db w1)) = []"
    using assms(3) by (simp add: filter_empty_conv)
  moreover have "filter (\<lambda>r. parent_of w2 r = Some (be_parent be)) (bracket_rows be q x)
      = filter (\<lambda>r. o_id r \<noteq> be_parent be) (bracket_rows be q x)"
    using assms(4) by (intro filter_cong) auto
  moreover have "length (filter (\<lambda>r. o_id r \<noteq> be_parent be) (bracket_rows be q x)) = expected_children q"
    using assms(5) by (auto simp: bracket_rows_def expected_children_def)
  ultimately show "length (children_of (be_parent be) w2) = expected_children q"
    by (simp add: length_children assms(1))
qed

lemma evolves_keys: "evolves rs rs' \<Longrightarrow> map key_of rs = map key_of rs'"
  unfolding evolves_def by (induction rule: list_all2_induct) (auto simp: key_of_def row_le_def)

text \<open>C30: once a bracket has gone to the broker, a request with the same account, client id and number of legs
  changes nothing and sends nothing, whatever the broker answered and whatever events arrived in between; if it is
  answered at all, it is answered with the stored bracket.\<close>

theorem bracket_sent_once:
  assumes "place_bracket env be q w = (r, w')" and "w_sent w' \<noteq> w_sent w" and "fresh_bracket be w"
    and "sdb s = w_db w'" and "v = w'\<lparr>w_db := sdb (fold consume es s)\<rparr>"
    and "bk_account q2 = bk_account q" and "bk_client q2 = bk_client q"
    and "expected_children q2 = expected_children q"
  shows "snd (place_bracket env2 be2 q2 v) = v
       \<and> (\<forall>a. fst (place_bracket env2 be2 q2 v) = Inr a \<longrightarrow> ba_parent a = be_parent be)"
  using assms(1,2,3)
proof (rule bracket_inserted)
  fix tk w1 w2
  assume o: "orders (w_db w2) = orders (w_db w1) @ bracket_rows be q (bt_qty tk)"
      "(bk_account q, bk_client q) \<notin> set (client_keys w1)"
      "\<forall>r \<in> set (orders (w_db w1)). parent_of w2 r \<noteq> Some (be_parent be)"
      "\<forall>r \<in> set (bracket_rows be q (bt_qty tk)). parent_of w2 r = (if o_id r = be_parent be then None else Some (be_parent be))"
    and d: "dispatch_bracket be q tk w2 = (r, w')"
  have "distinct [be_parent be, be_sl be, be_tp be]" using assms(3) by (simp add: fresh_bracket_def)
  note found = bracket_rows_found [OF o this]
  have "order_keys w' = order_keys w2" by (rule keepsD [OF keeps_keys_dispatch_bracket d])
  moreover have "order_keys v = order_keys w'"
    using evolves_keys [OF run_evolves [of s es]] assms(4,5) by (simp add: order_keys_def)
  ultimately have k: "order_keys v = order_keys w2" by simp
  then have "rel_option (\<lambda>r r'. key_of r = key_of r') (stored_as q v) (stored_as q w2)"
    unfolding lookup_order_def by (intro find_keys) (simp add: order_keys_def)
  then obtain p where p: "stored_as q v = Some p" "o_id p = be_parent be"
    using found(1) by (cases "stored_as q v") (auto simp: key_of_def)
  have "length (children_of (o_id p) v) = expected_children q2"
    using children_keys [OF k] found(2) p(2) assms(8) by simp
  moreover have "stored_as q2 v = Some p" using p(1) assms(6,7) by simp
  ultimately show ?thesis
    using p(2) by (cases "bracket_checks env2 q2")
      (simp_all add: place_bracket_def abind_def of_res_def aread_def build_bracket_response_from_db_def)
qed

text \<open>When the sidecar does not answer in time, all rows of the bracket become rejected, although the three
  orders have been sent; no later event of the broker (an acknowledgement, a fill) changes that.\<close>

theorem unanswered_bracket_stays_rejected:
  assumes "place_bracket env be q w = (r, w')" and "w_sent w' \<noteq> w_sent w" and "fresh_bracket be w"
    and "\<And>p t u. be_reply be p t u = Inl e" and "e \<in> {SidecarTimeout, SidecarUnavailable}"
    and "sdb s = w_db w'" and "i \<in> o_id ` set (bracket_rows be q (quantize8 (bk_qty q)))"
  shows "r = Inl (HttpError 503 ''sidecar_unavailable'')
       \<and> map_option o_status (find_order i (fold consume es s)) = Some Rejected"
  using assms(1,2,3)
proof (rule bracket_inserted)
  fix tk w1 w2
  assume sub: "set (orders (w_db w1)) \<subseteq> set (orders (w_db w))"
    and o: "orders (w_db w2) = orders (w_db w1) @ bracket_rows be q (bt_qty tk)"
    and pa: "\<forall>r \<in> set (bracket_rows be q (bt_qty tk)). parent_of w2 r = (if o_id r = be_parent be then None else Some (be_parent be))"
    and x: "bt_qty tk = quantize8 (bk_qty q)" and d: "dispatch_bracket be q tk w2 = (r, w')"
  have res: "r = Inl (HttpError 503 ''sidecar_unavailable'')"
    and w': "orders (w_db w') = map (\<lambda>r. if o_id r = be_parent be \<or> parent_of w2 r = Some (be_parent be) then r\<lparr>o_status := Rejected\<rparr> else r) (orders (w_db w2))"
    using d assms(4,5)
    by (auto simp: dispatch_bracket_def Let_def run_simps send_def reject_bracket_def parent_of_def split: if_splits)
  have "i \<in> {be_parent be, be_sl be, be_tp be}" using assms(7) by (auto simp: bracket_rows_def split: if_splits)
  then have "\<forall>r \<in> set (orders (w_db w1)). o_id r \<noteq> i" using sub assms(3) by (auto simp: fresh_bracket_def)
  then have all: "\<forall>r \<in> set (orders (w_db w')). o_id r = i \<longrightarrow> o_status r = Rejected"
    using pa by (auto simp: w' o)
  have "o_id ` set (orders (w_db w')) = o_id ` set (orders (w_db w2))"
    using keepsD [OF keeps_keys_dispatch_bracket d] by (intro same_ids) (simp add: order_keys_def)
  moreover have "i \<in> o_id ` set (orders (w_db w2))" using assms(7) by (auto simp: o x)
  ultimately have "i \<in> o_id ` set (orders (w_db w'))" by simp
  then obtain r' where "find_order i s = Some r'"
    by (cases "find_order i s") (auto simp: find_order_def assms(6) find_None_iff image_iff)
  moreover from this have "o_status r' = Rejected"
    using all find_Some_iff' [of "\<lambda>r. o_id r = i" "orders (w_db w')" r'] by (simp add: find_order_def assms(6))
  ultimately show ?thesis using rejected_for_good res by blast
qed

text \<open>A bracket request that names the client id of an order already stored (a plain order at the broker, or
  a bracket with another number of legs) and goes out has deleted that order's row; the broker is told of the new
  bracket only, not to cancel the old order.\<close>

theorem bracket_replaces_order:
  assumes "place_bracket env be q w = (r, w')" and "w_sent w' \<noteq> w_sent w" and "fresh_bracket be w"
    and "stored_as q w = Some p"
  shows "(\<forall>r \<in> set (orders (w_db w')). o_id r \<noteq> o_id p)
       \<and> (\<exists>m. w_sent w' = w_sent w @ [m] \<and> (\<forall>a b. m \<noteq> CancelMsg a b))"
proof
  have p: "p \<in> set (orders (w_db w))" using assms(4) by (auto simp: lookup_order_def dest: find_Some_iff')
  from assms(1,2,3) show "\<forall>r \<in> set (orders (w_db w')). o_id r \<noteq> o_id p"
  proof (rule bracket_inserted)
    fix tk w1 w2
    assume g: "\<forall>p. stored_as q w = Some p \<longrightarrow> (\<forall>r \<in> set (orders (w_db w1)). o_id r \<noteq> o_id p)"
      and o: "orders (w_db w2) = orders (w_db w1) @ bracket_rows be q (bt_qty tk)"
      and d: "dispatch_bracket be q tk w2 = (r, w')"
    have "o_id r \<noteq> o_id p" if "r \<in> set (orders (w_db w2))" for r
      using that g assms(3,4) p by (auto simp: o bracket_rows_def fresh_bracket_def split: if_splits)
    moreover have "map key_of (orders (w_db w')) = map key_of (orders (w_db w2))"
      using keepsD [OF keeps_keys_dispatch_bracket d] by (simp add: order_keys_def)
    then have "o_id ` set (orders (w_db w')) = o_id ` set (orders (w_db w2))"
      by (rule same_ids)
    ultimately show ?thesis by (metis image_iff)
  qed
  obtain ac :: account_rec where "w_sent w' = w_sent w @ [BracketMsg (account_number ac) (parent_wire q (quantize8 (bk_qty q)))
                 (stop_wire be q (quantize8 (bk_qty q))) (target_wire be q (quantize8 (bk_qty q)))]"
    using bracket_sent_message [OF assms(1,2)] by blast
  then show "\<exists>m. w_sent w' = w_sent w @ [m] \<and> (\<forall>a b. m \<noteq> CancelMsg a b)" by simp
qed

section \<open>A concrete bracket\<close>

definition demo_bracket :: bracket_req where
  "demo_bracket = \<lparr>bk_nonce = ''n1'', bk_account = ''a1'', bk_client = ''c1'', bk_conid = ''265598'', bk_side = Buy,
     bk_tif = DAY, bk_qty = 10, bk_limit = 20, bk_stop = Some 18, bk_target = Some 25\<rparr>"

definition demo_benv :: "exn + bracket_reply \<Rightarrow> bracket_env" where
  "demo_benv rep = \<lparr>be_exchange = (\<lambda>_. ''SMART''), be_parent = ''p1'', be_sl = ''s1'', be_tp = ''t1'',
     be_sl_client = ''k1'', be_tp_client = ''k2'', be_reply = (\<lambda>_ _ _. rep)\<rparr>"

definition demo_plain :: order_row where
  "demo_plain = (new_row ''o9'' ''a1'' ''c1'' 10)\<lparr>o_broker := Some ''b9'', o_status := Submitted\<rparr>"

definition demo_stored :: "order_row list \<Rightarrow> mem world" where
  "demo_stored rs = demo_world\<lparr>w_db := demo_db rs\<rparr>"

lemmas demo_bracket_defs = demo_bracket_def demo_benv_def demo_stored_def demo_world_def demo_db_def demo_plain_def new_row_def

definition demo_bticket :: bracket_ticket where
  "demo_bticket = \<lparr>bt_account = tk_account demo_ticket, bt_qty = 10, bt_notional = 200\<rparr>"

lemma demo_bracket_checks: "bracket_checks demo_penv demo_bracket = Inr demo_bticket"
  by (simp add: bracket_checks_def bracket_prices_def demo_bracket_def place_defs demo_penv_def demo_ticket_def demo_bticket_def
      get_account_policy_def cfg_decimal_def cap_status_def)

lemma demo_bracket_nonce:
  "consume_preview_nonce demo_bracket 10 (demo_stored rs) = (Inr (), (demo_stored rs)\<lparr>w_nonces := (w_nonces demo_world)((''a1'', ''n1'') := None)\<rparr>)"
  by (simp add: consume_preview_nonce_def consume_nonce_def nonce_getdel_ok demo_stored_def demo_world_def run_simps
      preview_payload_hash_def canonicalize_qty_def demo_bracket_def)

lemma demo_submit_bracket:
  assumes "orders (w_db w) = []"
  shows "\<exists>r w'. submit_bracket demo_penv (demo_benv rep) demo_bracket demo_bticket w = (r, w') \<and> w_sent w' \<noteq> w_sent w"
proof -
  have i: "\<exists>t. insert_bracket demo_penv (demo_benv rep) demo_bracket l demo_bticket w = (Inr (), t)" for l
    using assms
    by (simp add: insert_bracket_def insert_strict_def insert_order_def transaction_def run_simps lookup_order_def
        demo_bracket_def demo_benv_def demo_bticket_def new_row_def child_cols_def parent_cols_def orders_check_def)
  obtain c where c: "resolve_contract demo_penv (bk_conid demo_bracket) = Inr c"
    by (simp add: resolve_contract_def demo_penv_def)
  obtain t where t: "insert_bracket demo_penv (demo_benv rep) demo_bracket
      (contract_description c (be_exchange (demo_benv rep) (bk_conid demo_bracket))) demo_bticket w = (Inr (), t)"
    using i by blast
  obtain r w' where d: "dispatch_bracket (demo_benv rep) demo_bracket demo_bticket t = (r, w')" by fastforce
  have "pe_client demo_penv x = Inr ()" for x by (simp add: demo_penv_def)
  with c t d have "submit_bracket demo_penv (demo_benv rep) demo_bracket demo_bticket w = (r, w')"
    by (simp add: submit_bracket_def run_simps)
  moreover have "keeps w_sent (insert_bracket demo_penv (demo_benv rep) demo_bracket l demo_bticket :: (unit, 'a world) act)" for l
    by (intro keeps_intro) simp_all
  then have "w_sent t = w_sent w" using t by (rule keepsD)
  ultimately show ?thesis using dispatch_bracket_outbox [OF d] by auto
qed

lemma demo_bracket_placed:
  assumes "rs \<in> {[], [demo_plain]}"
  shows "\<exists>r w'. place_bracket demo_penv (demo_benv rep) demo_bracket (demo_stored rs) = (r, w') \<and> w_sent w' \<noteq> w_sent (demo_stored rs)"
proof -
  let ?v = "(demo_stored rs)\<lparr>w_nonces := (w_nonces demo_world)((''a1'', ''n1'') := None)\<rparr>"
  obtain t where t: "(case rs of [] \<Rightarrow> aret () | r # _ \<Rightarrow> delete_bracket (o_id r)) ?v = (Inr (), t)"
      "orders (w_db t) = []" "w_sent t = w_sent (demo_stored rs)"
    using assms
    by (auto simp: delete_bracket_def delete_orders_def transaction_def run_simps Let_def demo_bracket_defs parent_of_def)
  obtain r w' where s: "submit_bracket demo_penv (demo_benv rep) demo_bracket demo_bticket t = (r, w')" "w_sent w' \<noteq> w_sent t"
    using demo_submit_bracket [OF t(2)] by blast
  have "place_bracket demo_penv (demo_benv rep) demo_bracket (demo_stored rs) = (r, w')"
    using assms t(1) s(1) demo_bracket_nonce [of rs] demo_bracket_checks
    by (auto simp: place_bracket_def run_simps aread_def lookup_order_def demo_bracket_defs demo_bticket_def children_of_def
        parent_of_def expected_children_def)
  with s(2) t(3) show ?thesis by auto
qed

lemma demo_bracket_fresh: "rs \<in> {[], [demo_plain]} \<Longrightarrow> fresh_bracket (demo_benv rep) (demo_stored rs)"
  by (auto simp: fresh_bracket_def demo_bracket_defs parent_of_def)

theorem bracket_dispatch_checked_witness:
  "\<exists>w'. snd (place_bracket demo_penv (demo_benv (Inl SidecarTimeout)) demo_bracket (demo_stored [])) = w'
      \<and> w_nonces w' (''a1'', ''n1'') = None \<and> well_placed demo_bracket"
proof -
  obtain r w' where p: "place_bracket demo_penv (demo_benv (Inl SidecarTimeout)) demo_bracket (demo_stored []) = (r, w')"
    "w_sent w' \<noteq> w_sent (demo_stored [])" using demo_bracket_placed by blast
  from bracket_dispatch_checked [OF p] p(1) show ?thesis by (simp add: demo_bracket_def)
qed

theorem bracket_sent_once_witness:
  "\<exists>v. v \<noteq> demo_stored [] \<and> snd (place_bracket demo_penv (demo_benv (Inl SidecarTimeout)) demo_bracket v) = v"
proof -
  obtain r w' where p: "place_bracket demo_penv (demo_benv (Inl SidecarTimeout)) demo_bracket (demo_stored []) = (r, w')"
    "w_sent w' \<noteq> w_sent (demo_stored [])" using demo_bracket_placed by blast
  let ?s = "(demo [])\<lparr>sdb := w_db w'\<rparr>"
  let ?v = "w'\<lparr>w_db := sdb (fold consume [(''a1'', demo_event)] ?s)\<rparr>"
  have s: "sdb ?s = w_db w'" and m: "[] \<in> {[], [demo_plain]}" by simp_all
  have "snd (place_bracket demo_penv (demo_benv (Inl SidecarTimeout)) demo_bracket ?v) = ?v"
    using bracket_sent_once [OF p demo_bracket_fresh [OF m] s refl refl refl refl] by blast
  moreover have "?v \<noteq> demo_stored []"
  proof
    assume "?v = demo_stored []"
    then have "w_sent ?v = w_sent (demo_stored [])" by (rule arg_cong)
    with p(2) show False by simp
  qed
  ultimately show ?thesis by blast
qed

theorem unanswered_bracket_stays_rejected_witness:
  "\<exists>w'. snd (place_bracket demo_penv (demo_benv (Inl SidecarTimeout)) demo_bracket (demo_stored [])) = w'
      \<and> map_option o_status (find_order ''s1'' (fold consume [(''a1'', demo_event)] ((demo [])\<lparr>sdb := w_db w'\<rparr>))) = Some Rejected"
proof -
  obtain r w' where p: "place_bracket demo_penv (demo_benv (Inl SidecarTimeout)) demo_bracket (demo_stored []) = (r, w')"
    "w_sent w' \<noteq> w_sent (demo_stored [])" using demo_bracket_placed by blast
  have s: "sdb ((demo [])\<lparr>sdb := w_db w'\<rparr>) = w_db w'" by simp
  have "be_reply (demo_benv (Inl SidecarTimeout)) x y z = Inl SidecarTimeout" for x y z by (simp add: demo_benv_def)
  from unanswered_bracket_stays_rejected [OF p demo_bracket_fresh this _ s, of "''s1''" "[(''a1'', demo_event)]"] p(1)
  show ?thesis by (simp add: bracket_rows_def demo_bracket_def demo_benv_def)
qed

theorem bracket_replaces_order_witness:
  "\<exists>w'. snd (place_bracket demo_penv (demo_benv (Inl SidecarTimeout)) demo_bracket (demo_stored [demo_plain])) = w'
      \<and> o_status demo_plain = Submitted \<and> (\<forall>r \<in> set (orders (w_db w')). o_id r \<noteq> o_id demo_plain)"
proof -
  obtain r w' where p: "place_bracket demo_penv (demo_benv (Inl SidecarTimeout)) demo_bracket (demo_stored [demo_plain]) = (r, w')"
    "w_sent w' \<noteq> w_sent (demo_stored [demo_plain])" using demo_bracket_placed by blast
  have "stored_as demo_bracket (demo_stored [demo_plain]) = Some demo_plain"
    by (simp add: lookup_order_def demo_bracket_defs)
  from bracket_replaces_order [OF p demo_bracket_fresh this] p(1) show ?thesis by (simp add: demo_plain_def)
qed

end
