(* ===== verification/Ibkr_Builder.thy ===== *)
theory Ibkr_Builder
  imports Orders_Data
begin

text \<open>
  \<open>sidecar_ibkr/order_builder.py\<close>: the order handed to the vendor's library \<open>ib_async\<close>, built from a
  request of the backend.

  \<open>ib_order\<close> holds the attributes of \<open>ib_async.Order\<close> that the sidecar assigns or reads, with the
  defaults of that class; \<open>UNSET_DOUBLE\<close> is \<open>None\<close>. Floats are taken by value. \<open>float(s)\<close> and
  \<open>Decimal(s)\<close> of request texts are \<open>dec_text\<close>: what the parser makes of the text; not-a-number and
  infinities are left out.
\<close>

section \<open>Requests and orders\<close>

text \<open>\<open>PlaceOrderRequest\<close> of the protocol. \<open>algo_params\<close> is a map with texts as values.\<close>

record ib_request =
  ir_account :: string
  ir_client :: string
  ir_conid :: string
  ir_side :: string
  ir_type :: string
  ir_tif :: string
  ir_qty :: dec_text
  ir_limit :: dec_text
  ir_stop :: dec_text
  ir_trail :: dec_text
  ir_trail_type :: string
  ir_trail_limit :: dec_text
  ir_expiry :: string
  ir_oco :: string
  ir_algo :: string
  ir_params :: "(string \<times> string) list"

text \<open>A time in force is a text, or the number of an enum value where one is assigned.\<close>

datatype tif_value = TifText string | TifNumber nat

record ib_order =
  io_id :: nat
  io_perm :: nat
  io_ref :: string
  io_account :: string
  io_action :: side
  io_qty :: decimal
  io_type :: string
  io_tif :: tif_value
  io_lmt :: "decimal option"
  io_aux :: "decimal option"
  io_pct :: "decimal option"
  io_gtd :: string
  io_oca :: string
  io_oca_type :: nat
  io_parent :: nat
  io_transmit :: bool
  io_whatif :: bool
  io_algo :: string
  io_params :: "(string \<times> string) list"

definition blank_order :: "side \<Rightarrow> decimal \<Rightarrow> ib_order" where
  "blank_order sd q =
     \<lparr>io_id = 0, io_perm = 0, io_ref = [], io_account = [], io_action = sd, io_qty = q, io_type = [], io_tif = TifText [],
      io_lmt = None, io_aux = None, io_pct = None, io_gtd = [], io_oca = [], io_oca_type = 0, io_parent = 0,
      io_transmit = True, io_whatif = False, io_algo = [], io_params = []\<rparr>"

fun to_float :: "dec_text \<Rightarrow> exn + decimal" where
  "to_float (DNum x) = Inr x"
| "to_float DEmpty = Inl (ValueError ''could not convert string to float'')"
| "to_float DBad = Inl (ValueError ''could not convert string to float'')"

section \<open>Types and prices\<close>

definition set_lmt :: "dec_text \<Rightarrow> ib_order \<Rightarrow> exn + ib_order" where
  "set_lmt t o1 = rbind (to_float t) (\<lambda>x. Inr (o1\<lparr>io_lmt := Some x\<rparr>))"

definition set_aux :: "dec_text \<Rightarrow> ib_order \<Rightarrow> exn + ib_order" where
  "set_aux t o1 = rbind (to_float t) (\<lambda>x. Inr (o1\<lparr>io_aux := Some x\<rparr>))"

definition set_offset :: "ib_request \<Rightarrow> ib_order \<Rightarrow> exn + ib_order" where
  "set_offset q o1 =
     (if ir_trail_type q = ''PERCENT'' then rbind (to_float (ir_trail q)) (\<lambda>x. Inr (o1\<lparr>io_pct := Some x\<rparr>))
      else set_aux (ir_trail q) o1)"

definition set_order_type :: "ib_request \<Rightarrow> ib_order \<Rightarrow> exn + ib_order" where
  "set_order_type q o1 =
     (let t = ir_type q in
      if t = ''MARKET'' then Inr (o1\<lparr>io_type := ''MKT''\<rparr>)
      else if t = ''LIMIT'' then set_lmt (ir_limit q) (o1\<lparr>io_type := ''LMT''\<rparr>)
      else if t = ''STOP'' then set_aux (ir_stop q) (o1\<lparr>io_type := ''STP''\<rparr>)
      else if t = ''STOP_LIMIT'' then rbind (set_lmt (ir_limit q) (o1\<lparr>io_type := ''STP LMT''\<rparr>)) (set_aux (ir_stop q))
      else if t = ''TRAIL'' then set_offset q (o1\<lparr>io_type := ''TRAIL''\<rparr>)
      else if t = ''TRAIL_LIMIT'' then rbind (set_lmt (ir_trail_limit q) (o1\<lparr>io_type := ''TRAIL LIMIT''\<rparr>)) (set_offset q)
      else if t = ''MOC'' then Inr (o1\<lparr>io_type := ''MOC''\<rparr>)
      else if t = ''MOO'' then Inr (o1\<lparr>io_type := ''MKT'', io_tif := TifText ''OPG''\<rparr>)
      else if t = ''LOC'' then set_lmt (ir_limit q) (o1\<lparr>io_type := ''LOC''\<rparr>)
      else if t = ''LOO'' then rbind (set_lmt (ir_limit q) (o1\<lparr>io_type := ''LMT''\<rparr>)) (\<lambda>o2. Inr (o2\<lparr>io_tif := TifText ''OPG''\<rparr>))
      else Inl (ValueError ''Unsupported order_type''))"

section \<open>Time in force\<close>

definition EXCHANGE_TZ :: "(string \<times> string) list" where
  "EXCHANGE_TZ = [(''NYSE'', ''US/Eastern''), (''NASDAQ'', ''US/Eastern''), (''ARCA'', ''US/Eastern''), (''AMEX'', ''US/Eastern''),
     (''HKEX'', ''Asia/Hong_Kong''), (''SEHK'', ''Asia/Hong_Kong''), (''LSE'', ''Europe/London'')]"

definition IBKR_GTD_EOD_TIME :: string where
  "IBKR_GTD_EOD_TIME = ''23:59:59 US/Eastern''"

definition gtd_string :: "string \<Rightarrow> string \<Rightarrow> string" where
  "gtd_string d ex =
     filter (\<lambda>c. c \<noteq> CHR ''-'') d @ '' 23:59:59 '' @ (case map_of EXCHANGE_TZ (upper ex) of Some z \<Rightarrow> z | None \<Rightarrow> ''US/Eastern'')"

definition format_ibkr_gtd :: "string \<Rightarrow> string" where
  "format_ibkr_gtd d = filter (\<lambda>c. c \<noteq> CHR ''-'') d @ '' '' @ IBKR_GTD_EOD_TIME"

definition set_tif_modifiers :: "ib_request \<Rightarrow> ib_order \<Rightarrow> ib_order" where
  "set_tif_modifiers q o1 =
     (if ir_type q \<in> {''MOO'', ''LOO''} \<or> ir_tif q = [] then o1
      else if ir_tif q = ''GTD'' then o1\<lparr>io_tif := TifText ''GTD'', io_gtd := format_ibkr_gtd (ir_expiry q)\<rparr>
      else o1\<lparr>io_tif := TifText (ir_tif q)\<rparr>)"

text \<open>\<open>build_ib_order\<close> as \<open>BrokerHandlers._build_ib_order\<close> calls it: every side but BUY sells.\<close>

definition build_ib_order :: "ib_request \<Rightarrow> exn + ib_order" where
  "build_ib_order q =
     rbind (to_float (ir_qty q)) (\<lambda>x.
     rbind (set_order_type q (blank_order (if ir_side q = ''BUY'' then Buy else Sell) x)) (\<lambda>o1.
       Inr (set_tif_modifiers q o1)))"

section \<open>Cancel groups and algorithms\<close>

definition attach_oca_group :: "string \<Rightarrow> nat \<Rightarrow> ib_order \<Rightarrow> exn + ib_order" where
  "attach_oca_group g t o1 =
     (if 32 < length g then Inl (ValueError ''oca_group_id too long'')
      else if t \<notin> {1, 2, 3} then Inl (ValueError ''oca_type must be 1, 2, or 3'')
      else Inr (o1\<lparr>io_oca := g, io_oca_type := t\<rparr>))"

definition ALGO_STRATEGY_MAP :: "(string \<times> string) list" where
  "ALGO_STRATEGY_MAP = [(''ADAPTIVE'', ''Adaptive''), (''TWAP'', ''Twap''), (''VWAP'', ''Vwap''), (''ARRIVAL_PRICE'', ''ArrivalPx''),
     (''ICEBERG'', ''Iceberg''), (''RESERVE'', ''PctVol''), (''DARK_ICE'', ''DarkIce'')]"

definition ALGO_STRATEGY_MAP_REVERSE :: "(string \<times> string) list" where
  "ALGO_STRATEGY_MAP_REVERSE = map (\<lambda>(k, v). (v, k)) ALGO_STRATEGY_MAP"

definition IBKR_DISPLAY_ALGOS :: "string list" where
  "IBKR_DISPLAY_ALGOS = [''ICEBERG'', ''RESERVE'', ''DARK_ICE'']"

definition ALGO_TAGVALUE_KEYS :: "(string \<times> (string \<times> string) list) list" where
  "ALGO_TAGVALUE_KEYS =
     [(''ADAPTIVE'', [(''urgency'', ''adaptPriority'')]),
      (''TWAP'', [(''start_time'', ''startTime''), (''end_time'', ''endTime''), (''allow_past_end_time'', ''allowPastEndTime'')]),
      (''VWAP'', [(''start_time'', ''startTime''), (''end_time'', ''endTime''), (''max_pct_vol'', ''maxPctVol''), (''no_take_liq'', ''noTakeLiq'')]),
      (''ARRIVAL_PRICE'', [(''urgency'', ''adaptPriority''), (''max_pct_vol'', ''maxPctVol'')]),
      (''ICEBERG'', [(''display_size'', ''displaySize'')]),
      (''RESERVE'', [(''display_size'', ''displaySize''), (''randomize_size'', ''randomizeSize'')]),
      (''DARK_ICE'', [(''display_size'', ''displaySize'')])]"

text \<open>
  \<open>Decimal(s)\<close> of a text: the parser \<open>dec\<close>. The handler names \<open>Decimal.InvalidOperation\<close>, which
  does not exist, so looking it up raises \<open>AttributeError\<close> in place of the intended \<open>ValueError\<close>.
\<close>

definition check_display_size :: "(string \<Rightarrow> dec_text) \<Rightarrow> (string \<times> string) list \<Rightarrow> exn + unit" where
  "check_display_size dec ps =
     (case to_decimal (dec (case map_of ps ''display_size'' of Some s \<Rightarrow> s | None \<Rightarrow> ''0'')) of
        Inl _ \<Rightarrow> Inl AttributeError
      | Inr d \<Rightarrow> if d \<le> 0 then Inl (ValueError ''display_size must be > 0'') else Inr ())"

definition tag_value :: "string \<Rightarrow> string \<Rightarrow> string" where
  "tag_value k v =
     (let v1 = (if k \<in> {''start_time'', ''end_time''} \<and> length v = 5 then v @ '':00'' else v) in
      if k \<in> {''allow_past_end_time'', ''no_take_liq'', ''randomize_size''} then (if lower v1 = ''true'' then ''1'' else ''0'') else v1)"

definition tag_values :: "string \<Rightarrow> (string \<times> string) list \<Rightarrow> (string \<times> string) list" where
  "tag_values st ps =
     concat (map (\<lambda>(k, ib). case map_of ps k of Some v \<Rightarrow> [(ib, tag_value k v)] | None \<Rightarrow> [])
       (case map_of ALGO_TAGVALUE_KEYS st of Some ks \<Rightarrow> ks | None \<Rightarrow> []))"

definition build_ib_algo_order :: "(string \<Rightarrow> dec_text) \<Rightarrow> ib_request \<Rightarrow> ib_order \<Rightarrow> exn + ib_order" where
  "build_ib_algo_order dec q o1 =
     (let st = ir_algo q; ps = ir_params q in
      if 16 < length ps then Inl (ValueError ''algo_params has too many keys'')
      else if \<exists>(k, v) \<in> set ps. 64 < length v then Inl (ValueError ''algo_params value too long'')
      else if st \<in> set IBKR_DISPLAY_ALGOS \<and> ir_type q \<noteq> ''LIMIT'' then Inl (ValueError ''strategy requires LMT order type'')
      else rbind (if st \<in> set IBKR_DISPLAY_ALGOS then check_display_size dec ps else Inr ()) (\<lambda>_.
        case map_of ALGO_STRATEGY_MAP st of
          None \<Rightarrow> Inl (ValueError ''Unknown algo strategy'')
        | Some s \<Rightarrow> Inr (o1\<lparr>io_algo := s, io_params := tag_values st ps\<rparr>)))"

section \<open>Requests of the backend\<close>

text \<open>The texts that \<open>BrokerSidecarClient.place_order\<close> puts into the request; absent prices are empty.\<close>

fun otype_text :: "otype \<Rightarrow> string" where
  "otype_text MARKET = ''MARKET''" | "otype_text LIMIT = ''LIMIT''" | "otype_text STOP = ''STOP''"
| "otype_text STOP_LIMIT = ''STOP_LIMIT''" | "otype_text TRAIL = ''TRAIL''" | "otype_text TRAIL_LIMIT = ''TRAIL_LIMIT''"
| "otype_text MOC = ''MOC''" | "otype_text MOO = ''MOO''" | "otype_text LOC = ''LOC''" | "otype_text LOO = ''LOO''"

fun otif_text :: "otif \<Rightarrow> string" where
  "otif_text DAY = ''DAY''" | "otif_text GTC = ''GTC''" | "otif_text IOC = ''IOC''" | "otif_text FOK = ''FOK''"
| "otif_text GTD = ''GTD''"

fun side_text :: "side \<Rightarrow> string" where
  "side_text Buy = ''BUY''" | "side_text Sell = ''SELL''"

definition opt_text :: "decimal option \<Rightarrow> dec_text" where
  "opt_text x = (case x of Some d \<Rightarrow> DNum d | None \<Rightarrow> DEmpty)"

definition place_request :: "string \<Rightarrow> place_wire \<Rightarrow> ib_request" where
  "place_request acct p =
     \<lparr>ir_account = acct, ir_client = pw_client p, ir_conid = pw_conid p, ir_side = side_text (pw_side p), ir_type = otype_text (pw_type p),
      ir_tif = otif_text (pw_tif p), ir_qty = DNum (pw_qty p), ir_limit = opt_text (pw_limit p), ir_stop = opt_text (pw_stop p),
      ir_trail = opt_text (pw_trail p),
      ir_trail_type = (case pw_trail_type p of None \<Rightarrow> [] | Some AMOUNT \<Rightarrow> ''AMOUNT'' | Some PERCENT \<Rightarrow> ''PERCENT''),
      ir_trail_limit = opt_text (pw_trail_limit p), ir_expiry = (case pw_expiry p of None \<Rightarrow> [] | Some d \<Rightarrow> d),
      ir_oco = [], ir_algo = [], ir_params = []\<rparr>"

section \<open>An order read back\<close>

text \<open>
  What an order of the library asks for, in the terms of the request. Market-on-open and
  limit-on-open are the market and limit orders with the time in force \<open>OPG\<close>.
\<close>

definition read_type :: "ib_order \<Rightarrow> otype option" where
  "read_type o1 =
     (let opg = (io_tif o1 = TifText ''OPG'') in
      map_of [(''MKT'', if opg then MOO else MARKET), (''LMT'', if opg then LOO else LIMIT), (''STP'', STOP), (''STP LMT'', STOP_LIMIT),
        (''TRAIL'', TRAIL), (''TRAIL LIMIT'', TRAIL_LIMIT), (''MOC'', MOC), (''LOC'', LOC)] (io_type o1))"

definition read_tif :: "ib_order \<Rightarrow> otif option" where
  "read_tif o1 =
     (case io_tif o1 of
        TifText t \<Rightarrow> map_of [(''DAY'', DAY), (''OPG'', DAY), (''GTC'', GTC), (''IOC'', IOC), (''FOK'', FOK), (''GTD'', GTD)] t
      | TifNumber _ \<Rightarrow> None)"

definition read_stop :: "ib_order \<Rightarrow> decimal option" where
  "read_stop o1 = (if read_type o1 \<in> {Some TRAIL, Some TRAIL_LIMIT} then None else io_aux o1)"

definition read_limit :: "ib_order \<Rightarrow> decimal option" where
  "read_limit o1 = (if read_type o1 = Some TRAIL_LIMIT then None else io_lmt o1)"

definition read_trail :: "ib_order \<Rightarrow> (decimal \<times> trail_type) option" where
  "read_trail o1 =
     (if read_type o1 \<in> {Some TRAIL, Some TRAIL_LIMIT}
      then (case io_pct o1 of Some x \<Rightarrow> Some (x, PERCENT) | None \<Rightarrow> map_option (\<lambda>x. (x, AMOUNT)) (io_aux o1))
      else None)"

definition read_trail_limit :: "ib_order \<Rightarrow> decimal option" where
  "read_trail_limit o1 = (if read_type o1 = Some TRAIL_LIMIT then io_lmt o1 else None)"

lemmas builder_defs = build_ib_order_def place_request_def set_order_type_def set_lmt_def set_aux_def set_offset_def
  set_tif_modifiers_def blank_order_def opt_text_def

lemma shapeD:
  "validate_order_shape date_ok ty tf l s t tt u ex = Inr () \<Longrightarrow>
     shape_of_type ty l s t tt u \<and> (ty \<in> {MOC, MOO, LOC, LOO} \<longrightarrow> tf = DAY) \<and> (tf = GTD \<longleftrightarrow> ex \<noteq> None)"
  by (auto simp: validate_order_shape_def SESSION_BOUND_ORDER_TYPES_def split: if_splits)

definition wire_valid :: "(string \<Rightarrow> bool) \<Rightarrow> place_wire \<Rightarrow> bool" where
  "wire_valid date_ok p \<longleftrightarrow>
     validate_order_shape date_ok (pw_type p) (pw_tif p) (pw_limit p) (pw_stop p) (pw_trail p) (pw_trail_type p) (pw_trail_limit p)
       (pw_expiry p) = Inr ()"

definition reads_as :: "ib_order \<Rightarrow> place_wire \<Rightarrow> bool" where
  "reads_as o1 p \<longleftrightarrow>
     io_action o1 = pw_side p \<and> io_qty o1 = pw_qty p \<and> read_type o1 = Some (pw_type p) \<and> read_tif o1 = Some (pw_tif p)
   \<and> read_limit o1 = pw_limit p \<and> read_stop o1 = pw_stop p
   \<and> read_trail o1 = (case (pw_trail p, pw_trail_type p) of (Some x, Some k) \<Rightarrow> Some (x, k) | _ \<Rightarrow> None)
   \<and> read_trail_limit o1 = pw_trail_limit p
   \<and> io_gtd o1 = (case pw_expiry p of None \<Rightarrow> [] | Some d \<Rightarrow> format_ibkr_gtd d)"

lemmas read_defs = reads_as_def read_type_def read_tif_def read_limit_def read_stop_def read_trail_def read_trail_limit_def

lemma tif_text_map:
  "map_of [(''DAY'', DAY), (''OPG'', DAY), (''GTC'', GTC), (''IOC'', IOC), (''FOK'', FOK), (''GTD'', GTD)] (otif_text tf) = Some tf"
  "otif_text tf \<noteq> ''OPG''" "otif_text tf \<noteq> []" "otif_text tf = ''GTD'' \<longleftrightarrow> tf = GTD"
  by (cases tf; simp)+

lemma tif_set:
  assumes "pw_tif p = GTD \<longleftrightarrow> pw_expiry p \<noteq> None" and "io_gtd o1 = []" and "pw_type p \<notin> {MOO, LOO}"
  shows "set_tif_modifiers (place_request acct p) o1 = o1\<lparr>io_tif := TifText (otif_text (pw_tif p)),
    io_gtd := (case pw_expiry p of None \<Rightarrow> [] | Some d \<Rightarrow> format_ibkr_gtd d)\<rparr>"
  using assms
  by (cases "pw_type p"; cases "pw_tif p"; cases o1; auto simp: set_tif_modifiers_def place_request_def)

lemma open_set: "pw_type p \<in> {MOO, LOO} \<Longrightarrow> set_tif_modifiers (place_request acct p) o1 = o1"
  by (auto simp: set_tif_modifiers_def place_request_def)

lemma side_read: "(if side_text sd = ''BUY'' then Buy else Sell) = sd"
  by (cases sd) auto

lemma request_sel:
  "ir_type (place_request acct p) = otype_text (pw_type p)" "ir_qty (place_request acct p) = DNum (pw_qty p)"
  "ir_limit (place_request acct p) = opt_text (pw_limit p)" "ir_stop (place_request acct p) = opt_text (pw_stop p)"
  "ir_trail (place_request acct p) = opt_text (pw_trail p)" "ir_trail_limit (place_request acct p) = opt_text (pw_trail_limit p)"
  "ir_side (place_request acct p) = side_text (pw_side p)"
  "ir_trail_type (place_request acct p) = ''PERCENT'' \<longleftrightarrow> pw_trail_type p = Some PERCENT"
  by (auto simp: place_request_def split: option.splits trail_type.splits)

definition is_trail :: "otype \<Rightarrow> bool" where
  "is_trail ty \<longleftrightarrow> ty = TRAIL \<or> ty = TRAIL_LIMIT"

fun ib_type :: "otype \<Rightarrow> string" where
  "ib_type MARKET = ''MKT''" | "ib_type LIMIT = ''LMT''" | "ib_type STOP = ''STP''" | "ib_type STOP_LIMIT = ''STP LMT''"
| "ib_type TRAIL = ''TRAIL''" | "ib_type TRAIL_LIMIT = ''TRAIL LIMIT''" | "ib_type MOC = ''MOC''" | "ib_type MOO = ''MKT''"
| "ib_type LOC = ''LOC''" | "ib_type LOO = ''LMT''"

definition typed_order :: "place_wire \<Rightarrow> ib_order" where
  "typed_order p = (blank_order (pw_side p) (pw_qty p))\<lparr>
     io_type := ib_type (pw_type p),
     io_lmt := (if pw_type p = TRAIL_LIMIT then pw_trail_limit p else pw_limit p),
     io_aux := (if is_trail (pw_type p) then (if pw_trail_type p = Some PERCENT then None else pw_trail p) else pw_stop p),
     io_pct := (if is_trail (pw_type p) \<and> pw_trail_type p = Some PERCENT then pw_trail p else None),
     io_tif := TifText (if pw_type p \<in> {MOO, LOO} then ''OPG'' else [])\<rparr>"

lemma set_some:
  "l \<noteq> None \<Longrightarrow> set_lmt (opt_text l) o1 = Inr (o1\<lparr>io_lmt := l\<rparr>)"
  "l \<noteq> None \<Longrightarrow> set_aux (opt_text l) o1 = Inr (o1\<lparr>io_aux := l\<rparr>)"
  by (auto simp: set_lmt_def set_aux_def opt_text_def)

lemma set_offset_some:
  assumes "pw_trail p \<noteq> None"
  shows "set_offset (place_request acct p) o1 =
    Inr (if pw_trail_type p = Some PERCENT then o1\<lparr>io_pct := pw_trail p\<rparr> else o1\<lparr>io_aux := pw_trail p\<rparr>)"
  using assms set_some(2) [OF assms] by (auto simp: set_offset_def request_sel opt_text_def)

lemma type_set:
  assumes "shape_of_type (pw_type p) (pw_limit p) (pw_stop p) (pw_trail p) (pw_trail_type p) (pw_trail_limit p)"
  shows "set_order_type (place_request acct p) (blank_order (pw_side p) (pw_qty p)) = Inr (typed_order p)"
  using assms
  by (cases "pw_type p")
    (simp_all add: set_order_type_def request_sel Let_def typed_order_def blank_order_def is_trail_def set_some set_offset_some)

definition finished_order :: "place_wire \<Rightarrow> ib_order" where
  "finished_order p = (typed_order p)\<lparr>
     io_tif := TifText (if pw_type p \<in> {MOO, LOO} then ''OPG'' else otif_text (pw_tif p)),
     io_gtd := (case pw_expiry p of None \<Rightarrow> [] | Some d \<Rightarrow> format_ibkr_gtd d)\<rparr>"

lemma finished_is_set:
  assumes "pw_tif p = GTD \<longleftrightarrow> pw_expiry p \<noteq> None" and "pw_type p \<in> {MOO, LOO} \<longrightarrow> pw_tif p = DAY"
  shows "set_tif_modifiers (place_request acct p) (typed_order p) = finished_order p"
proof (cases "pw_type p \<in> {MOO, LOO}")
  case True
  then have "pw_expiry p = None" using assms by simp
  with True show ?thesis by (simp add: open_set finished_order_def typed_order_def blank_order_def)
next
  case False
  have "io_gtd (typed_order p) = []" by (simp add: typed_order_def blank_order_def)
  with False show ?thesis using assms by (simp add: tif_set finished_order_def)
qed

lemma finished_sel:
  "io_action (finished_order p) = pw_side p" "io_qty (finished_order p) = pw_qty p" "io_type (finished_order p) = ib_type (pw_type p)"
  "io_lmt (finished_order p) = (if pw_type p = TRAIL_LIMIT then pw_trail_limit p else pw_limit p)"
  "io_aux (finished_order p) = (if is_trail (pw_type p) then (if pw_trail_type p = Some PERCENT then None else pw_trail p) else pw_stop p)"
  "io_pct (finished_order p) = (if is_trail (pw_type p) \<and> pw_trail_type p = Some PERCENT then pw_trail p else None)"
  "io_tif (finished_order p) = TifText (if pw_type p \<in> {MOO, LOO} then ''OPG'' else otif_text (pw_tif p))"
  "io_gtd (finished_order p) = (case pw_expiry p of None \<Rightarrow> [] | Some d \<Rightarrow> format_ibkr_gtd d)"
  by (simp_all add: finished_order_def typed_order_def blank_order_def)

lemma finished_type: "read_type (finished_order p) = Some (pw_type p)"
  unfolding read_type_def finished_sel
  by (cases "pw_type p") (simp_all add: tif_text_map)

lemma finished_tif:
  assumes "pw_type p \<in> {MOO, LOO} \<longrightarrow> pw_tif p = DAY"
  shows "read_tif (finished_order p) = Some (pw_tif p)"
proof (cases "pw_type p \<in> {MOO, LOO}")
  case True
  then show ?thesis using assms by (simp add: read_tif_def finished_sel)
next
  case False
  then show ?thesis using tif_text_map(1) [of "pw_tif p"] by (simp add: read_tif_def finished_sel)
qed

lemma finished_prices:
  assumes "shape_of_type (pw_type p) (pw_limit p) (pw_stop p) (pw_trail p) (pw_trail_type p) (pw_trail_limit p)"
  shows "read_limit (finished_order p) = pw_limit p" "read_stop (finished_order p) = pw_stop p"
    "read_trail_limit (finished_order p) = pw_trail_limit p"
    "read_trail (finished_order p) = (case (pw_trail p, pw_trail_type p) of (Some x, Some k) \<Rightarrow> Some (x, k) | _ \<Rightarrow> None)"
  unfolding read_limit_def read_stop_def read_trail_def read_trail_limit_def finished_type
  using assms
  by (cases "pw_type p"; auto simp: finished_sel is_trail_def split: option.splits; metis trail_type.exhaust)+



text \<open>A malformed display size escapes the \<open>ValueError\<close> that callers expect.\<close>

theorem malformed_display_size_escapes:
  assumes "ir_algo q \<in> set IBKR_DISPLAY_ALGOS" and "ir_type q = ''LIMIT''" and "length (ir_params q) \<le> 16"
    and "\<forall>(k, v) \<in> set (ir_params q). length v \<le> 64"
    and "map_of (ir_params q) ''display_size'' = Some t" and "dec t \<in> {DEmpty, DBad}"
  shows "build_ib_algo_order dec q o1 = Inl AttributeError"
  using assms by (force simp: build_ib_algo_order_def check_display_size_def Let_def)

definition iceberg_request :: ib_request where
  "iceberg_request = (place_request ''U1'' \<lparr>pw_client = ''c'', pw_conid = ''1'', pw_side = Buy, pw_type = LIMIT, pw_tif = DAY, pw_qty = 5,
       pw_limit = Some 1, pw_stop = None, pw_trail = None, pw_trail_type = None, pw_trail_limit = None, pw_expiry = None\<rparr>)
     \<lparr>ir_algo := ''ICEBERG'', ir_params := [(''display_size'', ''ten'')]\<rparr>"

theorem malformed_display_size_escapes_witness:
  "build_ib_algo_order (\<lambda>_. DBad) iceberg_request (blank_order Buy 5) = Inl AttributeError"
  by (rule malformed_display_size_escapes [where t = "''ten''"])
    (simp_all add: iceberg_request_def place_request_def IBKR_DISPLAY_ALGOS_def)

text \<open>The reverse map gives every strategy its name back.\<close>

lemma algo_map_reverse:
  "map_of ALGO_STRATEGY_MAP k = Some v \<Longrightarrow> map_of ALGO_STRATEGY_MAP_REVERSE v = Some k"
  by (auto simp: ALGO_STRATEGY_MAP_def ALGO_STRATEGY_MAP_REVERSE_def split: if_splits)

end
