(* ===== verification/Ibkr_Handlers.thy ===== *)
theory Ibkr_Handlers
  imports Ibkr_Builder
begin

text \<open>
  The order handlers of \<open>sidecar_ibkr/handlers.py\<close>: \<open>PlaceOrder\<close>, \<open>PreviewOrder\<close>, \<open>CancelOrder\<close>,
  \<open>ModifyOrder\<close>, \<open>PlaceBracket\<close>, \<open>PlaceCombo\<close>, the simulated orders and the queues of order events.

  The vendor's library \<open>ib_async\<close> is the parameter \<open>ib_api\<close> over its session \<open>'b\<close>; what the
  proofs rely on is the locale \<open>ib_session\<close>: \<open>placeOrder\<close> of a fresh order appends one trade that
  carries the order as given, but for its numbers, the other calls keep what was asked. Attribute
  assignments to the order of a trade are visible in the session (\<open>ik_assign\<close>), as objects are
  shared. A handler runs to its end before the next one starts.
\<close>

section \<open>The library\<close>

datatype ib_contract =
    ByConid int
  | Qualified int
  | OptionSpec string string decimal string string string
  | Bag string string "(nat \<times> int \<times> side) list"

text \<open>\<open>itr_obj\<close> is the identity of the order object that the trade refers to.\<close>

record ib_trade =
  itr_obj :: nat
  itr_contract :: ib_contract
  itr_order :: ib_order
  itr_status :: string

record what_if =
  wi_status :: string
  wi_warning :: string
  wi_init :: "string option"
  wi_maint :: "string option"
  wi_commission :: "string option"
  wi_equity :: "string option"

record 'b ib_api =
  ik_qualify :: "ib_contract \<Rightarrow> 'b \<Rightarrow> (exn + ib_contract list) \<times> 'b"
  ik_details :: "ib_contract \<Rightarrow> 'b \<Rightarrow> (exn + nat list) \<times> 'b"
  ik_place :: "ib_contract \<Rightarrow> ib_order \<Rightarrow> 'b \<Rightarrow> (exn + ib_trade) \<times> 'b"
  ik_cancel :: "ib_order \<Rightarrow> 'b \<Rightarrow> (exn + unit) \<times> 'b"
  ik_assign :: "nat \<Rightarrow> (ib_order \<Rightarrow> ib_order) \<Rightarrow> 'b \<Rightarrow> 'b"
  ik_filled :: "ib_trade \<Rightarrow> 'b \<Rightarrow> what_if option \<times> 'b"
  ik_trades :: "'b \<Rightarrow> ib_trade list"
  ik_open :: "'b \<Rightarrow> ib_trade list"

section \<open>The sidecar\<close>

record sim_meta =
  sim_client :: string
  sim_account :: string
  sim_parent :: "string option"

record order_event =
  oe_broker :: string
  oe_client :: string
  oe_status :: string
  oe_account :: string

record preview_answer =
  wa_accepted :: bool
  wa_reason :: string
  wa_init :: string
  wa_maint :: string
  wa_commission :: string
  wa_funds :: string
  wa_power :: string
  wa_warnings :: "string list"

record 'b sidecar =
  sk_ib :: 'b
  sk_sim :: "(string \<times> sim_meta) list"
  sk_fresh :: nat
  sk_queues :: "string \<Rightarrow> order_event list list"
  sk_lru :: "(string \<times> decimal \<times> preview_answer) list"

text \<open>\<open>gw_uuid n\<close> is the \<open>n\<close>-th fresh \<open>uuid7()\<close>, \<open>gw_decimal\<close> the parser behind \<open>Decimal()\<close>.\<close>

record 'b gateway =
  gw_api :: "'b ib_api"
  gw_simulator :: bool
  gw_uuid :: "nat \<Rightarrow> string"
  gw_decimal :: "string \<Rightarrow> dec_text"

definition on_ib :: "('b \<Rightarrow> (exn + 'a) \<times> 'b) \<Rightarrow> ('a, 'b sidecar) act" where
  "on_ib m = (\<lambda>s. case m (sk_ib s) of (r, b) \<Rightarrow> (r, s\<lparr>sk_ib := b\<rparr>))"

definition sk_read :: "('b sidecar \<Rightarrow> 'a) \<Rightarrow> ('a, 'b sidecar) act" where
  "sk_read f = (\<lambda>s. (Inr (f s), s))"

definition sk_upd :: "('b sidecar \<Rightarrow> 'b sidecar) \<Rightarrow> (unit, 'b sidecar) act" where
  "sk_upd f = (\<lambda>s. (Inr (), f s))"

definition ib_resolve_contract :: "'b gateway \<Rightarrow> string \<Rightarrow> (ib_contract, 'b sidecar) act" where
  "ib_resolve_contract gw conid =
     abind (of_res (parse_int conid)) (\<lambda>i.
     abind (on_ib (ik_qualify (gw_api gw) (ByConid i))) (\<lambda>cs.
       aret (case cs of [] \<Rightarrow> ByConid i | c # _ \<Rightarrow> c)))"

section \<open>Simulated orders\<close>

definition new_sim :: "'b gateway \<Rightarrow> sim_meta \<Rightarrow> (string, 'b sidecar) act" where
  "new_sim gw m = (\<lambda>s. let i = ''SIM-'' @ gw_uuid gw (sk_fresh s) in
     (Inr i, s\<lparr>sk_fresh := Suc (sk_fresh s), sk_sim := AList.update i m (sk_sim s)\<rparr>))"

text \<open>\<open>asyncio.Queue(maxsize=10000)\<close>; a message for a full queue is dropped.\<close>

definition QUEUE_MAX :: nat where "QUEUE_MAX = 10000"

definition put_nowait :: "order_event \<Rightarrow> order_event list \<Rightarrow> order_event list" where
  "put_nowait e q = (if QUEUE_MAX \<le> length q then q else q @ [e])"

definition dispatch_sim_event :: "string \<Rightarrow> string \<Rightarrow> string \<Rightarrow> string \<Rightarrow> (unit, 'b sidecar) act" where
  "dispatch_sim_event acct b c st =
     sk_upd (\<lambda>s. s\<lparr>sk_queues := (sk_queues s)(acct :=
       map (put_nowait \<lparr>oe_broker = b, oe_client = c, oe_status = st, oe_account = acct\<rparr>) (sk_queues s acct))\<rparr>)"

definition is_sim :: "string \<Rightarrow> bool" where
  "is_sim b \<longleftrightarrow> take 4 b = ''SIM-''"

section \<open>Placing an order\<close>

record place_answer =
  pl_broker :: string
  pl_status :: string

definition answer_of :: "ib_trade \<Rightarrow> place_answer" where
  "answer_of t = \<lparr>pl_broker = nat_text (io_perm (itr_order t)), pl_status = itr_status t\<rparr>"

definition stamp :: "ib_request \<Rightarrow> ib_order \<Rightarrow> ib_order" where
  "stamp q o1 = o1\<lparr>io_ref := ir_client q, io_account := ir_account q\<rparr>"

definition prepare_order :: "(string \<Rightarrow> dec_text) \<Rightarrow> ib_request \<Rightarrow> exn + ib_order" where
  "prepare_order dec q =
     rbind (build_ib_order q) (\<lambda>o1.
     rbind (if ir_oco q \<noteq> [] then attach_oca_group (ir_oco q) 1 (stamp q o1) else Inr (stamp q o1)) (\<lambda>o2.
       if ir_algo q \<noteq> [] then build_ib_algo_order dec q o2 else Inr o2))"

definition same_ref :: "string \<Rightarrow> ib_trade \<Rightarrow> bool" where
  "same_ref c t \<longleftrightarrow> io_ref (itr_order t) = c"

definition place_new :: "'b gateway \<Rightarrow> ib_request \<Rightarrow> (place_answer, 'b sidecar) act" where
  "place_new gw q =
     abind (ib_resolve_contract gw (ir_conid q)) (\<lambda>c.
     abind (of_res (prepare_order (gw_decimal gw) q)) (\<lambda>o1.
     abind (on_ib (ik_place (gw_api gw) c o1)) (\<lambda>t. aret (answer_of t))))"

definition PlaceOrder :: "'b gateway \<Rightarrow> ib_request \<Rightarrow> (place_answer, 'b sidecar) act" where
  "PlaceOrder gw q =
     (if gw_simulator gw
      then abind (new_sim gw \<lparr>sim_client = ir_client q, sim_account = ir_account q, sim_parent = None\<rparr>) (\<lambda>i.
             aret \<lparr>pl_broker = i, pl_status = ''Submitted''\<rparr>)
      else abind (sk_read (\<lambda>s. List.find (same_ref (ir_client q)) (ik_trades (gw_api gw) (sk_ib s)))) (\<lambda>known.
             case known of Some t \<Rightarrow> aret (answer_of t) | None \<Rightarrow> place_new gw q))"

section \<open>Cancelling\<close>

text \<open>\<open>int(broker_order_id)\<close> is evaluated in the loop, so only when there is an open trade.\<close>

definition trade_of :: "int \<Rightarrow> string \<Rightarrow> ib_trade \<Rightarrow> bool" where
  "trade_of n acct t \<longleftrightarrow> int (io_perm (itr_order t)) = n \<and> io_account (itr_order t) = acct"

definition CancelOrder :: "'b gateway \<Rightarrow> string \<Rightarrow> string \<Rightarrow> (bool, 'b sidecar) act" where
  "CancelOrder gw acct b =
     (if is_sim b
      then abind (sk_read (\<lambda>s. map_of (sk_sim s) b)) (\<lambda>m. case m of
             None \<Rightarrow> aret False
           | Some x \<Rightarrow> aseq (sk_upd (\<lambda>s. s\<lparr>sk_sim := AList.delete b (sk_sim s)\<rparr>))
                        (aseq (dispatch_sim_event (sim_account x) b (sim_client x) ''cancelled'') (aret True)))
      else abind (sk_read (\<lambda>s. ik_open (gw_api gw) (sk_ib s))) (\<lambda>ts.
             if ts = [] then aret False
             else abind (of_res (parse_int b)) (\<lambda>n.
               case List.find (trade_of n acct) ts of
                 None \<Rightarrow> aret False
               | Some t \<Rightarrow> aseq (on_ib (ik_cancel (gw_api gw) (itr_order t))) (aret True))))"

section \<open>Modifying\<close>

text \<open>\<open>ModifyOrderRequest\<close>: its time in force is an enum, its prices are messages that can be absent.\<close>

record mod_request =
  mo_broker :: string
  mo_account :: string
  mo_tif :: nat
  mo_qty :: dec_text
  mo_limit :: "dec_text option"
  mo_stop :: "dec_text option"

definition assign :: "'b gateway \<Rightarrow> nat \<Rightarrow> (ib_order \<Rightarrow> ib_order) \<Rightarrow> (unit, 'b sidecar) act" where
  "assign gw i f = sk_upd (\<lambda>s. s\<lparr>sk_ib := ik_assign (gw_api gw) i f (sk_ib s)\<rparr>)"

definition assign_float :: "'b gateway \<Rightarrow> nat \<Rightarrow> dec_text \<Rightarrow> (decimal \<Rightarrow> ib_order \<Rightarrow> ib_order) \<Rightarrow> (unit, 'b sidecar) act" where
  "assign_float gw i t f = abind (of_res (to_float t)) (\<lambda>x. assign gw i (f x))"

definition current_order :: "'b gateway \<Rightarrow> nat \<Rightarrow> ib_order \<Rightarrow> 'b sidecar \<Rightarrow> ib_order" where
  "current_order gw i o1 s =
     (case List.find (\<lambda>t. itr_obj t = i) (ik_trades (gw_api gw) (sk_ib s)) of Some t \<Rightarrow> itr_order t | None \<Rightarrow> o1)"

definition rewrite_order :: "'b gateway \<Rightarrow> mod_request \<Rightarrow> nat \<Rightarrow> (unit, 'b sidecar) act" where
  "rewrite_order gw q i =
     aseq (assign_float gw i (mo_qty q) (\<lambda>x o1. o1\<lparr>io_qty := x\<rparr>))
     (aseq (case mo_limit q of None \<Rightarrow> aret () | Some t \<Rightarrow> assign_float gw i t (\<lambda>x o1. o1\<lparr>io_lmt := Some x\<rparr>))
     (aseq (case mo_stop q of None \<Rightarrow> aret () | Some t \<Rightarrow> assign_float gw i t (\<lambda>x o1. o1\<lparr>io_aux := Some x\<rparr>))
           (if mo_tif q \<noteq> 0 then assign gw i (\<lambda>o1. o1\<lparr>io_tif := TifNumber (mo_tif q)\<rparr>) else aret ())))"

text \<open>\<open>_abort_rpc\<close> with a status code.\<close>

definition aborting :: "string \<Rightarrow> ('a, 's) act \<Rightarrow> ('a, 's) act" where
  "aborting code m = (\<lambda>s. case m s of (Inl _, s') \<Rightarrow> (Inl (RpcAbort code), s') | r \<Rightarrow> r)"

definition ModifyOrder :: "'b gateway \<Rightarrow> mod_request \<Rightarrow> (place_answer, 'b sidecar) act" where
  "ModifyOrder gw q =
     (if is_sim (mo_broker q)
      then abind (sk_read (\<lambda>s. map_of (sk_sim s) (mo_broker q))) (\<lambda>m. case m of
             None \<Rightarrow> of_res (Inl (RpcAbort ''NOT_FOUND''))
           | Some x \<Rightarrow> aseq (dispatch_sim_event (sim_account x) (mo_broker q) (sim_client x) ''modified'')
                        (aret \<lparr>pl_broker = mo_broker q, pl_status = ''Modified''\<rparr>))
      else abind (aborting ''INVALID_ARGUMENT'' (of_res (parse_int (mo_broker q)))) (\<lambda>n.
           abind (sk_read (\<lambda>s. List.find (trade_of n (mo_account q)) (ik_open (gw_api gw) (sk_ib s)))) (\<lambda>found.
           case found of
             None \<Rightarrow> of_res (Inl (RpcAbort ''NOT_FOUND''))
           | Some t \<Rightarrow>
               aseq (rewrite_order gw q (itr_obj t))
               (abind (sk_read (current_order gw (itr_obj t) (itr_order t))) (\<lambda>o1.
                abind (aborting ''UNKNOWN'' (on_ib (ik_place (gw_api gw) (itr_contract t) o1))) (\<lambda>t'. aret (answer_of t')))))))"

section \<open>Brackets\<close>

record ib_bracket =
  bx_parent :: ib_request
  bx_stop :: "ib_request option"
  bx_target :: "ib_request option"
  bx_group :: string

record bracket_ids =
  by_parent :: string
  by_stop :: string
  by_target :: string
  by_status :: string

text \<open>A child is built before any child is placed; the last one placed transmits the whole bracket.\<close>

definition child_order :: "'b gateway \<Rightarrow> string \<Rightarrow> nat \<Rightarrow> ib_request \<Rightarrow> (ib_contract \<times> ib_order, 'b sidecar) act" where
  "child_order gw g pid q =
     abind (ib_resolve_contract gw (ir_conid q)) (\<lambda>c.
     abind (of_res (build_ib_order q)) (\<lambda>o1.
       aret (c, (stamp q o1)\<lparr>io_parent := pid, io_oca := g, io_oca_type := 1\<rparr>)))"

definition optional_child ::
  "'b gateway \<Rightarrow> string \<Rightarrow> nat \<Rightarrow> string \<Rightarrow> ib_request option \<Rightarrow> ((string \<times> ib_contract \<times> ib_order) list, 'b sidecar) act" where
  "optional_child gw g pid leg r =
     (case r of None \<Rightarrow> aret [] | Some q \<Rightarrow> abind (child_order gw g pid q) (\<lambda>x. aret [(leg, x)]))"

definition children_to_place :: "'b gateway \<Rightarrow> ib_bracket \<Rightarrow> nat \<Rightarrow> ((string \<times> ib_contract \<times> ib_order) list, 'b sidecar) act" where
  "children_to_place gw b pid =
     abind (optional_child gw (bx_group b) pid ''stop_loss'' (bx_stop b)) (\<lambda>sl.
     abind (optional_child gw (bx_group b) pid ''take_profit'' (bx_target b)) (\<lambda>tp. aret (sl @ tp)))"

text \<open>The trades placed so far are known also when a later child fails.\<close>

fun place_children ::
  "'b gateway \<Rightarrow> (string \<times> ib_contract \<times> ib_order) list \<Rightarrow> 'b sidecar
   \<Rightarrow> (exn option \<times> (string \<times> ib_trade) list) \<times> 'b sidecar" where
  "place_children gw [] s = ((None, []), s)"
| "place_children gw ((leg, c, o1) # rest) s =
     (case on_ib (ik_place (gw_api gw) c (o1\<lparr>io_transmit := (rest = [])\<rparr>)) s of
        (Inl e, s') \<Rightarrow> ((Some e, []), s')
      | (Inr t, s') \<Rightarrow> (case place_children gw rest s' of ((e, ts), s'') \<Rightarrow> ((e, (leg, t) # ts), s'')))"

fun cancel_quietly :: "'b gateway \<Rightarrow> ib_order list \<Rightarrow> (unit, 'b sidecar) act" where
  "cancel_quietly gw [] = aret ()"
| "cancel_quietly gw (o1 # os) = (\<lambda>s. cancel_quietly gw os (snd (on_ib (ik_cancel (gw_api gw) o1) s)))"

definition leg_id :: "string \<Rightarrow> (string \<times> ib_trade) list \<Rightarrow> string" where
  "leg_id leg ts = (case map_of ts leg of Some t \<Rightarrow> nat_text (io_perm (itr_order t)) | None \<Rightarrow> [])"

text \<open>\<open>except Exception\<close> does not catch a cancellation of the call.\<close>

definition roll_back :: "'b gateway \<Rightarrow> ib_trade \<Rightarrow> (string \<times> ib_trade) list \<Rightarrow> exn \<Rightarrow> ('a, 'b sidecar) act" where
  "roll_back gw p ts e =
     (if e = CancelledError then of_res (Inl e)
      else aseq (cancel_quietly gw (itr_order p # map (itr_order \<circ> snd) ts)) (of_res (Inl (RpcAbort ''INTERNAL''))))"

definition place_legs :: "'b gateway \<Rightarrow> ib_bracket \<Rightarrow> ib_trade \<Rightarrow> (bracket_ids, 'b sidecar) act" where
  "place_legs gw b p = (\<lambda>s.
     case children_to_place gw b (io_id (itr_order p)) s of
       (Inl e, s') \<Rightarrow> roll_back gw p [] e s'
     | (Inr cs, s') \<Rightarrow>
         (case place_children gw cs s' of
            ((Some e, ts), s'') \<Rightarrow> roll_back gw p ts e s''
          | ((None, ts), s'') \<Rightarrow>
              (Inr \<lparr>by_parent = nat_text (io_perm (itr_order p)), by_stop = leg_id ''stop_loss'' ts, by_target = leg_id ''take_profit'' ts,
                    by_status = itr_status p\<rparr>, s'')))"

definition sim_leg :: "'b gateway \<Rightarrow> string \<Rightarrow> ib_request option \<Rightarrow> (string, 'b sidecar) act" where
  "sim_leg gw p r = (case r of None \<Rightarrow> aret []
     | Some q \<Rightarrow> new_sim gw \<lparr>sim_client = ir_client q, sim_account = ir_account q, sim_parent = Some p\<rparr>)"

definition PlaceBracket :: "'b gateway \<Rightarrow> ib_bracket \<Rightarrow> (bracket_ids, 'b sidecar) act" where
  "PlaceBracket gw b =
     abind (ib_resolve_contract gw (ir_conid (bx_parent b))) (\<lambda>c.
     abind (of_res (build_ib_order (bx_parent b))) (\<lambda>o1.
     if gw_simulator gw
     then abind (new_sim gw \<lparr>sim_client = ir_client (bx_parent b), sim_account = ir_account (bx_parent b), sim_parent = None\<rparr>) (\<lambda>p.
          abind (sim_leg gw p (bx_stop b)) (\<lambda>sl.
          abind (sim_leg gw p (bx_target b)) (\<lambda>tp.
            aret \<lparr>by_parent = p, by_stop = sl, by_target = tp, by_status = ''Submitted''\<rparr>)))
     else abind (on_ib (ik_place (gw_api gw) c ((stamp (bx_parent b) o1)\<lparr>io_transmit := False\<rparr>))) (place_legs gw b)))"

section \<open>Option combos\<close>

record combo_leg_wire =
  lw_raw :: string
  lw_canonical :: string
  lw_expiry :: string
  lw_strike :: dec_text
  lw_right :: string
  lw_exchange :: string
  lw_currency :: string
  lw_side :: string
  lw_ratio :: int

record combo_wire =
  cw_account :: string
  cw_legs :: "combo_leg_wire list"
  cw_tif :: string
  cw_limit :: dec_text
  cw_client :: string

definition leg_symbol :: "combo_leg_wire \<Rightarrow> string" where
  "leg_symbol l = (if lw_raw l \<noteq> [] then lw_raw l else lw_canonical l)"

definition ib_combo_leg :: "'b gateway \<Rightarrow> combo_leg_wire \<Rightarrow> (nat \<times> int \<times> side, 'b sidecar) act" where
  "ib_combo_leg gw l =
     abind (of_res (to_float (lw_strike l))) (\<lambda>k.
     abind (on_ib (ik_details (gw_api gw) (OptionSpec (leg_symbol l) (lw_expiry l) k (lw_right l) (lw_exchange l) (lw_currency l)))) (\<lambda>ds.
     case ds of [] \<Rightarrow> of_res (Inl (RpcAbort ''NOT_FOUND''))
     | d # _ \<Rightarrow> aret (d, lw_ratio l, if lw_side l = ''buy'' then Buy else Sell)))"

fun combo_legs :: "'b gateway \<Rightarrow> combo_leg_wire list \<Rightarrow> ((nat \<times> int \<times> side) list, 'b sidecar) act" where
  "combo_legs gw [] = aret []"
| "combo_legs gw (l # ls) = abind (ib_combo_leg gw l) (\<lambda>x. abind (combo_legs gw ls) (\<lambda>xs. aret (x # xs)))"

definition combo_limit :: "dec_text \<Rightarrow> exn + decimal" where
  "combo_limit t = (if t = DEmpty then Inr 0 else to_float t)"

text \<open>The id of the combo is the order id of its bag; the legs get no ids.\<close>

definition PlaceCombo :: "'b gateway \<Rightarrow> combo_wire \<Rightarrow> (string, 'b sidecar) act" where
  "PlaceCombo gw q =
     (case cw_legs q of
        [] \<Rightarrow> of_res (Inl (RpcAbort ''INVALID_ARGUMENT''))
      | l # _ \<Rightarrow>
          abind (combo_legs gw (cw_legs q)) (\<lambda>xs.
          abind (of_res (combo_limit (cw_limit q))) (\<lambda>p.
          abind (on_ib (ik_place (gw_api gw) (Bag (leg_symbol l) (lw_currency l) xs)
             ((blank_order Buy 1)\<lparr>io_type := ''LMT'', io_lmt := Some p, io_tif := TifText (cw_tif q), io_ref := cw_client q\<rparr>))) (\<lambda>t.
            aret (nat_text (io_id (itr_order t)))))))"

section \<open>Previews\<close>

record preview_request =
  vq_account :: string
  vq_side :: string
  vq_symbol :: string
  vq_type :: string
  vq_qty :: dec_text
  vq_limit :: dec_text
  vq_stop :: dec_text
  vq_key :: string

definition or_zero_text :: "dec_text \<Rightarrow> dec_text" where
  "or_zero_text t = (if t = DEmpty then DNum 0 else t)"

definition build_what_if_order :: "preview_request \<Rightarrow> exn + ib_order" where
  "build_what_if_order q =
     rbind (to_float (vq_qty q)) (\<lambda>x.
     let base = (blank_order (if vq_side q = ''buy'' then Buy else Sell) x)\<lparr>io_whatif := True, io_account := vq_account q\<rparr> in
     if vq_type q = ''MKT'' then Inr (base\<lparr>io_type := ''MKT''\<rparr>)
     else if vq_type q \<in> {''STP'', ''STOP''} then set_aux (or_zero_text (vq_stop q)) (base\<lparr>io_type := ''STP''\<rparr>)
     else set_lmt (or_zero_text (vq_limit q)) (base\<lparr>io_type := ''LMT''\<rparr>))"

definition ib_decimal_str :: "string option \<Rightarrow> string" where
  "ib_decimal_str v = (case v of None \<Rightarrow> ''0'' | Some t \<Rightarrow> t)"

definition what_if_answer :: "what_if \<Rightarrow> preview_answer" where
  "what_if_answer w =
     (let rejected = (wi_status w = ''Rejected'') in
      \<lparr>wa_accepted = (\<not> rejected), wa_reason = (if rejected then wi_warning w else []), wa_init = ib_decimal_str (wi_init w),
       wa_maint = ib_decimal_str (wi_maint w), wa_commission = ib_decimal_str (wi_commission w),
       wa_funds = ib_decimal_str (wi_equity w), wa_power = ib_decimal_str (wi_equity w),
       wa_warnings = (if wi_warning w \<noteq> [] \<and> \<not> rejected then [wi_warning w] else [])\<rparr>)"

definition LRU_MAX :: nat where "LRU_MAX = 1000"

definition lru_touch :: "string \<Rightarrow> (string \<times> 'v) list \<Rightarrow> (string \<times> 'v) list" where
  "lru_touch k c = (case map_of c k of None \<Rightarrow> c | Some v \<Rightarrow> AList.delete k c @ [(k, v)])"

definition lru_store :: "string \<Rightarrow> 'v \<Rightarrow> (string \<times> 'v) list \<Rightarrow> (string \<times> 'v) list" where
  "lru_store k v c = AList.delete k (if LRU_MAX \<le> length c then drop 1 c else c) @ [(k, v)]"

definition preview_new :: "'b gateway \<Rightarrow> decimal \<Rightarrow> preview_request \<Rightarrow> (preview_answer, 'b sidecar) act" where
  "preview_new gw later q =
     abind (ib_resolve_contract gw (vq_symbol q)) (\<lambda>c.
     abind (of_res (build_what_if_order q)) (\<lambda>o1.
     abind (on_ib (ik_place (gw_api gw) c o1)) (\<lambda>t.
     abind (on_ib (\<lambda>b. case ik_filled (gw_api gw) t b of (w, b') \<Rightarrow> (Inr w, b'))) (\<lambda>w.
     case w of
       None \<Rightarrow> of_res (Inl (RpcAbort ''DEADLINE_EXCEEDED''))
     | Some x \<Rightarrow> aseq (sk_upd (\<lambda>s. s\<lparr>sk_lru := lru_store (vq_key q) (later, what_if_answer x) (sk_lru s)\<rparr>))
                      (aret (what_if_answer x))))))"

text \<open>\<open>now\<close> is the clock at the lookup, \<open>later\<close> when the answer is stored.\<close>

definition PreviewOrder :: "'b gateway \<Rightarrow> decimal \<Rightarrow> decimal \<Rightarrow> preview_request \<Rightarrow> (preview_answer, 'b sidecar) act" where
  "PreviewOrder gw now later q =
     abind (sk_read (\<lambda>s. map_of (sk_lru s) (vq_key q))) (\<lambda>cached.
     case cached of
       Some (t, r) \<Rightarrow>
         if now - t < 60 then aseq (sk_upd (\<lambda>s. s\<lparr>sk_lru := lru_touch (vq_key q) (sk_lru s)\<rparr>)) (aret r)
         else preview_new gw later q
     | None \<Rightarrow> preview_new gw later q)"

section \<open>Event streams\<close>

definition subscribe_events :: "string \<Rightarrow> (unit, 'b sidecar) act" where
  "subscribe_events acct = sk_upd (\<lambda>s. s\<lparr>sk_queues := (sk_queues s)(acct := sk_queues s acct @ [[]])\<rparr>)"

definition unsubscribe_events :: "string \<Rightarrow> nat \<Rightarrow> (unit, 'b sidecar) act" where
  "unsubscribe_events acct i =
     sk_upd (\<lambda>s. s\<lparr>sk_queues := (sk_queues s)(acct := take i (sk_queues s acct) @ drop (Suc i) (sk_queues s acct))\<rparr>)"

section \<open>What the library promises\<close>

text \<open>
  An order as it was asked for, without the number the broker gives it later; \<open>bare\<close> forgets the
  library's own number as well. \<open>sent\<close> are the orders that the library was given.
\<close>

definition asked :: "ib_order \<Rightarrow> ib_order" where
  "asked o1 = o1\<lparr>io_perm := 0\<rparr>"

definition bare :: "ib_order \<Rightarrow> ib_order" where
  "bare o1 = o1\<lparr>io_id := 0, io_perm := 0\<rparr>"

definition known :: "'b ib_api \<Rightarrow> 'b \<Rightarrow> ib_order list" where
  "known api b = map (asked \<circ> itr_order) (ik_trades api b)"

definition sent :: "'b gateway \<Rightarrow> 'b sidecar \<Rightarrow> ib_order list" where
  "sent gw s = known (gw_api gw) (sk_ib s)"

locale ib_session =
  fixes gw :: "'b gateway"
  assumes place_new: "\<lbrakk>ik_place (gw_api gw) c o1 b = (Inr t, b'); io_id o1 = 0\<rbrakk> \<Longrightarrow>
      known (gw_api gw) b' = known (gw_api gw) b @ [asked (itr_order t)] \<and> io_id (itr_order t) \<noteq> 0 \<and> bare (itr_order t) = bare o1"
    and place_known: "\<lbrakk>ik_place (gw_api gw) c o1 b = (Inr t, b'); io_id o1 \<noteq> 0; asked o1 \<in> set (known (gw_api gw) b)\<rbrakk> \<Longrightarrow>
      known (gw_api gw) b' = known (gw_api gw) b \<and> asked (itr_order t) = asked o1"
    and place_raises: "ik_place (gw_api gw) c o1 b = (Inl e, b') \<Longrightarrow> known (gw_api gw) b' = known (gw_api gw) b"
    and cancel_known: "known (gw_api gw) (snd (ik_cancel (gw_api gw) o1 b)) = known (gw_api gw) b"
    and qualify_known: "known (gw_api gw) (snd (ik_qualify (gw_api gw) c b)) = known (gw_api gw) b"
    and details_known: "known (gw_api gw) (snd (ik_details (gw_api gw) c b)) = known (gw_api gw) b"
    and filled_known: "known (gw_api gw) (snd (ik_filled (gw_api gw) t b)) = known (gw_api gw) b"
    and assign_trades: "ik_trades (gw_api gw) (ik_assign (gw_api gw) i f b)
      = map (\<lambda>t. if itr_obj t = i then t\<lparr>itr_order := f (itr_order t)\<rparr> else t) (ik_trades (gw_api gw) b)"
    and open_subset: "set (ik_open (gw_api gw) b) \<subseteq> set (ik_trades (gw_api gw) b)"
begin

lemma keeps_on_ib:
  "(\<And>b. known (gw_api gw) (snd (m b)) = known (gw_api gw) b) \<Longrightarrow> keeps (sent gw) (on_ib m)"
  by (simp add: keeps_def on_ib_def sent_def case_prod_beta)

lemma keeps_sk_read: "keeps f (sk_read g)"
  by (simp add: keeps_def sk_read_def)

lemma keeps_upd: "(\<And>s. sk_ib (g s) = sk_ib s) \<Longrightarrow> keeps (sent gw) (sk_upd g)"
  by (simp add: keeps_def sk_upd_def sent_def)

lemma keeps_resolve: "keeps (sent gw) (ib_resolve_contract gw c)"
  unfolding ib_resolve_contract_def by (intro keeps_intro keeps_on_ib qualify_known)

lemma keeps_child: "keeps (sent gw) (child_order gw g p q)"
  unfolding child_order_def by (intro keeps_intro keeps_resolve)

lemma keeps_children: "keeps (sent gw) (children_to_place gw b p)"
  unfolding children_to_place_def optional_child_def by (intro keeps_intro keeps_child)

lemma keeps_cancels: "keeps (sent gw) (cancel_quietly gw os)"
proof (induction os)
  case Nil
  then show ?case by (simp add: keeps_aret)
next
  case (Cons o1 os)
  have "sent gw (snd (on_ib (ik_cancel (gw_api gw) o1) s)) = sent gw s" for s
    using keeps_on_ib [of "ik_cancel (gw_api gw) o1", OF cancel_known] by (simp add: keeps_def)
  with Cons show ?case by (simp add: keeps_def)
qed

lemma keeps_roll_back: "keeps (sent gw) (roll_back gw p ts e)"
  unfolding roll_back_def by (intro keeps_intro keeps_cancels)

lemma keeps_sim: "keeps (sent gw) (new_sim gw m)"
  by (simp add: keeps_def new_sim_def sent_def Let_def)

text \<open>A fresh order that the library accepts is the next one it was given.\<close>

lemma placed:
  assumes "on_ib (ik_place (gw_api gw) c o1) s = (Inr t, s')" and "io_id o1 = 0"
  shows "sent gw s' = sent gw s @ [asked (itr_order t)]" "io_id (itr_order t) \<noteq> 0" "bare (itr_order t) = bare o1"
  using assms place_new [of c o1 "sk_ib s" t] by (auto simp: on_ib_def sent_def split: prod.splits)

lemma not_placed:
  assumes "on_ib (ik_place (gw_api gw) c o1) s = (Inl e, s')"
  shows "sent gw s' = sent gw s"
  using assms place_raises [of c o1 "sk_ib s" e] by (auto simp: on_ib_def sent_def split: prod.splits)

end

section \<open>Brackets at the library\<close>

text \<open>The children as they are handed over: only the last one transmits.\<close>

fun flagged :: "(string \<times> ib_contract \<times> ib_order) list \<Rightarrow> ib_order list" where
  "flagged [] = []"
| "flagged ((leg, c, o1) # rest) = o1\<lparr>io_transmit := (rest = [])\<rparr> # flagged rest"

lemma length_flagged [simp]: "length (flagged cs) = length cs"
  by (induction cs rule: flagged.induct) auto

lemma flagged_nonempty [simp]: "flagged cs = [] \<longleftrightarrow> cs = []"
  by (cases cs rule: flagged.cases) auto

lemma built_fresh:
  assumes "build_ib_order q = Inr o1"
  shows "io_id o1 = 0 \<and> io_transmit o1 \<and> io_perm o1 = 0"
proof -
  have "io_id o2 = 0 \<and> io_transmit o2 \<and> io_perm o2 = 0"
    if "set_order_type q (blank_order sd x) = Inr o2" for sd x o2
    using that unfolding set_order_type_def Let_def set_lmt_def set_aux_def set_offset_def blank_order_def
    by (auto simp: rbind_Inr_iff split: if_splits)
  then show ?thesis using assms
    by (auto simp: build_ib_order_def rbind_Inr_iff set_tif_modifiers_def)
qed

lemma flagged_prefix: "\<lbrakk>n < length cs; x \<in> set (take n (flagged cs))\<rbrakk> \<Longrightarrow> \<not> io_transmit x"
proof (induction cs arbitrary: n rule: flagged.induct)
  case (2 leg c o1 rest)
  then show ?case by (cases n) auto
qed simp

lemma flagged_last: "cs \<noteq> [] \<Longrightarrow> io_transmit (last (flagged cs)) \<and> (\<forall>x \<in> set (butlast (flagged cs)). \<not> io_transmit x)"
proof (induction cs rule: flagged.induct)
  case (2 leg c o1 rest)
  then show ?case by (cases rest) (auto simp: flagged_nonempty)
qed simp

context ib_session begin

lemma place_children_sent:
  assumes "place_children gw cs s = ((e, ts), s')" and "\<forall>(leg, c, o1) \<in> set cs. io_id o1 = 0"
  shows "sent gw s' = sent gw s @ map (\<lambda>x. asked (itr_order (snd x))) ts
    \<and> map (\<lambda>x. bare (itr_order (snd x))) ts = map bare (take (length ts) (flagged cs))
    \<and> map fst ts = map fst (take (length ts) cs)
    \<and> (if e = None then length ts = length cs else length ts < length cs)"
  using assms
proof (induction cs arbitrary: s e ts s')
  case Nil
  then show ?case by simp
next
  case (Cons x rest)
  obtain leg c o1 where x: "x = (leg, c, o1)" by (cases x)
  have fresh: "io_id (o1\<lparr>io_transmit := (rest = [])\<rparr>) = 0" using Cons.prems(2) x by simp
  obtain r s1 where p: "on_ib (ik_place (gw_api gw) c (o1\<lparr>io_transmit := (rest = [])\<rparr>)) s = (r, s1)" by fastforce
  show ?case
  proof (cases r)
    case (Inl err)
    then show ?thesis using Cons.prems(1) x p not_placed [OF p [unfolded Inl]] by auto
  next
    case (Inr t)
    obtain e2 ts2 s2 where rest: "place_children gw rest s1 = ((e2, ts2), s2)" by (metis prod.exhaust)
    note got = placed [OF p [unfolded Inr] fresh]
    have eq: "e = e2" "ts = (leg, t) # ts2" "s' = s2" using Cons.prems(1) x p Inr rest by auto
    from Cons.IH [OF rest] Cons.prems(2)
    have ih: "sent gw s2 = sent gw s1 @ map (\<lambda>x. asked (itr_order (snd x))) ts2"
      "map (\<lambda>x. bare (itr_order (snd x))) ts2 = map bare (take (length ts2) (flagged rest))"
      "map fst ts2 = map fst (take (length ts2) rest)"
      "if e2 = None then length ts2 = length rest else length ts2 < length rest" by auto
    show ?thesis using ih got eq x by simp
  qed
qed

lemma child_fresh:
  assumes "child_order gw g p q s = (Inr (c, o1), s')"
  shows "io_id o1 = 0 \<and> io_parent o1 = p \<and> io_oca o1 = g \<and> io_oca_type o1 = 1
    \<and> (\<exists>o2. build_ib_order q = Inr o2 \<and> o1 = (stamp q o2)\<lparr>io_parent := p, io_oca := g, io_oca_type := 1\<rparr>)"
proof -
  obtain o2 where b: "build_ib_order q = Inr o2" and o1: "o1 = (stamp q o2)\<lparr>io_parent := p, io_oca := g, io_oca_type := 1\<rparr>"
    using assms by (auto simp: child_order_def run_simps split: prod.splits sum.splits)
  have "io_id o2 = 0" using built_fresh [OF b] by simp
  with b o1 show ?thesis by (simp add: stamp_def)
qed

end

definition bracket_legs :: "ib_bracket \<Rightarrow> ib_request list" where
  "bracket_legs b = (case bx_stop b of None \<Rightarrow> [] | Some q \<Rightarrow> [q]) @ (case bx_target b of None \<Rightarrow> [] | Some q \<Rightarrow> [q])"

text \<open>The terms of an order that its request determines, and a child of a placed parent.\<close>

definition same_terms :: "ib_order \<Rightarrow> ib_order \<Rightarrow> bool" where
  "same_terms x y \<longleftrightarrow> io_action x = io_action y \<and> io_qty x = io_qty y \<and> io_type x = io_type y \<and> io_tif x = io_tif y
     \<and> io_lmt x = io_lmt y \<and> io_aux x = io_aux y \<and> io_pct x = io_pct y \<and> io_gtd x = io_gtd y"

definition requested :: "ib_order \<Rightarrow> ib_request \<Rightarrow> bool" where
  "requested o1 q \<longleftrightarrow> io_ref o1 = ir_client q \<and> io_account o1 = ir_account q \<and> (\<exists>o2. build_ib_order q = Inr o2 \<and> same_terms o1 o2)"

definition is_child :: "ib_order \<Rightarrow> string \<Rightarrow> ib_order \<Rightarrow> ib_request \<Rightarrow> bool" where
  "is_child p g o1 q \<longleftrightarrow> requested o1 q \<and> io_parent o1 = io_id p \<and> io_oca o1 = g \<and> io_oca_type o1 = 1"

lemma bareD:
  "bare x = bare y \<Longrightarrow> same_terms x y \<and> io_ref x = io_ref y \<and> io_account x = io_account y \<and> io_transmit x = io_transmit y
     \<and> io_parent x = io_parent y \<and> io_oca x = io_oca y \<and> io_oca_type x = io_oca_type y \<and> io_whatif x = io_whatif y"
  by (cases x; cases y) (simp add: bare_def same_terms_def)

lemma asked_sel [simp]:
  "io_id (asked x) = io_id x" "io_ref (asked x) = io_ref x" "io_transmit (asked x) = io_transmit x" "bare (asked x) = bare x"
  by (simp_all add: asked_def bare_def)

definition child_spec :: "ib_bracket \<Rightarrow> nat \<Rightarrow> string \<times> ib_contract \<times> ib_order \<Rightarrow> ib_request \<Rightarrow> bool" where
  "child_spec b p = (\<lambda>(leg, c, o1) q. \<exists>o2. build_ib_order q = Inr o2 \<and> io_id o1 = 0
     \<and> o1 = (stamp q o2)\<lparr>io_parent := p, io_oca := bx_group b, io_oca_type := 1\<rparr>)"

lemma child_spec_flagged:
  "list_all2 (child_spec b p) cs qs \<Longrightarrow>
     list_all2 (\<lambda>o1 q. \<forall>x. bare x = bare o1 \<longrightarrow> io_id y = p \<longrightarrow> is_child y (bx_group b) x q) (flagged cs) qs"
proof (induction rule: list_all2_induct)
  case (Cons x cs q qs)
  then show ?case
    by (cases x) (force simp: child_spec_def is_child_def requested_def same_terms_def stamp_def dest!: bareD)
qed simp

context ib_session begin

lemma optional_child_built:
  assumes "optional_child gw (bx_group b) p leg r s = (Inr cs, s')"
  shows "list_all2 (child_spec b p) cs (case r of None \<Rightarrow> [] | Some q \<Rightarrow> [q])"
proof (cases r)
  case None
  then show ?thesis using assms by (simp add: optional_child_def aret_def)
next
  case (Some q)
  obtain c o1 where "child_order gw (bx_group b) p q s = (Inr (c, o1), s')" and cs: "cs = [(leg, c, o1)]"
    using assms Some by (auto simp: optional_child_def abind_def aret_def split: prod.splits sum.splits)
  from child_fresh [OF this(1)] show ?thesis by (auto simp: cs Some child_spec_def)
qed

lemma children_built:
  assumes "children_to_place gw b p s = (Inr cs, s')"
  shows "list_all2 (child_spec b p) cs (bracket_legs b) \<and> (\<forall>(leg, c, o1) \<in> set cs. io_id o1 = 0)"
proof -
  obtain sl s1 tp where a: "optional_child gw (bx_group b) p ''stop_loss'' (bx_stop b) s = (Inr sl, s1)"
    and t: "optional_child gw (bx_group b) p ''take_profit'' (bx_target b) s1 = (Inr tp, s')" and cs: "cs = sl @ tp"
    using assms by (auto simp: children_to_place_def abind_def aret_def split: prod.splits sum.splits)
  from list_all2_appendI [OF optional_child_built [OF a] optional_child_built [OF t]]
  have l: "list_all2 (child_spec b p) cs (bracket_legs b)" by (simp add: cs bracket_legs_def)
  then have "\<exists>q. child_spec b p x q" if "x \<in> set cs" for x
    using that by (metis list_all2_conv_all_nth in_set_conv_nth)
  with l show ?thesis by (fastforce simp: child_spec_def)
qed

text \<open>The two ways out of the placement of the legs.\<close>

lemma legs_failed:
  assumes "place_legs gw b tp s = (Inl e, s')"
  shows "\<exists>new. sent gw s' = sent gw s @ new \<and> (\<forall>x \<in> set new. \<not> io_transmit x)"
proof -
  obtain r s1 where c: "children_to_place gw b (io_id (itr_order tp)) s = (r, s1)" by fastforce
  have k1: "sent gw s1 = sent gw s" by (rule keepsD [OF keeps_children c])
  show ?thesis
  proof (cases r)
    case (Inl x)
    then have "roll_back gw tp [] x s1 = (Inl e :: exn + bracket_ids, s')" using assms c by (simp add: place_legs_def)
    from keepsD [OF keeps_roll_back this] k1 show ?thesis by (intro exI [of _ "[]"]) simp
  next
    case (Inr cs)
    obtain x ts s2 where p: "place_children gw cs s1 = ((x, ts), s2)" by (metis prod.exhaust)
    then obtain err where x: "x = Some err" using assms c Inr by (cases x) (auto simp: place_legs_def)
    have rb: "roll_back gw tp ts err s2 = (Inl e :: exn + bracket_ids, s')" using assms c Inr p x by (simp add: place_legs_def)
    from children_built [OF c [unfolded Inr]] have "\<forall>(leg, c, o1) \<in> set cs. io_id o1 = 0" by blast
    from place_children_sent [OF p this] have sp: "sent gw s2 = sent gw s1 @ map (\<lambda>x. asked (itr_order (snd x))) ts"
      "map (\<lambda>x. bare (itr_order (snd x))) ts = map bare (take (length ts) (flagged cs))" "length ts < length cs"
      by (auto simp: x)
    have "\<not> io_transmit (itr_order (snd y))" if y: "y \<in> set ts" for y
    proof -
      from y have "bare (itr_order (snd y)) \<in> set (map bare (take (length ts) (flagged cs)))"
        unfolding sp(2) [symmetric] by auto
      then obtain z where "z \<in> set (take (length ts) (flagged cs))" "bare (itr_order (snd y)) = bare z" by auto
      with flagged_prefix [OF sp(3)] bareD show ?thesis by metis
    qed
    then show ?thesis
      using keepsD [OF keeps_roll_back rb] sp(1) k1 by (intro exI [of _ "map (\<lambda>x. asked (itr_order (snd x))) ts"]) auto
  qed
qed

lemma legs_placed:
  assumes "place_legs gw b tp s = (Inr a, s')"
  shows "\<exists>new. sent gw s' = sent gw s @ new \<and> list_all2 (is_child (itr_order tp) (bx_group b)) new (bracket_legs b)
    \<and> (new \<noteq> [] \<longrightarrow> io_transmit (last new)) \<and> (\<forall>x \<in> set (butlast new). \<not> io_transmit x)"
proof -
  have nrb: "roll_back gw tp ts err t \<noteq> (Inr a, s')" for ts err t
    by (auto simp: roll_back_def run_simps split: prod.splits sum.splits)
  obtain r s1 where c: "children_to_place gw b (io_id (itr_order tp)) s = (r, s1)" by fastforce
  have k1: "sent gw s1 = sent gw s" by (rule keepsD [OF keeps_children c])
  obtain cs where r: "r = Inr cs" using assms c nrb by (cases r) (auto simp: place_legs_def)
  obtain x ts s2 where p: "place_children gw cs s1 = ((x, ts), s2)" by (metis prod.exhaust)
  have x: "x = None" "s' = s2" using assms c r p nrb by (auto simp: place_legs_def split: option.splits)
  from children_built [OF c [unfolded r]]
  have l: "list_all2 (child_spec b (io_id (itr_order tp))) cs (bracket_legs b)" and f: "\<forall>(leg, c, o1) \<in> set cs. io_id o1 = 0" by blast+
  let ?new = "map (\<lambda>x. asked (itr_order (snd x))) ts"
  from place_children_sent [OF p f] have sp: "sent gw s2 = sent gw s1 @ ?new" "length ts = length cs"
    "map (\<lambda>x. bare (itr_order (snd x))) ts = map bare (flagged cs)" by (auto simp: x)
  have bn: "map bare ?new = map bare (flagged cs)" using sp(3) by (simp add: comp_def)
  have "list_all2 (is_child (itr_order tp) (bx_group b)) ?new (bracket_legs b)"
  proof (rule list_all2_all_nthI)
    note cf = child_spec_flagged [OF l, of "itr_order tp"]
    show "length ?new = length (bracket_legs b)" using list_all2_lengthD [OF l] sp(2) by simp
    fix i assume i: "i < length ?new"
    then have "bare (?new ! i) = bare (flagged cs ! i)" using arg_cong [OF bn, of "\<lambda>l. l ! i"] sp(2) by simp
    with list_all2_nthD [OF cf, of i] i sp(2) show "is_child (itr_order tp) (bx_group b) (?new ! i) (bracket_legs b ! i)" by simp
  qed
  moreover have flags: "map io_transmit ?new = map io_transmit (flagged cs)"
  proof (rule nth_equalityI)
    fix i assume i: "i < length (map io_transmit ?new)"
    then have "bare (?new ! i) = bare (flagged cs ! i)" using arg_cong [OF bn, of "\<lambda>l. l ! i"] sp(2) by simp
    from bareD [OF this] i show "map io_transmit ?new ! i = map io_transmit (flagged cs) ! i" using sp(2) by simp
  qed (simp add: sp(2))
  have "io_transmit (last ?new)" if "?new \<noteq> []"
  proof -
    have ne: "cs \<noteq> []" using that sp(2) by auto
    have "io_transmit (last ?new) = last (map io_transmit ?new)" by (rule last_map [symmetric]) (rule that)
    also have "\<dots> = io_transmit (last (flagged cs))" unfolding flags by (rule last_map) (simp add: ne)
    finally show ?thesis using flagged_last [OF ne] by simp
  qed
  moreover have "\<not> io_transmit x" if x: "x \<in> set (butlast ?new)" for x
  proof -
    have ne: "cs \<noteq> []" using x sp(2) by auto
    have "io_transmit x \<in> set (map io_transmit (butlast ?new))" using x by simp
    also have "map io_transmit (butlast ?new) = map io_transmit (butlast (flagged cs))"
      unfolding map_butlast flags ..
    finally show ?thesis using flagged_last [OF ne] by auto
  qed
  moreover have "sent gw s' = sent gw s @ ?new" using sp(1) k1 x(2) by simp
  ultimately show ?thesis by (intro exI [of _ ?new] conjI impI ballI) assumption+
qed

end

text \<open>C37: when the placement of a bracket fails, at whatever step, no order that it gave to the library transmits:
  the parent and the children placed so far stay at the library and never reach the market.\<close>

theorem failed_bracket_stays_inert:
  assumes "ib_session gw" and "\<not> gw_simulator gw" and "PlaceBracket gw b s = (Inl e, s')"
  shows "\<exists>new. sent gw s' = sent gw s @ new \<and> (\<forall>x \<in> set new. \<not> io_transmit x)"
proof -
  obtain r s1 where c: "ib_resolve_contract gw (ir_conid (bx_parent b)) s = (r, s1)" by fastforce
  have k1: "sent gw s1 = sent gw s" by (rule keepsD [OF ib_session.keeps_resolve [OF assms(1)] c])
  consider (refused) "s' = s1" | (failed) q o1 where "r = Inr q" "build_ib_order (bx_parent b) = Inr o1"
      "on_ib (ik_place (gw_api gw) q ((stamp (bx_parent b) o1)\<lparr>io_transmit := False\<rparr>)) s1 = (Inl e, s')"
    | (legs) q o1 t s2 where "r = Inr q" "build_ib_order (bx_parent b) = Inr o1"
      "on_ib (ik_place (gw_api gw) q ((stamp (bx_parent b) o1)\<lparr>io_transmit := False\<rparr>)) s1 = (Inr t, s2)"
      "place_legs gw b t s2 = (Inl e, s')"
    using assms(2,3) c by (auto simp: PlaceBracket_def abind_def of_res_def split: prod.splits sum.splits)
  then show ?thesis
  proof cases
    case refused
    then show ?thesis using k1 by (intro exI [of _ "[]"]) simp
  next
    case failed
    then show ?thesis using ib_session.not_placed [OF assms(1)] k1 by (intro exI [of _ "[]"]) simp
  next
    case legs
    have f: "io_id ((stamp (bx_parent b) o1)\<lparr>io_transmit := False\<rparr>) = 0" using built_fresh [OF legs(2)] by (simp add: stamp_def)
    note p = ib_session.placed [OF assms(1) legs(3) f]
    have "\<not> io_transmit (itr_order t)" using bareD [OF p(3)] by simp
    with ib_session.legs_failed [OF assms(1) legs(4)] p(1) k1 show ?thesis by fastforce
  qed
qed

text \<open>C38: a bracket that is placed consists of its parent, which does not transmit, and its legs in order, each of
  them a child of that parent in the one cancel group; the last leg alone transmits. Reference, account and the
  terms of every order are those of its request.\<close>

theorem placed_bracket_shape:
  assumes "ib_session gw" and "\<not> gw_simulator gw" and "PlaceBracket gw b s = (Inr a, s')"
  shows "\<exists>p cs. sent gw s' = sent gw s @ p # cs \<and> requested p (bx_parent b) \<and> \<not> io_transmit p
    \<and> list_all2 (is_child p (bx_group b)) cs (bracket_legs b)
    \<and> (cs \<noteq> [] \<longrightarrow> io_transmit (last cs)) \<and> (\<forall>x \<in> set (butlast cs). \<not> io_transmit x)"
proof -
  obtain r s1 where c: "ib_resolve_contract gw (ir_conid (bx_parent b)) s = (r, s1)" by fastforce
  have k1: "sent gw s1 = sent gw s" by (rule keepsD [OF ib_session.keeps_resolve [OF assms(1)] c])
  obtain q o1 t s2 where l: "r = Inr q" "build_ib_order (bx_parent b) = Inr o1"
      "on_ib (ik_place (gw_api gw) q ((stamp (bx_parent b) o1)\<lparr>io_transmit := False\<rparr>)) s1 = (Inr t, s2)"
      "place_legs gw b t s2 = (Inr a, s')"
    using assms(2,3) c by (auto simp: PlaceBracket_def abind_def of_res_def split: prod.splits sum.splits)
  have f: "io_id ((stamp (bx_parent b) o1)\<lparr>io_transmit := False\<rparr>) = 0" using built_fresh [OF l(2)] by (simp add: stamp_def)
  note p = ib_session.placed [OF assms(1) l(3) f]
  have rq: "requested (asked (itr_order t)) (bx_parent b)" "\<not> io_transmit (asked (itr_order t))"
    using bareD [OF p(3)] l(2) by (auto simp: requested_def stamp_def same_terms_def asked_def)
  from ib_session.legs_placed [OF assms(1) l(4)] obtain cs where cs: "sent gw s' = sent gw s2 @ cs"
    "list_all2 (is_child (itr_order t) (bx_group b)) cs (bracket_legs b)"
    "cs \<noteq> [] \<longrightarrow> io_transmit (last cs)" "\<forall>x \<in> set (butlast cs). \<not> io_transmit x" by blast
  have "list_all2 (is_child (asked (itr_order t)) (bx_group b)) cs (bracket_legs b)"
    using cs(2) by (rule list_all2_mono) (simp add: is_child_def)
  with rq cs p(1) k1 show ?thesis by (intro exI [of _ "asked (itr_order t)"] exI [of _ cs]) simp
qed

section \<open>A library in memory\<close>

text \<open>A session that is its list of trades; \<open>bad\<close> tells which orders \<open>placeOrder\<close> refuses.\<close>

definition mem_place :: "(ib_order \<Rightarrow> bool) \<Rightarrow> ib_contract \<Rightarrow> ib_order \<Rightarrow> ib_trade list \<Rightarrow> (exn + ib_trade) \<times> ib_trade list" where
  "mem_place bad c o1 b =
     (if bad o1 then (Inl ConnectionError, b)
      else if io_id o1 = 0 \<or> asked o1 \<notin> set (map (asked \<circ> itr_order) b)
      then let t = \<lparr>itr_obj = length b, itr_contract = c, itr_order = o1\<lparr>io_id := Suc (length b)\<rparr>, itr_status = ''PendingSubmit''\<rparr>
           in (Inr t, b @ [t])
      else (Inr \<lparr>itr_obj = length b, itr_contract = c, itr_order = o1, itr_status = ''PendingSubmit''\<rparr>, b))"

definition mem_api :: "(ib_order \<Rightarrow> bool) \<Rightarrow> ib_trade list ib_api" where
  "mem_api bad =
     \<lparr>ik_qualify = (\<lambda>c b. (Inr [], b)), ik_details = (\<lambda>c b. (Inr [1], b)), ik_place = mem_place bad,
      ik_cancel = (\<lambda>o1 b. (Inr (), b)),
      ik_assign = (\<lambda>i f b. map (\<lambda>t. if itr_obj t = i then t\<lparr>itr_order := f (itr_order t)\<rparr> else t) b),
      ik_filled = (\<lambda>t b. (None, b)), ik_trades = id, ik_open = id\<rparr>"

definition mem_gateway :: "bool \<Rightarrow> (ib_order \<Rightarrow> bool) \<Rightarrow> ib_trade list gateway" where
  "mem_gateway sim bad = \<lparr>gw_api = mem_api bad, gw_simulator = sim, gw_uuid = nat_text, gw_decimal = (\<lambda>_. DBad)\<rparr>"

interpretation mem: ib_session "mem_gateway sim bad"
  by unfold_locales
    (auto simp: mem_gateway_def mem_api_def mem_place_def known_def asked_def bare_def Let_def split: if_splits)

definition empty_sidecar :: "ib_trade list sidecar" where
  "empty_sidecar = \<lparr>sk_ib = [], sk_sim = [], sk_fresh = 0, sk_queues = (\<lambda>_. []), sk_lru = []\<rparr>"

definition demo_leg :: "string \<Rightarrow> side \<Rightarrow> otype \<Rightarrow> decimal option \<Rightarrow> decimal option \<Rightarrow> ib_request" where
  "demo_leg c sd ty l st = place_request ''U1'' \<lparr>pw_client = c, pw_conid = ''265598'', pw_side = sd, pw_type = ty, pw_tif = DAY, pw_qty = 10,
     pw_limit = l, pw_stop = st, pw_trail = None, pw_trail_type = None, pw_trail_limit = None, pw_expiry = None\<rparr>"

definition demo_ib_bracket :: ib_bracket where
  "demo_ib_bracket = \<lparr>bx_parent = demo_leg ''p'' Buy LIMIT (Some 100) None, bx_stop = Some (demo_leg ''s'' Sell STOP None (Some 90)),
     bx_target = Some (demo_leg ''t'' Sell LIMIT (Some 120) None), bx_group = ''BRK-1''\<rparr>"

lemma demo_built:
  "build_ib_order (demo_leg c sd LIMIT (Some x) None) = Inr ((blank_order sd 10)\<lparr>io_type := ''LMT'', io_lmt := Some x, io_tif := TifText ''DAY''\<rparr>)"
  "build_ib_order (demo_leg c sd STOP None (Some x)) = Inr ((blank_order sd 10)\<lparr>io_type := ''STP'', io_aux := Some x, io_tif := TifText ''DAY''\<rparr>)"
  by (cases sd; simp add: demo_leg_def builder_defs Let_def)+

lemma demo_leg_sel [simp]:
  "ir_conid (demo_leg c sd ty l st) = ''265598''" "ir_client (demo_leg c sd ty l st) = c" "ir_account (demo_leg c sd ty l st) = ''U1''"
  by (simp_all add: demo_leg_def place_request_def)

lemma demo_conid: "parse_int ''265598'' = Inr 265598"
  by code_simp

text \<open>The target is refused after the stop went in.\<close>

lemmas mem_run = PlaceBracket_def ib_resolve_contract_def on_ib_def mem_gateway_def mem_api_def mem_place_def run_simps demo_conid
  demo_ib_bracket_def demo_built stamp_def blank_order_def empty_sidecar_def place_legs_def children_to_place_def optional_child_def
  child_order_def Let_def roll_back_def asked_def

theorem failed_bracket_stays_inert_witness:
  "\<exists>s'. PlaceBracket (mem_gateway False (\<lambda>o1. io_ref o1 = ''t'')) demo_ib_bracket empty_sidecar = (Inl (RpcAbort ''INTERNAL''), s')
     \<and> (\<forall>x \<in> set (sent (mem_gateway False (\<lambda>o1. io_ref o1 = ''t'')) s'). \<not> io_transmit x)"
proof -
  let ?g = "mem_gateway False (\<lambda>o1. io_ref o1 = ''t'')"
  obtain s' where r: "PlaceBracket ?g demo_ib_bracket empty_sidecar = (Inl (RpcAbort ''INTERNAL''), s')"
    by (simp add: mem_run)
  have "\<not> gw_simulator ?g" by (simp add: mem_gateway_def)
  from failed_bracket_stays_inert [OF mem.ib_session_axioms this r]
  obtain new where "sent ?g s' = sent ?g empty_sidecar @ new" "\<forall>x \<in> set new. \<not> io_transmit x" by blast
  moreover have "sent ?g empty_sidecar = []" by (simp add: sent_def known_def mem_gateway_def mem_api_def empty_sidecar_def)
  ultimately show ?thesis using r by auto
qed

theorem placed_bracket_shape_witness:
  "\<exists>a s' p x y. PlaceBracket (mem_gateway False (\<lambda>_. False)) demo_ib_bracket empty_sidecar = (Inr a, s')
     \<and> sent (mem_gateway False (\<lambda>_. False)) s' = [p, x, y] \<and> \<not> io_transmit p \<and> \<not> io_transmit x \<and> io_transmit y
     \<and> io_parent x = io_id p \<and> io_parent y = io_id p"
proof -
  let ?g = "mem_gateway False (\<lambda>_. False)"
  obtain a s' where r: "PlaceBracket ?g demo_ib_bracket empty_sidecar = (Inr a, s')"
    by (simp add: mem_run)
  have "\<not> gw_simulator ?g" by (simp add: mem_gateway_def)
  from placed_bracket_shape [OF mem.ib_session_axioms this r]
  obtain p cs where s: "sent ?g s' = sent ?g empty_sidecar @ p # cs" "\<not> io_transmit p"
    "list_all2 (is_child p (bx_group demo_ib_bracket)) cs (bracket_legs demo_ib_bracket)" "cs \<noteq> [] \<longrightarrow> io_transmit (last cs)"
    "\<forall>x \<in> set (butlast cs). \<not> io_transmit x" by blast
  from s(3) obtain x y where cs: "cs = [x, y]" "io_parent x = io_id p" "io_parent y = io_id p"
    by (auto simp: demo_ib_bracket_def bracket_legs_def list_all2_Cons2 is_child_def)
  moreover have "sent ?g empty_sidecar = []" by (simp add: sent_def known_def mem_gateway_def mem_api_def empty_sidecar_def)
  ultimately show ?thesis using r s by auto
qed

section \<open>One placement per client id\<close>

datatype gateway_call =
    CallPlace ib_request | CallCancel string string | CallModify mod_request | CallPreview decimal decimal preview_request
  | CallSubscribe string

fun gateway_step :: "'b gateway \<Rightarrow> gateway_call \<Rightarrow> 'b sidecar \<Rightarrow> 'b sidecar" where
  "gateway_step gw (CallPlace q) s = snd (PlaceOrder gw q s)"
| "gateway_step gw (CallCancel a b) s = snd (CancelOrder gw a b s)"
| "gateway_step gw (CallModify q) s = snd (ModifyOrder gw q s)"
| "gateway_step gw (CallPreview now later q) s = snd (PreviewOrder gw now later q s)"
| "gateway_step gw (CallSubscribe a) s = snd (subscribe_events a s)"

text \<open>The client ids of the orders that the library was given; orders without one are not ours.\<close>

definition refs :: "'b gateway \<Rightarrow> 'b sidecar \<Rightarrow> string list" where
  "refs gw s = filter (\<lambda>r. r \<noteq> []) (map io_ref (sent gw s))"

definition refs_ok :: "'b gateway \<Rightarrow> 'b sidecar \<Rightarrow> bool" where
  "refs_ok gw s \<longleftrightarrow> distinct (refs gw s) \<and> (\<forall>x \<in> set (sent gw s). io_ref x \<noteq> [] \<longrightarrow> io_id x \<noteq> 0)"

lemma prepared:
  assumes "prepare_order dec q = Inr o1"
  shows "io_id o1 = 0 \<and> io_ref o1 = ir_client q \<and> io_account o1 = ir_account q"
proof -
  obtain o2 where b: "build_ib_order q = Inr o2" and r: "rbind (if ir_oco q \<noteq> [] then attach_oca_group (ir_oco q) 1 (stamp q o2) else Inr (stamp q o2))
      (\<lambda>o2. if ir_algo q \<noteq> [] then build_ib_algo_order dec q o2 else Inr o2) = Inr o1"
    using assms by (auto simp: prepare_order_def rbind_Inr_iff)
  from r obtain o3 where o3: "o3 = stamp q o2 \<or> o3 = (stamp q o2)\<lparr>io_oca := ir_oco q, io_oca_type := 1\<rparr>"
    and r3: "(if ir_algo q \<noteq> [] then build_ib_algo_order dec q o3 else Inr o3) = Inr o1"
    by (auto simp: rbind_Inr_iff attach_oca_group_def split: if_splits)
  have "o1 = o3 \<or> (\<exists>a p. o1 = o3\<lparr>io_algo := a, io_params := p\<rparr>)"
    using r3 by (auto simp: build_ib_algo_order_def Let_def rbind_Inr_iff split: if_splits option.splits)
  with o3 built_fresh [OF b] show ?thesis by (auto simp: stamp_def)
qed

lemma what_if_built:
  assumes "build_what_if_order q = Inr o1"
  shows "io_id o1 = 0 \<and> io_ref o1 = []"
  using assms
  by (auto simp: build_what_if_order_def rbind_Inr_iff Let_def set_aux_def set_lmt_def blank_order_def split: if_splits)

context ib_session begin

lemma refs_of_sent: "sent gw s' = sent gw s \<Longrightarrow> refs_ok gw s \<Longrightarrow> refs_ok gw s'"
  by (simp add: refs_ok_def refs_def)

lemma refs_ok_keeps: "\<lbrakk>keeps (sent gw) m; refs_ok gw s; m s = (r, s')\<rbrakk> \<Longrightarrow> refs_ok gw s'"
  using keepsD refs_of_sent by metis

lemma refs_ok_snd: "\<lbrakk>keeps (sent gw) m; refs_ok gw s\<rbrakk> \<Longrightarrow> refs_ok gw (snd (m s))"
  by (rule refs_of_sent) (simp_all add: keeps_def)

lemma refs_placed:
  assumes "refs_ok gw s" and "on_ib (ik_place (gw_api gw) c o1) s = (r, s')" and "io_id o1 = 0"
    and "io_ref o1 \<noteq> [] \<Longrightarrow> io_ref o1 \<notin> set (refs gw s)"
  shows "refs_ok gw s'"
proof (cases r)
  case (Inl e)
  then show ?thesis using not_placed assms(1,2) refs_of_sent by blast
next
  case (Inr t)
  note p = placed [OF assms(2) [unfolded Inr] assms(3)]
  have ref: "io_ref (itr_order t) = io_ref o1" using bareD [OF p(3)] by simp
  show ?thesis using assms(1,4) p(1,2) ref by (auto simp: refs_ok_def refs_def)
qed

lemma find_ref:
  assumes "List.find (same_ref c) (ik_trades (gw_api gw) (sk_ib s)) = None" and "c \<noteq> []"
  shows "c \<notin> set (refs gw s)"
  using assms by (auto simp: find_None_iff same_ref_def refs_def sent_def known_def)

lemma place_new_refs:
  assumes "refs_ok gw s" and "ir_client q \<noteq> [] \<Longrightarrow> ir_client q \<notin> set (refs gw s)"
  shows "refs_ok gw (snd (place_new gw q s))"
proof -
  obtain r s1 where c: "ib_resolve_contract gw (ir_conid q) s = (r, s1)" by fastforce
  have k: "sent gw s1 = sent gw s" by (rule keepsD [OF keeps_resolve c])
  have ok1: "refs_ok gw s1" using k assms(1) refs_of_sent by blast
  show ?thesis
  proof (cases "\<exists>x o1. r = Inr x \<and> prepare_order (gw_decimal gw) q = Inr o1")
    case False
    then have "snd (place_new gw q s) = s1"
      using c by (auto simp: place_new_def run_simps split: prod.splits sum.splits)
    with ok1 show ?thesis by simp
  next
    case True
    then obtain x o1 where x: "r = Inr x" and o1: "prepare_order (gw_decimal gw) q = Inr o1" by blast
    obtain r2 s2 where p: "on_ib (ik_place (gw_api gw) x o1) s1 = (r2, s2)" by fastforce
    have "snd (place_new gw q s) = s2"
      using c x o1 p by (simp add: place_new_def run_simps split: sum.splits)
    moreover have "refs_ok gw s2"
      by (rule refs_placed [OF ok1 p]) (use prepared [OF o1] assms(2) k in \<open>auto simp: refs_def\<close>)
    ultimately show ?thesis by simp
  qed
qed

lemma place_refs: "refs_ok gw s \<Longrightarrow> refs_ok gw (snd (PlaceOrder gw q s))"
proof (cases "gw_simulator gw")
  case True
  assume "refs_ok gw s"
  moreover have "keeps (sent gw) (PlaceOrder gw q)"
    using True unfolding PlaceOrder_def by (auto intro!: keeps_intro keeps_sim)
  ultimately show ?thesis by (simp add: refs_ok_snd)
next
  case False
  assume ok: "refs_ok gw s"
  show ?thesis
  proof (cases "List.find (same_ref (ir_client q)) (ik_trades (gw_api gw) (sk_ib s))")
    case None
    then have "snd (PlaceOrder gw q s) = snd (place_new gw q s)" using False by (simp add: PlaceOrder_def sk_read_def abind_def)
    with place_new_refs [OF ok] find_ref [OF None] show ?thesis by simp
  next
    case (Some t)
    then show ?thesis using False ok by (simp add: PlaceOrder_def sk_read_def run_simps)
  qed
qed

lemma keeps_sim_event: "keeps (sent gw) (dispatch_sim_event a b c st)"
  unfolding dispatch_sim_event_def by (intro keeps_upd) simp

lemma keeps_cancel: "keeps (sent gw) (CancelOrder gw a b)"
  unfolding CancelOrder_def
  by (intro keeps_intro keeps_sk_read keeps_sim_event keeps_on_ib cancel_known keeps_upd) simp_all

lemma preview_refs: "refs_ok gw s \<Longrightarrow> refs_ok gw (snd (preview_new gw later q s))"
proof -
  assume ok: "refs_ok gw s"
  obtain r s1 where c: "ib_resolve_contract gw (vq_symbol q) s = (r, s1)" by fastforce
  have ok1: "refs_ok gw s1" by (rule refs_ok_keeps [OF keeps_resolve ok c])
  show ?thesis
  proof (cases "\<exists>x o1. r = Inr x \<and> build_what_if_order q = Inr o1")
    case False
    then have "snd (preview_new gw later q s) = s1"
      using c by (auto simp: preview_new_def run_simps split: prod.splits sum.splits)
    with ok1 show ?thesis by simp
  next
    case True
    then obtain x o1 where x: "r = Inr x" and o1: "build_what_if_order q = Inr o1" by blast
    obtain r2 s2 where p: "on_ib (ik_place (gw_api gw) x o1) s1 = (r2, s2)" by fastforce
    have ok2: "refs_ok gw s2" by (rule refs_placed [OF ok1 p]) (use what_if_built [OF o1] in auto)
    let ?rest = "\<lambda>t. abind (on_ib (\<lambda>b. case ik_filled (gw_api gw) t b of (w, b') \<Rightarrow> (Inr w, b'))) (\<lambda>w.
      case w of None \<Rightarrow> of_res (Inl (RpcAbort ''DEADLINE_EXCEEDED''))
      | Some x \<Rightarrow> aseq (sk_upd (\<lambda>s. s\<lparr>sk_lru := lru_store (vq_key q) (later, what_if_answer x) (sk_lru s)\<rparr>)) (aret (what_if_answer x)))"
    have "keeps (sent gw) (?rest t)" for t
      by (intro keeps_intro keeps_on_ib keeps_upd) (simp_all add: case_prod_beta filled_known)
    moreover have "snd (preview_new gw later q s) = (case r2 of Inl _ \<Rightarrow> s2 | Inr t \<Rightarrow> snd (?rest t s2))"
      using c x o1 p by (simp add: preview_new_def abind_def of_res_def split: sum.splits)
    ultimately show ?thesis using ok2 by (auto simp: refs_ok_snd split: sum.splits)
  qed
qed

lemma preview_order_refs: "refs_ok gw s \<Longrightarrow> refs_ok gw (snd (PreviewOrder gw now later q s))"
proof -
  assume ok: "refs_ok gw s"
  have "keeps (sent gw) (aseq (sk_upd (\<lambda>s. s\<lparr>sk_lru := lru_touch (vq_key q) (sk_lru s)\<rparr>)) (aret r))" for r :: preview_answer
    by (intro keeps_intro keeps_upd) simp
  with ok preview_refs [OF ok] show ?thesis
    by (auto simp: PreviewOrder_def sk_read_def abind_def refs_ok_snd split: option.splits prod.splits)
qed

end

definition id_refs :: "'b gateway \<Rightarrow> 'b sidecar \<Rightarrow> (string \<times> nat) list" where
  "id_refs gw s = map (\<lambda>x. (io_ref x, io_id x)) (sent gw s)"

lemma refs_ok_id_refs: "refs_ok gw s \<longleftrightarrow> distinct (filter (\<lambda>r. r \<noteq> []) (map fst (id_refs gw s)))
    \<and> (\<forall>(r, i) \<in> set (id_refs gw s). r \<noteq> [] \<longrightarrow> i \<noteq> 0)"
  by (auto simp: refs_ok_def refs_def id_refs_def comp_def)

text \<open>An assignment that keeps the reference and the number of an order.\<close>

definition harmless :: "(ib_order \<Rightarrow> ib_order) \<Rightarrow> bool" where
  "harmless f \<longleftrightarrow> (\<forall>x. io_ref (f x) = io_ref x \<and> io_id (f x) = io_id x)"

context ib_session begin

lemma keeps_assign:
  "harmless f \<Longrightarrow> keeps (\<lambda>s. (id_refs gw s, map itr_obj (ik_trades (gw_api gw) (sk_ib s)))) (assign gw i f)"
  by (auto simp: keeps_def assign_def sk_upd_def id_refs_def sent_def known_def assign_trades harmless_def)

lemma keeps_rewrite: "keeps (\<lambda>s. (id_refs gw s, map itr_obj (ik_trades (gw_api gw) (sk_ib s)))) (rewrite_order gw q i)"
  unfolding rewrite_order_def assign_float_def
  by (intro keeps_intro keeps_assign) (simp_all add: harmless_def)

lemma current_known:
  assumes "i \<in> itr_obj ` set (ik_trades (gw_api gw) (sk_ib s))"
  shows "asked (current_order gw i x s) \<in> set (sent gw s)"
proof -
  from assms have "List.find (\<lambda>t. itr_obj t = i) (ik_trades (gw_api gw) (sk_ib s)) \<noteq> None" by (auto simp: find_None_iff)
  then obtain t where "List.find (\<lambda>t. itr_obj t = i) (ik_trades (gw_api gw) (sk_ib s)) = Some t" by blast
  with find_Some_iff' [OF this] show ?thesis by (auto simp: current_order_def sent_def known_def)
qed

lemma replaced_refs:
  assumes "refs_ok gw s" and "asked o1 \<in> set (sent gw s)" and "on_ib (ik_place (gw_api gw) c o1) s = (r, s')"
  shows "refs_ok gw s'"
proof (cases "io_id o1 = 0")
  case True
  have "io_ref o1 = []" using assms(1,2) True by (auto simp: refs_ok_def dest!: bspec)
  then show ?thesis using refs_placed [OF assms(1,3) True] by simp
next
  case False
  have "sent gw s' = sent gw s"
  proof (cases r)
    case (Inl e)
    then show ?thesis using not_placed assms(3) by blast
  next
    case (Inr t)
    then show ?thesis using place_known [of c o1 "sk_ib s" t] assms(2,3) False
      by (auto simp: on_ib_def sent_def split: prod.splits)
  qed
  then show ?thesis using assms(1) refs_of_sent by blast
qed

lemma modify_refs: "refs_ok gw s \<Longrightarrow> refs_ok gw (snd (ModifyOrder gw q s))"
proof -
  assume ok: "refs_ok gw s"
  consider (kept) "sent gw (snd (ModifyOrder gw q s)) = sent gw s"
    | (real) n t where "\<not> is_sim (mo_broker q)" "List.find (trade_of n (mo_account q)) (ik_open (gw_api gw) (sk_ib s)) = Some t"
      "ModifyOrder gw q s = abind (rewrite_order gw q (itr_obj t)) (\<lambda>_. abind (sk_read (current_order gw (itr_obj t) (itr_order t))) (\<lambda>o1.
         abind (aborting ''UNKNOWN'' (on_ib (ik_place (gw_api gw) (itr_contract t) o1))) (\<lambda>t'. aret (answer_of t')))) s"
  proof (cases "is_sim (mo_broker q)")
    case True
    have "keeps (sent gw) (ModifyOrder gw q)"
      using True unfolding ModifyOrder_def
      by (simp only: if_True) (intro keeps_intro keeps_sk_read keeps_sim_event)
    then show ?thesis using kept by (simp add: keeps_def)
  next
    case False
    show ?thesis
    proof (cases "parse_int (mo_broker q)")
      case (Inl e)
      then show ?thesis using False kept by (simp add: ModifyOrder_def aborting_def run_simps)
    next
      case (Inr n)
      show ?thesis
      proof (cases "List.find (trade_of n (mo_account q)) (ik_open (gw_api gw) (sk_ib s))")
        case None
        then show ?thesis using False Inr kept by (simp add: ModifyOrder_def aborting_def sk_read_def run_simps)
      next
        case (Some t)
        then show ?thesis using False Inr real [of n t] by (simp add: ModifyOrder_def aborting_def sk_read_def aseq_def abind_def of_res_def)
      qed
    qed
  qed
  then show ?thesis
  proof cases
    case kept
    then show ?thesis using ok refs_of_sent by blast
  next
    case real
    have t: "itr_obj t \<in> itr_obj ` set (ik_trades (gw_api gw) (sk_ib s))"
      using find_Some_iff' [OF real(2)] open_subset by blast
    obtain r s1 where w: "rewrite_order gw q (itr_obj t) s = (r, s1)" by fastforce
    from keepsD [OF keeps_rewrite w] have k: "id_refs gw s1 = id_refs gw s"
      "map itr_obj (ik_trades (gw_api gw) (sk_ib s1)) = map itr_obj (ik_trades (gw_api gw) (sk_ib s))" by simp_all
    have ok1: "refs_ok gw s1" using ok k(1) by (simp add: refs_ok_id_refs)
    have "itr_obj t \<in> itr_obj ` set (ik_trades (gw_api gw) (sk_ib s1))" using t k(2) by (metis set_map)
    note known = current_known [OF this, of "itr_order t"]
    obtain r2 s2 where p: "on_ib (ik_place (gw_api gw) (itr_contract t) (current_order gw (itr_obj t) (itr_order t) s1)) s1 = (r2, s2)" by fastforce
    have "snd (ModifyOrder gw q s) \<in> {s1, s2}"
      unfolding real(3) using w p by (auto simp: abind_def sk_read_def aborting_def aret_def split: sum.splits)
    then show ?thesis using ok1 replaced_refs [OF ok1 known p] by auto
  qed
qed

lemma step_refs: "refs_ok gw s \<Longrightarrow> refs_ok gw (gateway_step gw call s)"
proof (cases call)
  case (CallSubscribe a)
  assume "refs_ok gw s"
  moreover have "keeps (sent gw) (subscribe_events a)" unfolding subscribe_events_def by (intro keeps_upd) simp
  ultimately show ?thesis using CallSubscribe by (simp add: refs_ok_snd)
qed (simp_all add: place_refs modify_refs preview_order_refs refs_ok_snd keeps_cancel)

end

text \<open>The sidecar is one of the machines of the prelude.\<close>

sublocale ib_session \<subseteq> gateway: invariant_machine "gateway_step gw" "refs_ok gw"
  by unfold_locales (rule step_refs)

context ib_session begin

lemma run_refs: "refs_ok gw s \<Longrightarrow> refs_ok gw (fold (gateway_step gw) calls s)"
  by (rule gateway.run_inv)

end


definition demo_entry :: ib_trade where
  "demo_entry = \<lparr>itr_obj = 0, itr_contract = ByConid 265598,
     itr_order = (blank_order Buy 10)\<lparr>io_id := 1, io_type := ''LMT'', io_lmt := Some 100, io_tif := TifText ''DAY'', io_ref := ''p'', io_account := ''U1''\<rparr>,
     itr_status = ''PendingSubmit''\<rparr>"

lemma zero_text: "nat_text 0 = ''0''"
  by code_simp

lemma demo_first:
  "PlaceOrder (mem_gateway False (\<lambda>_. False)) (demo_leg ''p'' Buy LIMIT (Some 100) None) empty_sidecar
   = (Inr \<lparr>pl_broker = ''0'', pl_status = ''PendingSubmit''\<rparr>, empty_sidecar\<lparr>sk_ib := [demo_entry]\<rparr>)"
proof -
  have "ir_oco (demo_leg ''p'' Buy LIMIT (Some 100) None) = []" "ir_algo (demo_leg ''p'' Buy LIMIT (Some 100) None) = []"
    by (simp_all add: demo_leg_def place_request_def)
  then show ?thesis
    by (simp add: PlaceOrder_def place_new_def mem_run prepare_order_def sk_read_def answer_of_def demo_entry_def zero_text)
qed

lemma demo_again:
  "PlaceOrder (mem_gateway False (\<lambda>_. False)) (demo_leg ''p'' Buy LIMIT (Some 100) None) (empty_sidecar\<lparr>sk_ib := [demo_entry]\<rparr>)
   = (Inr \<lparr>pl_broker = ''0'', pl_status = ''PendingSubmit''\<rparr>, empty_sidecar\<lparr>sk_ib := [demo_entry]\<rparr>)"
  by (simp add: PlaceOrder_def sk_read_def run_simps same_ref_def demo_entry_def answer_of_def mem_gateway_def mem_api_def blank_order_def zero_text)


end
