(* ===== verification/Ibkr_Gateway.thy ===== *)
theory Ibkr_Gateway
  imports Ibkr_Handlers Orders_Bracket Risk_Guarantees
begin

text \<open>
  The backend's side of a sidecar, \<open>BrokerSidecarClient\<close> of \<open>backend/app/services/brokers.py\<close>, and what
  the order service and the IBKR sidecar do together.

  A call is answered with the response or with one of two exceptions: every status of the
  protocol but \<open>DEADLINE_EXCEEDED\<close>, an exception inside a handler included, becomes
  \<open>BrokerSidecarUnavailable\<close>.
\<close>

section \<open>Calls\<close>

definition client_call :: "exn + 'a \<Rightarrow> exn + 'a" where
  "client_call r =
     (case r of Inl e \<Rightarrow> Inl (if e = RpcAbort ''DEADLINE_EXCEEDED'' then SidecarTimeout else SidecarUnavailable) | Inr x \<Rightarrow> Inr x)"

text \<open>\<open>late\<close>: the client's own deadline of five seconds passed first; the handler may have done its work.\<close>

definition sidecar_call :: "bool \<Rightarrow> exn + 'a \<Rightarrow> exn + 'a" where
  "sidecar_call late r = (if late then Inl SidecarTimeout else client_call r)"

fun tif_number :: "otif \<Rightarrow> nat" where
  "tif_number DAY = 1" | "tif_number GTC = 2" | "tif_number IOC = 3" | "tif_number FOK = 4" | "tif_number GTD = 5"

definition TIME_IN_FORCE_MAP :: "(string \<times> nat) list" where
  "TIME_IN_FORCE_MAP = [(''DAY'', 1), (''GTC'', 2), (''IOC'', 3), (''FOK'', 4), (''GTD'', 5)]"

definition coerce_time_in_force :: "string \<Rightarrow> exn + nat" where
  "coerce_time_in_force t =
     (case map_of TIME_IN_FORCE_MAP (upper t) of Some n \<Rightarrow> Inr n | None \<Rightarrow> Inl (ValueError ''unknown TimeInForce''))"

text \<open>\<open>Money(value=price or "0")\<close>: both prices are always present.\<close>

definition price_or_zero :: "decimal option \<Rightarrow> dec_text" where
  "price_or_zero p = (case p of Some x \<Rightarrow> DNum x | None \<Rightarrow> DNum 0)"

definition modify_request ::
  "string \<Rightarrow> string \<Rightarrow> otif \<Rightarrow> decimal \<Rightarrow> decimal option \<Rightarrow> decimal option \<Rightarrow> exn + mod_request" where
  "modify_request acct b tf x l st =
     rbind (coerce_time_in_force (otif_text tf)) (\<lambda>n.
       Inr \<lparr>mo_broker = b, mo_account = acct, mo_tif = n, mo_qty = DNum x, mo_limit = Some (price_or_zero l), mo_stop = Some (price_or_zero st)\<rparr>)"

definition bracket_request :: "string \<Rightarrow> string \<Rightarrow> place_wire \<Rightarrow> place_wire option \<Rightarrow> place_wire option \<Rightarrow> ib_bracket" where
  "bracket_request acct g p st tp =
     \<lparr>bx_parent = place_request acct p, bx_stop = map_option (place_request acct) st, bx_target = map_option (place_request acct) tp, bx_group = g\<rparr>"

lemma coerced: "coerce_time_in_force (otif_text tf) = Inr (tif_number tf)"
proof -
  have "list_all (\<lambda>t. upper (otif_text t) = otif_text t) [DAY, GTC, IOC, FOK, GTD]" by code_simp
  then have "upper (otif_text tf) = otif_text tf" by (cases tf) simp_all
  then show ?thesis by (cases tf) (simp_all add: coerce_time_in_force_def TIME_IN_FORCE_MAP_def)
qed

section \<open>The margin check of an IBKR order\<close>

lemma parse_int_error: "parse_int t = Inl e \<Longrightarrow> e = ValueError ''invalid literal for int()''"
  by (auto simp: parse_int_def Let_def split: if_splits)

text \<open>The sidecar resolves the symbol of a preview as if it were a contract id.\<close>

lemma text_preview_raises:
  assumes "parse_int (vq_symbol q) = Inl e" and "map_of (sk_lru s) (vq_key q) = None"
  shows "PreviewOrder gw now later q s = (Inl e, s)"
  using assms by (simp add: PreviewOrder_def preview_new_def ib_resolve_contract_def sk_read_def run_simps)

lemma failed_preview_blocks:
  assumes "fst (e_preview env) = sidecar_call late (Inl x :: exn + bool)" and "symbol ctx \<noteq> None" and "asset_class ctx \<noteq> None"
    and "mode \<noteq> Preview"
  shows "is_blocking (check_margin env ctx mode)"
  using assms by (auto simp: check_margin_def wait_for_def sidecar_call_def client_call_def)

lemma prepared_contract:
  assumes "prepare env q = Inr tk" and "pe_contract env (rq_conid q) = Inr c"
  shows "tk_contract tk = c"
  using assms by (auto simp: prepare_def price_request_def resolve_contract_def rbind_Inr_iff Let_def split: if_splits option.splits)

text \<open>C35: when the margin check of the gate asks the IBKR sidecar about a contract whose symbol is no number, no
  order on that contract is ever handed to the broker: the sidecar takes the symbol for a contract id and raises,
  the client turns that into an exception that the check does not expect, and the gate blocks.\<close>

theorem text_symbol_never_placed:
  assumes "place_order R env fr skip q w = (r, w')"
    and "pe_contract env (rq_conid q) = Inr c" and "parse_int (ct_symbol c) = Inl x"
    and "fst (e_preview (pe_risk env)) = sidecar_call late (map_sum id wa_accepted (fst (PreviewOrder gw now later vq s)))"
    and "vq_symbol vq = ct_symbol c" and "map_of (sk_lru s) (vq_key vq) = None"
  shows "w_sent w' = w_sent w"
  using assms(1)
proof (cases rule: place_order_cases)
  case (sent tk w1 row w2 toks w3)
  then have p: "prepare env q = Inr tk" and g: "gate_and_caps R env q tk w = Inr ()" by (auto dest: admit_passed)
  let ?re = "gate_env R (pe_risk env) (rq_account q) (srv (w_conn w))"
  from gate_and_caps_passed [OF g] obtain iid v where
    v: "evaluate ?re (place_ctx env q tk iid) Place_Order = Inr v" "final_verdict v \<noteq> Block" by blast
  have "fst (PreviewOrder gw now later vq s) = Inl x" using text_preview_raises [of vq x s] assms(3,5,6) by simp
  then have "fst (e_preview ?re) = sidecar_call late (Inl x :: exn + bool)" using assms(4) by (simp add: gate_env_def)
  then have "is_blocking (check_margin ?re (place_ctx env q tk iid) Place_Order)"
    by (rule failed_preview_blocks) (simp_all add: place_ctx_def)
  with evaluate_blocks_if [OF v(1) results_member(6)] v(2) show ?thesis by simp
qed

definition demo_preview :: preview_request where
  "demo_preview = \<lparr>vq_account = ''a1'', vq_side = ''buy'', vq_symbol = ''AAPL'', vq_type = ''limit'', vq_qty = DNum 10, vq_limit = DNum 20,
     vq_stop = DEmpty, vq_key = ''preview:k''\<rparr>"

definition ibkr_penv :: place_env where
  "ibkr_penv = demo_penv\<lparr>pe_risk := (pe_risk demo_penv)\<lparr>e_preview :=
     (sidecar_call False (map_sum id wa_accepted (fst (PreviewOrder (mem_gateway False (\<lambda>_. False)) 0 0 demo_preview empty_sidecar))), 1)\<rparr>\<rparr>"

theorem text_symbol_never_placed_witness:
  "w_sent (snd (place_order mem_srv ibkr_penv demo_ids False demo_req demo_world)) = []"
proof -
  obtain r w' where p: "place_order mem_srv ibkr_penv demo_ids False demo_req demo_world = (r, w')" by fastforce
  have x: "parse_int ''AAPL'' = Inl (ValueError ''invalid literal for int()'')" by code_simp
  have "w_sent w' = w_sent demo_world"
    by (rule text_symbol_never_placed [OF p _ _ _ _ , where c = "\<lparr>ct_symbol = ''AAPL'', ct_local = ''AAPL'', ct_currency = ''USD'', ct_class = ''STOCK''\<rparr>"
        and gw = "mem_gateway False (\<lambda>_. False)" and now = 0 and later = 0 and vq = demo_preview and s = empty_sidecar and late = False])
      (simp_all add: ibkr_penv_def demo_penv_def x demo_preview_def empty_sidecar_def)
  with p show ?thesis by (simp add: demo_world_def)
qed

section \<open>A modified order\<close>

definition modified :: "otif \<Rightarrow> decimal \<Rightarrow> decimal option \<Rightarrow> decimal option \<Rightarrow> ib_order \<Rightarrow> ib_order" where
  "modified tf x l st o1 =
     o1\<lparr>io_qty := x, io_lmt := Some (or_zero l), io_aux := Some (or_zero st), io_tif := TifNumber (tif_number tf)\<rparr>"

lemma price_or_zero_float: "to_float (price_or_zero p) = Inr (or_zero p)"
  by (cases p) (simp_all add: price_or_zero_def or_zero_def)

lemma same_objects:
  "itr_obj ` set (map (\<lambda>t. if itr_obj t = i then t\<lparr>itr_order := f (itr_order t)\<rparr> else t) ts) = itr_obj ` set ts"
  by (induction ts) auto

context ib_session begin

lemma assigned:
  "assign gw i f s = (Inr (), s\<lparr>sk_ib := ik_assign (gw_api gw) i f (sk_ib s)\<rparr>)"
  by (simp add: assign_def sk_upd_def)

lemma rewritten:
  assumes "modify_request acct b tf x l st = Inr q" and "rewrite_order gw q i s = (r, s1)"
  shows "r = Inr () \<and> ik_trades (gw_api gw) (sk_ib s1)
    = map (\<lambda>t. if itr_obj t = i then t\<lparr>itr_order := modified tf x l st (itr_order t)\<rparr> else t) (ik_trades (gw_api gw) (sk_ib s))"
proof -
  have q: "q = \<lparr>mo_broker = b, mo_account = acct, mo_tif = tif_number tf, mo_qty = DNum x, mo_limit = Some (price_or_zero l),
      mo_stop = Some (price_or_zero st)\<rparr>"
    using assms(1) by (simp add: modify_request_def coerced)
  have n: "tif_number tf \<noteq> 0" by (cases tf) simp_all
  show ?thesis
    using assms(2) n unfolding q rewrite_order_def assign_float_def
    by (auto simp: aseq_def abind_def of_res_def assigned price_or_zero_float assign_trades modified_def comp_def)
qed

lemma current_modified:
  assumes "ik_trades (gw_api gw) (sk_ib s1) = map (\<lambda>t. if itr_obj t = i then t\<lparr>itr_order := f (itr_order t)\<rparr> else t) ts"
    and "i \<in> itr_obj ` set ts"
  shows "\<exists>x. current_order gw i y s1 = f x"
proof -
  have "i \<in> itr_obj ` set (ik_trades (gw_api gw) (sk_ib s1))"
    unfolding assms(1) same_objects by (rule assms(2))
  then have "List.find (\<lambda>t. itr_obj t = i) (ik_trades (gw_api gw) (sk_ib s1)) \<noteq> None" by (auto simp: find_None_iff)
  then obtain t where t: "List.find (\<lambda>t. itr_obj t = i) (ik_trades (gw_api gw) (sk_ib s1)) = Some t" by blast
  from find_Some_iff' [OF this] have obj: "itr_obj t = i" and mem: "t \<in> set (ik_trades (gw_api gw) (sk_ib s1))" by auto
  from mem obtain u where u: "t = (if itr_obj u = i then u\<lparr>itr_order := f (itr_order u)\<rparr> else u)"
    unfolding assms(1) set_map by (rule imageE)
  have "itr_order t = f (itr_order u)"
  proof (cases "itr_obj u = i")
    case True
    then show ?thesis by (simp add: u)
  next
    case False
    then show ?thesis using u obj by simp
  qed
  then show ?thesis by (auto simp: current_order_def t)
qed

lemma replaced_known:
  assumes "on_ib (ik_place (gw_api gw) c o1) s = (Inr t, s')" and "asked o1 \<in> set (sent gw s)"
  shows "\<exists>y \<in> set (sent gw s'). bare y = bare o1"
proof (cases "io_id o1 = 0")
  case True
  from placed [OF assms(1) True] show ?thesis by (intro bexI [of _ "asked (itr_order t)"]) auto
next
  case False
  then have "sent gw s' = sent gw s" using place_known [of c o1 "sk_ib s" t] assms
    by (auto simp: on_ib_def sent_def split: prod.splits)
  with assms(2) show ?thesis by (intro bexI [of _ "asked o1"]) auto
qed

end


lemma demo_modify:
  "\<exists>a s'. ModifyOrder (mem_gateway False (\<lambda>_. False)) \<lparr>mo_broker = ''0'', mo_account = ''U1'', mo_tif = 2, mo_qty = DNum 7,
      mo_limit = Some (DNum 101), mo_stop = Some (DNum 0)\<rparr> (empty_sidecar\<lparr>sk_ib := [demo_entry]\<rparr>) = (Inr a, s')"
proof -
  have "parse_int ''0'' = Inr 0" by code_simp
  then show ?thesis
    by (simp add: ModifyOrder_def is_sim_def aborting_def sk_read_def run_simps mem_gateway_def mem_api_def demo_entry_def blank_order_def
        trade_of_def empty_sidecar_def rewrite_order_def assign_float_def assign_def sk_upd_def current_order_def on_ib_def mem_place_def asked_def)
qed


section \<open>Simulation\<close>

context ib_session begin

lemma keeps_combo_leg: "keeps (sent gw) (ib_combo_leg gw l)"
  unfolding ib_combo_leg_def by (intro keeps_intro keeps_on_ib details_known) (auto intro!: keeps_intro split: list.splits)

lemma keeps_combo_legs: "keeps (sent gw) (combo_legs gw ls)"
  by (induction ls) (auto intro!: keeps_intro keeps_combo_leg)

lemma keeps_simulated:
  assumes "gw_simulator gw"
  shows "keeps (sent gw) (PlaceOrder gw q)" "keeps (sent gw) (PlaceBracket gw b)"
proof -
  show "keeps (sent gw) (PlaceOrder gw q)"
    using assms unfolding PlaceOrder_def by (auto intro!: keeps_intro keeps_sim)
  have "keeps (sent gw) (sim_leg gw p r)" for p r
    unfolding sim_leg_def by (intro keeps_intro keeps_sim)
  then show "keeps (sent gw) (PlaceBracket gw b)"
    using assms unfolding PlaceBracket_def by (auto intro!: keeps_intro keeps_sim keeps_resolve)
qed

lemma combo_sent:
  assumes "PlaceCombo gw c s = (Inr i, s')"
  shows "\<exists>y. sent gw s' = sent gw s @ [y] \<and> io_transmit y \<and> io_action y = Buy \<and> io_qty y = 1 \<and> io_account y = []"
proof -
  obtain l ls where l: "cw_legs c = l # ls" using assms by (cases "cw_legs c") (auto simp: PlaceCombo_def of_res_def)
  obtain xs s1 p t where x: "combo_legs gw (cw_legs c) s = (Inr xs, s1)"
    and t: "on_ib (ik_place (gw_api gw) (Bag (leg_symbol l) (lw_currency l) xs)
       ((blank_order Buy 1)\<lparr>io_type := ''LMT'', io_lmt := Some p, io_tif := TifText (cw_tif c), io_ref := cw_client c\<rparr>)) s1 = (Inr t, s')"
    using assms l by (auto simp: PlaceCombo_def abind_def of_res_def aret_def split: prod.splits sum.splits)
  have k: "sent gw s1 = sent gw s" by (rule keepsD [OF keeps_combo_legs x])
  have z: "io_id ((blank_order Buy 1)\<lparr>io_type := ''LMT'', io_lmt := Some p, io_tif := TifText (cw_tif c), io_ref := cw_client c\<rparr>) = 0"
    by (simp add: blank_order_def)
  note pl = placed [OF t z]
  from bareD [OF pl(3)] pl(1) k show ?thesis
    by (intro exI [of _ "asked (itr_order t)"]) (simp add: same_terms_def blank_order_def asked_def)
qed

end

text \<open>In simulator-only mode neither a placement nor a bracket reaches the library, but a combo does, as one
  transmitted order to buy one unit on no account.\<close>

theorem simulator_sends_only_combos:
  assumes "ib_session gw" and "gw_simulator gw"
  shows "sent gw (snd (PlaceOrder gw q s)) = sent gw s \<and> sent gw (snd (PlaceBracket gw b s)) = sent gw s
    \<and> (\<forall>i s'. PlaceCombo gw c s = (Inr i, s') \<longrightarrow> (\<exists>y. sent gw s' = sent gw s @ [y] \<and> io_transmit y
          \<and> io_action y = Buy \<and> io_qty y = 1 \<and> io_account y = []))"
  using ib_session.keeps_simulated [OF assms] ib_session.combo_sent [OF assms(1)] by (simp add: keeps_def)

definition demo_combo_wire :: combo_wire where
  "demo_combo_wire = \<lparr>cw_account = ''U1'', cw_legs = [\<lparr>lw_raw = ''AAPL'', lw_canonical = [], lw_expiry = ''20260619'', lw_strike = DNum 100,
     lw_right = ''C'', lw_exchange = ''SMART'', lw_currency = ''USD'', lw_side = ''sell'', lw_ratio = 1\<rparr>],
     cw_tif = ''DAY'', cw_limit = DNum 2, cw_client = ''k''\<rparr>"

theorem simulator_sends_only_combos_witness:
  "\<exists>i s' y. PlaceCombo (mem_gateway True (\<lambda>_. False)) demo_combo_wire empty_sidecar = (Inr i, s')
     \<and> sent (mem_gateway True (\<lambda>_. False)) s' = [y] \<and> io_transmit y \<and> io_account y = []"
proof -
  let ?g = "mem_gateway True (\<lambda>_. False)"
  obtain i s' where r: "PlaceCombo ?g demo_combo_wire empty_sidecar = (Inr i, s')"
    by (simp add: PlaceCombo_def demo_combo_wire_def ib_combo_leg_def combo_limit_def on_ib_def run_simps mem_gateway_def mem_api_def
        mem_place_def blank_order_def empty_sidecar_def Let_def leg_symbol_def)
  have "gw_simulator ?g" by (simp add: mem_gateway_def)
  from simulator_sends_only_combos [OF mem.ib_session_axioms this, where c = demo_combo_wire and s = empty_sidecar] r
  obtain y where "sent ?g s' = sent ?g empty_sidecar @ [y]" "io_transmit y" "io_account y = []" by blast
  moreover have "sent ?g empty_sidecar = []" by (simp add: sent_def known_def mem_gateway_def mem_api_def empty_sidecar_def)
  ultimately show ?thesis using r by auto
qed

section \<open>Orders without a number\<close>

lemma broker_ids_clash:
  assumes "x \<in> set rs" and "y \<in> set rs" and "x \<noteq> y" and "o_account x = o_account y" and "o_broker x = Some b" and "o_broker y = Some b"
  shows "\<not> distinct (broker_ids rs)"
proof -
  have m: "(o_account z, b) \<in> set (broker_ids ts)" if "z \<in> set ts" "o_broker z = Some b" for z ts
    using that by (force simp: broker_ids_def)
  obtain us r vs where rs: "rs = us @ r # vs" "r = x \<and> y \<in> set (us @ vs) \<or> r = y \<and> x \<in> set (us @ vs)"
    using split_list [OF assms(1)] assms(2,3) by auto
  have "o_broker r = Some b" using rs(2) assms(5,6) by auto
  then have c: "broker_ids (r # vs) = (o_account r, b) # broker_ids vs" by (simp add: broker_ids_def)
  have "(o_account r, b) \<in> set (broker_ids (us @ vs))" using rs(2) m assms(4-6) by metis
  then show ?thesis unfolding rs(1) broker_ids_append c by auto
qed

lemma duplicate_broker_id:
  assumes "r1 \<in> set (orders (w_db w))" and "row \<in> set (orders (w_db w))" and "o_id r1 \<noteq> o_id row"
    and "o_account r1 = o_account row" and "o_broker r1 = Some b"
  shows "mark_order_submitted (o_id row) b w = (Inl DatabaseError, w)"
proof -
  let ?f = "\<lambda>r. if o_id r = o_id row then r\<lparr>o_broker := Some b, o_status := Submitted\<rparr> else r"
  have "\<not> distinct (broker_ids (map ?f (orders (w_db w))))"
  proof (rule broker_ids_clash [where x = r1 and y = "?f row"])
    show "r1 \<in> set (map ?f (orders (w_db w)))" using assms(1,3) by force
    show "?f row \<in> set (map ?f (orders (w_db w)))" using assms(2) by simp
    have "o_id (?f row) = o_id row" by simp
    then show "r1 \<noteq> ?f row" using assms(3) by metis
  qed (use assms in simp_all)
  then show ?thesis by (simp add: mark_order_submitted_def update_by_id_def Let_def)
qed

text \<open>\<open>placeOrder\<close> returns before the broker has numbered the order.\<close>

definition numbers_later :: "'b gateway \<Rightarrow> bool" where
  "numbers_later gw \<longleftrightarrow> (\<forall>c o1 b t b'. ik_place (gw_api gw) c o1 b = (Inr t, b') \<longrightarrow> io_perm o1 = 0 \<longrightarrow> io_perm (itr_order t) = 0)"

lemma prepared_unnumbered: "prepare_order dec q = Inr o1 \<Longrightarrow> io_perm o1 = 0"
proof -
  assume p: "prepare_order dec q = Inr o1"
  then obtain o2 where b: "build_ib_order q = Inr o2" and r: "rbind (if ir_oco q \<noteq> [] then attach_oca_group (ir_oco q) 1 (stamp q o2) else Inr (stamp q o2))
      (\<lambda>o2. if ir_algo q \<noteq> [] then build_ib_algo_order dec q o2 else Inr o2) = Inr o1"
    by (auto simp: prepare_order_def rbind_Inr_iff)
  from r obtain o3 where "o3 = stamp q o2 \<or> o3 = (stamp q o2)\<lparr>io_oca := ir_oco q, io_oca_type := 1\<rparr>"
    and "(if ir_algo q \<noteq> [] then build_ib_algo_order dec q o3 else Inr o3) = Inr o1"
    by (auto simp: rbind_Inr_iff attach_oca_group_def split: if_splits)
  with built_fresh [OF b] show ?thesis
    by (auto simp: stamp_def build_ib_algo_order_def Let_def rbind_Inr_iff split: if_splits option.splits)
qed

lemma fresh_answer:
  assumes "numbers_later gw" and "\<not> gw_simulator gw" and "PlaceOrder gw q s = (Inr a, s')"
    and "List.find (same_ref (ir_client q)) (ik_trades (gw_api gw) (sk_ib s)) = None"
  shows "pl_broker a = ''0''"
proof -
  have "place_new gw q s = (Inr a, s')" using assms(2-4) by (simp add: PlaceOrder_def sk_read_def abind_def)
  then obtain c s1 o1 t where o1: "prepare_order (gw_decimal gw) q = Inr o1"
    and t: "on_ib (ik_place (gw_api gw) c o1) s1 = (Inr t, s')" and a: "a = answer_of t"
    by (auto simp: place_new_def abind_def of_res_def aret_def split: prod.splits sum.splits)
  from t obtain b' where p: "ik_place (gw_api gw) c o1 (sk_ib s1) = (Inr t, b')" by (auto simp: on_ib_def split: prod.splits)
  have "io_perm (itr_order t) = 0" using assms(1) p prepared_unnumbered [OF o1] unfolding numbers_later_def by blast
  then show ?thesis by (simp add: a answer_of_def zero_text)
qed

text \<open>The sidecar answers a placement with the number that the library knows when \<open>placeOrder\<close> returns, which is
  zero while the broker has not numbered the order. The first order of an account is stored under the broker id
  \<open>0\<close>; the second one is handed to the broker too, but the order service fails on the uniqueness of broker ids and
  leaves it pending, without a broker id.\<close>

theorem unnumbered_orders_collide:
  assumes "numbers_later gw" and "\<not> gw_simulator gw"
    and "PlaceOrder gw (place_request acct (wire_of q (tk_qty tk))) s = (Inr a, s')"
    and "List.find (same_ref (rq_client q)) (ik_trades (gw_api gw) (sk_ib s)) = None"
    and "pe_reply env (wire_of q (tk_qty tk)) = sidecar_call False (Inr (pl_broker a))"
    and "r1 \<in> set (orders (w_db w))" and "row \<in> set (orders (w_db w))" and "o_id r1 \<noteq> o_id row"
    and "o_account r1 = o_account row" and "o_broker r1 = Some ''0''"
  shows "dispatch R env q tk row toks w
    = (Inl DatabaseError, w\<lparr>w_sent := w_sent w @ [PlaceMsg (account_number (tk_account tk)) (wire_of q (tk_qty tk))]\<rparr>)"
proof -
  have "ir_client (place_request acct (wire_of q (tk_qty tk))) = rq_client q" by (simp add: place_request_def wire_of_def)
  with fresh_answer [OF assms(1-3)] assms(4) have "pl_broker a = ''0''" by simp
  then have r: "pe_reply env (wire_of q (tk_qty tk)) = Inr ''0''" using assms(5) by (simp add: sidecar_call_def client_call_def)
  let ?w = "w\<lparr>w_sent := w_sent w @ [PlaceMsg (account_number (tk_account tk)) (wire_of q (tk_qty tk))]\<rparr>"
  have "mark_order_submitted (o_id row) ''0'' ?w = (Inl DatabaseError, ?w)"
    by (rule duplicate_broker_id) (use assms in simp_all)
  then show ?thesis by (simp add: dispatch_def r Let_def send_def aseq_def abind_def)
qed

lemma mem_numbers_later: "numbers_later (mem_gateway sim bad)"
  by (auto simp: numbers_later_def mem_gateway_def mem_api_def mem_place_def Let_def split: if_splits)

theorem unnumbered_orders_collide_witness:
  "fst (dispatch mem_srv (demo_penv\<lparr>pe_reply := (\<lambda>_. sidecar_call False (Inr ''0''))\<rparr>) demo_req demo_ticket
      (new_row ''o2'' ''a1'' ''c1'' 10) toks
      (demo_world\<lparr>w_db := demo_db [(new_row ''o1'' ''a1'' ''c0'' 10)\<lparr>o_broker := Some ''0''\<rparr>, new_row ''o2'' ''a1'' ''c1'' 10]\<rparr>)) = Inl DatabaseError"
proof -
  let ?q = "place_request ''DU1'' (wire_of demo_req (tk_qty demo_ticket))"
  have sel: "ir_conid ?q = ''265598''" "ir_oco ?q = []" "ir_algo ?q = []"
    by (simp_all add: place_request_def wire_of_def demo_req_def)
  have v: "wire_valid (\<lambda>_. True) (wire_of demo_req (tk_qty demo_ticket))"
    by (simp add: wire_valid_def wire_of_def demo_req_def validate_order_shape_def SESSION_BOUND_ORDER_TYPES_def)
  obtain o1 where o1: "build_ib_order ?q = Inr o1"
    using type_set [of "wire_of demo_req (tk_qty demo_ticket)" "''DU1''"] shapeD [OF v [unfolded wire_valid_def]]
    by (simp add: build_ib_order_def request_sel side_read)
  obtain a s' where p: "PlaceOrder (mem_gateway False (\<lambda>_. False)) ?q empty_sidecar = (Inr a, s')"
    using built_fresh [OF o1]
    by (simp add: PlaceOrder_def place_new_def ib_resolve_contract_def sk_read_def run_simps sel demo_conid prepare_order_def o1 on_ib_def mem_gateway_def
        mem_api_def mem_place_def empty_sidecar_def stamp_def Let_def)
  have s: "\<not> gw_simulator (mem_gateway False (\<lambda>_. False))" by (simp add: mem_gateway_def)
  have n: "List.find f (ik_trades (gw_api (mem_gateway False (\<lambda>_. False))) (sk_ib empty_sidecar)) = None" for f
    by (simp add: mem_gateway_def mem_api_def empty_sidecar_def)
  have z: "pl_broker a = ''0''" by (rule fresh_answer [OF mem_numbers_later s p n])
  let ?r1 = "(new_row ''o1'' ''a1'' ''c0'' 10)\<lparr>o_broker := Some ''0''\<rparr>" and ?r2 = "new_row ''o2'' ''a1'' ''c1'' 10"
  let ?w = "demo_world\<lparr>w_db := demo_db [?r1, ?r2]\<rparr>" and ?env = "demo_penv\<lparr>pe_reply := (\<lambda>_. sidecar_call False (Inr ''0''))\<rparr>"
  have "dispatch mem_srv ?env demo_req demo_ticket ?r2 toks ?w
    = (Inl DatabaseError, ?w\<lparr>w_sent := w_sent ?w @ [PlaceMsg (account_number (tk_account demo_ticket)) (wire_of demo_req (tk_qty demo_ticket))]\<rparr>)"
    by (rule unnumbered_orders_collide [where ?r1.0 = ?r1, OF mem_numbers_later s p n])
      (simp_all add: z demo_db_def new_row_def)
  then show ?thesis by (simp only: fst_conv)
qed

end
