(* ===== verification/Submit_Watchdog.thy ===== *)
theory Submit_Watchdog
  imports Orders_Guarantees
begin

text \<open>
  \<open>backend/app/services/pending_submit_watchdog.py\<close> and \<open>pending_fills_sweeper.py\<close>: the two loops
  that repair what the event consumer left behind, on the consumer's own state.

  A scan reads the orders that are still \<open>pending_submit\<close> after a minute, asks the broker for
  its orders and either replays the match through the consumer or, after five minutes, rejects the
  order. The accounts, the columns of the order service and the answers of the sidecars are the
  record \<open>watch_env\<close>; the order id that the IBKR sidecar reports is \<open>ibkr_order_id\<close>
  (\<open>sidecar_ibkr/handlers.py\<close>). The sleep between ticks, metrics and logs are left out: the loop
  is the sequence of its ticks.
\<close>

section \<open>Scanning\<close>

definition STALE_AFTER :: int where "STALE_AFTER = 60 * 1000000"
definition ORPHAN_AFTER :: int where "ORPHAN_AFTER = 5 * 60 * 1000000"

record watch_env =
  we_now :: int
  we_cols :: "uuid \<Rightarrow> order_cols option"
  we_accounts :: "(uuid \<times> account_row) list"
  we_orders :: "string \<Rightarrow> string \<Rightarrow> exn + snapshot_order list"

record stale_row =
  sr_id :: uuid
  sr_client :: uuid
  sr_created :: int
  sr_label :: string
  sr_number :: string
  sr_account :: uuid

definition created_at :: "watch_env \<Rightarrow> order_row \<Rightarrow> int" where
  "created_at env r = (case we_cols env (o_id r) of Some c \<Rightarrow> oc_created c | None \<Rightarrow> 0)"

definition stale_of :: "watch_env \<Rightarrow> order_row \<Rightarrow> stale_row list" where
  "stale_of env r =
     (case map_of (we_accounts env) (o_account r) of
        None \<Rightarrow> []
      | Some a \<Rightarrow>
          if o_status r = PendingSubmit \<and> created_at env r < we_now env - STALE_AFTER
          then [\<lparr>sr_id = o_id r, sr_client = o_client r, sr_created = created_at env r,
                 sr_label = ar_label a, sr_number = ar_number a, sr_account = o_account r\<rparr>]
          else [])"

definition fetch_stale_orders :: "watch_env \<Rightarrow> odb \<Rightarrow> stale_row list" where
  "fetch_stale_orders env db = sort_key sr_created (concat (map (stale_of env) (orders db)))"

section \<open>One stale order\<close>

definition recovery_event :: "snapshot_order \<Rightarrow> int \<Rightarrow> event" where
  "recovery_event m now =
     \<lparr>ev_broker = so_order_id m, ev_client = so_order_id m, ev_status = so_status m,
      ev_filled = so_filled m, ev_avg = so_avg m,
      ev_at = Some (case so_updated_at m of Some t \<Rightarrow> t | None \<Rightarrow> now),
      ev_payload = PDict no_fields, ev_exec = [], ev_kind = []\<rparr>"

definition escalate_to_rejected :: "uuid \<Rightarrow> uuid \<Rightarrow> int \<Rightarrow> (unit, consumer) act" where
  "escalate_to_rejected oid acct now = (\<lambda>s.
     let db = sdb s in
     (Inr (), s\<lparr>sdb := db\<lparr>
        orders := map (\<lambda>r. if o_id r = oid \<and> o_status r = PendingSubmit
                           then r\<lparr>o_status := Rejected, o_last_event_at := Some now\<rparr> else r) (orders db),
        events := events db @ [\<lparr>er_id = length (events db), er_order = Some oid, er_account = acct, er_broker = None,
                                er_status = Rejected, er_filled = None, er_avg = None, er_at = now\<rparr>]\<rparr>\<rparr>))"

definition reconcile_row :: "watch_env \<Rightarrow> stale_row \<Rightarrow> (unit, consumer) act" where
  "reconcile_row env row =
     (case we_orders env (sr_label row) (sr_number row) of
        Inl e \<Rightarrow> if e = CancelledError then fail e else aret ()
      | Inr broker_orders \<Rightarrow>
          (case List.find (\<lambda>b. so_order_id b = sr_client row) broker_orders of
             Some m \<Rightarrow> process_event (sr_account row) (recovery_event m (we_now env))
           | None \<Rightarrow>
               if sr_created row < we_now env - ORPHAN_AFTER
               then escalate_to_rejected (sr_id row) (sr_account row) (we_now env)
               else aret ()))"

fun reconcile_rows :: "watch_env \<Rightarrow> stale_row list \<Rightarrow> (unit, consumer) act" where
  "reconcile_rows env [] = aret ()"
| "reconcile_rows env (row # rows) = aseq (reconcile_row env row) (reconcile_rows env rows)"

definition scan_once :: "watch_env \<Rightarrow> (unit, consumer) act" where
  "scan_once env = (\<lambda>s. reconcile_rows env (fetch_stale_orders env (sdb s)) s)"

text \<open>\<open>_loop\<close>: nothing catches what leaves a scan, so the task ends with it.\<close>

fun watch_loop :: "watch_env list \<Rightarrow> (unit, consumer) act" where
  "watch_loop [] = aret ()"
| "watch_loop (env # envs) = aseq (scan_once env) (watch_loop envs)"

text \<open>\<open>str(trade.order.permId or trade.order.orderId or "")\<close> of the IBKR sidecar.\<close>

definition ibkr_order_id :: "nat \<Rightarrow> nat \<Rightarrow> string" where
  "ibkr_order_id perm_id order_id =
     (if perm_id \<noteq> 0 then nat_text perm_id else if order_id \<noteq> 0 then nat_text order_id else [])"

section \<open>The sweeper of pending fills\<close>

definition owner_of :: "odb \<Rightarrow> pending_row \<Rightarrow> order_row option" where
  "owner_of db p = List.find (\<lambda>r. o_broker r = Some (pf_broker p) \<and> o_account r = pf_account p) (orders db)"

definition swept_fill :: "uuid \<Rightarrow> pending_row \<Rightarrow> fill_row" where
  "swept_fill oid p =
     \<lparr>f_order = oid, f_exec = pf_exec p, f_qty = pf_qty p, f_price = pf_price p,
      f_currency = pf_currency p, f_executed_at = pf_executed_at p,
      f_commission = pf_commission p, f_commission_currency = pf_commission_currency p,
      f_enriched = (None, None, None)\<rparr>"

definition sweep_tick :: "odb \<Rightarrow> odb" where
  "sweep_tick db =
     (let resolvable = filter (\<lambda>p. owner_of db p \<noteq> None) (pending db);
          new = filter (\<lambda>p. pf_exec p \<notin> f_exec ` set (fills db)) resolvable
      in db\<lparr>pending := filter (\<lambda>p. pf_exec p \<notin> pf_exec ` set resolvable) (pending db),
            fills := fills db @ map (\<lambda>p. swept_fill (o_id (the (owner_of db p))) p) new\<rparr>)"

section \<open>What an unmatched order comes to\<close>

text \<open>No broker reports the client id of a stored order as an order id.\<close>

definition ids_differ :: "watch_env \<Rightarrow> odb \<Rightarrow> bool" where
  "ids_differ env db \<longleftrightarrow>
     (\<forall>l n bs. we_orders env l n = Inr bs \<longrightarrow> (\<forall>b \<in> set bs. \<forall>r \<in> set (orders db). so_order_id b \<noteq> o_client r))"

text \<open>Pending for more than five minutes, on an account whose broker answers.\<close>

definition doomed :: "watch_env \<Rightarrow> order_row \<Rightarrow> bool" where
  "doomed env r \<longleftrightarrow> o_status r = PendingSubmit \<and> created_at env r < we_now env - ORPHAN_AFTER
     \<and> (\<exists>a bs. map_of (we_accounts env) (o_account r) = Some a \<and> we_orders env (ar_label a) (ar_number a) = Inr bs)"

definition give_up :: "int \<Rightarrow> order_row \<Rightarrow> order_row" where
  "give_up now r = r\<lparr>o_status := Rejected, o_last_event_at := Some now\<rparr>"

definition reachable :: "watch_env \<Rightarrow> bool" where
  "reachable env \<longleftrightarrow> (\<forall>l n. we_orders env l n \<noteq> Inl CancelledError)"

lemma stale_created: "ORPHAN_AFTER = STALE_AFTER + 240000000"
  by (simp add: ORPHAN_AFTER_def STALE_AFTER_def)

text \<open>The ids that a list of stale rows has rejected.\<close>

definition rejects :: "watch_env \<Rightarrow> stale_row \<Rightarrow> bool" where
  "rejects env row \<longleftrightarrow> sr_created row < we_now env - ORPHAN_AFTER \<and> (\<exists>bs. we_orders env (sr_label row) (sr_number row) = Inr bs)"

lemma reconcile_rows_unmatched:
  assumes "reachable env" and "\<forall>row \<in> set rows. \<forall>l n bs. we_orders env l n = Inr bs \<longrightarrow> (\<forall>b \<in> set bs. so_order_id b \<noteq> sr_client row)"
  shows "\<exists>s'. reconcile_rows env rows s = (Inr (), s')
       \<and> orders (sdb s') = map (\<lambda>r. if o_status r = PendingSubmit \<and> o_id r \<in> sr_id ` set (filter (rejects env) rows)
                                    then give_up (we_now env) r else r) (orders (sdb s))"
  using assms(2)
proof (induction rows arbitrary: s)
  case Nil
  then show ?case by (simp add: aret_def)
next
  case (Cons row rows)
  have "List.find (\<lambda>b. so_order_id b = sr_client row) bs = None"
    if "we_orders env (sr_label row) (sr_number row) = Inr bs" for bs
    using that Cons.prems by (auto simp: find_None_iff)
  then have one: "\<exists>t. reconcile_row env row s = (Inr (), t)
      \<and> orders (sdb t) = map (\<lambda>r. if o_status r = PendingSubmit \<and> o_id r = sr_id row \<and> rejects env row
                                   then give_up (we_now env) r else r) (orders (sdb s))"
    using assms(1)
    by (auto simp: reconcile_row_def escalate_to_rejected_def give_up_def rejects_def reachable_def aret_def Let_def
        split: sum.splits)
  then obtain t where t: "reconcile_row env row s = (Inr (), t)"
      "orders (sdb t) = map (\<lambda>r. if o_status r = PendingSubmit \<and> o_id r = sr_id row \<and> rejects env row
                                   then give_up (we_now env) r else r) (orders (sdb s))" by blast
  from Cons obtain s' where s': "reconcile_rows env rows t = (Inr (), s')"
      "orders (sdb s') = map (\<lambda>r. if o_status r = PendingSubmit \<and> o_id r \<in> sr_id ` set (filter (rejects env) rows)
                                    then give_up (we_now env) r else r) (orders (sdb t))" by fastforce
  have "reconcile_rows env (row # rows) s = (Inr (), s')" using t(1) s'(1) by (simp add: run_simps)
  moreover have "orders (sdb s') = map (\<lambda>r. if o_status r = PendingSubmit \<and> o_id r \<in> sr_id ` set (filter (rejects env) (row # rows))
                                    then give_up (we_now env) r else r) (orders (sdb s))"
    by (auto simp: s'(2) t(2) give_up_def)
  ultimately show ?case by blast
qed

lemma scan_unmatched:
  assumes "distinct (map o_id (orders (sdb s)))" and "reachable env" and "ids_differ env (sdb s)"
  shows "\<exists>s'. scan_once env s = (Inr (), s')
       \<and> orders (sdb s') = map (\<lambda>r. if doomed env r then give_up (we_now env) r else r) (orders (sdb s))"
proof -
  let ?rows = "fetch_stale_orders env (sdb s)"
  have mem: "row \<in> set ?rows \<longleftrightarrow> (\<exists>r \<in> set (orders (sdb s)). row \<in> set (stale_of env r))" for row
    by (simp add: fetch_stale_orders_def)
  have "\<forall>row \<in> set ?rows. \<forall>l n bs. we_orders env l n = Inr bs \<longrightarrow> (\<forall>b \<in> set bs. so_order_id b \<noteq> sr_client row)"
    using assms(3) by (fastforce simp: mem stale_of_def ids_differ_def split: option.splits if_splits)
  from reconcile_rows_unmatched [OF assms(2) this, of s] obtain s' where s': "scan_once env s = (Inr (), s')"
    "orders (sdb s') = map (\<lambda>r. if o_status r = PendingSubmit \<and> o_id r \<in> sr_id ` set (filter (rejects env) ?rows)
                                    then give_up (we_now env) r else r) (orders (sdb s))"
    unfolding scan_once_def by blast
  have "o_status r = PendingSubmit \<and> o_id r \<in> sr_id ` set (filter (rejects env) ?rows) \<longleftrightarrow> doomed env r"
    if r: "r \<in> set (orders (sdb s))" for r
  proof
    assume l: "o_status r = PendingSubmit \<and> o_id r \<in> sr_id ` set (filter (rejects env) ?rows)"
    then obtain row r2 where row: "rejects env row" "r2 \<in> set (orders (sdb s))" "row \<in> set (stale_of env r2)" "sr_id row = o_id r"
      by (auto simp: mem)
    then have "o_id r2 = o_id r" by (auto simp: stale_of_def split: option.splits if_splits)
    with r row(2) assms(1) have "r2 = r" by (auto simp: distinct_map inj_on_def)
    with l row show "doomed env r"
      by (cases "map_of (we_accounts env) (o_account r)") (auto simp: doomed_def rejects_def stale_of_def split: if_splits)
  next
    assume d: "doomed env r"
    then obtain a bs where a: "map_of (we_accounts env) (o_account r) = Some a" "we_orders env (ar_label a) (ar_number a) = Inr bs"
      by (auto simp: doomed_def)
    let ?row = "\<lparr>sr_id = o_id r, sr_client = o_client r, sr_created = created_at env r,
                 sr_label = ar_label a, sr_number = ar_number a, sr_account = o_account r\<rparr>"
    have "?row \<in> set (stale_of env r)" "rejects env ?row"
      using d a stale_created by (auto simp: stale_of_def doomed_def rejects_def)
    then have "?row \<in> set (filter (rejects env) ?rows)" using r mem by auto
    moreover have "o_id r = sr_id ?row" by simp
    ultimately show "o_status r = PendingSubmit \<and> o_id r \<in> sr_id ` set (filter (rejects env) ?rows)"
      using d by (simp only: doomed_def) (rule conjI, simp, rule image_eqI)
  qed
  with s' show ?thesis by (intro exI [of _ s']) (simp cong: map_cong)
qed

lemma find_map_id:
  "(\<And>r. o_id (f r) = o_id r) \<Longrightarrow> List.find (\<lambda>r. o_id r = i) (map f rs) = map_option f (List.find (\<lambda>r. o_id r = i) rs)"
  by (induction rs) auto

lemma doomed_rejected:
  assumes "distinct (map o_id (orders (sdb s)))" and "reachable env" and "ids_differ env (sdb s)"
    and "find_order i s = Some r" and "doomed env r"
  shows "\<exists>s'. scan_once env s = (Inr (), s')
       \<and> (\<forall>es. map_option o_status (find_order i (fold consume es s')) = Some Rejected)"
proof -
  from scan_unmatched [OF assms(1-3)] obtain s' where s': "scan_once env s = (Inr (), s')"
    "orders (sdb s') = map (\<lambda>r. if doomed env r then give_up (we_now env) r else r) (orders (sdb s))" by blast
  have "find_order i s' = Some (give_up (we_now env) r)"
    using assms(4,5) unfolding find_order_def s'(2) by (subst find_map_id) (auto simp: give_up_def)
  then have "map_option o_status (find_order i (fold consume es s')) = Some Rejected" for es
    by (rule rejected_for_good) (simp add: give_up_def)
  with s'(1) show ?thesis by blast
qed

section \<open>A placement that timed out\<close>

lemma ibkr_id_no_dash: "CHR ''-'' \<notin> set (ibkr_order_id p n)"
proof -
  have "\<not> is_digit (CHR ''-'')" by (simp add: is_digit_def)
  then show ?thesis
    using nat_text_digits [of p] nat_text_digits [of n] by (auto simp: ibkr_order_id_def list_all_iff)
qed

lemma timed_out_row:
  assumes "place_order R penv fr skip q w = (Inr (row, Pending_Unknown), w')"
  obtains tk :: ticket where "orders (w_db w') = orders (w_db w) @ [new_row (fr_order fr) (rq_account q) (rq_client q) (tk_qty tk)]"
    and "map_option oc_created (w_cols w' (fr_order fr)) = Some (pe_now penv)"
    and "w_sent w' = w_sent w @ [PlaceMsg (account_number (tk_account tk)) (wire_of q (tk_qty tk))]"
proof -
  have sub: "\<exists>tk w1. admit R penv skip q w = (Inr tk, w1) \<and> submit R penv fr q tk w1 = (Inr (row, Pending_Unknown), w')"
    using assms by (simp add: place_order_def returns)
  then obtain tk w1 where a: "admit R penv skip q w = (Inr tk, w1)" and s: "submit R penv fr q tk w1 = (Inr (row, Pending_Unknown), w')"
    by blast
  let ?row = "new_row (fr_order fr) (rq_account q) (rq_client q) (tk_qty tk)"
  let ?wire = "wire_of q (tk_qty tk)"
  obtain r w2 toks w3 where i: "insert_order ?row (cols_of penv q tk) w1 = (Inr (Some r), w2)"
    and t: "take_counters R (rq_account q) (tk_notional tk) (fr_pdt fr) (fr_bp fr) w2 = (Inr toks, w3)"
    and d: "dispatch R penv q tk r toks w3 = (Inr (row, Pending_Unknown), w')"
    using s by (auto simp: submit_def returns aread_def split: option.splits)
  have w': "w' = w3\<lparr>w_sent := w_sent w3 @ [PlaceMsg (account_number (tk_account tk)) ?wire]\<rparr>"
    using d by (cases "pe_reply penv ?wire")
      (auto simp: dispatch_def Let_def returns send_def aseq_def fail_def of_res_def split: if_splits)
  have k: "keeps (\<lambda>w. (w_db w, w_cols w, w_sent w)) (take_counters R (rq_account q) (tk_notional tk) (fr_pdt fr) (fr_bp fr))"
    by (intro keeps_intro) simp
  have ka: "keeps (\<lambda>w. (w_db w, w_cols w, w_sent w)) (admit R penv skip q)" by (rule keeps_admit) simp_all
  show thesis
    using keepsD [OF k t] keepsD [OF ka a] insert_order_inserted [OF i] w'
    by (intro that [of tk]) (simp_all add: cols_of_def)
qed


section \<open>Executions under the sweeper\<close>

lemma owner_of_sweep [simp]: "owner_of (sweep_tick db) = owner_of db"
  by (simp add: owner_of_def sweep_tick_def Let_def fun_eq_iff)

text \<open>C32: a tick of the sweeper loses and repeats no execution: what was recorded stays, every execution is
  afterwards a fill or pending as before, none is recorded twice, nothing whose order is known stays pending.\<close>

theorem sweep_conserves_executions:
  assumes "db_ok db"
  shows "db_ok (sweep_tick db) \<and> set (fills db) \<subseteq> set (fills (sweep_tick db))
       \<and> f_exec ` set (fills (sweep_tick db)) \<union> pf_exec ` set (pending (sweep_tick db))
          = f_exec ` set (fills db) \<union> pf_exec ` set (pending db)
       \<and> (\<forall>p \<in> set (pending (sweep_tick db)). owner_of (sweep_tick db) p = None)"
proof -
  have u: "inj_on pf_exec (set (pending db))" "distinct (pending db)" using assms by (auto simp: db_ok_def distinct_map)
  have p: "set (pending (sweep_tick db)) = {p \<in> set (pending db). owner_of db p = None}"
    using u(1) by (auto simp: sweep_tick_def Let_def inj_on_def)
  have f: "fills (sweep_tick db) = fills db @ map (\<lambda>p. swept_fill (o_id (the (owner_of db p))) p)
      (filter (\<lambda>p. pf_exec p \<notin> f_exec ` set (fills db)) (filter (\<lambda>p. owner_of db p \<noteq> None) (pending db)))"
    by (simp add: sweep_tick_def Let_def)
  have fe: "map f_exec (map (\<lambda>p. swept_fill (g p) p) ps) = map pf_exec ps" for g ps
    by (simp add: swept_fill_def)
  have "distinct (map f_exec (fills (sweep_tick db)))"
    using assms unfolding f map_append fe by (auto simp: db_ok_def distinct_map_filter) (metis imageI)
  moreover have "distinct (map pf_exec (pending (sweep_tick db)))" "list_all (\<lambda>p. pf_commission p = None) (pending (sweep_tick db))"
    "orders (sweep_tick db) = orders db"
    using assms by (auto simp: sweep_tick_def Let_def db_ok_def distinct_map_filter list_all_iff)
  ultimately have "db_ok (sweep_tick db)" using assms by (simp add: db_ok_def)
  moreover have "f_exec ` set (fills (sweep_tick db)) \<union> pf_exec ` set (pending (sweep_tick db))
          = f_exec ` set (fills db) \<union> pf_exec ` set (pending db)"
  proof -
    have "f_exec ` set (fills (sweep_tick db)) = f_exec ` set (fills db)
        \<union> pf_exec ` {p \<in> set (pending db). owner_of db p \<noteq> None \<and> pf_exec p \<notin> f_exec ` set (fills db)}"
      by (simp add: f image_Un image_image swept_fill_def Collect_conj_eq Int_assoc)
    then show ?thesis unfolding p by blast
  qed
  ultimately show ?thesis using p by (simp add: f)
qed

section \<open>A concrete timeout\<close>

definition slow_penv :: place_env where
  "slow_penv = demo_penv\<lparr>pe_reply := (\<lambda>_. Inl SidecarTimeout)\<rparr>"

definition slow_req :: place_req where
  "slow_req = demo_req\<lparr>rq_client := ''c-1''\<rparr>"

lemma admit_blind: "admit (R :: 'r redis_srv) (env\<lparr>pe_reply := f\<rparr>) skip (q\<lparr>rq_client := c\<rparr>) = admit R env skip q"
proof -
  have "intake (env\<lparr>pe_reply := f\<rparr>) (q\<lparr>rq_client := c\<rparr>) = intake env q"
    unfolding intake_def check_kill_switch_def validate_request_def by (simp split del: if_split cong: if_cong option.case_cong prod.case_cong otype.case_cong sum.case_cong)
  moreover have "price_request (env\<lparr>pe_reply := f\<rparr>) b (q\<lparr>rq_client := c\<rparr>) = price_request env b q" for b
    unfolding fun_eq_iff price_request_def resolve_account_def validate_pre_dispatch_def check_kill_switch_def resolve_contract_def
      native_notional_def get_market_mid_def fx_rate_def by (simp split del: if_split cong: if_cong option.case_cong prod.case_cong otype.case_cong sum.case_cong)
  ultimately have "prepare (env\<lparr>pe_reply := f\<rparr>) (q\<lparr>rq_client := c\<rparr>) = prepare env q"
    by (simp add: prepare_def)
  moreover have "gate_and_caps R (env\<lparr>pe_reply := f\<rparr>) (q\<lparr>rq_client := c\<rparr>) = gate_and_caps R env q"
    by (simp add: fun_eq_iff gate_and_caps_def place_ctx_def cong: if_cong option.case_cong)
  moreover have "redeem_nonce (env\<lparr>pe_reply := f\<rparr>) (q\<lparr>rq_client := c\<rparr>) = (redeem_nonce env q :: (unit, 'r world) act)"
    by (simp add: redeem_nonce_def request_hash_def cong: option.case_cong)
  ultimately show ?thesis by (simp add: admit_def)
qed

lemma slow_placed:
  "\<exists>row w'. place_order mem_srv slow_penv demo_ids False slow_req demo_world = (Inr (row, Pending_Unknown), w')
     \<and> orders (w_db w') = [new_row ''o1'' ''a1'' ''c-1'' 10]"
proof -
  let ?row = "new_row ''o1'' ''a1'' ''c-1'' 10"
  have a: "admit mem_srv slow_penv False slow_req demo_world = (Inr demo_ticket, demo_spent)"
    using demo_admit [of demo_req] by (simp add: slow_penv_def slow_req_def admit_blind)
  have n: "tk_qty demo_ticket = 10" "tk_notional demo_ticket = 200" by (simp_all add: demo_ticket_def)
  obtain w1 where i: "insert_order ?row (cols_of slow_penv slow_req demo_ticket) demo_spent = (Inr (Some ?row), w1)"
    and o: "orders (w_db w1) = [?row]" "faults (w_conn w1) = []" "srv (w_conn w1) = (\<lambda>_. None)"
    by (simp add: insert_order_def lookup_order_def demo_spent_def demo_world_def demo_db_def
        new_row_def cols_of_def orders_check_def slow_req_def demo_req_def)
  obtain toks w2 where c: "take_counters mem_srv ''a1'' 200 ''t1'' ''u1'' w1 = (Inr toks, w2)"
    using demo_counters [OF o(2,3)] by simp
  have k: "keeps w_db (take_counters mem_srv ''a1'' 200 ''t1'' ''u1'')" by (intro keeps_intro) simp
  have "dispatch mem_srv slow_penv slow_req demo_ticket ?row toks w2
      = (Inr (?row, Pending_Unknown), w2\<lparr>w_sent := w_sent w2 @ [PlaceMsg (account_number (tk_account demo_ticket)) (wire_of slow_req 10)]\<rparr>)"
    by (simp add: dispatch_def Let_def slow_penv_def send_def run_simps n)
  then show ?thesis
    using a i c keepsD [OF k c] o(1)
    by (simp add: place_order_def submit_def demo_ids_def n abind_def slow_req_def demo_req_def)
qed


theorem sweep_conserves_executions_witness:
  "\<exists>db. pending db \<noteq> [] \<and> pending (sweep_tick db) = [] \<and> pf_exec ` set (pending db) \<subseteq> f_exec ` set (fills (sweep_tick db))"
proof -
  let ?p = "\<lparr>pf_exec = ''e1'', pf_broker = ''b1'', pf_account = ''a1'', pf_qty = 1, pf_price = 5, pf_currency = ''USD'',
     pf_executed_at = 3, pf_commission = None, pf_commission_currency = None\<rparr>"
  let ?db = "(demo_db [demo_order])\<lparr>pending := [?p]\<rparr>"
  have ok: "db_ok ?db" by (simp add: db_ok_def demo_db_def row_ok_def demo_order_def broker_ids_def)
  have e: "pending (sweep_tick ?db) = []" by (simp add: sweep_tick_def owner_of_def demo_db_def demo_order_def)
  from sweep_conserves_executions [OF ok] e show ?thesis by (intro exI [of _ ?db]) auto
qed

end
