(* ===== verification/Rate_Limiter.thy ===== *)
theory Rate_Limiter
  imports Prelude
begin

text \<open>
  The sliding-window limiter \<open>backend/app/services/common/rate_limiter.py\<close> that position sizing, the
  portfolio, the AI router and option exercises share, and one of its clients, the exercise
  elections of \<open>services/options/exercise_service.py\<close>, as \<open>api/options.py\<close> constructs it.

  Time is the monotonic clock, a rational number of seconds. A bucket is the deque of the times of
  the requests let through, oldest first; \<open>defaultdict\<close> is a map whose reads create an empty
  bucket. The keys that \<open>check\<close> refuses outright, empty strings, are the parameter \<open>empty\<close>.
\<close>

section \<open>The limiter\<close>

type_synonym 'k buckets = "'k \<Rightarrow> decimal list option"

record 'k limiter_conf =
  lc_burst :: nat
  lc_window :: decimal
  lc_empty :: "'k \<Rightarrow> bool"

definition bucket_of :: "'k \<Rightarrow> 'k buckets \<Rightarrow> decimal list" where
  "bucket_of k b = (case b k of Some ts \<Rightarrow> ts | None \<Rightarrow> [])"

definition fresh_part :: "'k limiter_conf \<Rightarrow> decimal \<Rightarrow> decimal list \<Rightarrow> decimal list" where
  "fresh_part c now ts = dropWhile (\<lambda>t. t < now - lc_window c) ts"

text \<open>\<open>True\<close>: let through; \<open>False\<close>: \<open>RateLimitExceededError\<close>.\<close>

definition limiter_check :: "'k limiter_conf \<Rightarrow> decimal \<Rightarrow> 'k \<Rightarrow> 'k buckets \<Rightarrow> bool \<times> 'k buckets" where
  "limiter_check c now k b =
     (if lc_empty c k then (False, b)
      else
        let ts = fresh_part c now (bucket_of k b) in
        if lc_burst c \<le> length ts then (False, b(k \<mapsto> ts)) else (True, b(k \<mapsto> ts @ [now])))"

definition evict_stale :: "'k limiter_conf \<Rightarrow> decimal \<Rightarrow> 'k \<Rightarrow> 'k buckets \<Rightarrow> 'k buckets" where
  "evict_stale c now k b =
     (case b k of
        None \<Rightarrow> b
      | Some ts \<Rightarrow> let ts' = fresh_part c now ts in if ts' = [] then b(k := None) else b(k \<mapsto> ts'))"

text \<open>\<open>SlidingWindowRateLimiter(burst=20, window_seconds=1)\<close> of position sizing; \<open>sustained_per_sec\<close> is not used.\<close>

definition sizing_limiter :: "(string \<times> string) limiter_conf" where
  "sizing_limiter = \<lparr>lc_burst = 20, lc_window = 1, lc_empty = (\<lambda>_. False)\<rparr>"

definition portfolio_limiter :: "string limiter_conf" where
  "portfolio_limiter = \<lparr>lc_burst = 10, lc_window = 1, lc_empty = (\<lambda>k. k = [])\<rparr>"

definition ai_limiter :: "string limiter_conf" where
  "ai_limiter = \<lparr>lc_burst = 30, lc_window = 60, lc_empty = (\<lambda>k. k = [])\<rparr>"

definition exercise_limiter :: "string limiter_conf" where
  "exercise_limiter = \<lparr>lc_burst = 5, lc_window = 60, lc_empty = (\<lambda>k. k = [])\<rparr>"

section \<open>Histories\<close>

text \<open>
  The limiter in use: calls arrive after non-negative delays; \<open>li_passed k\<close> are the times at which
  a request of \<open>k\<close> was let through, which the code does not keep.
\<close>

datatype 'k limiter_call = Check 'k | Evict 'k

record 'k limited =
  li_now :: decimal
  li_buckets :: "'k buckets"
  li_passed :: "'k \<Rightarrow> decimal list"

definition limiter_step :: "'k limiter_conf \<Rightarrow> decimal \<times> 'k limiter_call \<Rightarrow> 'k limited \<Rightarrow> 'k limited" where
  "limiter_step c = (\<lambda>(delay, call) s.
     let now = li_now s + max 0 delay in
     case call of
       Check k \<Rightarrow>
         (let (ok, b) = limiter_check c now k (li_buckets s) in
          s\<lparr>li_now := now, li_buckets := b,
            li_passed := (if ok then (li_passed s)(k := li_passed s k @ [now]) else li_passed s)\<rparr>)
     | Evict k \<Rightarrow> s\<lparr>li_now := now, li_buckets := evict_stale c now k (li_buckets s)\<rparr>)"

text \<open>
  The bucket of a key is the end of its history, what was dropped has left the window, and any
  \<open>burst + 1\<close> consecutive requests spread over more than a window.
\<close>

definition key_ok :: "'k limiter_conf \<Rightarrow> decimal \<Rightarrow> decimal list \<Rightarrow> decimal list \<Rightarrow> bool" where
  "key_ok c now ts passed \<longleftrightarrow>
     (\<exists>gone. passed = gone @ ts \<and> (\<forall>t \<in> set gone. t < now - lc_window c))
   \<and> sorted passed \<and> (\<forall>t \<in> set passed. t \<le> now)
   \<and> (\<forall>i. i + lc_burst c < length passed \<longrightarrow> passed ! i + lc_window c < passed ! (i + lc_burst c))"

definition limiter_ok :: "'k limiter_conf \<Rightarrow> 'k limited \<Rightarrow> bool" where
  "limiter_ok c s \<longleftrightarrow> (\<forall>k. key_ok c (li_now s) (bucket_of k (li_buckets s)) (li_passed s k))"

lemma key_ok_fresh:
  assumes "key_ok c now0 ts passed" and "now0 \<le> now"
  shows "key_ok c now (fresh_part c now ts) passed"
proof -
  from assms obtain gone where g: "passed = gone @ ts" "\<forall>t \<in> set gone. t < now0 - lc_window c"
    by (auto simp: key_ok_def)
  let ?d = "takeWhile (\<lambda>t. t < now - lc_window c) ts"
  have "\<forall>t \<in> set ?d. t < now - lc_window c" using set_takeWhileD by fastforce
  then have "\<forall>t \<in> set (gone @ ?d). t < now - lc_window c" using g(2) assms(2) by auto
  moreover have "passed = (gone @ ?d) @ fresh_part c now ts" by (simp add: g(1) fresh_part_def)
  ultimately have "\<exists>gone. passed = gone @ fresh_part c now ts \<and> (\<forall>t \<in> set gone. t < now - lc_window c)" by blast
  then show ?thesis using assms by (auto simp: key_ok_def)
qed

lemma key_ok_later:
  assumes "key_ok c now0 ts passed" and "now0 \<le> now"
  shows "key_ok c now ts passed"
proof -
  from assms obtain gone where g: "passed = gone @ ts" "\<forall>t \<in> set gone. t < now0 - lc_window c"
    by (auto simp: key_ok_def)
  have "\<forall>t \<in> set gone. t < now - lc_window c" using g(2) assms(2) by auto
  moreover have "\<forall>t \<in> set passed. t \<le> now" using assms by (auto simp: key_ok_def)
  ultimately show ?thesis using assms(1) g(1) by (auto simp: key_ok_def)
qed

lemma key_ok_pass:
  assumes "key_ok c now ts passed" and "length ts < lc_burst c"
  shows "key_ok c now (ts @ [now]) (passed @ [now])"
proof -
  from assms(1) obtain gone where g: "passed = gone @ ts" "\<forall>t \<in> set gone. t < now - lc_window c"
    and s: "sorted passed" and n: "\<forall>t \<in> set passed. t \<le> now"
    and gap: "\<forall>i. i + lc_burst c < length passed \<longrightarrow> passed ! i + lc_window c < passed ! (i + lc_burst c)"
    by (auto simp: key_ok_def)
  have "(passed @ [now]) ! i + lc_window c < (passed @ [now]) ! (i + lc_burst c)"
    if i: "i + lc_burst c < length (passed @ [now])" for i
  proof (cases "i + lc_burst c < length passed")
    case True
    then show ?thesis using gap by (simp add: nth_append)
  next
    case False
    with i have l: "i + lc_burst c = length passed" by simp
    then have "i < length gone" using assms(2) by (simp add: g(1))
    then have "(passed @ [now]) ! i \<in> set gone" by (simp add: g(1) nth_append)
    with g(2) l show ?thesis by (auto simp: nth_append)
  qed
  then show ?thesis using g s n by (auto simp: key_ok_def sorted_append)
qed

lemma limiter_step_ok:
  assumes "limiter_ok c s"
  shows "limiter_ok c (limiter_step c e s)"
proof -
  obtain delay call where e: "e = (delay, call)" by (cases e)
  let ?now = "li_now s + max 0 delay"
  have le: "li_now s \<le> ?now" by simp
  have old: "key_ok c ?now (bucket_of k (li_buckets s)) (li_passed s k)" for k
    using assms key_ok_later [of c "li_now s", OF _ le] by (simp add: limiter_ok_def)
  have fresh: "key_ok c ?now (fresh_part c ?now (bucket_of k (li_buckets s))) (li_passed s k)" for k
    using assms key_ok_fresh [of c "li_now s", OF _ le] by (simp add: limiter_ok_def)
  show ?thesis
  proof (cases call)
    case (Check k)
    show ?thesis
      using old fresh [of k] key_ok_pass [OF fresh [of k]]
      by (simp add: e Check limiter_step_def limiter_check_def Let_def limiter_ok_def bucket_of_def)
  next
    case (Evict k)
    show ?thesis
      using old fresh [of k]
      by (cases "li_buckets s k")
        (auto simp: e Evict limiter_step_def evict_stale_def Let_def limiter_ok_def bucket_of_def)
  qed
qed

interpretation limiter: invariant_machine "limiter_step c" "limiter_ok c" for c :: "'k limiter_conf"
  by unfold_locales (rule limiter_step_ok)

definition limiter_start :: "decimal \<Rightarrow> 'k limited" where
  "limiter_start now = \<lparr>li_now = now, li_buckets = (\<lambda>_. None), li_passed = (\<lambda>_. [])\<rparr>"

lemma limiter_start_ok: "limiter_ok c (limiter_start now)"
  by (simp add: limiter_ok_def limiter_start_def key_ok_def bucket_of_def)

lemma window_count:
  fixes w u :: decimal
  assumes "sorted passed"
    and "\<forall>i. i + n < length passed \<longrightarrow> passed ! i + w < passed ! (i + n)"
  shows "length (filter (\<lambda>t. u \<le> t \<and> t \<le> u + w) passed) \<le> n"
proof (rule ccontr)
  let ?in = "\<lambda>t. u \<le> t \<and> t \<le> u + w"
  assume "\<not> ?thesis"
  then have big: "n < length (filter ?in passed)" by simp
  have "card {i. i < length passed \<and> ?in (passed ! i)} = length (filter ?in passed)"
    by (simp add: length_filter_conv_card)
  moreover define I where "I = {i. i < length passed \<and> ?in (passed ! i)}"
  ultimately have c: "n < card I" using big by simp
  have "finite I" by (simp add: I_def)
  moreover have "I \<noteq> {}" using c by (intro notI) simp
  ultimately have fin: "finite I" "I \<noteq> {}" by blast+
  define a where "a = Min I"
  define b where "b = Max I"
  have ab: "a \<in> I" "b \<in> I" "I \<subseteq> {a..b}" using fin by (auto simp: a_def b_def)
  have "card I \<le> card {a..b}" using ab(3) by (intro card_mono) simp_all
  then have "a + n \<le> b" using c by simp
  moreover have "b < length passed" "a < length passed" using ab by (auto simp: I_def)
  ultimately have "passed ! (a + n) \<le> passed ! b" using assms(1) by (intro sorted_nth_mono) simp_all
  moreover have "passed ! a + w < passed ! (a + n)" using assms(2) \<open>a + n \<le> b\<close> \<open>b < length passed\<close> by simp
  moreover have "u \<le> passed ! a" "passed ! b \<le> u + w" using ab by (auto simp: I_def)
  ultimately show False by linarith
qed

text \<open>C33: whatever calls are made and whenever, within any closed window of the configured length at most
  \<open>burst\<close> requests of a key are let through.\<close>

theorem window_never_exceeded:
  "length (filter (\<lambda>t. u \<le> t \<and> t \<le> u + lc_window c) (li_passed (fold (limiter_step c) calls (limiter_start now)) k)) \<le> lc_burst c"
proof -
  have "limiter_ok c (fold (limiter_step c) calls (limiter_start now))"
    using limiter.run_inv [OF limiter_start_ok] .
  then have "key_ok c (li_now (fold (limiter_step c) calls (limiter_start now)))
      (bucket_of k (li_buckets (fold (limiter_step c) calls (limiter_start now))))
      (li_passed (fold (limiter_step c) calls (limiter_start now)) k)"
    by (simp add: limiter_ok_def)
  then show ?thesis by (intro window_count) (auto simp: key_ok_def)
qed

section \<open>Exercise elections\<close>

datatype exercise_error = ExerciseRateLimitError | DuplicateElectionError | OtherError exn

record election =
  el_id :: uuid
  el_key :: uuid
  el_subject :: string
  el_account :: uuid
  el_instrument :: int
  el_action :: string
  el_qty :: decimal
  el_status :: string
  el_day :: int
  el_ref :: "string option"

record elect_req =
  eq_account :: uuid
  eq_subject :: string
  eq_instrument :: int
  eq_action :: string
  eq_qty :: decimal
  eq_key :: uuid

definition find_by_idempotency_key :: "uuid \<Rightarrow> string \<Rightarrow> election list \<Rightarrow> election option" where
  "find_by_idempotency_key k subject es = List.find (\<lambda>e. el_key e = k \<and> el_subject e = subject) es"

text \<open>The two unique constraints; \<open>other\<close> tells of the foreign keys and of the connection.\<close>

definition insert_election ::
  "(elect_req \<Rightarrow> exn option) \<Rightarrow> uuid \<Rightarrow> int \<Rightarrow> elect_req \<Rightarrow> election list \<Rightarrow> exercise_error + election \<times> election list" where
  "insert_election other i day q es =
     (let e = \<lparr>el_id = i, el_key = eq_key q, el_subject = eq_subject q, el_account = eq_account q,
               el_instrument = eq_instrument q, el_action = eq_action q, el_qty = eq_qty q,
               el_status = ''submitted'', el_day = day, el_ref = None\<rparr> in
      if list_ex (\<lambda>x. el_key x = eq_key q) es
         \<or> list_ex (\<lambda>x. el_account x = eq_account q \<and> el_instrument x = eq_instrument q \<and> el_day x = day
                        \<and> el_status x \<noteq> ''failed'') es
      then Inl DuplicateElectionError
      else case other q of Some x \<Rightarrow> Inl (OtherError x) | None \<Rightarrow> Inr (e, es @ [e]))"

text \<open>\<open>_submit_to_broker\<close> only logs: the outcome does not depend on it.\<close>

definition elect ::
  "(elect_req \<Rightarrow> exn option) \<Rightarrow> uuid \<Rightarrow> int \<Rightarrow> decimal \<Rightarrow> elect_req \<Rightarrow> string buckets \<times> election list
   \<Rightarrow> (exercise_error + election) \<times> string buckets \<times> election list" where
  "elect other i day now q = (\<lambda>(b, es).
     case find_by_idempotency_key (eq_key q) (eq_subject q) es of
       Some e \<Rightarrow> (Inr e, b, es)
     | None \<Rightarrow>
         (case limiter_check exercise_limiter now (eq_subject q) b of
            (False, b') \<Rightarrow> (Inl ExerciseRateLimitError, b', es)
          | (True, b') \<Rightarrow>
              (case insert_election other i day q es of
                 Inl x \<Rightarrow> (Inl x, b', es)
               | Inr (e, es') \<Rightarrow> (Inr e, b', es'))))"

text \<open>\<open>get_exercise_service\<close>: a service, and with it a limiter, for every request.\<close>

definition post_election ::
  "(elect_req \<Rightarrow> exn option) \<Rightarrow> uuid \<Rightarrow> int \<Rightarrow> decimal \<Rightarrow> elect_req \<Rightarrow> election list
   \<Rightarrow> (exn + election) \<times> election list" where
  "post_election other i day now q es =
     (case elect other i day now q (\<lambda>_. None, es) of
        (Inl ExerciseRateLimitError, _, es') \<Rightarrow> (Inl (HttpError 429 ''Exercise rate limit exceeded''), es')
      | (Inl DuplicateElectionError, _, es') \<Rightarrow> (Inl (HttpError 409 ''duplicate_election''), es')
      | (Inl (OtherError x), _, es') \<Rightarrow> (Inl x, es')
      | (Inr e, _, es') \<Rightarrow> (Inr e, es'))"

text \<open>The five elections a minute of the exercise service limit nobody: whatever the history, a request of
  an identified user for a new contract and key is recorded, as submitted, however many went before it.\<close>

theorem exercise_limit_inert:
  assumes "eq_subject q \<noteq> []" and "other q = None"
    and "\<forall>x \<in> set es. el_key x \<noteq> eq_key q \<and> \<not> (el_account x = eq_account q \<and> el_instrument x = eq_instrument q \<and> el_day x = day)"
  shows "\<exists>e. post_election other i day now q es = (Inr e, es @ [e]) \<and> el_status e = ''submitted''"
proof -
  have "find_by_idempotency_key (eq_key q) (eq_subject q) es = None"
    using assms(3) by (auto simp: find_by_idempotency_key_def find_None_iff)
  then show ?thesis
    using assms
    by (auto simp: post_election_def elect_def limiter_check_def exercise_limiter_def bucket_of_def fresh_part_def Let_def
        insert_election_def list_ex_iff)
qed

text \<open>An election is stored once per key and user: a repeated request answers with the stored election and
  stores nothing.\<close>

theorem election_idempotent:
  assumes "post_election other i day now q es = (Inr e, es')" and "eq_key q2 = eq_key q" and "eq_subject q2 = eq_subject q"
  shows "post_election other2 i2 day2 now2 q2 es' = (Inr e, es')"
proof -
  have "find_by_idempotency_key (eq_key q) (eq_subject q) es' = Some e"
  proof (cases "find_by_idempotency_key (eq_key q) (eq_subject q) es")
    case (Some x)
    with assms(1) show ?thesis by (simp add: post_election_def elect_def)
  next
    case None
    have skip: "List.find P xs = None \<Longrightarrow> List.find P (xs @ [y]) = (if P y then Some y else None)" for P :: "election \<Rightarrow> bool" and xs y
      by (induction xs) (auto split: if_splits)
    from None assms(1) obtain b' where "insert_election other i day q es = Inr (e, es')"
      by (auto simp: post_election_def elect_def split: prod.splits bool.splits sum.splits exercise_error.splits)
    then have "es' = es @ [e]" "el_key e = eq_key q" "el_subject e = eq_subject q"
      by (auto simp: insert_election_def Let_def split: if_splits option.splits)
    with None show ?thesis by (simp add: find_by_idempotency_key_def skip)
  qed
  with assms(2,3) show ?thesis by (simp add: post_election_def elect_def)
qed

definition demo_election :: elect_req where
  "demo_election = \<lparr>eq_account = ''a1'', eq_subject = ''u'', eq_instrument = 7, eq_action = ''EXERCISE'', eq_qty = 1,
     eq_key = ''k1''\<rparr>"

theorem exercise_limit_inert_witness:
  "\<exists>e. post_election (\<lambda>_. None) ''e1'' 0 0 demo_election [] = (Inr e, [e])"
  using exercise_limit_inert [of demo_election "\<lambda>_. None" "[]" 0 "''e1''" 0] by (auto simp: demo_election_def)

theorem election_idempotent_witness:
  "\<exists>e es. post_election (\<lambda>_. None) ''e1'' 0 0 demo_election [] = (Inr e, es)
     \<and> post_election (\<lambda>_. None) ''e2'' 5 1000 (demo_election\<lparr>eq_qty := 3\<rparr>) es = (Inr e, es)"
proof -
  obtain e es where p: "post_election (\<lambda>_. None) ''e1'' 0 0 demo_election [] = (Inr e, es)"
    by (simp add: post_election_def elect_def find_by_idempotency_key_def limiter_check_def exercise_limiter_def bucket_of_def
        fresh_part_def Let_def insert_election_def demo_election_def)
  have "eq_key (demo_election\<lparr>eq_qty := 3\<rparr>) = eq_key demo_election"
    and "eq_subject (demo_election\<lparr>eq_qty := 3\<rparr>) = eq_subject demo_election" by simp_all
  from election_idempotent [OF p this] p show ?thesis by blast
qed

end
