(* ===== verification/Position_Sizing.thy ===== *)
theory Position_Sizing
  imports Orders_Data Risk_Guarantees Rate_Limiter
begin

text \<open>
  Position sizing: the arithmetic of \<open>backend/app/services/position_sizing_math.py\<close>, the request of
  \<open>position_sizing_service.py\<close> with the schemas of \<open>schemas/sizing.py\<close>, the volatility estimate of
  \<open>volatility_service.py\<close>, the rate lookup of \<open>fx.py\<close>, and the endpoints of \<open>api/sizing.py\<close>.

  The account and instrument tables, the cached rates, the sidecar registry, the alias table and the
  risk gate's environment are the record \<open>sizing_env\<close>. \<open>math.log\<close> and \<open>math.sqrt\<close>, which go
  through floats, are parameters of the estimate. A number in a configuration row is \<open>str\<close> of
  a \<open>Decimal\<close>, modelled by its value.
\<close>

section \<open>Arithmetic\<close>

definition floor_dec :: "decimal \<Rightarrow> decimal" where
  "floor_dec x = of_int \<lfloor>x\<rfloor>"

definition compute_fixed_fractional :: "decimal \<Rightarrow> decimal \<Rightarrow> decimal \<Rightarrow> exn + decimal \<times> decimal" where
  "compute_fixed_fractional nlv p risk =
     (if p \<le> 0 then Inl (ValueError ''price_base must be > 0'')
      else
        let target = quantize8 (nlv * risk / 100); q = floor_dec (target / p)
        in Inr (q, quantize8 (q * p)))"

definition compute_risk_per_trade ::
  "decimal \<Rightarrow> decimal \<Rightarrow> decimal \<Rightarrow> side \<Rightarrow> decimal \<Rightarrow> exn + decimal \<times> decimal \<times> decimal" where
  "compute_risk_per_trade nlv entry stop sd risk =
     (if entry = stop then Inl (ValueError ''zero_distance: entry == stop'')
      else if sd = Buy \<and> entry \<le> stop then Inl (ValueError ''for BUY, stop must be below entry'')
      else if sd = Sell \<and> stop \<le> entry then Inl (ValueError ''for SELL, stop must be above entry'')
      else
        let per_share = \<bar>entry - stop\<bar>; budget = quantize8 (nlv * risk / 100); q = floor_dec (budget / per_share)
        in Inr (q, quantize8 (q * entry), per_share))"

definition compute_vol_targeted :: "decimal \<Rightarrow> decimal \<Rightarrow> decimal \<Rightarrow> decimal \<Rightarrow> exn + decimal \<times> decimal" where
  "compute_vol_targeted nlv p target vol =
     (if vol \<le> 0 then Inl (ValueError ''zero_volatility: asset_vol_annualized must be > 0'')
      else if p \<le> 0 then Inl (ValueError ''price_base must be > 0'')
      else
        let budget = quantize8 (target / 100 * nlv); q = floor_dec (budget / (vol * p))
        in Inr (q, quantize8 (q * p)))"

section \<open>Volatility\<close>

record vol_estimate =
  ve_vol :: decimal
  ve_atr :: decimal
  ve_bars :: nat
  ve_asof :: int

record day_bar =
  db_date :: int
  db_high :: decimal
  db_low :: decimal
  db_close :: decimal

definition MIN_BARS :: nat where "MIN_BARS = 15"

text \<open>The rows of the instrument up to the day, the latest fifteen, oldest first.\<close>

definition load_bars :: "(int \<Rightarrow> day_bar list) \<Rightarrow> int \<Rightarrow> int \<Rightarrow> day_bar list" where
  "load_bars table iid asof =
     rev (take MIN_BARS (sort_key (\<lambda>b. - db_date b) (filter (\<lambda>b. db_date b \<le> asof) (table iid))))"

definition true_range :: "day_bar \<Rightarrow> day_bar \<Rightarrow> decimal" where
  "true_range prev cur =
     max (max (db_high cur - db_low cur) \<bar>db_high cur - db_close prev\<bar>) \<bar>db_low cur - db_close prev\<bar>"

definition mean_of :: "decimal list \<Rightarrow> decimal" where
  "mean_of xs = sum_list xs / of_nat (length xs)"

definition compute_estimate ::
  "(decimal \<Rightarrow> decimal) \<Rightarrow> (decimal \<Rightarrow> decimal) \<Rightarrow> day_bar list \<Rightarrow> int \<Rightarrow> exn + vol_estimate" where
  "compute_estimate ln_f sqrt_f rows asof =
     (let pairs = zip rows (tl rows) in
      if list_ex (\<lambda>(p, c). db_close p \<le> 0 \<or> db_close c \<le> 0) pairs then Inl (ValueError ''non_positive_close'')
      else
        let returns = map (\<lambda>(p, c). ln_f (db_close c / db_close p)) pairs;
            variance = mean_of (map (\<lambda>r. (r - mean_of returns) ^ 2) returns)
        in Inr \<lparr>ve_vol = quantize8 (sqrt_f variance * sqrt_f 252),
                ve_atr = quantize8 (mean_of (map (\<lambda>(p, c). true_range p c) pairs)),
                ve_bars = 14, ve_asof = asof\<rparr>)"

type_synonym vol_cache = "int \<times> int \<Rightarrow> vol_estimate option"

text \<open>The key names the instrument and the day; an entry may have expired, so the cache is arbitrary.\<close>

definition vol_compute ::
  "(decimal \<Rightarrow> decimal) \<Rightarrow> (decimal \<Rightarrow> decimal) \<Rightarrow> (int \<Rightarrow> day_bar list) \<Rightarrow> int \<Rightarrow> int \<Rightarrow> (vol_estimate option, vol_cache) act" where
  "vol_compute ln_f sqrt_f table iid asof = (\<lambda>cache.
     case cache (iid, asof) of
       Some e \<Rightarrow> (Inr (Some e), cache)
     | None \<Rightarrow>
         let rows = load_bars table iid asof in
         if length rows < MIN_BARS then (Inr None, cache)
         else (case compute_estimate ln_f sqrt_f rows asof of
                 Inl x \<Rightarrow> (Inl x, cache)
               | Inr e \<Rightarrow> (Inr (Some e), cache((iid, asof) \<mapsto> e))))"

section \<open>A sizing request\<close>

datatype sizing_method = Fixed_Fractional | Risk_Per_Trade | Vol_Targeted

datatype sizing_inputs =
    FixedFractionalInputs decimal decimal
  | RiskPerTradeInputs decimal decimal decimal
  | VolTargetedInputs decimal decimal "decimal option"

text \<open>\<open>max_digits\<close> and \<open>decimal_places\<close> of a field.\<close>

definition fits :: "nat \<Rightarrow> nat \<Rightarrow> decimal \<Rightarrow> bool" where
  "fits width places x \<longleftrightarrow> of_int \<lfloor>x * 10 ^ places\<rfloor> = x * 10 ^ places \<and> \<bar>x\<bar> < 10 ^ (width - places)"

fun valid_inputs :: "sizing_inputs \<Rightarrow> bool" where
  "valid_inputs (FixedFractionalInputs risk p) \<longleftrightarrow> 0 < risk \<and> risk < 100 \<and> fits 10 4 risk \<and> 0 < p \<and> fits 20 8 p"
| "valid_inputs (RiskPerTradeInputs risk e s) \<longleftrightarrow>
     0 < risk \<and> risk < 100 \<and> fits 10 4 risk \<and> 0 < e \<and> fits 20 8 e \<and> 0 < s \<and> fits 20 8 s"
| "valid_inputs (VolTargetedInputs t p v) \<longleftrightarrow>
     0 < t \<and> t < 200 \<and> fits 10 4 t \<and> 0 < p \<and> fits 20 8 p
   \<and> (case v of None \<Rightarrow> True | Some x \<Rightarrow> 0 < x \<and> x < 500 \<and> fits 10 4 x)"

record sizing_account =
  sa_label :: string
  sa_base :: string
  sa_nlv :: "decimal option"
  sa_nlv_currency :: string

record sizing_instrument =
  si_currency :: string
  si_canonical :: string
  si_class :: string

record sizing_env =
  se_accounts :: "(uuid \<times> sizing_account) list"
  se_instruments :: "(int \<times> sizing_instrument) list"
  se_fx :: "string \<Rightarrow> string \<Rightarrow> exn + dec_text option"
  se_client :: "string \<Rightarrow> exn + unit"
  se_vol :: "int \<Rightarrow> exn + vol_estimate option"
  se_alias :: "string \<Rightarrow> string \<Rightarrow> exn + int option"
  se_risk :: risk_env

record breakdown =
  bd_nlv :: decimal
  bd_fx :: decimal
  bd_price :: decimal
  bd_currency :: string
  bd_atr :: "decimal option"
  bd_realized :: "decimal option"
  bd_per_share :: "decimal option"
  bd_source :: string

record sizing_result =
  sz_qty :: decimal
  sz_notional :: decimal
  sz_method :: sizing_method
  sz_breakdown :: breakdown
  sz_verdict :: verdict

text \<open>\<open>services/fx.py\<close>: a rate that is not cached is one.\<close>

definition get_fx_rate :: "sizing_env \<Rightarrow> string \<Rightarrow> string \<Rightarrow> exn + decimal" where
  "get_fx_rate env c base =
     (if c = base then Inr 1
      else rbind (se_fx env c base) (\<lambda>t. case t of None \<Rightarrow> Inr 1 | Some x \<Rightarrow> to_decimal x))"

definition load_account :: "sizing_env \<Rightarrow> uuid \<Rightarrow> exn + sizing_account \<times> decimal" where
  "load_account env a =
     (case map_of (se_accounts env) a of
        None \<Rightarrow> Inl (ValueError (''account not found: '' @ a))
      | Some r \<Rightarrow>
          (case sa_nlv r of
             None \<Rightarrow> Inl (ValueError (''account '' @ a @ '' has no last_nlv''))
           | Some n \<Rightarrow> Inr (r, n)))"

definition load_instrument :: "sizing_env \<Rightarrow> int \<Rightarrow> exn + sizing_instrument" where
  "load_instrument env i =
     (case map_of (se_instruments env) i of
        None \<Rightarrow> Inl (ValueError ''instrument not found'') | Some r \<Rightarrow> Inr r)"

definition symbol_from_canonical :: "string \<Rightarrow> string option" where
  "symbol_from_canonical cid =
     (case split_on (CHR '':'') cid of
        (_ # p # _) \<Rightarrow> if p = [] then None else Some p | _ \<Rightarrow> None)"

definition plain_breakdown :: "decimal \<Rightarrow> decimal \<Rightarrow> decimal \<Rightarrow> string \<Rightarrow> breakdown" where
  "plain_breakdown nlv fx p ccy =
     \<lparr>bd_nlv = nlv, bd_fx = fx, bd_price = p, bd_currency = ccy, bd_atr = None, bd_realized = None,
      bd_per_share = None, bd_source = ''n/a''\<rparr>"

fun sizing_dispatch ::
  "sizing_env \<Rightarrow> sizing_method \<Rightarrow> sizing_inputs \<Rightarrow> side \<Rightarrow> int \<Rightarrow> decimal \<Rightarrow> decimal \<Rightarrow> string
   \<Rightarrow> exn + decimal \<times> decimal \<times> breakdown" where
  "sizing_dispatch env Fixed_Fractional (FixedFractionalInputs risk p) sd iid nlv fx ccy =
     (let pb = quantize8 (p * fx) in
      rbind (compute_fixed_fractional nlv pb risk) (\<lambda>(q, n). Inr (q, n, plain_breakdown nlv fx pb ccy)))"
| "sizing_dispatch env Risk_Per_Trade (RiskPerTradeInputs risk e s) sd iid nlv fx ccy =
     (let eb = quantize8 (e * fx); sb = quantize8 (s * fx) in
      rbind (compute_risk_per_trade nlv eb sb sd risk) (\<lambda>(q, n, d).
        Inr (q, n, (plain_breakdown nlv fx eb ccy)\<lparr>bd_per_share := Some d\<rparr>)))"
| "sizing_dispatch env Vol_Targeted (VolTargetedInputs t p v) sd iid nlv fx ccy =
     (let pb = quantize8 (p * fx) in
      rbind (case v of
               Some x \<Rightarrow> Inr (x / 100, (plain_breakdown nlv fx pb ccy)\<lparr>bd_source := ''override''\<rparr>)
             | None \<Rightarrow>
                 rbind (se_vol env iid) (\<lambda>est.
                 case est of
                   None \<Rightarrow> Inl (ValueError ''realized_vol_unavailable'')
                 | Some w \<Rightarrow> Inr (ve_vol w, (plain_breakdown nlv fx pb ccy)\<lparr>bd_atr := Some (ve_atr w),
                                 bd_realized := Some (ve_vol w), bd_source := ''realized''\<rparr>))) (\<lambda>(vol, bd).
      rbind (compute_vol_targeted nlv pb t vol) (\<lambda>(q, n). Inr (q, n, bd))))"
| "sizing_dispatch env _ _ sd iid nlv fx ccy = Inl TypeError"

definition sizing_ctx :: "uuid \<Rightarrow> string \<Rightarrow> int \<Rightarrow> side \<Rightarrow> decimal \<Rightarrow> decimal \<Rightarrow> sizing_instrument \<Rightarrow> context_rec" where
  "sizing_ctx acct broker iid sd q p ins =
     \<lparr>account_id = acct, broker_id = broker, instrument_id = Some iid, c_side = sd, qty = q, price = Some p,
      symbol = symbol_from_canonical (si_canonical ins), asset_class = Some (si_class ins), multiplier = 1,
      first_notice_day = None, position_effect = None, algo_strategy = None, display_size = None,
      account_nlv_base = None, notional = None\<rparr>"

definition sizing_compute ::
  "sizing_env \<Rightarrow> uuid \<Rightarrow> int \<Rightarrow> sizing_method \<Rightarrow> sizing_inputs \<Rightarrow> side \<Rightarrow> exn + sizing_result" where
  "sizing_compute env acct iid m inp sd =
     rbind (load_account env acct) (\<lambda>(a, nlv).
     rbind (load_instrument env iid) (\<lambda>ins.
     rbind (get_fx_rate env (strip (si_currency ins)) (sa_base a)) (\<lambda>fx.
     rbind (se_client env (sa_label a)) (\<lambda>_.
     rbind (sizing_dispatch env m inp sd iid nlv fx (sa_base a)) (\<lambda>(q, n, bd).
     rbind (evaluate (se_risk env) (sizing_ctx acct (capability_broker_id (sa_label a)) iid sd q (bd_price bd) ins) Preview) (\<lambda>v.
       Inr \<lparr>sz_qty = q, sz_notional = n, sz_method = m, sz_breakdown = bd, sz_verdict = v\<rparr>))))))"

section \<open>Endpoints\<close>

text \<open>\<open>part in msg\<close>.\<close>

fun contains :: "string \<Rightarrow> string \<Rightarrow> bool" where
  "contains p [] = (p = [])"
| "contains p (c # cs) = (take (length p) (c # cs) = p \<or> contains p cs)"

definition sizing_error :: "string \<Rightarrow> exn" where
  "sizing_error msg =
     (if msg = ''realized_vol_unavailable'' then HttpError 422 ''realized_vol_unavailable''
      else if contains ''zero_volatility'' msg then HttpError 422 ''zero_volatility''
      else if contains ''account not found'' msg then HttpError 404 ''account_not_found''
      else if contains ''instrument not found'' msg then HttpError 404 ''instrument_not_found''
      else HttpError 422 ''sizing_error'')"

record sizing_req =
  sq_account :: uuid
  sq_instrument :: "int option"
  sq_conid :: "string option"
  sq_broker :: "string option"
  sq_method :: sizing_method
  sq_side :: side
  sq_inputs :: sizing_inputs

definition valid_sizing_req :: "sizing_req \<Rightarrow> bool" where
  "valid_sizing_req q \<longleftrightarrow> valid_inputs (sq_inputs q)
     \<and> (sq_instrument q = None \<longrightarrow> sq_conid q \<noteq> None \<and> sq_broker q \<noteq> None)"

definition resolve_instrument :: "sizing_env \<Rightarrow> sizing_req \<Rightarrow> exn + int" where
  "resolve_instrument env q =
     (case (sq_instrument q, sq_conid q, sq_broker q) of
        (Some i, _, _) \<Rightarrow> Inr i
      | (None, Some c, Some b) \<Rightarrow>
          rbind (se_alias env b c) (\<lambda>r.
            case r of None \<Rightarrow> Inl (HttpError 404 ''instrument_not_found_by_conid'') | Some i \<Rightarrow> Inr i)
      | _ \<Rightarrow> Inl (RuntimeError ''AssertionError''))"

definition compute_position_size ::
  "sizing_env \<Rightarrow> decimal \<Rightarrow> string \<Rightarrow> sizing_req \<Rightarrow> (string \<times> string) buckets
   \<Rightarrow> (exn + sizing_result) \<times> (string \<times> string) buckets" where
  "compute_position_size env now user q b =
     (if \<not> valid_sizing_req q then (Inl (HttpError 422 ''validation''), b)
      else case limiter_check sizing_limiter now (user, sq_account q) b of
        (False, b') \<Rightarrow> (Inl (HttpError 429 ''rate limit''), b')
      | (True, b') \<Rightarrow>
          (rbind (resolve_instrument env q) (\<lambda>iid.
             case sizing_compute env (sq_account q) iid (sq_method q) (sq_inputs q) (sq_side q) of
               Inl (ValueError msg) \<Rightarrow> Inl (sizing_error msg)
             | r \<Rightarrow> r), b'))"

section \<open>Stored defaults\<close>

record sizing_defaults =
  sd_method :: sizing_method
  sd_fixed :: decimal
  sd_risk :: decimal
  sd_vol :: decimal

datatype default_value = DMethod string | DDec dec_text

fun method_text :: "sizing_method \<Rightarrow> string" where
  "method_text Fixed_Fractional = ''fixed_fractional''"
| "method_text Risk_Per_Trade = ''risk_per_trade''"
| "method_text Vol_Targeted = ''vol_targeted''"

definition method_of_text :: "string \<Rightarrow> exn + sizing_method" where
  "method_of_text t =
     (case List.find (\<lambda>m. method_text m = t) [Fixed_Fractional, Risk_Per_Trade, Vol_Targeted] of
        Some m \<Rightarrow> Inr m | None \<Rightarrow> Inl (ValueError ''SizingMethod''))"

definition defaults_key :: "uuid \<Rightarrow> string \<Rightarrow> string" where
  "defaults_key acct suffix = acct @ ''.'' @ suffix"

definition default_decimal :: "default_value \<Rightarrow> exn + decimal" where
  "default_decimal v = (case v of DDec t \<Rightarrow> to_decimal t | DMethod _ \<Rightarrow> Inl InvalidOperation)"

definition cfg_or :: "(string \<Rightarrow> default_value option) \<Rightarrow> string \<Rightarrow> default_value \<Rightarrow> default_value" where
  "cfg_or cfg k d = (case cfg k of Some v \<Rightarrow> v | None \<Rightarrow> d)"

definition get_sizing_defaults :: "(string \<Rightarrow> default_value option) \<Rightarrow> uuid \<Rightarrow> exn + sizing_defaults" where
  "get_sizing_defaults cfg acct =
     rbind (case cfg_or cfg (defaults_key acct ''method'') (DMethod ''fixed_fractional'') of
              DMethod t \<Rightarrow> method_of_text t | DDec _ \<Rightarrow> Inl (ValueError ''SizingMethod'')) (\<lambda>m.
     rbind (default_decimal (cfg_or cfg (defaults_key acct ''fixed_fractional.risk_pct'') (DDec (DNum 2)))) (\<lambda>ff.
     rbind (default_decimal (cfg_or cfg (defaults_key acct ''risk_per_trade.risk_pct'') (DDec (DNum 1)))) (\<lambda>rpt.
     rbind (default_decimal (cfg_or cfg (defaults_key acct ''vol_targeted.target_vol_pct'') (DDec (DNum 15)))) (\<lambda>vt.
       Inr \<lparr>sd_method = m, sd_fixed = ff, sd_risk = rpt, sd_vol = vt\<rparr>))))"

definition put_sizing_defaults ::
  "uuid \<Rightarrow> sizing_defaults \<Rightarrow> (string \<Rightarrow> default_value option) \<Rightarrow> string \<Rightarrow> default_value option" where
  "put_sizing_defaults acct d cfg =
     cfg(defaults_key acct ''method'' \<mapsto> DMethod (method_text (sd_method d)),
         defaults_key acct ''fixed_fractional.risk_pct'' \<mapsto> DDec (DNum (sd_fixed d)),
         defaults_key acct ''risk_per_trade.risk_pct'' \<mapsto> DDec (DNum (sd_risk d)),
         defaults_key acct ''vol_targeted.target_vol_pct'' \<mapsto> DDec (DNum (sd_vol d)))"

section \<open>Sizes stay within the budget\<close>

text \<open>A whole number of units that fits a budget, and no larger one does.\<close>

definition largest_fit :: "decimal \<Rightarrow> decimal \<Rightarrow> decimal \<Rightarrow> bool" where
  "largest_fit q unit budget \<longleftrightarrow> (\<exists>k. q = of_int k) \<and> q * unit \<le> budget \<and> budget < (q + 1) * unit"

lemma largest_fit_floor: "0 < unit \<Longrightarrow> largest_fit (floor_dec (budget / unit)) unit budget"
proof -
  assume u: "0 < unit"
  let ?k = "of_int \<lfloor>budget / unit\<rfloor> :: decimal"
  have "?k * unit \<le> budget" using pos_le_divide_eq [OF u, of ?k budget] of_int_floor_le by blast
  moreover have "budget / unit < ?k + 1" by linarith
  then have "budget < (?k + 1) * unit" using pos_divide_less_eq [OF u] by blast
  ultimately have "?k * unit \<le> budget" "budget < (?k + 1) * unit" .
  then show ?thesis by (auto simp: largest_fit_def floor_dec_def)
qed

lemma fixed_fractional_fit:
  "compute_fixed_fractional nlv p risk = Inr (q, n) \<Longrightarrow>
     0 < p \<and> largest_fit q p (quantize8 (nlv * risk / 100)) \<and> n = quantize8 (q * p)"
  by (auto simp: compute_fixed_fractional_def Let_def largest_fit_floor split: if_splits)

lemma risk_per_trade_fit:
  "compute_risk_per_trade nlv e s sd risk = Inr (q, n, d) \<Longrightarrow>
     d = \<bar>e - s\<bar> \<and> (if sd = Buy then s < e else e < s) \<and> largest_fit q d (quantize8 (nlv * risk / 100)) \<and> n = quantize8 (q * e)"
  by (cases sd) (auto simp: compute_risk_per_trade_def Let_def largest_fit_floor split: if_splits)

lemma vol_targeted_fit:
  "compute_vol_targeted nlv p target vol = Inr (q, n) \<Longrightarrow>
     0 < vol \<and> 0 < p \<and> largest_fit q (vol * p) (quantize8 (target / 100 * nlv)) \<and> n = quantize8 (q * p)"
  by (auto simp: compute_vol_targeted_def Let_def largest_fit_floor split: if_splits)

lemma largest_fit_near:
  assumes "largest_fit q unit (quantize8 b)"
  shows "q * unit \<le> b + 1 / 200000000 \<and> b - 1 / 200000000 < (q + 1) * unit"
  using assms quantize8_dist [of b] unfolding largest_fit_def abs_le_iff by linarith

text \<open>What a size costs at worst, in the account's currency, by method.\<close>

fun unit_cost :: "sizing_inputs \<Rightarrow> sizing_result \<Rightarrow> decimal" where
  "unit_cost (FixedFractionalInputs risk p) r = bd_price (sz_breakdown r)"
| "unit_cost (RiskPerTradeInputs risk e s) r = (case bd_per_share (sz_breakdown r) of Some d \<Rightarrow> d | None \<Rightarrow> 0)"
| "unit_cost (VolTargetedInputs t p v) r =
     (case v of Some x \<Rightarrow> x / 100 | None \<Rightarrow> (case bd_realized (sz_breakdown r) of Some y \<Rightarrow> y | None \<Rightarrow> 0)) * bd_price (sz_breakdown r)"

fun budget_pct :: "sizing_inputs \<Rightarrow> decimal" where
  "budget_pct (FixedFractionalInputs risk p) = risk"
| "budget_pct (RiskPerTradeInputs risk e s) = risk"
| "budget_pct (VolTargetedInputs t p v) = t"

lemma sizing_compute_parts:
  assumes "sizing_compute env acct iid m inp sd = Inr r"
  obtains a nlv ins fx where "load_account env acct = Inr (a, nlv)" and "load_instrument env iid = Inr ins"
    and "get_fx_rate env (strip (si_currency ins)) (sa_base a) = Inr fx"
    and "sizing_dispatch env m inp sd iid nlv fx (sa_base a) = Inr (sz_qty r, sz_notional r, sz_breakdown r)"
    and "evaluate (se_risk env) (sizing_ctx acct (capability_broker_id (sa_label a)) iid sd (sz_qty r) (bd_price (sz_breakdown r)) ins) Preview
         = Inr (sz_verdict r)"
  using assms by (auto simp: sizing_compute_def rbind_Inr_iff)

lemma dispatch_fit:
  assumes "sizing_dispatch env m inp sd iid nlv fx ccy = Inr (sz_qty r, sz_notional r, sz_breakdown r)"
  shows "largest_fit (sz_qty r) (unit_cost inp r) (quantize8 (nlv * budget_pct inp / 100))
       \<and> 0 < unit_cost inp r \<and> bd_nlv (sz_breakdown r) = nlv
       \<and> sz_notional r = quantize8 (sz_qty r * bd_price (sz_breakdown r))"
proof (cases inp)
  case (FixedFractionalInputs risk p)
  with assms show ?thesis
    by (cases m; cases r) (auto simp: rbind_Inr_iff Let_def plain_breakdown_def dest!: fixed_fractional_fit)
next
  case (RiskPerTradeInputs risk e s)
  with assms show ?thesis
    by (cases m; cases r) (auto simp: rbind_Inr_iff Let_def plain_breakdown_def dest!: risk_per_trade_fit split: if_splits)
next
  case (VolTargetedInputs t p v)
  with assms show ?thesis
    by (cases m; cases v; cases r)
      (auto simp: rbind_Inr_iff Let_def plain_breakdown_def mult.commute dest!: vol_targeted_fit split: option.splits)
qed


text \<open>When the rate between an instrument's currency and the account's is not cached, the request is
  answered, without an error or a note, as if the two currencies were worth the same.\<close>

theorem missing_rate_is_parity:
  assumes "map_of (se_instruments env) iid = Some ins" and "map_of (se_accounts env) acct = Some a"
    and "se_fx env (strip (si_currency ins)) (sa_base a) = Inr None"
  shows "sizing_compute env acct iid m inp sd = sizing_compute (env\<lparr>se_fx := (\<lambda>_ _. Inr (Some (DNum 1)))\<rparr>) acct iid m inp sd"
proof -
  let ?env = "env\<lparr>se_fx := (\<lambda>_ _. Inr (Some (DNum 1)))\<rparr>"
  have "sizing_dispatch ?env m inp sd iid nlv fx ccy = sizing_dispatch env m inp sd iid nlv fx ccy" for nlv fx ccy
    by (cases m; cases inp) (simp_all cong: option.case_cong)
  moreover have "load_account ?env acct = load_account env acct" "load_instrument ?env iid = load_instrument env iid"
    by (simp_all add: load_account_def load_instrument_def)
  moreover have "get_fx_rate ?env (strip (si_currency ins)) (sa_base a) = get_fx_rate env (strip (si_currency ins)) (sa_base a)"
    using assms(3) by (simp add: get_fx_rate_def)
  ultimately show ?thesis
    using assms(1,2)
    by (cases "sa_nlv a") (simp_all add: sizing_compute_def load_account_def load_instrument_def)
qed

text \<open>An account worth less than nothing gets a negative size, not an error.\<close>

theorem negative_value_negative_size:
  assumes "sizing_compute env acct iid m inp sd = Inr r" and "valid_inputs inp"
    and "bd_nlv (sz_breakdown r) * budget_pct inp \<le> - (1 / 1000000)"
  shows "sz_qty r < 0"
  using assms(1)
proof (rule sizing_compute_parts)
  fix a nlv ins fx
  assume d: "sizing_dispatch env m inp sd iid nlv fx (sa_base a) = Inr (sz_qty r, sz_notional r, sz_breakdown r)"
  from dispatch_fit [OF d] have f: "largest_fit (sz_qty r) (unit_cost inp r) (quantize8 (nlv * budget_pct inp / 100))"
    and n: "bd_nlv (sz_breakdown r) = nlv" and u: "0 < unit_cost inp r" by auto
  from largest_fit_near [OF f] assms(3) n have "sz_qty r * unit_cost inp r < 0" by (simp add: field_simps)
  with u show ?thesis by (simp add: mult_less_0_iff)
qed

text \<open>No \<open>ValueError\<close> leaves the endpoint: what a sizing request cannot answer is a client error of
  status 404, 422 or 429, or an exception of another kind that the database, Redis or the sidecar raised.\<close>

theorem sizing_errors_mapped:
  assumes "fst (compute_position_size env now user q b) = Inl e"
    and "\<And>x y z. se_alias env x y \<noteq> Inl (ValueError z)"
  shows "e \<noteq> ValueError msg"
proof
  assume v: "e = ValueError msg"
  have "\<And>m. sizing_error m \<noteq> ValueError msg" by (simp add: sizing_error_def)
  with v assms show False
    by (auto simp: compute_position_size_def rbind_Inl_iff resolve_instrument_def
        split: if_splits prod.splits bool.splits option.splits sum.splits exn.splits)
qed

section \<open>Stored defaults\<close>

lemma defaults_key_inj: "length a = length a' \<Longrightarrow> defaults_key a s = defaults_key a' s' \<longleftrightarrow> a = a' \<and> s = s'"
  by (simp add: defaults_key_def)

text \<open>The defaults read for an account are the ones last stored for it, and storing them leaves those of
  every other account alone.\<close>

theorem sizing_defaults_roundtrip:
  "get_sizing_defaults (put_sizing_defaults acct d cfg) acct = Inr d
   \<and> (length other = length acct \<and> other \<noteq> acct
        \<longrightarrow> get_sizing_defaults (put_sizing_defaults acct d cfg) other = get_sizing_defaults cfg other)"
proof -
  have m: "method_of_text (method_text m) = Inr m" for m
    by (cases m) (simp_all add: method_of_text_def)
  have "get_sizing_defaults (put_sizing_defaults acct d cfg) acct = Inr d"
    by (simp add: get_sizing_defaults_def put_sizing_defaults_def cfg_or_def default_decimal_def m defaults_key_inj)
  moreover have "put_sizing_defaults acct d cfg (defaults_key other s) = cfg (defaults_key other s)"
    if "length other = length acct" "other \<noteq> acct" for s
    using that by (simp add: put_sizing_defaults_def defaults_key_inj)
  then have "get_sizing_defaults (put_sizing_defaults acct d cfg) other = get_sizing_defaults cfg other"
    if "length other = length acct" "other \<noteq> acct"
    using that by (simp add: get_sizing_defaults_def cfg_or_def)
  ultimately show ?thesis by blast
qed

section \<open>A concrete request\<close>

definition demo_jp :: sizing_instrument where
  "demo_jp = \<lparr>si_currency = ''JPY'', si_canonical = ''stock:7203:JP'', si_class = ''STOCK''\<rparr>"

definition demo_sizing :: "decimal \<Rightarrow> sizing_env" where
  "demo_sizing nlv = \<lparr>se_accounts = [(''a1'', \<lparr>sa_label = ''ibkr'', sa_base = ''USD'', sa_nlv = Some nlv, sa_nlv_currency = ''USD''\<rparr>)],
     se_instruments = [(1, demo_jp)],
     se_fx = (\<lambda>_ _. Inr None), se_client = (\<lambda>_. Inr ()), se_vol = (\<lambda>_. Inr None), se_alias = (\<lambda>_ _. Inr None),
     se_risk = demo_env\<rparr>"

lemma demo_sizing_verdict: "\<exists>v. evaluate demo_env (sizing_ctx ''a1'' br 1 Buy q p demo_jp) Preview = Inr v"
proof -
  have "pre_check demo_env (sizing_ctx ''a1'' br 1 Buy q p demo_jp) = Inr None"
    by (simp add: pre_check_def sizing_ctx_def demo_jp_def)
  moreover have "check_bb_warning demo_env (sizing_ctx ''a1'' br 1 Buy q p demo_jp) = Inr None"
    by (simp add: check_bb_warning_def sizing_ctx_def run_q_def demo_env_def)
  ultimately show ?thesis by (rule evaluate_returns)
qed

lemma floor_examples: "\<lfloor>20 / 3 :: decimal\<rfloor> = 6" "\<lfloor>- (20 / 3) :: decimal\<rfloor> = - 7"
  by (simp_all add: floor_eq_iff)

lemma demo_sized:
  assumes "nlv \<in> {10000, - 10000}"
  shows "\<exists>r. sizing_compute (demo_sizing nlv) ''a1'' 1 Fixed_Fractional (FixedFractionalInputs 2 30) Buy = Inr r
     \<and> sz_qty r = (if 0 < nlv then 6 else - 7) \<and> bd_nlv (sz_breakdown r) = nlv"
proof -
  obtain v where v: "evaluate demo_env (sizing_ctx ''a1'' ''ibkr'' 1 Buy (if 0 < nlv then 6 else - 7) 30
demo_jp) Preview = Inr v"
    using demo_sizing_verdict by blast
  then show ?thesis
    using assms
    by (auto simp: sizing_compute_def load_account_def load_instrument_def demo_sizing_def get_fx_rate_def strip_def demo_jp_def
        capability_broker_id_def KNOWN_BROKERS_def compute_fixed_fractional_def Let_def floor_dec_def plain_breakdown_def
        floor_examples)
qed


theorem missing_rate_is_parity_witness:
  "sizing_compute (demo_sizing 10000) ''a1'' 1 Fixed_Fractional (FixedFractionalInputs 2 30) Buy
   = sizing_compute ((demo_sizing 10000)\<lparr>se_fx := (\<lambda>_ _. Inr (Some (DNum 1)))\<rparr>) ''a1'' 1 Fixed_Fractional (FixedFractionalInputs 2 30) Buy"
  by (rule missing_rate_is_parity [where ins = demo_jp and
      a = "\<lparr>sa_label = ''ibkr'', sa_base = ''USD'', sa_nlv = Some 10000, sa_nlv_currency = ''USD''\<rparr>"])
    (simp_all add: demo_sizing_def)

theorem negative_value_negative_size_witness:
  "\<exists>r. sizing_compute (demo_sizing (- 10000)) ''a1'' 1 Fixed_Fractional (FixedFractionalInputs 2 30) Buy = Inr r \<and> sz_qty r < 0"
proof -
  obtain r where r: "sizing_compute (demo_sizing (- 10000)) ''a1'' 1 Fixed_Fractional (FixedFractionalInputs 2 30) Buy = Inr r"
    "bd_nlv (sz_breakdown r) = - 10000" using demo_sized [of "- 10000"] by auto
  have "valid_inputs (FixedFractionalInputs 2 30)" by (simp add: fits_def)
  with negative_value_negative_size [OF r(1)] r show ?thesis by simp
qed

definition demo_size_req :: sizing_req where
  "demo_size_req = \<lparr>sq_account = ''a2'', sq_instrument = Some 1, sq_conid = None, sq_broker = None,
     sq_method = Fixed_Fractional, sq_side = Buy, sq_inputs = FixedFractionalInputs 2 30\<rparr>"

theorem sizing_errors_mapped_witness:
  "\<exists>e. fst (compute_position_size (demo_sizing 10000) 0 ''u'' demo_size_req (\<lambda>_. None)) = Inl e \<and> e \<noteq> ValueError ''x''"
proof -
  obtain e where e: "fst (compute_position_size (demo_sizing 10000) 0 ''u'' demo_size_req (\<lambda>_. None)) = Inl e"
    by (simp add: compute_position_size_def valid_sizing_req_def demo_size_req_def fits_def limiter_check_def sizing_limiter_def
        bucket_of_def fresh_part_def Let_def resolve_instrument_def sizing_compute_def load_account_def demo_sizing_def)
  have "se_alias (demo_sizing 10000) x y \<noteq> Inl (ValueError z)" for x y z by (simp add: demo_sizing_def)
  from sizing_errors_mapped [OF e this] e show ?thesis by blast
qed

theorem sizing_defaults_roundtrip_witness:
  "get_sizing_defaults (put_sizing_defaults ''a1'' \<lparr>sd_method = Vol_Targeted, sd_fixed = 3, sd_risk = 1, sd_vol = 9\<rparr> (\<lambda>_. None)) ''a2''
   = get_sizing_defaults (\<lambda>_. None) ''a2''"
  using sizing_defaults_roundtrip [where other = "''a2''" and acct = "''a1''"] by simp

end
