(* ===== verification/Backtest.thy ===== *)
theory Backtest
  imports Prelude
begin

text \<open>
  The backtester, \<open>backend/app/backtest/\<close>: the order queue and fill simulator, the context the
  strategy places orders through, the commission schedule, the replay loop and the pairing of
  fills into closed trades.

  A strategy is code outside the repository: it is a function from the bar and the simulator to
  the actions it takes. Times are integers (microseconds). Positions are an association list,
  since the closing fills come in its order. Progress messages, the database rows of a run and
  the floating-point report are left out.
\<close>

section \<open>Data\<close>

record bar =
  br_canonical :: string
  br_open :: decimal
  br_close :: decimal
  br_ts :: int

record fill =
  fl_order :: uuid
  fl_canonical :: string
  fl_side :: side
  fl_qty :: decimal
  fl_price :: decimal
  fl_at :: int

datatype otype = MKT | LMT | OtherType
datatype tif = DAY | GTC | IOC | FOK | OtherTif

record pending_order =
  po_id :: uuid
  po_canonical :: string
  po_side :: side
  po_qty :: decimal
  po_type :: otype
  po_limit :: "decimal option"
  po_tif :: tif
  po_placed :: "int option"

record simulator =
  sm_bps :: "decimal option"
  sm_atr_pct :: "decimal option"
  sm_atr14 :: "decimal option"
  sm_pending :: "pending_order list"
  sm_positions :: "(string \<times> decimal) list"

definition GTC_MAX :: int where "GTC_MAX = 90 * 86400000000"

definition new_simulator :: "decimal option \<Rightarrow> decimal option \<Rightarrow> decimal option \<Rightarrow> exn + simulator" where
  "new_simulator bps atr_pct atr14 =
     (if (bps = None) = (atr_pct = None)
      then Inl (ValueError ''Exactly one of slippage_bps or slippage_atr_pct must be set.'')
      else Inr \<lparr>sm_bps = bps, sm_atr_pct = atr_pct, sm_atr14 = atr14, sm_pending = [], sm_positions = []\<rparr>)"

text \<open>How the runner reads the two columns: a zero is falsy and becomes \<open>None\<close>.\<close>

definition runner_simulator :: "decimal option \<Rightarrow> decimal option \<Rightarrow> exn + simulator" where
  "runner_simulator bps atr_pct =
     (let nz = (\<lambda>x. if x = Some 0 then None else x) in new_simulator (nz bps) (nz atr_pct) None)"

section \<open>Simulator\<close>

definition queue_order :: "pending_order \<Rightarrow> simulator \<Rightarrow> exn + simulator" where
  "queue_order o' s =
     (if po_tif o' = OtherTif then Inl NotImplementedError
      else Inr (s\<lparr>sm_pending := sm_pending s @ [o']\<rparr>))"

definition cancel_order :: "uuid \<Rightarrow> simulator \<Rightarrow> simulator" where
  "cancel_order i s = s\<lparr>sm_pending := filter (\<lambda>o'. po_id o' \<noteq> i) (sm_pending s)\<rparr>"

definition get_position :: "string \<Rightarrow> simulator \<Rightarrow> decimal" where
  "get_position c s = (case map_of (sm_positions s) c of Some q \<Rightarrow> q | None \<Rightarrow> 0)"

definition slippage :: "simulator \<Rightarrow> decimal \<Rightarrow> side \<Rightarrow> decimal" where
  "slippage s price sd =
     (let slip = (case (sm_bps s, sm_atr_pct s, sm_atr14 s) of
            (Some b, _, _) \<Rightarrow> price * b / 10000
          | (None, Some p, Some a) \<Rightarrow> a * p
          | _ \<Rightarrow> 0)
      in if sd = Buy then slip else - slip)"

definition would_fill :: "pending_order \<Rightarrow> bar \<Rightarrow> bool" where
  "would_fill o' b =
     (case po_type o' of
        MKT \<Rightarrow> True
      | LMT \<Rightarrow> (case po_limit o' of
          None \<Rightarrow> False
        | Some l \<Rightarrow> if po_side o' = Buy then br_open b \<le> l else l \<le> br_open b)
      | OtherType \<Rightarrow> False)"

definition expired :: "pending_order \<Rightarrow> bar \<Rightarrow> bool" where
  "expired o' b \<longleftrightarrow> po_tif o' = GTC \<and> (case po_placed o' of Some t \<Rightarrow> GTC_MAX < br_ts b - t | None \<Rightarrow> False)"

definition signed :: "side \<Rightarrow> decimal \<Rightarrow> decimal" where
  "signed sd q = (if sd = Buy then q else - q)"

definition fill_at_open :: "simulator \<Rightarrow> pending_order \<Rightarrow> bar \<Rightarrow> fill" where
  "fill_at_open s o' b =
     \<lparr>fl_order = po_id o', fl_canonical = po_canonical o', fl_side = po_side o', fl_qty = po_qty o',
      fl_price = br_open b + slippage s (br_open b) (po_side o'), fl_at = br_ts b\<rparr>"

definition book_fill :: "fill \<Rightarrow> simulator \<Rightarrow> simulator" where
  "book_fill f s = s\<lparr>sm_positions :=
     AList.update (fl_canonical f) (get_position (fl_canonical f) s + signed (fl_side f) (fl_qty f)) (sm_positions s)\<rparr>"

text \<open>One pending order: the simulator with its \<open>remaining\<close> queue, and the fills so far.\<close>

definition process_one ::
  "bar \<Rightarrow> pending_order \<Rightarrow> simulator \<times> fill list \<Rightarrow> simulator \<times> fill list" where
  "process_one b o' = (\<lambda>(s, fs).
     let keep = s\<lparr>sm_pending := sm_pending s @ [o']\<rparr> in
     if po_canonical o' \<noteq> br_canonical b then (keep, fs)
     else if expired o' b then (s, fs)
     else if would_fill o' b then (book_fill (fill_at_open s o' b) s, fs @ [fill_at_open s o' b])
     else if po_tif o' = IOC \<or> po_tif o' = FOK then (s, fs)
     else (keep, fs))"

definition process_pending_orders :: "bar \<Rightarrow> simulator \<times> fill list \<Rightarrow> simulator \<times> fill list" where
  "process_pending_orders b = (\<lambda>(s, fs).
     fold (process_one b) (sm_pending s) (s\<lparr>sm_pending := []\<rparr>, fs))"

definition close_fill :: "simulator \<Rightarrow> bar \<Rightarrow> uuid \<Rightarrow> string \<times> decimal \<Rightarrow> fill" where
  "close_fill s b fresh = (\<lambda>(c, q).
     let sd = (if 0 < q then Sell else Buy) in
     \<lparr>fl_order = fresh, fl_canonical = c, fl_side = sd, fl_qty = \<bar>q\<bar>,
      fl_price = br_close b + slippage s (br_close b) sd, fl_at = br_ts b\<rparr>)"

text \<open>The fresh ids of the closing fills are the argument \<open>ids\<close>.\<close>

definition force_close_open_positions ::
  "bar \<Rightarrow> (string \<Rightarrow> uuid) \<Rightarrow> simulator \<times> fill list \<Rightarrow> simulator \<times> fill list" where
  "force_close_open_positions b ids = (\<lambda>(s, fs).
     (s\<lparr>sm_pending := [], sm_positions := map (\<lambda>(c, q). (c, 0)) (sm_positions s)\<rparr>,
      fs @ map (\<lambda>(c, q). close_fill s b (ids c) (c, q)) (filter (\<lambda>(c, q). q \<noteq> 0) (sm_positions s))))"

section \<open>Context and replay\<close>

datatype strategy_action = Place pending_order | CancelOrder uuid

text \<open>\<open>BacktestContext.place_order\<close> does not pass on the time of placement.\<close>

definition act_on :: "strategy_action \<Rightarrow> simulator \<Rightarrow> exn + simulator" where
  "act_on a s = (case a of
       Place o' \<Rightarrow> queue_order (o'\<lparr>po_placed := None\<rparr>) s
     | CancelOrder i \<Rightarrow> Inr (cancel_order i s))"

fun act_all :: "strategy_action list \<Rightarrow> simulator \<Rightarrow> exn + simulator" where
  "act_all [] s = Inr s"
| "act_all (a # as) s = rbind (act_on a s) (act_all as)"

fun replay_bars ::
  "(bar \<Rightarrow> simulator \<Rightarrow> strategy_action list) \<Rightarrow> bar list \<Rightarrow> simulator \<times> fill list \<Rightarrow> exn + (simulator \<times> fill list)" where
  "replay_bars on_bar [] st = Inr st"
| "replay_bars on_bar (b # bs) st =
     (let (s, fs) = process_pending_orders b st in
      rbind (act_all (on_bar b s) s) (\<lambda>s'. replay_bars on_bar bs (s', fs)))"

definition run_backtest ::
  "(bar \<Rightarrow> simulator \<Rightarrow> strategy_action list) \<Rightarrow> bar list \<Rightarrow> (string \<Rightarrow> uuid) \<Rightarrow> simulator \<Rightarrow> exn + (simulator \<times> fill list)" where
  "run_backtest on_bar bs ids s =
     rbind (replay_bars on_bar bs (s, [])) (\<lambda>st.
     Inr (if bs = [] then st else force_close_open_positions (last bs) ids st))"

section \<open>Commission and pairing\<close>

record schedule =
  sc_per_share :: "decimal option"
  sc_min_order :: "decimal option"
  sc_per_trade_hkd :: "decimal option"
  sc_us_equity :: "decimal option"

definition DEFAULTS :: "(string \<times> schedule) list" where
  "DEFAULTS =
     [(''ibkr'', \<lparr>sc_per_share = Some (5 / 1000), sc_min_order = Some 1, sc_per_trade_hkd = None, sc_us_equity = None\<rparr>),
      (''futu'', \<lparr>sc_per_share = None, sc_min_order = None, sc_per_trade_hkd = Some 30, sc_us_equity = None\<rparr>),
      (''schwab'', \<lparr>sc_per_share = None, sc_min_order = None, sc_per_trade_hkd = None, sc_us_equity = Some 0\<rparr>),
      (''alpaca'', \<lparr>sc_per_share = None, sc_min_order = None, sc_per_trade_hkd = None, sc_us_equity = Some 0\<rparr>)]"

text \<open>The configured schedules win over the defaults; their non-numeric fields are dropped.\<close>

definition compute_commission :: "(string \<times> schedule) list \<Rightarrow> string \<Rightarrow> decimal \<Rightarrow> exn + decimal" where
  "compute_commission cfg broker qty =
     (case map_of (cfg @ DEFAULTS) broker of
        None \<Rightarrow> Inl (ValueError ''unknown_broker'')
      | Some sc \<Rightarrow>
         (case sc_per_share sc of
            Some ps \<Rightarrow> Inr (max (qty * ps) (case sc_min_order sc of Some m \<Rightarrow> m | None \<Rightarrow> 0))
          | None \<Rightarrow> (case sc_per_trade_hkd sc of
              Some x \<Rightarrow> Inr x
            | None \<Rightarrow> (case sc_us_equity sc of Some x \<Rightarrow> Inr x | None \<Rightarrow> Inr 0))))"

record closed_trade =
  ct_canonical :: string
  ct_side :: side
  ct_qty :: decimal
  ct_entry :: decimal
  ct_exit :: decimal
  ct_commission :: decimal
  ct_pnl :: decimal
  ct_forced :: bool
  ct_opened :: int
  ct_closed :: int

definition close_trade :: "(decimal \<Rightarrow> decimal) \<Rightarrow> uuid set \<Rightarrow> fill \<Rightarrow> fill \<Rightarrow> closed_trade" where
  "close_trade comm forced entry f =
     (let gross = (if fl_side f = Buy then (fl_price entry - fl_price f) * fl_qty f
                   else (fl_price f - fl_price entry) * fl_qty f);
          total = comm (fl_qty entry) + comm (fl_qty f)
      in \<lparr>ct_canonical = fl_canonical f, ct_side = (if fl_side f = Buy then Sell else Buy), ct_qty = fl_qty f,
          ct_entry = fl_price entry, ct_exit = fl_price f, ct_commission = total, ct_pnl = gross - total,
          ct_forced = (fl_order f \<in> forced), ct_opened = fl_at entry, ct_closed = fl_at f\<rparr>)"

type_synonym pairing = "fill list \<times> fill list \<times> closed_trade list"

fun pair_step :: "(decimal \<Rightarrow> decimal) \<Rightarrow> uuid set \<Rightarrow> fill \<Rightarrow> pairing \<Rightarrow> pairing" where
  "pair_step comm forced f (longs, shorts, trades) =
     (if fl_side f = Buy then
        (case shorts of
           e # shorts' \<Rightarrow> (longs, shorts', trades @ [close_trade comm forced e f])
         | [] \<Rightarrow> (longs @ [f], shorts, trades))
      else
        (case longs of
           e # longs' \<Rightarrow> (longs', shorts, trades @ [close_trade comm forced e f])
         | [] \<Rightarrow> (longs, shorts @ [f], trades)))"

definition pair_fills :: "(decimal \<Rightarrow> decimal) \<Rightarrow> uuid set \<Rightarrow> fill list \<Rightarrow> closed_trade list" where
  "pair_fills comm forced fs = snd (snd (fold (pair_step comm forced) fs ([], [], [])))"

text \<open>An unknown broker raises at the first trade that closes.\<close>

definition runner_trades :: "(string \<times> schedule) list \<Rightarrow> string \<Rightarrow> uuid set \<Rightarrow> fill list \<Rightarrow> exn + closed_trade list" where
  "runner_trades cfg broker forced fs =
     (let comm = (\<lambda>q. case compute_commission cfg broker q of Inr c \<Rightarrow> c | Inl _ \<Rightarrow> 0);
          trades = pair_fills comm forced fs
      in if map_of (cfg @ DEFAULTS) broker = None \<and> trades \<noteq> [] then Inl (ValueError ''unknown_broker'') else Inr trades)"

section \<open>Positions are the sum of the fills\<close>

definition net :: "string \<Rightarrow> fill list \<Rightarrow> decimal" where
  "net c fs = sum_list (map (\<lambda>f. signed (fl_side f) (fl_qty f)) (filter (\<lambda>f. fl_canonical f = c) fs))"

lemma net_append [simp]: "net c (fs @ gs) = net c fs + net c gs"
  by (simp add: net_def)

definition booked :: "simulator \<times> fill list \<Rightarrow> bool" where
  "booked = (\<lambda>(s, fs). distinct (map fst (sm_positions s)) \<and> (\<forall>c. get_position c s = net c fs))"

lemma get_position_frame [simp]: "get_position c (s\<lparr>sm_pending := q\<rparr>) = get_position c s"
  by (simp add: get_position_def)

lemma get_position_book: "get_position c (book_fill f s) =
    get_position c s + (if c = fl_canonical f then signed (fl_side f) (fl_qty f) else 0)"
  by (auto simp: get_position_def book_fill_def)

lemma booked_frame [simp]: "booked (s\<lparr>sm_pending := q\<rparr>, fs) = booked (s, fs)"
  by (simp add: booked_def)

lemma booked_fill: "booked (s, fs) \<Longrightarrow> booked (book_fill f s, fs @ [f])"
  by (auto simp: booked_def get_position_book net_def distinct_update) (simp_all add: book_fill_def distinct_update)

lemma process_one_booked: "booked st \<Longrightarrow> booked (process_one b o' st)"
  by (cases st) (auto simp: process_one_def Let_def booked_fill)

interpretation order_queue: invariant_machine "process_one b" booked for b
  by unfold_locales (rule process_one_booked)

lemma process_pending_booked: "booked st \<Longrightarrow> booked (process_pending_orders b st)"
  by (cases st) (simp add: process_pending_orders_def order_queue.run_inv)

lemma act_all_booked: "\<lbrakk>act_all acts s = Inr s'; booked (s, fs)\<rbrakk> \<Longrightarrow> booked (s', fs)"
proof (induction acts arbitrary: s)
  case Nil
  then show ?case by simp
next
  case (Cons a acts)
  then obtain s1 where a: "act_on a s = Inr s1" "act_all acts s1 = Inr s'" by (auto simp: rbind_Inr_iff)
  have "booked (s1, fs)"
    using a(1) Cons.prems(2)
    by (auto simp: act_on_def queue_order_def cancel_order_def split: strategy_action.splits if_splits)
  with Cons.IH a(2) show ?case by blast
qed

lemma replay_booked: "\<lbrakk>replay_bars on_bar bs st = Inr st'; booked st\<rbrakk> \<Longrightarrow> booked st'"
proof (induction bs arbitrary: st)
  case Nil
  then show ?case by simp
next
  case (Cons b bs)
  obtain s fs where p: "process_pending_orders b st = (s, fs)" by (cases "process_pending_orders b st")
  with Cons.prems(1) obtain s1 where a: "act_all (on_bar b s) s = Inr s1" "replay_bars on_bar bs (s1, fs) = Inr st'"
    by (auto simp: rbind_Inr_iff)
  have "booked (s, fs)" using process_pending_booked [OF Cons.prems(2), of b] p by simp
  with act_all_booked [OF a(1)] Cons.IH [OF a(2)] show ?case by blast
qed

lemma net_close_fills:
  assumes "distinct (map fst ps)"
  shows "net c (map (\<lambda>(x, q). close_fill s b (ids x) (x, q)) (filter (\<lambda>(x, q). q \<noteq> 0) ps))
       = - (case map_of ps c of Some q \<Rightarrow> q | None \<Rightarrow> 0)"
  using assms
proof (induction ps)
  case Nil
  then show ?case by (simp add: net_def)
next
  case (Cons p ps)
  obtain x q where p: "p = (x, q)" by (cases p)
  have "x = c \<Longrightarrow> map_of ps c = None" using Cons.prems p by (auto simp: map_of_eq_None_iff)
  with Cons p show ?case
    by (auto simp: net_def close_fill_def signed_def Let_def)
qed

section \<open>Properties\<close>

text \<open>C18: a backtest over at least one bar, starting flat, ends flat: every position of the simulator is zero and, for
  every instrument, the signed quantities of all the fills it reports sum to zero.\<close>

theorem backtest_ends_flat:
  assumes "run_backtest on_bar bs ids s = Inr (s', fs)" and "bs \<noteq> []" and "sm_positions s = []"
  shows "get_position c s' = 0 \<and> net c fs = 0"
proof -
  from assms(1,2) obtain s1 fs1 where r: "replay_bars on_bar bs (s, []) = Inr (s1, fs1)"
      and c: "force_close_open_positions (last bs) ids (s1, fs1) = (s', fs)"
    by (auto simp: run_backtest_def rbind_Inr_iff)
  have "booked (s, [])" using assms(3) by (simp add: booked_def get_position_def net_def)
  from replay_booked [OF r this] have d: "distinct (map fst (sm_positions s1))" and n: "net c fs1 = get_position c s1"
    by (auto simp: booked_def)
  have "net c fs = net c fs1 - (case map_of (sm_positions s1) c of Some q \<Rightarrow> q | None \<Rightarrow> 0)"
    using c net_close_fills [OF d, of c s1 "last bs" ids] by (auto simp: force_close_open_positions_def)
  moreover have "get_position c s' = 0"
  proof -
    have "map_of (map (\<lambda>(c, q). (c, 0 :: decimal)) ps) c = map_option (\<lambda>_. 0) (map_of ps c)" for ps :: "(string \<times> decimal) list"
      by (induction ps) auto
    with c show ?thesis by (auto simp: force_close_open_positions_def get_position_def split: option.splits)
  qed
  ultimately show ?thesis using n by (simp add: get_position_def)
qed

definition demo_bar :: "decimal \<Rightarrow> int \<Rightarrow> bar" where
  "demo_bar p t = \<lparr>br_canonical = ''x'', br_open = p, br_close = p, br_ts = t\<rparr>"

definition demo_po :: pending_order where
  "demo_po = \<lparr>po_id = ''o'', po_canonical = ''x'', po_side = Buy, po_qty = 3, po_type = LMT, po_limit = Some 10,
     po_tif = GTC, po_placed = Some 0\<rparr>"

definition demo_sim :: simulator where
  "demo_sim = \<lparr>sm_bps = Some 100, sm_atr_pct = None, sm_atr14 = None, sm_pending = [], sm_positions = []\<rparr>"

theorem backtest_ends_flat_witness:
  "\<exists>s' fs. run_backtest (\<lambda>b s. if br_ts b = 0 then [Place demo_po] else []) [demo_bar 10 0, demo_bar 9 1] (\<lambda>c. c) demo_sim
     = Inr (s', fs) \<and> length fs = 2 \<and> net ''x'' fs = 0"
proof -
  have "\<exists>s' fs. run_backtest (\<lambda>b s. if br_ts b = 0 then [Place demo_po] else []) [demo_bar 10 0, demo_bar 9 1] (\<lambda>c. c) demo_sim
     = Inr (s', fs) \<and> length fs = 2"
    by (simp add: run_backtest_def demo_bar_def demo_po_def demo_sim_def process_pending_orders_def act_on_def
        queue_order_def process_one_def expired_def would_fill_def fill_at_open_def book_fill_def
        force_close_open_positions_def signed_def get_position_def Let_def)
  then obtain s' fs where r: "run_backtest (\<lambda>b s. if br_ts b = 0 then [Place demo_po] else [])
      [demo_bar 10 0, demo_bar 9 1] (\<lambda>c. c) demo_sim = Inr (s', fs)" "length fs = 2" by blast
  from backtest_ends_flat [OF r(1)] r show ?thesis by (auto simp: demo_sim_def)
qed

text \<open>Slippage is added after the limit test, so a limit buy that fills under a basis-point slippage is filled
  above its limit whenever the bar opens at the limit.\<close>

theorem limit_buy_fills_above_limit:
  assumes "sm_bps s = Some bps" and "0 < bps" and "po_type o' = LMT" and "po_side o' = Buy"
    and "po_limit o' = Some (br_open b)" and "0 < br_open b"
  shows "would_fill o' b \<and> br_open b < fl_price (fill_at_open s o' b)"
  using assms by (simp add: would_fill_def fill_at_open_def slippage_def)

theorem limit_buy_fills_above_limit_witness:
  "would_fill demo_po (demo_bar 10 0) \<and> 10 < fl_price (fill_at_open demo_sim demo_po (demo_bar 10 0))"
  using limit_buy_fills_above_limit [of demo_sim 100 demo_po "demo_bar 10 0"]
  by (simp add: demo_sim_def demo_po_def demo_bar_def)

definition cash :: "fill \<Rightarrow> decimal" where
  "cash f = - signed (fl_side f) (fl_qty f) * fl_price f"

definition cash_sum :: "fill list \<Rightarrow> decimal" where
  "cash_sum fs = sum_list (map cash fs)"

definition gross_pnl :: "closed_trade list \<Rightarrow> decimal" where
  "gross_pnl ts = sum_list (map (\<lambda>t. ct_pnl t + ct_commission t) ts)"

definition pairs_ok :: "decimal \<Rightarrow> fill list \<Rightarrow> pairing \<Rightarrow> bool" where
  "pairs_ok q fs = (\<lambda>(longs, shorts, trades).
     (\<forall>f \<in> set longs. fl_side f = Buy \<and> fl_qty f = q) \<and> (\<forall>f \<in> set shorts. fl_side f = Sell \<and> fl_qty f = q)
     \<and> cash_sum fs = gross_pnl trades + cash_sum longs + cash_sum shorts)"

lemma pair_step_ok:
  assumes "pairs_ok q fs st" and "fl_qty f = q"
  shows "pairs_ok q (fs @ [f]) (pair_step comm forced f st)"
  using assms by (cases st; cases "fl_side f")
    (auto simp: pairs_ok_def cash_sum_def gross_pnl_def cash_def signed_def close_trade_def Let_def algebra_simps
      split: list.splits)

lemma pair_fold_ok:
  "\<lbrakk>pairs_ok q fs st; \<forall>f \<in> set gs. fl_qty f = q\<rbrakk> \<Longrightarrow> pairs_ok q (fs @ gs) (fold (pair_step comm forced) gs st)"
proof (induction gs arbitrary: fs st)
  case Nil
  then show ?case by simp
next
  case (Cons g gs)
  from pair_step_ok [OF Cons.prems(1), of g comm forced] Cons.prems(2)
  have "pairs_ok q (fs @ [g]) (pair_step comm forced g st)" by simp
  from Cons.IH [OF this] Cons.prems(2) show ?case by simp
qed

text \<open>When all fills have one size and every one of them is paired, the profit of the closed trades before
  commission is exactly the cash that the fills moved.\<close>

theorem paired_pnl_is_cash:
  assumes "\<forall>f \<in> set fs. fl_qty f = q" and "fold (pair_step comm forced) fs ([], [], []) = ([], [], trades)"
  shows "gross_pnl (pair_fills comm forced fs) = cash_sum fs"
proof -
  have "pairs_ok q [] ([], [], [])" by (simp add: pairs_ok_def cash_sum_def gross_pnl_def)
  from pair_fold_ok [OF this assms(1), of comm forced] assms(2) show ?thesis
    by (simp add: pairs_ok_def pair_fills_def cash_sum_def)
qed

definition demo_fl :: "side \<Rightarrow> decimal \<Rightarrow> fill" where
  "demo_fl sd p = \<lparr>fl_order = ''o'', fl_canonical = ''x'', fl_side = sd, fl_qty = 3, fl_price = p, fl_at = 0\<rparr>"

theorem paired_pnl_is_cash_witness:
  "gross_pnl (pair_fills (\<lambda>_. 1) {} [demo_fl Buy 10, demo_fl Sell 12]) = 6"
  using paired_pnl_is_cash [of "[demo_fl Buy 10, demo_fl Sell 12]" 3 "\<lambda>_. 1" "{}"]
  by (simp add: demo_fl_def cash_sum_def cash_def signed_def)

text \<open>An order placed through the backtest context never expires: its time of placement is not recorded, so a
  good-till-cancelled order that does not fill is still pending after any number of bars.\<close>

theorem context_orders_never_expire:
  assumes "act_on (Place o') s = Inr s'"
  shows "\<exists>p \<in> set (sm_pending s'). po_id p = po_id o' \<and> (\<forall>b. \<not> expired p b)"
  using assms by (auto simp: act_on_def queue_order_def expired_def split: if_splits)

theorem context_orders_never_expire_witness:
  "\<exists>s'. act_on (Place demo_po) demo_sim = Inr s' \<and> expired demo_po (demo_bar 1 (GTC_MAX + 1))
     \<and> list_ex (\<lambda>p. po_id p = ''o'' \<and> \<not> expired p (demo_bar 1 (GTC_MAX + 1))) (sm_pending s')"
proof -
  obtain s' where s': "act_on (Place demo_po) demo_sim = Inr s'"
    by (simp add: act_on_def queue_order_def demo_po_def)
  from context_orders_never_expire [OF s'] s' show ?thesis
    by (auto simp: list_ex_iff demo_po_def expired_def demo_bar_def)
qed

end
