(* ===== verification/Spec2Isabelle.thy ===== *)
theory Spec2Isabelle
  imports Risk_Guarantees Order_Lifecycle Orders_Gaps Orders_Changes Cgt_Pool Oco Canonical_Ids Quote_Registry Alert_Engine Exposure_Gate Bot_Orders Bot_Supervisor Bar_Engine Combo_Orders Orders_Bracket Ibkr_Gateway Submit_Watchdog Position_Sizing Backtest
begin

text \<open>
  \<^bold>\<open>A verification development for the trading dashboard\<close>

  The repository is a multi-broker trading system: a Python backend (\<open>src/backend/app\<close>) between a
  web interface and broker sidecars, with PostgreSQL and Redis beside it. An order is checked by
  the risk gate, counted in Redis while it is in flight and sent to a broker; the broker's events
  come back on a stream, update the tables and feed the tax engine; quotes are shared out
  through a registry; strategies are replayed by a backtester.

  \<^bold>\<open>Theories\<close>

  \<^item> \<open>Prelude\<close>: exact decimals, exceptions (\<open>exn\<close>), results \<open>exn + 'a\<close>, actions on a state, strings, dates
    of text, and the locales of runs (\<open>invariant_machine\<close>, \<open>monotone_machine\<close>,
    \<open>absorbing_machine\<close>) that each component instantiates with its own step function.
  \<^item> \<open>Inflight_Counters\<close> (\<open>services/risk_inflight_counters.py\<close>): \<open>decrement_pdt\<close> to
    \<open>reconcile_bp_committed\<close> and their Lua scripts over a Redis that is a parameter with
    documented laws (\<open>redis_service\<close>). Both counters meet \<open>token_counter\<close> and refine a book of open
    tokens and a total.
  \<^item> \<open>Market_Sessions\<close> (\<open>services/market_calendar.py\<close>): the FX week and crypto maintenance windows.
  \<^item> \<open>Risk_Limits\<close>, \<open>Risk_Gate\<close>, \<open>Risk_Assets\<close>, \<open>Risk_Evaluate\<close> (\<open>services/risk_service.py\<close>): the data
    the gate reads, one function per check, \<open>evaluate\<close> and \<open>evaluate_combo\<close>. What the gate
    asks of the outside is a field of \<open>risk_env\<close>, with a fault oracle for its statements.
    \<open>Risk_Guarantees\<close> holds the properties of the gate.
  \<^item> \<open>Combo_Fills\<close> (\<open>services/combos/combo_fill_listener.py\<close>), \<open>Order_Events\<close>
    (\<open>services/order_event_consumer.py\<close>): rows, constraints and statements of one event's
    transaction, the failure breaker, the resync. \<open>Order_Lifecycle\<close>: what any sequence of events
    keeps, through \<open>preserves\<close>, one rule per statement.
  \<^item> \<open>Orders_Data\<close>, \<open>Orders_Place\<close>, \<open>Orders_Modify\<close> (\<open>services/orders_service.py\<close>, \<open>schemas/orders.py\<close>,
    \<open>services/orders_policy.py\<close>): requests and their validation, trade policy, the preview nonce,
    the statements on the orders table, \<open>preview_order\<close>, \<open>place_order\<close>, \<open>modify_order\<close>, \<open>cancel_order\<close>. The
    state \<open>world\<close> holds the tables of \<open>Order_Events\<close>, the counters' Redis, the nonces and what the
    broker was told; account rows, contracts, prices and the broker's answers are the
    environment. \<open>Orders_Guarantees\<close>, \<open>Orders_Gaps\<close> and \<open>Orders_Changes\<close> hold the properties.
  \<^item> \<open>Oco\<close> (\<open>services/oco_orchestrator.py\<close>): linked orders and the election of the instance that
    serves them.
  \<^item> \<open>Canonical_Ids\<close>, \<open>Quote_Registry\<close> (\<open>services/quotes/base.py\<close>, \<open>registry.py\<close>): instrument ids and
    the reference-counted subscriptions.
  \<^item> \<open>Cgt_Pool\<close> (\<open>services/cgt/\<close>): share matching, pools, shorts, derivatives, recomputation.
  \<^item> \<open>Alert_Predicates\<close>, \<open>Alert_Engine\<close> (\<open>services/alerts/\<close>): the predicate language, its schema and evaluation over JSON
    values; rules, the inverted index, debounce, the queue, one evaluation.
  \<^item> \<open>Exposure_Gate\<close> (\<open>services/orchestrator/\<close>): exposure per limit, its check and its update on a fill.
  \<^item> \<open>Bot_Advisor\<close> (\<open>services/advisor/\<close>): the review of an order by a language model whose answer is a parameter.
    \<open>Bot_Orders\<close> (\<open>bot/context.py\<close>, \<open>risk_caps.py\<close>, \<open>fill_router.py\<close>): the order of a bot through its stations into
    \<open>place_order\<close>, and the routing of fills back.
    \<open>Bot_Supervisor\<close> (\<open>bot/supervisor.py\<close>, \<open>api/bots.py\<close>): child processes, commands, heartbeats, respawns as an inductive
    interleaving \<open>life\<close>.
  \<^item> \<open>Bar_Engine\<close> (\<open>src/bar_aggregator/app\<close>): one-second buckets, write-ahead log, flush, minute bars and replay after a crash,
    as an inductive \<open>feed\<close> of messages, flushes, crashes and restarts.
  \<^item> \<open>Combo_Envelope\<close>, \<open>Combo_Orders\<close> (\<open>services/combos/\<close>, \<open>api/combos.py\<close>): the legs of an option combo, its worst loss and best
    profit against the payoff at expiry; preview, confirmation, cancellation and the paged list of combos.
  \<^item> \<open>Orders_Bracket\<close> (\<open>services/orders_service.py\<close>, \<open>place_bracket\<close>): an entry with its stop and target, on the \<open>world\<close> of the
    order service.
  \<^item> \<open>Submit_Watchdog\<close> (\<open>services/pending_submit_watchdog.py\<close>, \<open>pending_fills_sweeper.py\<close>): orders left pending, recovered
    through \<open>process_event\<close> or rejected; fills that waited for their order.
  \<^item> \<open>Rate_Limiter\<close> (\<open>services/common/rate_limiter.py\<close> and its clients): the sliding window, and the elections to exercise
    an option. \<open>Position_Sizing\<close> (\<open>services/position_sizing_*.py\<close>, \<open>volatility_service.py\<close>, \<open>api/sizing.py\<close>): three methods, volatility, the service.
  \<^item> \<open>Ibkr_Builder\<close>, \<open>Ibkr_Handlers\<close> (\<open>src/sidecar_ibkr/order_builder.py\<close>, \<open>handlers.py\<close>): the order given to the vendor's library and the
    handlers that place, preview, modify and cancel it. The library is the parameter \<open>ib_api\<close>; the locale \<open>ib_session\<close> holds what
    the handlers rely on and is interpreted on a session in memory. \<open>Ibkr_Gateway\<close> (\<open>services/brokers.py\<close>): the client of
    the sidecars, and the order service and the sidecar together.
  \<^item> \<open>Backtest\<close> (\<open>backtest/\<close>): simulator, replay, commissions, pairing of fills.

  \<^bold>\<open>What is shown\<close>

  Gate: the precedence of the verdict, which facts force a block (kill switch, raising checks,
  slow previews, delivery months, naked shorts), what a passing order implies (buying power, daily
  loss), the precedence of limits, and where a check cannot fire. Counters: refinement of the book,
  conservation under any interleaving, and, together with the gate, the cold-cache leak below.
  Placement: an order reaches the broker only past every check, against a preview of the same
  payload, once per client id, and leaves the counters settled; a refused modification restores
  the row, a cancel is forwarded once; and the gaps between the checks and what is
  enforced. Events: terminal statuses are final, nothing goes backwards, executions are unique, echoes and
  replaced events change nothing, failures roll back. Links: one cancel per link; the
  election's two failures. Registry: counts are exact and capped, the per-source count is not.
  Tax: proceeds are conserved, pools never go negative, and where cost is lost or doubled.
  Backtest: positions are the sum of fills, a run ends flat, paired profit is cash.
  Alerts: a predicate that the schema accepts evaluates or fails with a known error, the index refines the rules, an
  active rule is requested, fires are spaced. Exposure: the verdict is the worst of the limits. Bots: an
  order passes every station, a veto has its reason; where caps and
  supervision do not take hold. Bars: a bucket is the summary of its ticks, recovery after a crash is complete for ordered
  ticks, and which inputs stop the storage. Combos: the envelope of a vertical is the extreme of its payoff,
  a confirmation spends its preview, the pages list every combo once. Brackets: checked, sent once, inert at the broker when a leg fails
  and of the requested shape when placed. Pending orders: what the watchdog writes off, executions survive the
  sweep. Limiter: no window exceeds its limit. Sizing: a sized trade stays within its budget. Sidecar: the order
  built reads back as the request, one order per client id in any run of handlers, and what reaches the
  broker of previews, modifications and simulated combos.

  \<^bold>\<open>Bounds\<close>

  Every definition is total and needs no fuel: loops over fetched rows and over event
  sequences are structural recursions or folds; the one polling loop, \<open>await_stopped\<close>, ends by the half seconds left
  before its deadline. Decimals are exact rationals: the 28-digit
  context rounding of \<open>Decimal\<close> and the storage rounding of \<open>NUMERIC\<close> columns are left out.
  Text is ASCII.

  \<^bold>\<open>Not modelled\<close>

  Asynchronous scheduling within a component (each operation runs under its lock or in its
  transaction), loss of the database, metrics, logs, HTTP, the vendor SDKs, the language models, the frontend. Of the IBKR sidecar the
  order handlers are modelled, not its account, position, quote and history handlers, which copy what
  the library reports; the other sidecars are adapters of the same kind over other SDKs. The quote router and the bar service are
  left out: they order the tasks of one process, and their tables are those of the bar aggregator.
\<close>

section \<open>Counters and gate together\<close>

text \<open>The first day trade of an account whose counter is not cached drives the counter to minus one without a
  time to live, and from then on every order under a day-trade limit is blocked as exhausted, however many day
  trades the broker reports.\<close>

theorem cold_counter_blocks_account:
  assumes "redis_service R" and "srv_get R s (PdtKey (account_id ctx)) = None"
    and s': "s' = exec (decrement_pdt R (account_id ctx) None t) s"
    and "e_pdt env = fst (inflight_pdt_remaining R (account_id ctx) \<lparr>srv = s', faults = []\<rparr>)"
    and "resolve_limit env (account_id ctx) (broker_id ctx) ''pdt_warn_remaining'' = Inr (Some cap)"
    and v: "evaluate env ctx mode = Inr v"
  shows "final_verdict v = Block \<and> srv_ttl R s' (PdtKey (account_id ctx)) = None"
proof -
  note cold = redis_service.cold_decrement [OF assms(1,2), of t]
  have "e_pdt env = Inr (Some (- 1))"
    using assms(4) cold(2) by (simp add: s' inflight_pdt_remaining_def run_simps)
  then have "is_blocking (check_pdt env ctx)"
    using assms(5) by (simp add: check_pdt_def)
  then show ?thesis
    using evaluate_blocks_if [OF v results_member(3)] cold(3) s' by simp
qed

definition pdt_env :: risk_env where
  "pdt_env = demo_env\<lparr>e_limits := [demo_limit ''global'' None ''pdt_warn_remaining'' 1],
     e_pdt := fst (inflight_pdt_remaining mem_srv ''a1'' \<lparr>srv = exec (decrement_pdt mem_srv ''a1'' None ''t'') (\<lambda>_. None), faults = []\<rparr>)\<rparr>"

theorem cold_counter_blocks_account_witness:
  "\<exists>v. evaluate pdt_env demo_ctx Place_Order = Inr v \<and> final_verdict v = Block"
proof -
  have c: "resolve_limit pdt_env (account_id demo_ctx) (broker_id demo_ctx) ''pdt_warn_remaining''
      = Inr (Some (demo_limit ''global'' None ''pdt_warn_remaining'' 1))"
    by (simp add: pdt_env_def gate_defs demo_defs)
  have p: "e_pdt pdt_env = Inr (Some (- 1))"
    by (simp add: pdt_env_def inflight_pdt_remaining_def decrement_pdt_def exec_def run_simps mem_srv_def Let_def)
  have "pre_check pdt_env demo_ctx = Inr None" "check_bb_warning pdt_env demo_ctx = Inr None"
    by (simp_all add: pre_check_def check_bb_warning_def demo_ctx_def)
  from evaluate_returns [OF this] obtain v where v: "evaluate pdt_env demo_ctx Place_Order = Inr v" by blast
  have "final_verdict v = Block \<and> srv_ttl mem_srv (exec (decrement_pdt mem_srv ''a1'' None ''t'') (\<lambda>_. None)) (PdtKey (account_id demo_ctx)) = None"
    by (rule cold_counter_blocks_account [OF mem_redis _ _ _ c v, where s = "\<lambda>_. None" and t = "''t''"])
      (simp_all add: mem_srv_def pdt_env_def demo_ctx_def)
  with v show ?thesis by blast
qed

end
